(* ===== verification/Prelude.thy ===== *)
theory Prelude
  imports Main "HOL-Library.Word"
begin

text \<open>
  What every component of the proxy model shares: the names of Go's sized integers, the
  shapes Go code uses to report errors (\<open>error\<close> results, guard sequences that return at the
  first failing check, loops that return the first error) with the lemmas that characterise
  success, and list lemmas about keyed lists. Lemmas that rewrite success of a check are
  collected in \<open>err_simps\<close>.
\<close>

named_theorems err_simps \<open>success of guard sequences and checking loops\<close>

section \<open>Integers\<close>

text \<open>
  Go's sized integers are words. \<open>int32\<close>, \<open>int64\<close> and \<open>int\<close> (64 bits on the
  platforms the proxy is built for) are read as two's complement with \<open>sint\<close>,
  \<open>uint32\<close> and \<open>uint64\<close> with \<open>unat\<close>.
\<close>

type_synonym int32 = "32 word"
type_synonym int64 = "64 word"
type_synonym goint = "64 word"
type_synonym uint32 = "32 word"
type_synonym uint64 = "64 word"

section \<open>Errors\<close>

text \<open>
  A Go \<open>error\<close> is its message. A function that returns only an \<open>error\<close> returns
  \<^typ>\<open>string option\<close> (\<open>None\<close> is \<open>nil\<close>); one that returns a value and an error
  returns \<open>string + 'a\<close>.
\<close>

type_synonym go_error = string

text \<open>A sequence of \<open>if cond { return err }\<close> statements.\<close>

fun first_err :: "(bool \<times> go_error) list \<Rightarrow> go_error option" where
  "first_err [] = None"
| "first_err ((bad, msg) # rest) = (if bad then Some msg else first_err rest)"

text \<open>\<open>if err := a; err != nil { return err }\<close> followed by \<open>b\<close>.\<close>

definition seq_err :: "go_error option \<Rightarrow> go_error option \<Rightarrow> go_error option" where
  "seq_err a b = (case a of None \<Rightarrow> b | Some e \<Rightarrow> Some e)"

text \<open>A \<open>for\<close> loop whose body returns the first error it finds.\<close>

fun check_all :: "('a \<Rightarrow> go_error option) \<Rightarrow> 'a list \<Rightarrow> go_error option" where
  "check_all f [] = None"
| "check_all f (x # xs) = seq_err (f x) (check_all f xs)"

lemma first_err_None [err_simps]: "first_err gs = None \<longleftrightarrow> (\<forall>g \<in> set gs. \<not> fst g)"
  by (induction gs rule: first_err.induct) auto

lemma seq_err_None [err_simps]: "seq_err a b = None \<longleftrightarrow> a = None \<and> b = None"
  by (cases a) (simp_all add: seq_err_def)

lemma check_all_None [err_simps]: "check_all f xs = None \<longleftrightarrow> (\<forall>x \<in> set xs. f x = None)"
  by (induction xs) (simp_all add: seq_err_None)

lemma seq_err_simps [simp]:
  "seq_err None b = b"
  "seq_err (Some e) b = Some e"
  by (simp_all add: seq_err_def)

lemma check_all_Some:
  "check_all f xs = Some e \<Longrightarrow> \<exists>x \<in> set xs. f x = Some e"
  by (induction xs) (auto simp: seq_err_def split: option.splits)

section \<open>Lists\<close>

text \<open>The elements a slice of pointers points to: nil entries are left out.\<close>

fun non_nil :: "'a option list \<Rightarrow> 'a list" where
  "non_nil [] = []"
| "non_nil (None # xs) = non_nil xs"
| "non_nil (Some x # xs) = x # non_nil xs"

lemma in_set_non_nil [simp]: "x \<in> set (non_nil xs) \<longleftrightarrow> Some x \<in> set xs"
  by (induction xs rule: non_nil.induct) auto

lemma non_nil_append [simp]: "non_nil (xs @ ys) = non_nil xs @ non_nil ys"
  by (induction xs rule: non_nil.induct) auto

text \<open>The list without its first element that satisfies a test, if there is one.\<close>

fun remove_first :: "('a \<Rightarrow> bool) \<Rightarrow> 'a list \<Rightarrow> 'a list option" where
  "remove_first P [] = None"
| "remove_first P (x # xs) =
     (if P x then Some xs else map_option ((#) x) (remove_first P xs))"

text \<open>The list with its first element that satisfies a test replaced, if there is one.\<close>

fun update_first :: "('a \<Rightarrow> bool) \<Rightarrow> ('a \<Rightarrow> 'a) \<Rightarrow> 'a list \<Rightarrow> 'a list option" where
  "update_first P f [] = None"
| "update_first P f (x # xs) =
     (if P x then Some (f x # xs) else map_option ((#) x) (update_first P f xs))"

lemma remove_first_None [simp]: "remove_first P xs = None \<longleftrightarrow> (\<forall>x \<in> set xs. \<not> P x)"
  by (induction xs) auto

lemma update_first_None [simp]: "update_first P f xs = None \<longleftrightarrow> (\<forall>x \<in> set xs. \<not> P x)"
  by (induction xs) auto

lemma remove_first_SomeD:
  "remove_first P xs = Some ys \<Longrightarrow>
   \<exists>us x vs. xs = us @ x # vs \<and> ys = us @ vs \<and> P x \<and> (\<forall>u \<in> set us. \<not> P u)"
proof (induction xs arbitrary: ys)
  case Nil
  then show ?case by simp
next
  case (Cons a xs)
  show ?case
  proof (cases "P a")
    case True
    with Cons.prems show ?thesis by (intro exI [of _ "[]"]) auto
  next
    case False
    with Cons.prems obtain zs where zs: "remove_first P xs = Some zs" "ys = a # zs" by auto
    from Cons.IH [OF zs(1)] obtain us x vs where
      "xs = us @ x # vs" "zs = us @ vs" "P x" "\<forall>u \<in> set us. \<not> P u" by blast
    with False zs(2) show ?thesis by (intro exI [of _ "a # us"]) auto
  qed
qed

lemma update_first_SomeD:
  "update_first P f xs = Some ys \<Longrightarrow>
   \<exists>us x vs. xs = us @ x # vs \<and> ys = us @ f x # vs \<and> P x \<and> (\<forall>u \<in> set us. \<not> P u)"
proof (induction xs arbitrary: ys)
  case Nil
  then show ?case by simp
next
  case (Cons a xs)
  show ?case
  proof (cases "P a")
    case True
    with Cons.prems show ?thesis by (intro exI [of _ "[]"]) auto
  next
    case False
    with Cons.prems obtain zs where zs: "update_first P f xs = Some zs" "ys = a # zs" by auto
    from Cons.IH [OF zs(1)] obtain us x vs where
      "xs = us @ x # vs" "zs = us @ f x # vs" "P x" "\<forall>u \<in> set us. \<not> P u" by blast
    with False zs(2) show ?thesis by (intro exI [of _ "a # us"]) auto
  qed
qed

text \<open>Lookup by key in a list whose keys are distinct.\<close>

lemma map_of_key_eq:
  "distinct (map k xs) \<Longrightarrow>
   map_of (map (\<lambda>x. (k x, x)) xs) key = Some y \<longleftrightarrow> y \<in> set xs \<and> k y = key"
  by (subst map_of_eq_Some_iff) (auto simp: comp_def)

text \<open>A list of entries as a map from their keys; the first entry of a key counts.\<close>

definition keyed :: "('a \<Rightarrow> 'k) \<Rightarrow> 'a list \<Rightarrow> ('k \<rightharpoonup> 'a)" where
  "keyed k xs = map_of (map (\<lambda>x. (k x, x)) xs)"

lemma keyed_simps [simp]:
  "keyed k [] = Map.empty"
  "keyed k (x # xs) = (keyed k xs)(k x \<mapsto> x)"
  by (simp_all add: keyed_def)

lemma keyed_Some: "keyed k xs i = Some x \<Longrightarrow> x \<in> set xs \<and> k x = i"
  by (induction xs) (auto split: if_splits)

lemma keyed_None: "keyed k xs i = None \<longleftrightarrow> i \<notin> k ` set xs"
  by (induction xs) auto

lemma keyed_defined: "keyed k xs i \<noteq> None \<longleftrightarrow> (\<exists>x \<in> set xs. k x = i)"
  by (auto simp: keyed_None image_iff)

lemma keyed_iff: "distinct (map k xs) \<Longrightarrow> keyed k xs i = Some x \<longleftrightarrow> x \<in> set xs \<and> k x = i"
  by (simp add: keyed_def map_of_key_eq)

lemma keyed_append1: "k x \<notin> k ` set xs \<Longrightarrow> keyed k (xs @ [x]) = (keyed k xs)(k x \<mapsto> x)"
  by (induction xs) (auto simp: fun_upd_twist)

lemma keyed_remove_first:
  "remove_first (\<lambda>x. k x = i) xs = Some ys \<Longrightarrow> distinct (map k xs) \<Longrightarrow>
   keyed k ys = (keyed k xs)(i := None)"
proof (induction xs arbitrary: ys)
  case (Cons x xs)
  show ?case
  proof (cases "k x = i")
    case True
    with Cons.prems have "ys = xs" "keyed k xs i = None" by (auto simp: keyed_None)
    with True show ?thesis by (auto simp: fun_eq_iff)
  next
    case False
    with Cons show ?thesis by (auto simp: fun_upd_twist)
  qed
qed simp

lemma keyed_update_first:
  "update_first (\<lambda>x. k x = i) f xs = Some ys \<Longrightarrow> (\<And>x. k x = i \<Longrightarrow> k (f x) = i) \<Longrightarrow>
   keyed k ys = (keyed k xs)(i := map_option f (keyed k xs i))"
proof (induction xs arbitrary: ys)
  case (Cons x xs)
  show ?case
  proof (cases "k x = i")
    case True
    with Cons.prems show ?thesis by (auto simp: fun_eq_iff)
  next
    case False
    with Cons show ?thesis by (auto simp: fun_upd_twist)
  qed
qed simp

lemma keyed_map: "(\<And>x. k (f x) = k x) \<Longrightarrow> keyed k (map f xs) = map_option f \<circ> keyed k xs"
  by (induction xs) (auto simp: fun_eq_iff)

end
