(* ===== verification/GoStrings.thy ===== *)
theory GoStrings
  imports Prelude "HOL-Library.Sublist"
begin

text \<open>
  The functions of Go's \<open>strings\<close> and \<open>fmt\<close> packages that the proxy uses, over byte
  strings. A Go string is a sequence of bytes, as a HOL \<^typ>\<open>string\<close> is, and literals of
  the source are ASCII. The functions that Go defines on Unicode code points are written
  out on the UTF-8 bytes: \<open>ToLower\<close> maps the two code points outside ASCII that have an
  ASCII lower case (U+0130 and U+212A) and leaves every other non-ASCII byte alone, which
  agrees with Go in every comparison with an ASCII text; \<open>TrimSpace\<close> and
  \<open>Fields\<close> know all the code points of \<open>unicode.IsSpace\<close>.
\<close>

section \<open>Prefixes, substrings, splitting\<close>

definition has_prefix :: "string \<Rightarrow> string \<Rightarrow> bool" where
  "has_prefix s p \<longleftrightarrow> length p \<le> length s \<and> take (length p) s = p"

definition trim_prefix :: "string \<Rightarrow> string \<Rightarrow> string" where
  "trim_prefix s p = (if has_prefix s p then drop (length p) s else s)"

fun contains :: "string \<Rightarrow> string \<Rightarrow> bool" where
  "contains [] sub \<longleftrightarrow> has_prefix [] sub"
| "contains (c # cs) sub \<longleftrightarrow> has_prefix (c # cs) sub \<or> contains cs sub"

text \<open>\<open>strings.Split\<close> with a one-byte separator.\<close>

fun split_on :: "char \<Rightarrow> string \<Rightarrow> string list" where
  "split_on sep [] = [[]]"
| "split_on sep (c # cs) =
     (case split_on sep cs of
        [] \<Rightarrow> [[c]]
      | w # ws \<Rightarrow> if c = sep then [] # w # ws else (c # w) # ws)"

lemma has_prefix_prefix: "has_prefix s p \<longleftrightarrow> prefix p s"
proof
  assume "has_prefix s p"
  then have "s = p @ drop (length p) s"
    by (metis append_take_drop_id has_prefix_def)
  then show "prefix p s" by (metis prefixI)
qed (auto simp: has_prefix_def prefix_def)

lemma has_prefix_append [simp]: "has_prefix (p @ r) p"
  by (simp add: has_prefix_def)

lemma has_prefixD: "has_prefix s p \<Longrightarrow> \<exists>r. s = p @ r"
  by (simp add: has_prefix_prefix prefix_def)

lemma trim_prefix_append [simp]: "trim_prefix (p @ r) p = r"
  by (simp add: trim_prefix_def)

lemma contains_iff: "contains s sub \<longleftrightarrow> (\<exists>us vs. s = us @ sub @ vs)"
proof (induction s)
  case Nil
  then show ?case by (auto simp: has_prefix_def)
next
  case (Cons c cs)
  have "(\<exists>us vs. c # cs = us @ sub @ vs) \<longleftrightarrow>
        has_prefix (c # cs) sub \<or> (\<exists>us vs. cs = us @ sub @ vs)" (is "?L \<longleftrightarrow> ?R")
  proof
    assume ?L
    then obtain us vs where e: "c # cs = us @ sub @ vs" by blast
    show ?R
    proof (cases us)
      case Nil
      with e have "c # cs = sub @ vs" by simp
      then show ?thesis by (metis has_prefix_append)
    next
      case (Cons u us')
      with e show ?thesis by auto
    qed
  next
    assume ?R
    then show ?L
    proof
      assume "has_prefix (c # cs) sub"
      then obtain vs where "c # cs = sub @ vs" using has_prefixD by blast
      then show ?L by (metis append_Nil)
    next
      assume "\<exists>us vs. cs = us @ sub @ vs"
      then obtain us vs where "cs = us @ sub @ vs" by blast
      then show ?L by (metis append_Cons)
    qed
  qed
  with Cons.IH show ?case by simp
qed

lemma contains_char: "contains s [c] \<longleftrightarrow> c \<in> set s"
  by (simp add: contains_iff in_set_conv_decomp)

lemma split_on_not_Nil [simp]: "split_on sep s \<noteq> []"
  by (cases s) (auto split: list.splits)

lemma split_on_hd: "hd (split_on sep s) = takeWhile (\<lambda>c. c \<noteq> sep) s"
proof (induction s)
  case Nil
  then show ?case by simp
next
  case (Cons c cs)
  then show ?case
    by (cases "split_on sep cs") (use split_on_not_Nil [of sep cs] in auto)
qed

section \<open>Letter case\<close>

definition lower_char :: "char \<Rightarrow> char" where
  "lower_char c =
     (let n = of_char c :: nat
      in if 65 \<le> n \<and> n \<le> 90 then char_of (n + 32) else c)"

text \<open>\<open>strings.ToLower\<close>: U+0130 is \<open>C4 B0\<close>, U+212A is \<open>E2 84 AA\<close>.\<close>

function to_lower :: "string \<Rightarrow> string" where
  "to_lower s =
     (case s of
        [] \<Rightarrow> []
      | c # cs \<Rightarrow>
          if has_prefix s [CHR 0xC4, CHR 0xB0] then CHR ''i'' # to_lower (drop 2 s)
          else if has_prefix s [CHR 0xE2, CHR 0x84, CHR 0xAA]
          then CHR ''k'' # to_lower (drop 3 s)
          else lower_char c # to_lower cs)"
  by pat_completeness auto
termination
  by (relation "measure length") auto

declare to_lower.simps [simp del]

lemma to_lower_Nil [simp]: "to_lower [] = []"
  by (subst to_lower.simps) simp

lemma to_lower_Cons:
  "c \<noteq> CHR 0xC4 \<Longrightarrow> c \<noteq> CHR 0xE2 \<Longrightarrow> to_lower (c # cs) = lower_char c # to_lower cs"
  by (subst to_lower.simps) (simp add: has_prefix_def)

lemma to_lower_ascii:
  "\<forall>c \<in> set s. (of_char c :: nat) < 128 \<Longrightarrow> to_lower s = map lower_char s"
proof (induction s)
  case (Cons c cs)
  then have "c \<noteq> CHR 0xC4" "c \<noteq> CHR 0xE2" by auto
  with Cons show ?case by (simp add: to_lower_Cons)
qed simp

text \<open>
  \<open>strings.EqualFold\<close>. The second argument is an ASCII literal without \<open>k\<close> and
  \<open>s\<close> at every call of the source, so that no code point outside ASCII folds to one of
  its letters and folding the ASCII letters decides the comparison.
\<close>

definition equal_fold :: "string \<Rightarrow> string \<Rightarrow> bool" where
  "equal_fold s t \<longleftrightarrow> map lower_char s = map lower_char t"

lemma equal_fold_refl [simp]: "equal_fold s s"
  by (simp add: equal_fold_def)

section \<open>White space\<close>

text \<open>
  The number of bytes of the white-space code point that a string starts with, 0 if it
  starts with none: the code points of \<open>unicode.IsSpace\<close> in UTF-8.
\<close>

definition space_len :: "string \<Rightarrow> nat" where
  "space_len s =
     (case s of
        [] \<Rightarrow> 0
      | c # _ \<Rightarrow>
          if c \<in> {CHR 0x09, CHR 0x0A, CHR 0x0B, CHR 0x0C, CHR 0x0D, CHR 0x20} then 1
          else if has_prefix s [CHR 0xC2, CHR 0x85] \<or> has_prefix s [CHR 0xC2, CHR 0xA0] then 2
          else if has_prefix s [CHR 0xE1, CHR 0x9A, CHR 0x80]
                \<or> has_prefix s [CHR 0xE2, CHR 0x81, CHR 0x9F]
                \<or> has_prefix s [CHR 0xE3, CHR 0x80, CHR 0x80]
                \<or> (has_prefix s [CHR 0xE2, CHR 0x80] \<and> 3 \<le> length s \<and>
                   (let b = of_char (s ! 2) :: nat
                    in (128 \<le> b \<and> b \<le> 138) \<or> b \<in> {168, 169, 175}))
               then 3
          else 0)"

function trim_left :: "string \<Rightarrow> string" where
  "trim_left s = (if s = [] \<or> space_len s = 0 then s else trim_left (drop (space_len s) s))"
  by pat_completeness auto
termination
  by (relation "measure length") auto

declare trim_left.simps [simp del]

text \<open>Trailing white space: the shortest suffix of one, two or three bytes that is one
  white-space code point.\<close>

definition space_len_end :: "string \<Rightarrow> nat" where
  "space_len_end s =
     (let suf = (\<lambda>n. drop (length s - n) s)
      in if s \<noteq> [] \<and> space_len (suf 1) = 1 then 1
         else if 2 \<le> length s \<and> space_len (suf 2) = 2 then 2
         else if 3 \<le> length s \<and> space_len (suf 3) = 3 then 3
         else 0)"

function trim_right :: "string \<Rightarrow> string" where
  "trim_right s =
     (if s = [] \<or> space_len_end s = 0 then s
      else trim_right (take (length s - space_len_end s) s))"
  by pat_completeness auto
termination
  by (relation "measure length") auto

declare trim_right.simps [simp del]

definition trim_space :: "string \<Rightarrow> string" where
  "trim_space s = trim_right (trim_left s)"

text \<open>\<open>strings.Fields\<close>: the maximal runs of bytes that are not white space.\<close>

function fields_aux :: "string \<Rightarrow> string \<Rightarrow> string list" where
  "fields_aux cur s =
     (case s of
        [] \<Rightarrow> if cur = [] then [] else [rev cur]
      | c # cs \<Rightarrow>
          if space_len s = 0 then fields_aux (c # cur) cs
          else (if cur = [] then [] else [rev cur]) @ fields_aux [] (drop (space_len s) s))"
  by pat_completeness auto
termination
  by (relation "measure (\<lambda>(cur, s). length s)") auto

declare fields_aux.simps [simp del]

definition fields :: "string \<Rightarrow> string list" where
  "fields s = fields_aux [] s"

section \<open>Formatting\<close>

definition digit :: "nat \<Rightarrow> char" where
  "digit d = char_of (48 + d)"

fun show_nat :: "nat \<Rightarrow> string" where
  "show_nat n = (if n < 10 then [digit n] else show_nat (n div 10) @ [digit (n mod 10)])"

declare show_nat.simps [simp del]

text \<open>\<open>%d\<close>.\<close>

definition show_int :: "int \<Rightarrow> string" where
  "show_int i = (if i < 0 then CHR ''-'' # show_nat (nat (- i)) else show_nat (nat i))"

end
