(* ===== verification/Float64.thy ===== *)
theory Float64
  imports Prelude Complex_Main
begin

text \<open>
  Go's \<open>float64\<close>, IEEE 754 binary64 with rounding to nearest, ties to even. A value is a
  rational number, an infinity or NaN; the sign of zero is not kept, since the proxy neither
  divides by a value that can be zero nor prints one. Main facts: rounding is monotone, is the
  identity on integers up to \<open>2 ^ 53\<close>, and so keeps integer bounds.
\<close>

datatype f64 = Fin rat | PInf | NInf | NaN

section \<open>Comparison\<close>

text \<open>Every comparison with NaN is false, except \<open>!=\<close>.\<close>

fun f64_less :: "f64 \<Rightarrow> f64 \<Rightarrow> bool" where
  "f64_less (Fin a) (Fin b) \<longleftrightarrow> a < b"
| "f64_less (Fin _) PInf \<longleftrightarrow> True"
| "f64_less NInf (Fin _) \<longleftrightarrow> True"
| "f64_less NInf PInf \<longleftrightarrow> True"
| "f64_less _ _ \<longleftrightarrow> False"

fun f64_eq :: "f64 \<Rightarrow> f64 \<Rightarrow> bool" where
  "f64_eq (Fin a) (Fin b) \<longleftrightarrow> a = b"
| "f64_eq PInf PInf \<longleftrightarrow> True"
| "f64_eq NInf NInf \<longleftrightarrow> True"
| "f64_eq _ _ \<longleftrightarrow> False"

definition f64_le :: "f64 \<Rightarrow> f64 \<Rightarrow> bool" where
  "f64_le a b \<longleftrightarrow> f64_less a b \<or> f64_eq a b"

section \<open>Rounding\<close>

definition pow2 :: "int \<Rightarrow> rat" where
  "pow2 k = (if 0 \<le> k then 2 ^ nat k else 1 / 2 ^ nat (- k))"

lemma pow2_pos [simp]: "0 < pow2 k"
  by (simp add: pow2_def)

lemma pow2_neq0 [simp]: "pow2 k \<noteq> 0"
  by (simp add: pow2_def)

lemma pow2_0 [simp]: "pow2 0 = 1"
  by (simp add: pow2_def)

lemma pow2_powi: "pow2 k = 2 powi k"
  by (simp add: pow2_def power_int_def inverse_eq_divide power_one_over)

lemma pow2_add: "pow2 (a + b) = pow2 a * pow2 b"
  by (simp add: pow2_powi power_int_add)

lemma pow2_mono: "a \<le> b \<Longrightarrow> pow2 a \<le> pow2 b"
  by (simp add: pow2_powi power_int_increasing)

lemma pow2_less: "a < b \<Longrightarrow> pow2 a < pow2 b"
  by (simp add: pow2_powi power_int_strict_increasing)

text \<open>Round to the nearest integer, ties to even.\<close>

definition round_even :: "rat \<Rightarrow> int" where
  "round_even x =
     (let f = \<lfloor>x\<rfloor>; d = x - of_int f
      in if d < 1 / 2 then f else if d > 1 / 2 then f + 1 else if even f then f else f + 1)"

text \<open>The binary exponent of a positive number: the \<open>k\<close> with \<open>2 ^ k \<le> x < 2 ^ (k + 1)\<close>,
  found from the bit lengths of numerator and denominator.\<close>

fun bit_len :: "nat \<Rightarrow> nat" where
  "bit_len n = (if n = 0 then 0 else Suc (bit_len (n div 2)))"

declare bit_len.simps [simp del]

definition exponent :: "rat \<Rightarrow> int" where
  "exponent x =
     (let (n, d) = quotient_of x; k = int (bit_len (nat n)) - int (bit_len (nat d))
      in if pow2 k \<le> x then k else k - 1)"

text \<open>The unit in the last place: 53 significant bits, at least \<open>2 ^ -1074\<close>.\<close>

definition ulp :: "rat \<Rightarrow> rat" where
  "ulp x = (if x = 0 then pow2 (- 1074) else pow2 (max (exponent \<bar>x\<bar>) (- 1022) - 52))"

definition round64 :: "rat \<Rightarrow> rat" where
  "round64 x = of_int (round_even (x / ulp x)) * ulp x"

text \<open>A result in binary64: rounded, or infinite when the rounded value is out of range.\<close>

definition mk64 :: "rat \<Rightarrow> f64" where
  "mk64 x =
     (let r = round64 x
      in if r \<ge> pow2 1024 then PInf else if r \<le> - pow2 1024 then NInf else Fin r)"

section \<open>Arithmetic\<close>

fun f64_neg :: "f64 \<Rightarrow> f64" where
  "f64_neg (Fin a) = Fin (- a)"
| "f64_neg PInf = NInf"
| "f64_neg NInf = PInf"
| "f64_neg NaN = NaN"

fun f64_add :: "f64 \<Rightarrow> f64 \<Rightarrow> f64" where
  "f64_add (Fin a) (Fin b) = mk64 (a + b)"
| "f64_add NaN _ = NaN"
| "f64_add _ NaN = NaN"
| "f64_add PInf NInf = NaN"
| "f64_add NInf PInf = NaN"
| "f64_add PInf _ = PInf"
| "f64_add NInf _ = NInf"
| "f64_add _ PInf = PInf"
| "f64_add _ NInf = NInf"

definition f64_sub :: "f64 \<Rightarrow> f64 \<Rightarrow> f64" where
  "f64_sub a b = f64_add a (f64_neg b)"

text \<open>An infinity of the sign of a product or quotient, NaN for a zero factor.\<close>

definition inf_times :: "bool \<Rightarrow> rat \<Rightarrow> f64" where
  "inf_times pos b = (if b = 0 then NaN else if (b > 0) = pos then PInf else NInf)"

fun f64_mul :: "f64 \<Rightarrow> f64 \<Rightarrow> f64" where
  "f64_mul (Fin a) (Fin b) = mk64 (a * b)"
| "f64_mul NaN _ = NaN"
| "f64_mul _ NaN = NaN"
| "f64_mul PInf (Fin b) = inf_times True b"
| "f64_mul NInf (Fin b) = inf_times False b"
| "f64_mul (Fin b) PInf = inf_times True b"
| "f64_mul (Fin b) NInf = inf_times False b"
| "f64_mul PInf PInf = PInf"
| "f64_mul NInf NInf = PInf"
| "f64_mul PInf NInf = NInf"
| "f64_mul NInf PInf = NInf"

text \<open>Division; a zero divisor is taken as positive zero.\<close>

fun f64_div :: "f64 \<Rightarrow> f64 \<Rightarrow> f64" where
  "f64_div (Fin a) (Fin b) =
     (if b = 0 then (if a = 0 then NaN else if a > 0 then PInf else NInf) else mk64 (a / b))"
| "f64_div NaN _ = NaN"
| "f64_div _ NaN = NaN"
| "f64_div PInf (Fin b) = (if b < 0 then NInf else PInf)"
| "f64_div NInf (Fin b) = (if b < 0 then PInf else NInf)"
| "f64_div (Fin _) PInf = Fin 0"
| "f64_div (Fin _) NInf = Fin 0"
| "f64_div PInf PInf = NaN"
| "f64_div PInf NInf = NaN"
| "f64_div NInf PInf = NaN"
| "f64_div NInf NInf = NaN"

text \<open>\<open>math.Min\<close> and \<open>math.Max\<close>: an infinity that decides wins over NaN.\<close>

definition math_Min :: "f64 \<Rightarrow> f64 \<Rightarrow> f64" where
  "math_Min a b =
     (if a = NInf \<or> b = NInf then NInf else if a = NaN \<or> b = NaN then NaN
      else if f64_less a b then a else b)"

definition math_Max :: "f64 \<Rightarrow> f64 \<Rightarrow> f64" where
  "math_Max a b =
     (if a = PInf \<or> b = PInf then PInf else if a = NaN \<or> b = NaN then NaN
      else if f64_less b a then a else b)"

section \<open>Conversions\<close>

definition f64_of_int :: "int \<Rightarrow> f64" where
  "f64_of_int i = mk64 (of_int i)"

text \<open>A conversion of a float to \<open>uint64\<close> or \<open>int64\<close> drops the fraction. What it gives
  when the value does not fit is up to the implementation; \<open>None\<close> says so.\<close>

definition rat_truncate :: "rat \<Rightarrow> int" where
  "rat_truncate x = (if 0 \<le> x then \<lfloor>x\<rfloor> else - \<lfloor>- x\<rfloor>)"

fun f64_to_int :: "int \<Rightarrow> int \<Rightarrow> f64 \<Rightarrow> int option" where
  "f64_to_int lo hi (Fin x) =
     (let i = rat_truncate x in if lo \<le> i \<and> i \<le> hi then Some i else None)"
| "f64_to_int lo hi _ = None"

definition f64_to_uint64 :: "f64 \<Rightarrow> uint64 option" where
  "f64_to_uint64 x = map_option word_of_int (f64_to_int 0 (2 ^ 64 - 1) x)"

definition f64_to_int64 :: "f64 \<Rightarrow> int64 option" where
  "f64_to_int64 x = map_option word_of_int (f64_to_int (- (2 ^ 63)) (2 ^ 63 - 1) x)"

section \<open>Rounding to an integer is monotone\<close>

lemma round_even_le_iff: "round_even x \<le> \<lfloor>x\<rfloor> + 1" "\<lfloor>x\<rfloor> \<le> round_even x"
  by (simp_all add: round_even_def Let_def)

lemma round_even_of_int [simp]: "round_even (of_int i) = i"
  by (simp add: round_even_def)

lemma round_even_mono: "x \<le> y \<Longrightarrow> round_even x \<le> round_even y"
proof -
  assume le: "x \<le> y"
  show ?thesis
  proof (cases "\<lfloor>x\<rfloor> = \<lfloor>y\<rfloor>")
    case True
    with le show ?thesis by (auto simp: round_even_def Let_def)
  next
    case False
    with le have "\<lfloor>x\<rfloor> + 1 \<le> \<lfloor>y\<rfloor>" using floor_mono [OF le] by linarith
    then show ?thesis using round_even_le_iff(1) [of x] round_even_le_iff(2) [of y] by linarith
  qed
qed

lemma round_even_minus: "round_even (- x) = - round_even x"
proof -
  define f where "f = \<lfloor>x\<rfloor>"
  show ?thesis
  proof (cases "x = of_int f")
    case True
    then show ?thesis by (metis of_int_minus round_even_of_int)
  next
    case False
    have "of_int f \<le> x" "x < of_int f + 1" unfolding f_def by linarith+
    with False have nf: "\<lfloor>- x\<rfloor> = - f - 1" by (intro floor_unique) auto
    show ?thesis
      unfolding round_even_def Let_def nf f_def [symmetric] by auto
  qed
qed

section \<open>The exponent\<close>

lemma bit_len_0 [simp]: "bit_len 0 = 0"
  by (simp add: bit_len.simps)

lemma bit_len_bounds: "n < 2 ^ bit_len n \<and> (0 < n \<longrightarrow> 2 ^ bit_len n \<le> 2 * n)"
proof (induction n rule: bit_len.induct)
  case (1 n)
  show ?case
  proof (cases "n = 0")
    case False
    with 1 have "n div 2 < 2 ^ bit_len (n div 2)"
      "0 < n div 2 \<longrightarrow> 2 ^ bit_len (n div 2) \<le> 2 * (n div 2)" by auto
    moreover have "bit_len n = Suc (bit_len (n div 2))" using False by (subst bit_len.simps) simp
    moreover have "n < 2 * m" if "n div 2 < m" for m using that by linarith
    moreover have "2 * (n div 2) \<le> n" by simp
    ultimately show ?thesis using False
      by (cases "n div 2 = 0") (auto simp: power_Suc)
  qed simp
qed

lemma bit_len_rat:
  assumes "0 < n"
  shows "(of_nat n :: rat) < 2 ^ bit_len n" and "(2 :: rat) ^ bit_len n \<le> 2 * of_nat n"
proof -
  have "(of_nat n :: rat) < of_nat (2 ^ bit_len n)"
    unfolding of_nat_less_iff using bit_len_bounds by blast
  then show "(of_nat n :: rat) < 2 ^ bit_len n" by simp
  have "(of_nat (2 ^ bit_len n) :: rat) \<le> of_nat (2 * n)"
    unfolding of_nat_le_iff using bit_len_bounds assms by blast
  then show "(2 :: rat) ^ bit_len n \<le> 2 * of_nat n" by simp
qed

lemma rat_bounds_pow2:
  assumes "0 < n" "0 < d" and k: "k = int (bit_len n) - int (bit_len d)"
  shows "pow2 (k - 1) < of_nat n / of_nat d" and "of_nat n / of_nat d < pow2 (k + 1)"
proof -
  let ?a = "bit_len n" and ?b = "bit_len d"
  note n = bit_len_rat [OF assms(1)] and d = bit_len_rat [OF assms(2)]
  have p: "pow2 k = 2 ^ ?a / 2 ^ ?b"
    by (simp add: k pow2_powi power_int_diff)
  have d0: "(0 :: rat) < of_nat d" using assms(2) by simp
  have "pow2 (k - 1) = 2 ^ ?a / (2 * 2 ^ ?b)"
    using p by (simp add: pow2_powi power_int_diff)
  also have "\<dots> \<le> 2 * of_nat n / (2 * 2 ^ ?b)" using n(2) by (intro divide_right_mono) auto
  also have "\<dots> = of_nat n / 2 ^ ?b" by simp
  also have "\<dots> < of_nat n / of_nat d"
    using d(1) d0 assms(1) by (intro divide_strict_left_mono) auto
  finally show "pow2 (k - 1) < of_nat n / of_nat d" .
  have "of_nat n / of_nat d < (2 :: rat) ^ ?a / of_nat d" using n(1) d0 by (intro divide_strict_right_mono)
  also have "\<dots> \<le> 2 ^ ?a / (2 ^ ?b / 2)" using d(2) d0 by (intro divide_left_mono) auto
  also have "\<dots> = pow2 (k + 1)" using p by (simp add: pow2_powi power_int_add)
  finally show "of_nat n / of_nat d < pow2 (k + 1)" .
qed

lemma exponent_bounds:
  assumes "0 < x"
  shows "pow2 (exponent x) \<le> x" and "x < pow2 (exponent x + 1)"
proof -
  obtain n d where q: "quotient_of x = (n, d)" by fastforce
  have d: "0 < d" using quotient_of_denom_pos [OF q] .
  have x: "x = of_int n / of_int d" using quotient_of_div [OF q] .
  have n: "0 < n" using assms d unfolding x by (simp add: zero_less_divide_iff)
  define k where "k = int (bit_len (nat n)) - int (bit_len (nat d))"
  have x': "x = of_nat (nat n) / of_nat (nat d)" using n d x by simp
  have b: "pow2 (k - 1) < x" "x < pow2 (k + 1)"
    unfolding x' using rat_bounds_pow2 [OF _ _ k_def] n d by simp_all
  have e: "exponent x = (if pow2 k \<le> x then k else k - 1)"
    by (simp add: exponent_def q Let_def k_def)
  show "pow2 (exponent x) \<le> x" "x < pow2 (exponent x + 1)"
    using b by (auto simp: e)
qed

lemma exponent_unique:
  assumes "pow2 k \<le> x" and "x < pow2 (k + 1)"
  shows "exponent x = k"
proof -
  have x: "0 < x" using assms(1) pow2_pos [of k] by linarith
  note b = exponent_bounds [OF x]
  have "\<not> exponent x < k"
    using pow2_mono [of "exponent x + 1" k] b(2) assms(1) by linarith
  moreover have "\<not> k < exponent x"
    using pow2_mono [of "k + 1" "exponent x"] b(1) assms(2) by linarith
  ultimately show ?thesis by simp
qed

lemma exponent_mono: "0 < x \<Longrightarrow> x \<le> y \<Longrightarrow> exponent x \<le> exponent y"
proof (rule ccontr)
  assume "0 < x" "x \<le> y" "\<not> exponent x \<le> exponent y"
  then have "pow2 (exponent y + 1) \<le> pow2 (exponent x)" by (intro pow2_mono) simp
  with exponent_bounds [of x] exponent_bounds [of y] \<open>0 < x\<close> \<open>x \<le> y\<close> show False by linarith
qed

section \<open>Rounding is monotone\<close>

lemma ulp_pos [simp]: "0 < ulp x"
  by (simp add: ulp_def)

lemma ulp_minus [simp]: "ulp (- x) = ulp x"
  by (simp add: ulp_def)

lemma round64_0 [simp]: "round64 0 = 0"
  using round_even_of_int [of 0] by (simp add: round64_def)

lemma round64_minus [simp]: "round64 (- x) = - round64 x"
  by (simp add: round64_def round_even_minus)

lemma round64_exact: "x = of_int i * ulp x \<Longrightarrow> round64 x = x"
proof -
  assume x: "x = of_int i * ulp x"
  then have "x / ulp x = of_int i" using ulp_pos [of x] by (simp add: field_simps del: ulp_pos)
  then show ?thesis using x by (simp add: round64_def)
qed

lemma round64_nonneg: "0 \<le> x \<Longrightarrow> 0 \<le> round64 x"
proof -
  assume "0 \<le> x"
  then have "round_even (of_int 0) \<le> round_even (x / ulp x)"
    using ulp_pos [of x] by (intro round_even_mono) (simp del: ulp_pos)
  then show ?thesis
    unfolding round_even_of_int round64_def using ulp_pos [of x] by (simp del: ulp_pos)
qed

text \<open>Rounding stays within the binade, its upper end included.\<close>

lemma round64_binade:
  assumes "0 < x"
  defines "e \<equiv> max (exponent x) (- 1022)"
  shows "round64 x \<le> pow2 (e + 1)" and "- 1022 \<le> exponent x \<Longrightarrow> pow2 e \<le> round64 x"
proof -
  have u: "ulp x = pow2 (e - 52)" using assms by (simp add: ulp_def)
  have top: "pow2 (e + 1) = of_int (2 ^ 53) * ulp x"
    unfolding u using pow2_add [of 53 "e - 52"] by (simp add: pow2_def [of 53] add.commute)
  have low: "pow2 e = of_int (2 ^ 52) * ulp x"
    unfolding u using pow2_add [of 52 "e - 52"] by (simp add: pow2_def [of 52] add.commute)
  have "x \<le> pow2 (e + 1)"
    using exponent_bounds(2) [OF assms(1)] pow2_mono [of "exponent x + 1" "e + 1"]
    by (simp add: e_def)
  then have "x / ulp x \<le> of_int (2 ^ 53)"
    unfolding top by (simp add: divide_le_eq)
  then have "round_even (x / ulp x) \<le> 2 ^ 53" using round_even_mono round_even_of_int by metis
  then have "of_int (round_even (x / ulp x)) \<le> (of_int (2 ^ 53) :: rat)" by (simp only: of_int_le_iff)
  then show "round64 x \<le> pow2 (e + 1)"
    unfolding round64_def top by (intro mult_right_mono less_imp_le [OF ulp_pos])
  assume "- 1022 \<le> exponent x"
  then have "pow2 e \<le> x" using exponent_bounds(1) [OF assms(1)] by (simp add: e_def)
  then have "of_int (2 ^ 52) \<le> x / ulp x" unfolding low by (simp add: le_divide_eq)
  then have "2 ^ 52 \<le> round_even (x / ulp x)" using round_even_mono round_even_of_int by metis
  then have "(of_int (2 ^ 52) :: rat) \<le> of_int (round_even (x / ulp x))" by (simp only: of_int_le_iff)
  then show "pow2 e \<le> round64 x"
    unfolding round64_def low by (intro mult_right_mono less_imp_le [OF ulp_pos])
qed

lemma round64_mono_pos:
  assumes "0 < x" and "x \<le> y"
  shows "round64 x \<le> round64 y"
proof (cases "ulp x = ulp y")
  case True
  then have "x / ulp x \<le> y / ulp y" using assms(2) by (simp add: divide_right_mono less_imp_le)
  then have "round_even (x / ulp x) \<le> round_even (y / ulp y)" by (rule round_even_mono)
  then have "of_int (round_even (x / ulp x)) \<le> (of_int (round_even (y / ulp y)) :: rat)"
    by (simp only: of_int_le_iff)
  then show ?thesis
    unfolding round64_def True by (intro mult_right_mono less_imp_le [OF ulp_pos])
next
  case False
  let ?ex = "max (exponent x) (- 1022)" and ?ey = "max (exponent y) (- 1022)"
  have e: "exponent x \<le> exponent y" using exponent_mono [OF assms] .
  have "?ex \<noteq> ?ey" using False assms by (auto simp: ulp_def)
  with e have less: "?ex < ?ey" "- 1022 \<le> exponent y" by auto
  have "round64 x \<le> pow2 (?ex + 1)" by (rule round64_binade(1) [OF assms(1)])
  also have "\<dots> \<le> pow2 ?ey" using less by (intro pow2_mono) linarith
  also have "\<dots> \<le> round64 y" using assms less by (intro round64_binade(2)) auto
  finally show ?thesis .
qed

lemma round64_mono: "x \<le> y \<Longrightarrow> round64 x \<le> round64 y"
proof -
  assume le: "x \<le> y"
  consider "0 < x" | "x \<le> 0" "0 \<le> y" | "y < 0" by linarith
  then show ?thesis
  proof cases
    case 1
    with le show ?thesis by (simp add: round64_mono_pos)
  next
    case 2
    have "round64 x \<le> 0" using round64_nonneg [of "- x"] 2 by simp
    with round64_nonneg [of y] 2 show ?thesis by linarith
  next
    case 3
    have "round64 (- y) \<le> round64 (- x)" using 3 le by (intro round64_mono_pos) auto
    then show ?thesis by simp
  qed
qed

text \<open>Integers up to \<open>2 ^ 53\<close> are exact.\<close>

lemma round64_nat: "n \<le> 2 ^ 53 \<Longrightarrow> round64 (of_nat n) = of_nat n"
proof (cases "n = 0")
  case False
  assume n: "n \<le> 2 ^ 53"
  let ?x = "of_nat n :: rat"
  have pos: "0 < ?x" using False by simp
  have "1 \<le> ?x" using False by simp
  have e0: "0 \<le> exponent ?x"
  proof (rule ccontr)
    assume "\<not> ?thesis"
    then have "pow2 (exponent ?x + 1) \<le> pow2 0" by (intro pow2_mono) simp
    with exponent_bounds(2) [OF pos] \<open>1 \<le> ?x\<close> show False by simp
  qed
  then have u: "ulp ?x = pow2 (exponent ?x - 52)" using pos by (simp add: ulp_def)
  show ?thesis
  proof (cases "exponent ?x \<le> 52")
    case True
    have "pow2 (52 - exponent ?x) * ulp ?x = 1"
      unfolding u using pow2_add [of "52 - exponent ?x" "exponent ?x - 52"] by simp
    moreover have "pow2 (52 - exponent ?x) = of_int (2 ^ nat (52 - exponent ?x))"
      using True by (simp add: pow2_def)
    ultimately have "?x = of_int (int n * 2 ^ nat (52 - exponent ?x)) * ulp ?x"
      by (simp add: mult.assoc)
    then show ?thesis by (rule round64_exact)
  next
    case False
    have "?x \<le> of_nat (2 ^ 53)" using n by (simp only: of_nat_le_iff)
    then have le: "?x \<le> pow2 53" by (simp add: pow2_def)
    have "pow2 53 \<le> pow2 (exponent ?x)" using False by (intro pow2_mono) simp
    with le exponent_bounds(1) [OF pos] have x: "?x = pow2 53" "pow2 (exponent ?x) = pow2 53"
      by linarith+
    have "exponent ?x = 53"
      unfolding x(1) by (rule exponent_unique) (simp_all add: pow2_def)
    with u have "ulp ?x = 2" by (simp add: pow2_def)
    then have "?x = of_int (2 ^ 52) * ulp ?x" unfolding x(1) by (simp add: pow2_def)
    then show ?thesis by (rule round64_exact)
  qed
qed simp

lemma round64_int: "\<bar>i\<bar> \<le> 2 ^ 53 \<Longrightarrow> round64 (of_int i) = of_int i"
proof (cases "0 \<le> i")
  case True
  assume "\<bar>i\<bar> \<le> 2 ^ 53"
  with True have "nat i \<le> 2 ^ 53" by (simp add: nat_le_iff)
  from round64_nat [OF this] True show ?thesis by simp
next
  case False
  assume "\<bar>i\<bar> \<le> 2 ^ 53"
  with False have "nat (- i) \<le> 2 ^ 53" by (simp add: nat_le_iff)
  from round64_nat [OF this] False round64_minus [of "of_int i"] show ?thesis by simp
qed

text \<open>A result between integers in that range is finite and stays between them.\<close>

lemma mk64_bounds:
  assumes "of_int a \<le> x" "x \<le> of_int b" "\<bar>a\<bar> \<le> 2 ^ 53" "\<bar>b\<bar> \<le> 2 ^ 53"
  obtains r where "mk64 x = Fin r" "r = round64 x" "of_int a \<le> r" "r \<le> of_int b"
proof -
  have a: "of_int a \<le> round64 x" using round64_mono [OF assms(1)] round64_int [OF assms(3)] by simp
  have b: "round64 x \<le> of_int b" using round64_mono [OF assms(2)] round64_int [OF assms(4)] by simp
  have p: "pow2 53 = of_int (2 ^ 53)" by (simp add: pow2_def)
  have "(of_int b :: rat) \<le> of_int (2 ^ 53)" using assms(4) unfolding of_int_le_iff by linarith
  moreover have "(of_int (- (2 ^ 53)) :: rat) \<le> of_int a" using assms(3) unfolding of_int_le_iff by linarith
  moreover have "pow2 53 < pow2 1024" by (rule pow2_less) simp
  ultimately have "round64 x < pow2 1024" "- pow2 1024 < round64 x"
    using a b unfolding p of_int_minus by linarith+
  then have "mk64 x = Fin (round64 x)" by (simp add: mk64_def Let_def)
  with a b show ?thesis by (intro that) auto
qed

lemma f64_of_int_exact: "\<bar>i\<bar> \<le> 2 ^ 53 \<Longrightarrow> f64_of_int i = Fin (of_int i)"
  unfolding f64_of_int_def
  by (rule mk64_bounds [of i "of_int i" i]) (auto simp: round64_int)

text \<open>Rounding of a given number, from its binade and the nearest multiple of its unit.\<close>

lemma round_even_near: "\<bar>x - of_int i\<bar> < 1 / 2 \<Longrightarrow> round_even x = i"
proof -
  assume near: "\<bar>x - of_int i\<bar> < 1 / 2"
  show ?thesis
  proof (cases "of_int i \<le> x")
    case True
    with near have "\<lfloor>x\<rfloor> = i" by (intro floor_unique) auto
    with near True show ?thesis by (simp add: round_even_def Let_def)
  next
    case False
    with near have "\<lfloor>x\<rfloor> = i - 1" by (intro floor_unique) auto
    with near False show ?thesis by (simp add: round_even_def Let_def)
  qed
qed

lemma round64_eqI:
  assumes "pow2 k \<le> x" "x < pow2 (k + 1)" "- 1022 \<le> k"
    and "\<bar>x / pow2 (k - 52) - of_int i\<bar> < 1 / 2"
  shows "round64 x = of_int i * pow2 (k - 52)"
proof -
  have "0 < x" using assms(1) pow2_pos [of k] by linarith
  then have "ulp x = pow2 (k - 52)"
    using exponent_unique [OF assms(1,2)] assms(3) by (simp add: ulp_def)
  then show ?thesis using round_even_near [OF assms(4)] by (simp add: round64_def)
qed

lemma mk64_Fin: "\<bar>round64 x\<bar> < pow2 1024 \<Longrightarrow> mk64 x = Fin (round64 x)"
  by (auto simp: mk64_def Let_def)

lemma mk64_small: "\<bar>x\<bar> \<le> 2 ^ 53 \<Longrightarrow> mk64 x = Fin (round64 x)"
  by (rule mk64_bounds [of "- (2 ^ 53)" x "2 ^ 53"]) auto

end
