(* ===== verification/ConfigTypes.thy ===== *)
theory ConfigTypes
  imports GoStrings Float64
begin

text \<open>
  The configuration data of \<open>internal/config/types.go\<close>: one record per struct, with the
  struct's fields in order, under a prefix of the struct's initials. A slice is a list (the
  code looks at slices through \<open>len\<close>, \<open>range\<close> and \<open>append\<close> only, which do not tell
  a nil slice from an empty one), and a slice of pointers a list of \<^typ>\<open>'a option\<close>,
  \<open>None\<close> being the nil pointer.
\<close>

record server_config =
  sc_ProxyPort :: goint
  sc_AdminGrpcPort :: goint

record load_balancing_config =
  lbc_Strategy :: string

record backend_config =
  bc_Id :: string
  bc_URL :: string
  bc_Weight :: int32
  bc_Enabled :: bool

record timeouts_config =
  tc_ConnectTimeoutMs :: int32
  tc_ResponseTimeoutMs :: int32
  tc_KeepAliveTimeoutMs :: int32
  tc_IdleConnTimeoutMs :: int32

record rate_limiting_config =
  rl_Enabled :: bool
  rl_RatePerIP :: int32
  rl_Burst :: int32
  rl_WindowSec :: int32

record path_route =
  pr_Path :: string
  pr_BackendIDs :: "string list"
  pr_StripPrefix :: bool

record security_policy =
  sp_Id :: string
  sp_RateLimiting :: rate_limiting_config

record security_config =
  sec_Policies :: "security_policy list"

record virtual_host =
  vh_Domain :: string
  vh_BackendIDs :: "string list"
  vh_SecurityPolicyID :: string
  vh_PathRoutes :: "path_route list"

record logging_config =
  lg_Enabled :: bool
  lg_Level :: string
  lg_Async :: bool
  lg_BufferSize :: int64

record health_probe_config =
  hp_Type :: string
  hp_Path :: string
  hp_Method :: string
  hp_TimeoutMs :: int64
  hp_SuccessCodes :: "int32 list"

record health_schedule_config =
  hs_IntervalMs :: int64
  hs_JitterMs :: int64

record health_concurrency_config =
  hc_Workers :: goint
  hc_QueueSize :: goint

record health_threshold_config =
  ht_Healthy :: int32
  ht_Unhealthy :: int32

record health_backoff_config =
  hb_Enabled :: bool
  hb_InitialMs :: int64
  hb_MaxMs :: int64
  hb_Multiplier :: f64

record health_recovery_config =
  hr_Backoff :: health_backoff_config

record health_transport_config =
  htr_MaxIdleConns :: goint
  htr_MaxIdleConnsPerHost :: goint
  htr_MaxConnsPerHost :: goint
  htr_KeepAliveMs :: int64

record passive_health_config =
  ph_Enabled :: bool

record health_check_config =
  hcc_Enabled :: bool
  hcc_Probe :: health_probe_config
  hcc_Schedule :: health_schedule_config
  hcc_Concurrency :: health_concurrency_config
  hcc_Thresholds :: health_threshold_config
  hcc_Recovery :: health_recovery_config
  hcc_Transport :: health_transport_config
  hcc_Passive :: passive_health_config

record full_config =
  fc_Server :: server_config
  fc_LoadBalancer :: load_balancing_config
  fc_Backends :: "backend_config option list"
  fc_HealthCheck :: health_check_config
  fc_Timeouts :: timeouts_config
  fc_Security :: security_config
  fc_VirtualHosts :: "virtual_host list"
  fc_Logging :: logging_config

text \<open>The composite literal \<open>RateLimitingConfig{}\<close>.\<close>

definition zero_rate_limiting :: rate_limiting_config where
  "zero_rate_limiting =
     \<lparr>rl_Enabled = False, rl_RatePerIP = 0, rl_Burst = 0, rl_WindowSec = 0\<rparr>"

text \<open>The configured backends, nil entries left out, as every loop of the code does.\<close>

definition backend_list :: "full_config \<Rightarrow> backend_config list" where
  "backend_list c = non_nil (fc_Backends c)"

lemma in_backend_list [simp]: "b \<in> set (backend_list c) \<longleftrightarrow> Some b \<in> set (fc_Backends c)"
  by (simp add: backend_list_def)

end
