(* ===== verification/ConfigDefaults.thy ===== *)
theory ConfigDefaults
  imports ConfigTypes
begin

text \<open>
  \<open>internal/config/defaults.go\<close>: \<open>ApplyDefaults\<close> and its two helpers, one update per
  \<open>if\<close> of the code, in its order. Main facts: the defaults are idempotent, leave the
  backends and the routing of a configuration alone and never overwrite a value that is set.
\<close>

definition default_policy :: security_policy where
  "default_policy = \<lparr>sp_Id = ''default'', sp_RateLimiting = zero_rate_limiting\<rparr>"

definition ensure_default_security_policy :: "security_config \<Rightarrow> security_config" where
  "ensure_default_security_policy s =
     (if \<exists>p \<in> set (sec_Policies s). sp_Id p = ''default'' then s
      else s\<lparr>sec_Policies := default_policy # sec_Policies s\<rparr>)"

text \<open>\<open>if x == zero { x = d }\<close>\<close>

definition or_default :: "'a \<Rightarrow> 'a \<Rightarrow> 'a \<Rightarrow> 'a" where
  "or_default z d x = (if x = z then d else x)"

lemma or_default_idem [simp]: "or_default z d (or_default z d x) = or_default z d x"
  by (simp add: or_default_def)

lemma or_default_neq: "x \<noteq> z \<Longrightarrow> or_default z d x = x"
  by (simp add: or_default_def)

definition default_probe :: "health_probe_config \<Rightarrow> health_probe_config" where
  "default_probe p =
     \<lparr>hp_Type = or_default '''' ''http'' (hp_Type p),
      hp_Path = or_default '''' ''/health'' (hp_Path p),
      hp_Method = or_default '''' ''GET'' (hp_Method p),
      hp_TimeoutMs = or_default 0 1000 (hp_TimeoutMs p),
      hp_SuccessCodes = or_default [] [200] (hp_SuccessCodes p)\<rparr>"

definition default_backoff :: "health_backoff_config \<Rightarrow> health_backoff_config" where
  "default_backoff b =
     b\<lparr>hb_InitialMs := or_default 0 5000 (hb_InitialMs b),
       hb_MaxMs := or_default 0 30000 (hb_MaxMs b),
       hb_Multiplier := (if f64_eq (hb_Multiplier b) (Fin 0) then Fin 2 else hb_Multiplier b)\<rparr>"

definition default_transport :: "health_transport_config \<Rightarrow> health_transport_config" where
  "default_transport t =
     \<lparr>htr_MaxIdleConns = or_default 0 100 (htr_MaxIdleConns t),
      htr_MaxIdleConnsPerHost = or_default 0 4 (htr_MaxIdleConnsPerHost t),
      htr_MaxConnsPerHost = or_default 0 16 (htr_MaxConnsPerHost t),
      htr_KeepAliveMs = or_default 0 30000 (htr_KeepAliveMs t)\<rparr>"

definition apply_health_checks_defaults :: "health_check_config \<Rightarrow> health_check_config" where
  "apply_health_checks_defaults c =
     c\<lparr>hcc_Probe := default_probe (hcc_Probe c),
       hcc_Schedule := (hcc_Schedule c)
         \<lparr>hs_IntervalMs := or_default 0 3000 (hs_IntervalMs (hcc_Schedule c))\<rparr>,
       hcc_Concurrency :=
         \<lparr>hc_Workers = or_default 0 16 (hc_Workers (hcc_Concurrency c)),
          hc_QueueSize = or_default 0 64 (hc_QueueSize (hcc_Concurrency c))\<rparr>,
       hcc_Thresholds :=
         \<lparr>ht_Healthy = or_default 0 3 (ht_Healthy (hcc_Thresholds c)),
          ht_Unhealthy = or_default 0 3 (ht_Unhealthy (hcc_Thresholds c))\<rparr>,
       hcc_Recovery := \<lparr>hr_Backoff = default_backoff (hr_Backoff (hcc_Recovery c))\<rparr>,
       hcc_Transport := default_transport (hcc_Transport c)\<rparr>"

definition default_timeouts :: "timeouts_config \<Rightarrow> timeouts_config" where
  "default_timeouts t =
     \<lparr>tc_ConnectTimeoutMs = or_default 0 5000 (tc_ConnectTimeoutMs t),
      tc_ResponseTimeoutMs = or_default 0 30000 (tc_ResponseTimeoutMs t),
      tc_KeepAliveTimeoutMs = or_default 0 300000 (tc_KeepAliveTimeoutMs t),
      tc_IdleConnTimeoutMs = or_default 0 90000 (tc_IdleConnTimeoutMs t)\<rparr>"

definition default_vhost :: "virtual_host \<Rightarrow> virtual_host" where
  "default_vhost v =
     v\<lparr>vh_SecurityPolicyID := or_default '''' ''default'' (vh_SecurityPolicyID v)\<rparr>"

definition apply_defaults :: "full_config \<Rightarrow> full_config" where
  "apply_defaults c =
     c\<lparr>fc_Server :=
         \<lparr>sc_ProxyPort = or_default 0 8080 (sc_ProxyPort (fc_Server c)),
          sc_AdminGrpcPort = or_default 0 50051 (sc_AdminGrpcPort (fc_Server c))\<rparr>,
       fc_LoadBalancer :=
         \<lparr>lbc_Strategy =
            or_default '''' ''least-connections'' (lbc_Strategy (fc_LoadBalancer c))\<rparr>,
       fc_Security := ensure_default_security_policy (fc_Security c),
       fc_VirtualHosts := map default_vhost (fc_VirtualHosts c),
       fc_HealthCheck := apply_health_checks_defaults (fc_HealthCheck c),
       fc_Timeouts := default_timeouts (fc_Timeouts c),
       fc_Logging := (fc_Logging c)
         \<lparr>lg_Level := or_default '''' ''info'' (lg_Level (fc_Logging c)),
          lg_BufferSize := or_default 0 4096 (lg_BufferSize (fc_Logging c))\<rparr>\<rparr>"

section \<open>Idempotence\<close>

lemma ensure_default_idem [simp]:
  "ensure_default_security_policy (ensure_default_security_policy s) =
   ensure_default_security_policy s"
  by (simp add: ensure_default_security_policy_def default_policy_def)

lemma default_vhost_idem [simp]: "default_vhost (default_vhost v) = default_vhost v"
  by (simp add: default_vhost_def)

lemma default_probe_idem [simp]: "default_probe (default_probe p) = default_probe p"
  by (simp add: default_probe_def)

lemma default_backoff_idem [simp]: "default_backoff (default_backoff b) = default_backoff b"
  by (simp add: default_backoff_def)

lemma default_transport_idem [simp]:
  "default_transport (default_transport t) = default_transport t"
  by (simp add: default_transport_def)

lemma apply_health_checks_defaults_idem [simp]:
  "apply_health_checks_defaults (apply_health_checks_defaults c) =
   apply_health_checks_defaults c"
  by (simp add: apply_health_checks_defaults_def)

lemma default_timeouts_idem [simp]: "default_timeouts (default_timeouts t) = default_timeouts t"
  by (simp add: default_timeouts_def)

lemma apply_defaults_idem [simp]: "apply_defaults (apply_defaults c) = apply_defaults c"
  by (simp add: apply_defaults_def comp_def)

section \<open>Frame\<close>

lemma apply_defaults_Backends [simp]: "fc_Backends (apply_defaults c) = fc_Backends c"
  by (simp add: apply_defaults_def)

lemma apply_defaults_backend_list [simp]: "backend_list (apply_defaults c) = backend_list c"
  by (simp add: backend_list_def)

lemma default_vhost_simps [simp]:
  "vh_Domain (default_vhost v) = vh_Domain v"
  "vh_BackendIDs (default_vhost v) = vh_BackendIDs v"
  "vh_PathRoutes (default_vhost v) = vh_PathRoutes v"
  by (simp_all add: default_vhost_def)

lemma apply_defaults_VirtualHosts [simp]:
  "fc_VirtualHosts (apply_defaults c) = map default_vhost (fc_VirtualHosts c)"
  by (simp add: apply_defaults_def)

lemma apply_defaults_sections [simp]:
  "fc_HealthCheck (apply_defaults c) = apply_health_checks_defaults (fc_HealthCheck c)"
  "fc_Timeouts (apply_defaults c) = default_timeouts (fc_Timeouts c)"
  "fc_Security (apply_defaults c) = ensure_default_security_policy (fc_Security c)"
  by (simp_all add: apply_defaults_def)

lemma apply_defaults_policy:
  "\<exists>p \<in> set (sec_Policies (fc_Security (apply_defaults c))). sp_Id p = ''default''"
  by (auto simp: apply_defaults_def ensure_default_security_policy_def default_policy_def)

text \<open>A configuration is complete when the defaults have nothing to add.\<close>

definition defaults_applied :: "full_config \<Rightarrow> bool" where
  "defaults_applied c \<longleftrightarrow> apply_defaults c = c"

lemma defaults_applied_apply [simp]: "defaults_applied (apply_defaults c)"
  by (simp add: defaults_applied_def)

end
