(* ===== verification/ConfigValidator.thy ===== *)
theory ConfigValidator
  imports ConfigDefaults
begin

text \<open>
  \<open>internal/config/validator.go\<close>. \<open>validate\<close> follows the code: the sequence of checks,
  the loops over backends, policies and virtual hosts with the sets of identifiers they
  collect, and the message of every error. \<open>url_parse\<close> stands for \<open>net/url.Parse\<close> as
  the validator reads it: the scheme and the host of the result, \<open>None\<close> for an error.
  Beside it stands \<open>valid_config\<close>, what a valid configuration is without any loop or set,
  and the theorem that the validator accepts exactly those.
\<close>

type_synonym url_parser = "string \<Rightarrow> (string \<times> string) option"

section \<open>The validator\<close>

definition maxHealthWorkers :: int where "maxHealthWorkers = 1024"
definition minHealthIntervalMs :: int where "minHealthIntervalMs = 100"
definition maxHealthIntervalMs :: int where "maxHealthIntervalMs = 3600000"
definition maxHealthTimeoutMs :: int where "maxHealthTimeoutMs = 60000"

lemmas health_bounds =
  maxHealthWorkers_def minHealthIntervalMs_def maxHealthIntervalMs_def maxHealthTimeoutMs_def

text \<open>The body of the loop over the backends, before the two maps are updated.\<close>

definition check_backend_url :: "url_parser \<Rightarrow> backend_config \<Rightarrow> go_error option" where
  "check_backend_url url_parse b =
     (case url_parse (bc_URL b) of
        None \<Rightarrow> Some (''invalid backend URL: '' @ bc_URL b)
      | Some (scheme, host) \<Rightarrow>
          first_err
            [(scheme = '''' \<or> host = '''', ''invalid backend URL: '' @ bc_URL b),
             (scheme \<noteq> ''http'' \<and> scheme \<noteq> ''https'',
              ''unsupported backend URL scheme: '' @ scheme)])"

text \<open>
  The loop over the backends. Its state is the pair of maps \<open>backendIDs\<close>,
  \<open>backendURLs\<close> (their key sets) and the counter \<open>enabledBackends\<close>.
\<close>

fun validate_backends ::
  "url_parser \<Rightarrow> backend_config option list \<Rightarrow> string set \<Rightarrow> string set \<Rightarrow> nat
   \<Rightarrow> go_error + string set \<times> nat" where
  "validate_backends url_parse [] ids urls enabled = Inr (ids, enabled)"
| "validate_backends url_parse (None # bs) ids urls enabled =
     Inl ''backend config cannot be nil''"
| "validate_backends url_parse (Some b # bs) ids urls enabled =
     (case seq_err
        (first_err
          [(bc_Id b = '''', ''backend id cannot be empty''),
           (bc_URL b = '''', ''backend URL cannot be empty''),
           (has_prefix (bc_URL b) ''env:'',
            ''backend '' @ bc_Id b
              @ '' URL uses an unsupported env placeholder; use a concrete URL'')])
        (seq_err (check_backend_url url_parse b)
          (first_err
            [(bc_Id b \<in> ids, ''duplicate backend id: '' @ bc_Id b),
             (bc_URL b \<in> urls, ''duplicate backend URL: '' @ bc_URL b),
             (sint (bc_Weight b) \<le> 0,
              ''backend '' @ bc_URL b @ '' weight must be positive'')])) of
        Some e \<Rightarrow> Inl e
      | None \<Rightarrow>
          validate_backends url_parse bs (insert (bc_Id b) ids) (insert (bc_URL b) urls)
            (if bc_Enabled b then Suc enabled else enabled))"

definition check_rate_limiting :: "security_policy \<Rightarrow> go_error option" where
  "check_rate_limiting p =
     (let r = sp_RateLimiting p
      in if rl_Enabled r then
           first_err
             [(sint (rl_RatePerIP r) \<le> 0,
               ''rate_per_ip must be positive for security policy '' @ sp_Id p),
              (sint (rl_Burst r) \<le> 0,
               ''burst must be positive for security policy '' @ sp_Id p),
              (sint (rl_WindowSec r) \<le> 0,
               ''window_sec must be positive for security policy '' @ sp_Id p)]
         else None)"

fun validate_policies :: "security_policy list \<Rightarrow> string set \<Rightarrow> go_error + string set" where
  "validate_policies [] ids = Inr ids"
| "validate_policies (p # ps) ids =
     (case seq_err
        (first_err
          [(sp_Id p = '''', ''security policy id cannot be empty''),
           (sp_Id p \<in> ids, ''duplicate security policy id: '' @ sp_Id p)])
        (check_rate_limiting p) of
        Some e \<Rightarrow> Inl e
      | None \<Rightarrow> validate_policies ps (insert (sp_Id p) ids))"

definition validate_route ::
  "string set \<Rightarrow> virtual_host \<Rightarrow> path_route \<Rightarrow> go_error option" where
  "validate_route backendIDs v r =
     seq_err
       (first_err
         [(pr_Path r = '''',
           ''path route path cannot be empty for virtual host '' @ vh_Domain v),
          (\<not> has_prefix (pr_Path r) ''/'',
           ''path route '' @ pr_Path r @ '' on virtual host '' @ vh_Domain v
             @ '' must start with /''),
          (pr_BackendIDs r = [] \<and> vh_BackendIDs v = [],
           ''path route '' @ pr_Path r @ '' on virtual host '' @ vh_Domain v
             @ '' must define backend_ids when the virtual host has no default backends'')])
       (check_all (\<lambda>i. if i \<in> backendIDs then None
                       else Some (''path route '' @ pr_Path r @ '' on virtual host ''
                              @ vh_Domain v @ '' references unknown backend: '' @ i))
          (pr_BackendIDs r))"

fun validate_vhosts ::
  "string set \<Rightarrow> string set \<Rightarrow> virtual_host list \<Rightarrow> string set \<Rightarrow> go_error option" where
  "validate_vhosts backendIDs policyIDs [] domains = None"
| "validate_vhosts backendIDs policyIDs (v # vs) domains =
     seq_err
       (first_err
         [(vh_Domain v = '''', ''virtual host domain cannot be empty''),
          (vh_Domain v \<in> domains, ''duplicate virtual host domain: '' @ vh_Domain v),
          (vh_BackendIDs v = [] \<and> vh_PathRoutes v = [],
           ''virtual host '' @ vh_Domain v @ '' must define backends or path routes''),
          (vh_SecurityPolicyID v \<notin> policyIDs,
           ''virtual host '' @ vh_Domain v @ '' references unknown security policy: ''
             @ vh_SecurityPolicyID v)])
       (seq_err
         (check_all (\<lambda>i. if i \<in> backendIDs then None
                         else Some (''virtual host '' @ vh_Domain v
                                @ '' references unknown backend: '' @ i))
            (vh_BackendIDs v))
         (seq_err (check_all (validate_route backendIDs v) (vh_PathRoutes v))
            (validate_vhosts backendIDs policyIDs vs (insert (vh_Domain v) domains))))"

definition validate_health_check_config :: "health_check_config \<Rightarrow> go_error option" where
  "validate_health_check_config c =
     (if \<not> hcc_Enabled c then None
      else
        let p = hcc_Probe c; s = hcc_Schedule c; w = hcc_Concurrency c;
            th = hcc_Thresholds c; b = hr_Backoff (hcc_Recovery c); t = hcc_Transport c
        in seq_err
          (first_err
            [(hp_Type p = '''', ''health probe type cannot be empty''),
             (\<not> equal_fold (hp_Type p) ''http'',
              ''unsupported health probe type: '' @ hp_Type p),
             (hp_Path p = '''', ''health probe path cannot be empty''),
             (\<not> has_prefix (hp_Path p) ''/'', ''health probe path must start with /''),
             (hp_Method p = '''', ''health probe method cannot be empty''),
             (sint (hp_TimeoutMs p) \<le> 0, ''health probe timeout must be positive''),
             (sint (hp_TimeoutMs p) > maxHealthTimeoutMs,
              ''health probe timeout cannot exceed '' @ show_int maxHealthTimeoutMs @ ''ms''),
             (sint (hs_IntervalMs s) < minHealthIntervalMs,
              ''health check interval cannot be less than '' @ show_int minHealthIntervalMs
                @ ''ms''),
             (sint (hs_IntervalMs s) > maxHealthIntervalMs,
              ''health check interval cannot exceed '' @ show_int maxHealthIntervalMs @ ''ms''),
             (sint (hs_JitterMs s) < 0, ''health check jitter cannot be negative''),
             (sint (hs_JitterMs s) \<ge> sint (hs_IntervalMs s),
              ''health check jitter must be smaller than interval''),
             (sint (hc_Workers w) < 1, ''health check workers must be positive''),
             (sint (hc_Workers w) > maxHealthWorkers,
              ''health check workers cannot exceed '' @ show_int maxHealthWorkers),
             (sint (hc_QueueSize w) < sint (hc_Workers w),
              ''health check queue size must be >= workers''),
             (sint (ht_Healthy th) < 1, ''healthy threshold must be positive''),
             (sint (ht_Unhealthy th) < 1, ''unhealthy threshold must be positive''),
             (hp_SuccessCodes p = [], ''health probe success codes cannot be empty'')])
          (seq_err
            (check_all
              (\<lambda>code. if sint code < 100 \<or> sint code > 599
                      then Some (''invalid health probe success code: ''
                             @ show_int (sint code))
                      else None)
              (hp_SuccessCodes p))
            (seq_err
              (if hb_Enabled b then
                 first_err
                   [(sint (hb_InitialMs b) \<le> 0,
                     ''backoff initial duration must be positive''),
                    (sint (hb_MaxMs b) < sint (hb_InitialMs b),
                     ''backoff max duration must be >= initial duration''),
                    (f64_less (hb_Multiplier b) (Fin 1),
                     ''backoff multiplier must be >= 1'')]
               else None)
              (first_err
                [(sint (htr_MaxIdleConns t) < 1, ''max idle connections must be positive''),
                 (sint (htr_MaxIdleConnsPerHost t) < 1,
                  ''max idle connections per host must be positive''),
                 (sint (htr_MaxConnsPerHost t) < 1,
                  ''max connections per host must be positive''),
                 (sint (htr_KeepAliveMs t) \<le> 0,
                  ''keep alive duration must be positive'')]))))"

definition validate :: "url_parser \<Rightarrow> full_config option \<Rightarrow> go_error option" where
  "validate url_parse cfg =
     (case cfg of
        None \<Rightarrow> Some ''config cannot be nil''
      | Some c \<Rightarrow>
          let srv = fc_Server c; lg = fc_Logging c; t = fc_Timeouts c
          in seq_err
            (first_err
              [(sint (sc_ProxyPort srv) < 1 \<or> sint (sc_ProxyPort srv) > 65535,
                ''invalid proxy port: '' @ show_int (sint (sc_ProxyPort srv))),
               (sint (sc_AdminGrpcPort srv) < 1 \<or> sint (sc_AdminGrpcPort srv) > 65535,
                ''invalid admin grpc port: '' @ show_int (sint (sc_AdminGrpcPort srv))),
               (fc_Backends c = [], ''no backends configured'')])
            (case validate_backends url_parse (fc_Backends c) {} {} 0 of
               Inl e \<Rightarrow> Some e
             | Inr (backendIDs, enabledBackends) \<Rightarrow>
                 seq_err
                   (first_err
                     [(enabledBackends = 0, ''at least one backend must be enabled''),
                      (sint (lg_BufferSize lg) < 0, ''logging buffer size cannot be negative''),
                      (lg_Level lg \<noteq> '''' \<and>
                       to_lower (lg_Level lg)
                         \<notin> {''debug'', ''info'', ''warn'', ''error''},
                       ''invalid logging level: '' @ lg_Level lg),
                      (lbc_Strategy (fc_LoadBalancer c)
                         \<notin> {''least-connections'', ''adaptive''},
                       ''invalid load balancer strategy: ''
                         @ lbc_Strategy (fc_LoadBalancer c))])
                   (seq_err (validate_health_check_config (fc_HealthCheck c))
                     (if sint (tc_ConnectTimeoutMs t) \<le> 0 \<or> sint (tc_ResponseTimeoutMs t) \<le> 0
                         \<or> sint (tc_KeepAliveTimeoutMs t) \<le> 0 \<or> sint (tc_IdleConnTimeoutMs t) \<le> 0
                      then Some ''timeouts must be positive''
                      else
                        case validate_policies (sec_Policies (fc_Security c)) {} of
                          Inl e \<Rightarrow> Some e
                        | Inr policyIDs \<Rightarrow>
                            validate_vhosts backendIDs policyIDs (fc_VirtualHosts c) {}))))"

definition validate_config :: "url_parser \<Rightarrow> full_config option \<Rightarrow> go_error option" where
  "validate_config url_parse cfg = validate url_parse cfg"

section \<open>What a valid configuration is\<close>

definition valid_backend :: "url_parser \<Rightarrow> backend_config \<Rightarrow> bool" where
  "valid_backend url_parse b \<longleftrightarrow>
     bc_Id b \<noteq> '''' \<and> bc_URL b \<noteq> '''' \<and> \<not> has_prefix (bc_URL b) ''env:'' \<and>
     (\<exists>scheme host. url_parse (bc_URL b) = Some (scheme, host) \<and>
        scheme \<in> {''http'', ''https''} \<and> host \<noteq> '''') \<and>
     0 < sint (bc_Weight b)"

definition valid_policy :: "security_policy \<Rightarrow> bool" where
  "valid_policy p \<longleftrightarrow>
     sp_Id p \<noteq> '''' \<and>
     (rl_Enabled (sp_RateLimiting p) \<longrightarrow>
        0 < sint (rl_RatePerIP (sp_RateLimiting p)) \<and>
        0 < sint (rl_Burst (sp_RateLimiting p)) \<and>
        0 < sint (rl_WindowSec (sp_RateLimiting p)))"

definition valid_route :: "string set \<Rightarrow> virtual_host \<Rightarrow> path_route \<Rightarrow> bool" where
  "valid_route backendIDs v r \<longleftrightarrow>
     has_prefix (pr_Path r) ''/'' \<and>
     (pr_BackendIDs r \<noteq> [] \<or> vh_BackendIDs v \<noteq> []) \<and>
     set (pr_BackendIDs r) \<subseteq> backendIDs"

definition valid_vhost :: "string set \<Rightarrow> string set \<Rightarrow> virtual_host \<Rightarrow> bool" where
  "valid_vhost backendIDs policyIDs v \<longleftrightarrow>
     vh_Domain v \<noteq> '''' \<and>
     (vh_BackendIDs v \<noteq> [] \<or> vh_PathRoutes v \<noteq> []) \<and>
     vh_SecurityPolicyID v \<in> policyIDs \<and>
     set (vh_BackendIDs v) \<subseteq> backendIDs \<and>
     (\<forall>r \<in> set (vh_PathRoutes v). valid_route backendIDs v r)"

definition valid_health_check :: "health_check_config \<Rightarrow> bool" where
  "valid_health_check c \<longleftrightarrow>
     (hcc_Enabled c \<longrightarrow>
       (let p = hcc_Probe c; s = hcc_Schedule c; w = hcc_Concurrency c;
            th = hcc_Thresholds c; b = hr_Backoff (hcc_Recovery c); t = hcc_Transport c
        in equal_fold (hp_Type p) ''http'' \<and> has_prefix (hp_Path p) ''/'' \<and>
           hp_Method p \<noteq> '''' \<and>
           sint (hp_TimeoutMs p) \<in> {1 .. 60000} \<and>
           sint (hs_IntervalMs s) \<in> {100 .. 3600000} \<and>
           0 \<le> sint (hs_JitterMs s) \<and> sint (hs_JitterMs s) < sint (hs_IntervalMs s) \<and>
           sint (hc_Workers w) \<in> {1 .. 1024} \<and> sint (hc_Workers w) \<le> sint (hc_QueueSize w) \<and>
           1 \<le> sint (ht_Healthy th) \<and> 1 \<le> sint (ht_Unhealthy th) \<and>
           hp_SuccessCodes p \<noteq> [] \<and>
           (\<forall>code \<in> set (hp_SuccessCodes p). sint code \<in> {100 .. 599}) \<and>
           (hb_Enabled b \<longrightarrow>
              0 < sint (hb_InitialMs b) \<and> sint (hb_InitialMs b) \<le> sint (hb_MaxMs b) \<and>
              \<not> f64_less (hb_Multiplier b) (Fin 1)) \<and>
           1 \<le> sint (htr_MaxIdleConns t) \<and> 1 \<le> sint (htr_MaxIdleConnsPerHost t) \<and>
           1 \<le> sint (htr_MaxConnsPerHost t) \<and> 0 < sint (htr_KeepAliveMs t)))"

definition valid_timeouts :: "timeouts_config \<Rightarrow> bool" where
  "valid_timeouts t \<longleftrightarrow>
     0 < sint (tc_ConnectTimeoutMs t) \<and> 0 < sint (tc_ResponseTimeoutMs t) \<and>
     0 < sint (tc_KeepAliveTimeoutMs t) \<and> 0 < sint (tc_IdleConnTimeoutMs t)"

definition backend_ids :: "full_config \<Rightarrow> string set" where
  "backend_ids c = bc_Id ` set (backend_list c)"

definition policy_ids :: "full_config \<Rightarrow> string set" where
  "policy_ids c = sp_Id ` set (sec_Policies (fc_Security c))"

definition valid_config :: "url_parser \<Rightarrow> full_config \<Rightarrow> bool" where
  "valid_config url_parse c \<longleftrightarrow>
     sint (sc_ProxyPort (fc_Server c)) \<in> {1 .. 65535} \<and>
     sint (sc_AdminGrpcPort (fc_Server c)) \<in> {1 .. 65535} \<and>
     None \<notin> set (fc_Backends c) \<and>
     (\<forall>b \<in> set (backend_list c). valid_backend url_parse b) \<and>
     distinct (map bc_Id (backend_list c)) \<and>
     distinct (map bc_URL (backend_list c)) \<and>
     (\<exists>b \<in> set (backend_list c). bc_Enabled b) \<and>
     0 \<le> sint (lg_BufferSize (fc_Logging c)) \<and>
     (lg_Level (fc_Logging c) = '''' \<or>
      to_lower (lg_Level (fc_Logging c)) \<in> {''debug'', ''info'', ''warn'', ''error''}) \<and>
     lbc_Strategy (fc_LoadBalancer c) \<in> {''least-connections'', ''adaptive''} \<and>
     valid_health_check (fc_HealthCheck c) \<and>
     valid_timeouts (fc_Timeouts c) \<and>
     (\<forall>p \<in> set (sec_Policies (fc_Security c)). valid_policy p) \<and>
     distinct (map sp_Id (sec_Policies (fc_Security c))) \<and>
     (\<forall>v \<in> set (fc_VirtualHosts c). valid_vhost (backend_ids c) (policy_ids c) v) \<and>
     distinct (map vh_Domain (fc_VirtualHosts c))"

section \<open>The validator accepts exactly the valid configurations\<close>

lemma check_backend_url_None [err_simps]:
  "check_backend_url up b = None \<longleftrightarrow>
   (\<exists>scheme host. up (bc_URL b) = Some (scheme, host) \<and>
      scheme \<in> {''http'', ''https''} \<and> host \<noteq> '''')"
  by (auto simp: check_backend_url_def err_simps split: option.splits)

lemma validate_backends_Inr:
  "validate_backends up bs ids urls n = Inr (ids', m) \<longleftrightarrow>
   (let cs = non_nil bs
    in None \<notin> set bs \<and> (\<forall>b \<in> set cs. valid_backend up b) \<and>
       distinct (map bc_Id cs) \<and> distinct (map bc_URL cs) \<and>
       bc_Id ` set cs \<inter> ids = {} \<and> bc_URL ` set cs \<inter> urls = {} \<and>
       ids' = ids \<union> bc_Id ` set cs \<and> m = n + length (filter bc_Enabled cs))"
proof (induction up bs ids urls n rule: validate_backends.induct)
  case (1 up ids urls n)
  then show ?case by auto
next
  case (2 up bs ids urls n)
  then show ?case by simp
next
  case (3 up b bs ids urls n)
  let ?g = "seq_err
        (first_err
          [(bc_Id b = '''', ''backend id cannot be empty''),
           (bc_URL b = '''', ''backend URL cannot be empty''),
           (has_prefix (bc_URL b) ''env:'',
            ''backend '' @ bc_Id b
              @ '' URL uses an unsupported env placeholder; use a concrete URL'')])
        (seq_err (check_backend_url up b)
          (first_err
            [(bc_Id b \<in> ids, ''duplicate backend id: '' @ bc_Id b),
             (bc_URL b \<in> urls, ''duplicate backend URL: '' @ bc_URL b),
             (sint (bc_Weight b) \<le> 0,
              ''backend '' @ bc_URL b @ '' weight must be positive'')]))"
  have g: "?g = None \<longleftrightarrow> valid_backend up b \<and> bc_Id b \<notin> ids \<and> bc_URL b \<notin> urls"
    unfolding seq_err_None first_err_None check_backend_url_None valid_backend_def by force
  show ?case
  proof (cases "?g")
    case None
    note IH = "3" [OF None]
    from None g have v: "valid_backend up b" "bc_Id b \<notin> ids" "bc_URL b \<notin> urls" by auto
    show ?thesis
      unfolding validate_backends.simps None option.simps IH Let_def
      using v by auto
  next
    case (Some e)
    with g have "\<not> (valid_backend up b \<and> bc_Id b \<notin> ids \<and> bc_URL b \<notin> urls)" by simp
    with Some show ?thesis
      unfolding validate_backends.simps Some option.simps Let_def
      by auto
  qed
qed

lemma check_rate_limiting_None [err_simps]:
  "sp_Id p \<noteq> '''' \<Longrightarrow> check_rate_limiting p = None \<longleftrightarrow> valid_policy p"
  by (auto simp: check_rate_limiting_def valid_policy_def Let_def err_simps)

lemma validate_policies_Inr:
  "validate_policies ps ids = Inr ids' \<longleftrightarrow>
   (\<forall>p \<in> set ps. valid_policy p) \<and> distinct (map sp_Id ps) \<and> sp_Id ` set ps \<inter> ids = {} \<and>
   ids' = ids \<union> sp_Id ` set ps"
proof (induction ps arbitrary: ids)
  case Nil
  then show ?case by auto
next
  case (Cons p ps)
  let ?g = "seq_err
        (first_err
          [(sp_Id p = '''', ''security policy id cannot be empty''),
           (sp_Id p \<in> ids, ''duplicate security policy id: '' @ sp_Id p)])
        (check_rate_limiting p)"
  have g: "?g = None \<longleftrightarrow> valid_policy p \<and> sp_Id p \<notin> ids"
    unfolding seq_err_None first_err_None
    by (auto simp: check_rate_limiting_None valid_policy_def)
  show ?case
  proof (cases "?g")
    case None
    with g show ?thesis
      unfolding validate_policies.simps None option.simps Cons.IH by auto
  next
    case (Some e)
    with g show ?thesis
      unfolding validate_policies.simps Some option.simps by auto
  qed
qed

lemma validate_route_None [err_simps]:
  "validate_route ids v r = None \<longleftrightarrow> valid_route ids v r"
  by (auto simp: validate_route_def valid_route_def err_simps has_prefix_def split: if_splits)

lemma validate_vhosts_None:
  "validate_vhosts ids pols vs doms = None \<longleftrightarrow>
   (\<forall>v \<in> set vs. valid_vhost ids pols v) \<and> distinct (map vh_Domain vs) \<and>
   vh_Domain ` set vs \<inter> doms = {}"
proof (induction vs arbitrary: doms)
  case Nil
  then show ?case by simp
next
  case (Cons v vs)
  show ?case
    unfolding validate_vhosts.simps seq_err_None first_err_None check_all_None Cons.IH
      validate_route_None
    by (auto simp: valid_vhost_def split: if_splits)
qed

lemma validate_health_check_None [err_simps]:
  "validate_health_check_config c = None \<longleftrightarrow> valid_health_check c"
proof (cases "hcc_Enabled c")
  case True
  have "has_prefix s ''/'' \<Longrightarrow> s \<noteq> ''''" for s by (auto simp: has_prefix_def)
  moreover have "equal_fold s ''http'' \<Longrightarrow> s \<noteq> ''''" for s by (auto simp: equal_fold_def)
  ultimately show ?thesis
    using True
    unfolding validate_health_check_config_def valid_health_check_def Let_def health_bounds
    by (simp add: err_simps if_bool_eq_conj) (auto split: if_splits)
qed (simp add: validate_health_check_config_def valid_health_check_def)

lemma validate_config_None:
  "validate_config url_parse (Some c) = None \<longleftrightarrow> valid_config url_parse c"
proof -
  let ?bs = "validate_backends url_parse (fc_Backends c) {} {} 0"
  let ?ps = "validate_policies (sec_Policies (fc_Security c)) {}"
  have ports: "\<not> (i < 1 \<or> i > 65535) \<longleftrightarrow> i \<in> {1 .. 65535}" for i :: int by auto
  show ?thesis
  proof (cases "?bs")
    case (Inl e)
    have "\<not> (valid_config url_parse c)"
    proof
      assume "valid_config url_parse c"
      then have "validate_backends url_parse (fc_Backends c) {} {} 0 =
          Inr (backend_ids c, length (filter bc_Enabled (backend_list c)))"
        unfolding validate_backends_Inr Let_def valid_config_def backend_ids_def backend_list_def
        by auto
      with Inl show False by simp
    qed
    with Inl show ?thesis
      by (simp add: validate_config_def validate_def Let_def err_simps)
  next
    case (Inr r)
    obtain ids n where r: "r = (ids, n)" by (cases r)
    from Inr [unfolded r] have bs: "None \<notin> set (fc_Backends c)"
      "\<forall>b \<in> set (backend_list c). valid_backend url_parse b"
      "distinct (map bc_Id (backend_list c))" "distinct (map bc_URL (backend_list c))"
      "ids = backend_ids c" "n = length (filter bc_Enabled (backend_list c))"
      unfolding validate_backends_Inr Let_def backend_ids_def backend_list_def by auto
    have ne: "fc_Backends c \<noteq> []" if "\<exists>b \<in> set (backend_list c). bc_Enabled b"
      using that by auto
    have n0: "n \<noteq> 0 \<longleftrightarrow> (\<exists>b \<in> set (backend_list c). bc_Enabled b)"
      unfolding bs(6) by (auto simp: filter_empty_conv)
    have ps: "?ps = Inr pols \<longleftrightarrow>
        (\<forall>p \<in> set (sec_Policies (fc_Security c)). valid_policy p) \<and>
        distinct (map sp_Id (sec_Policies (fc_Security c))) \<and> pols = policy_ids c" for pols
      unfolding validate_policies_Inr policy_ids_def by auto
    show ?thesis
    proof (cases "?ps")
      case (Inl e)
      have "\<not> valid_config url_parse c"
      proof
        assume "valid_config url_parse c"
        then have "?ps = Inr (policy_ids c)" unfolding ps valid_config_def by simp
        with Inl show False by simp
      qed
      with Inr r Inl show ?thesis
        by (simp add: validate_config_def validate_def Let_def err_simps)
    next
      case (Inr pols)
      note pols = Inr [unfolded ps]
      show ?thesis
        unfolding validate_config_def validate_def option.simps Let_def \<open>?bs = Inr r\<close> r
          sum.simps prod.simps Inr seq_err_None first_err_None
          validate_health_check_None if_bool_eq_conj validate_vhosts_None
        unfolding valid_config_def valid_timeouts_def bs(5) ports
        using bs pols n0
        by (simp add: linorder_not_le linorder_not_less validate_vhosts_None) (use ne in blast)
    qed
  qed
qed

section \<open>What validity gives\<close>

text \<open>The conjuncts of validity that the components rely on, so that no proof has to unfold
  \<open>valid_config\<close>.\<close>

lemma valid_configD:
  assumes "valid_config up c"
  shows vc_no_nil: "None \<notin> set (fc_Backends c)"
    and vc_backend: "b \<in> set (backend_list c) \<Longrightarrow> valid_backend up b"
    and vc_ids: "distinct (map bc_Id (backend_list c))"
    and vc_urls: "distinct (map bc_URL (backend_list c))"
    and vc_enabled: "\<exists>b \<in> set (backend_list c). bc_Enabled b"
    and vc_strategy: "lbc_Strategy (fc_LoadBalancer c) \<in> {''least-connections'', ''adaptive''}"
    and vc_health: "valid_health_check (fc_HealthCheck c)"
    and vc_timeouts: "valid_timeouts (fc_Timeouts c)"
    and vc_policy: "p \<in> set (sec_Policies (fc_Security c)) \<Longrightarrow> valid_policy p"
    and vc_policy_ids: "distinct (map sp_Id (sec_Policies (fc_Security c)))"
    and vc_vhost: "v \<in> set (fc_VirtualHosts c) \<Longrightarrow> valid_vhost (backend_ids c) (policy_ids c) v"
    and vc_domains: "distinct (map vh_Domain (fc_VirtualHosts c))"
  using assms unfolding valid_config_def by blast+

lemma valid_vhost_refs:
  assumes "valid_vhost ids pols v"
    and "i \<in> set (vh_BackendIDs v) \<or> (\<exists>r \<in> set (vh_PathRoutes v). i \<in> set (pr_BackendIDs r))"
  shows "i \<in> ids"
  using assms unfolding valid_vhost_def valid_route_def by blast

text \<open>C8: the validator of the configuration reports no error on a configuration exactly
  when the configuration is valid: ports in range, backends with distinct non-empty ids, distinct
  absolute http(s) URLs and positive weights of which one is enabled, health-check settings in
  their ranges when health checks are on, distinct policies, and virtual hosts with distinct
  domains that refer to existing policies and backends only.\<close>

theorem validate_config_iff:
  "validate_config url_parse (Some c) = None \<longleftrightarrow> valid_config url_parse c"
  by (rule validate_config_None)

end
