(* ===== verification/ConfigSnapshot.thy ===== *)
theory ConfigSnapshot
  imports ConfigValidator
begin

text \<open>
  \<open>internal/config/snapshot.go\<close>: the read-only view that a configuration is published as,
  with its three indexes. An index is the map that the code's loop builds: later entries
  overwrite earlier ones. Main facts: on a configuration with distinct keys the indexes find
  exactly its backends, policies and virtual hosts.
\<close>

record snapshot =
  sn_Raw :: full_config
  sn_BackendsById :: "string \<rightharpoonup> backend_config"
  sn_PoliciesById :: "string \<rightharpoonup> security_policy"
  sn_VHostsByDomain :: "string \<rightharpoonup> virtual_host"

text \<open>\<open>for _, x := range xs { m[key(x)] = x }\<close>\<close>

fun index_by :: "('a \<Rightarrow> string) \<Rightarrow> 'a list \<Rightarrow> (string \<rightharpoonup> 'a) \<Rightarrow> (string \<rightharpoonup> 'a)" where
  "index_by k [] m = m"
| "index_by k (x # xs) m = index_by k xs (m(k x \<mapsto> x))"

fun index_backends ::
  "backend_config option list \<Rightarrow> (string \<rightharpoonup> backend_config) \<Rightarrow> (string \<rightharpoonup> backend_config)" where
  "index_backends [] m = m"
| "index_backends (None # bs) m = index_backends bs m"
| "index_backends (Some b # bs) m = index_backends bs (m(bc_Id b \<mapsto> b))"

definition build_snapshot :: "full_config \<Rightarrow> snapshot" where
  "build_snapshot cfg =
     \<lparr>sn_Raw = cfg,
      sn_BackendsById = index_backends (fc_Backends cfg) Map.empty,
      sn_PoliciesById = index_by sp_Id (sec_Policies (fc_Security cfg)) Map.empty,
      sn_VHostsByDomain = index_by vh_Domain (fc_VirtualHosts cfg) Map.empty\<rparr>"

lemma index_backends_eq: "index_backends bs m = index_by bc_Id (non_nil bs) m"
  by (induction bs m rule: index_backends.induct) (simp_all del: fun_upd_apply)

lemma index_by_notin: "key \<notin> k ` set xs \<Longrightarrow> index_by k xs m key = m key"
  by (induction xs arbitrary: m) auto

lemma index_by_distinct:
  "distinct (map k xs) \<Longrightarrow> k ` set xs \<inter> dom m = {} \<Longrightarrow>
   index_by k xs m key = Some y \<longleftrightarrow> (y \<in> set xs \<and> k y = key) \<or> m key = Some y"
proof (induction xs arbitrary: m)
  case Nil
  then show ?case by simp
next
  case (Cons x xs)
  have "k ` set xs \<inter> dom (m(k x \<mapsto> x)) = {}" using Cons.prems by auto
  with Cons show ?case by auto
qed

lemma dom_index_by: "dom (index_by k xs m) = dom m \<union> k ` set xs"
  by (induction xs arbitrary: m) auto

lemma index_by_Some: "index_by k xs m key = Some y \<Longrightarrow> (y \<in> set xs \<and> k y = key) \<or> m key = Some y"
  by (induction xs arbitrary: m) (force split: if_splits)+

lemma build_snapshot_Raw [simp]: "sn_Raw (build_snapshot c) = c"
  by (simp add: build_snapshot_def)

lemma snapshot_backend_iff:
  "distinct (map bc_Id (backend_list c)) \<Longrightarrow>
   sn_BackendsById (build_snapshot c) i = Some b \<longleftrightarrow> b \<in> set (backend_list c) \<and> bc_Id b = i"
  by (simp add: build_snapshot_def index_backends_eq index_by_distinct backend_list_def)

lemma snapshot_backend_None:
  "sn_BackendsById (build_snapshot c) i = None \<longleftrightarrow> i \<notin> backend_ids c"
proof -
  have "dom (sn_BackendsById (build_snapshot c)) = backend_ids c"
    by (simp add: build_snapshot_def index_backends_eq dom_index_by backend_ids_def backend_list_def)
  then show ?thesis by blast
qed

lemma snapshot_backend_Some:
  "sn_BackendsById (build_snapshot c) i = Some b \<Longrightarrow> b \<in> set (backend_list c) \<and> bc_Id b = i"
  by (auto simp: build_snapshot_def index_backends_eq backend_list_def dest!: index_by_Some)

lemma snapshot_policy_iff:
  "distinct (map sp_Id (sec_Policies (fc_Security c))) \<Longrightarrow>
   sn_PoliciesById (build_snapshot c) i = Some p \<longleftrightarrow>
   p \<in> set (sec_Policies (fc_Security c)) \<and> sp_Id p = i"
  by (simp add: build_snapshot_def index_by_distinct)

lemma snapshot_vhost_iff:
  "distinct (map vh_Domain (fc_VirtualHosts c)) \<Longrightarrow>
   sn_VHostsByDomain (build_snapshot c) d = Some v \<longleftrightarrow>
   v \<in> set (fc_VirtualHosts c) \<and> vh_Domain v = d"
  by (simp add: build_snapshot_def index_by_distinct)

text \<open>In the snapshot of a valid configuration every reference of a virtual host resolves.\<close>

lemma snapshot_vhost_policy:
  assumes "valid_config up c" and "sn_VHostsByDomain (build_snapshot c) d = Some v"
  shows "\<exists>p. sn_PoliciesById (build_snapshot c) (vh_SecurityPolicyID v) = Some p"
proof -
  from assms have "v \<in> set (fc_VirtualHosts c)"
    by (simp add: snapshot_vhost_iff vc_domains)
  with assms(1) have "vh_SecurityPolicyID v \<in> policy_ids c"
    using vc_vhost valid_vhost_def by blast
  with assms(1) show ?thesis
    by (auto simp: policy_ids_def snapshot_policy_iff vc_policy_ids)
qed

lemma snapshot_vhost_backends:
  assumes "valid_config up c" and "v \<in> set (fc_VirtualHosts c)"
    and "i \<in> set (vh_BackendIDs v) \<or> (\<exists>r \<in> set (vh_PathRoutes v). i \<in> set (pr_BackendIDs r))"
  shows "\<exists>b. sn_BackendsById (build_snapshot c) i = Some b"
proof -
  from assms have "i \<in> backend_ids c"
    using vc_vhost valid_vhost_refs by blast
  then show ?thesis using snapshot_backend_None by fastforce
qed

end
