(* ===== verification/ConfigStore.thy ===== *)
theory ConfigStore
  imports ConfigSnapshot
begin

text \<open>
  \<open>internal/config/store.go\<close> and \<open>clone.go\<close>: loading, saving and cloning a
  configuration. The file system is a map from paths to contents. \<open>encoding/json\<close> and
  \<open>net/url\<close> are the parameters of the record \<open>env\<close>; whether a write or a rename of
  the operating system succeeds is an input (\<open>io\<close>) of every save. Main fact: a crash at
  any moment of a save leaves the configuration file with its old or its complete new contents.
\<close>

section \<open>The environment\<close>

record env =
  env_url_parse :: url_parser
  env_marshal :: "full_config \<Rightarrow> go_error + string"
  env_marshal_indent :: "full_config \<Rightarrow> go_error + string"
  env_unmarshal :: "string \<Rightarrow> go_error + full_config"

type_synonym fs = "string \<rightharpoonup> string"

text \<open>
  What \<open>os.WriteFile\<close> and \<open>os.Rename\<close> can do: succeed, fail before the file is
  touched, or fail after some bytes have been written.
\<close>

datatype write_outcome = Write_ok | Write_open_err go_error | Write_short nat go_error
datatype rename_outcome = Rename_ok | Rename_err go_error

record io =
  io_write :: write_outcome
  io_rename :: rename_outcome

section \<open>Load, save, clone\<close>

definition load_config :: "env \<Rightarrow> fs \<Rightarrow> string \<Rightarrow> go_error + full_config" where
  "load_config E fs path =
     (case fs path of
        None \<Rightarrow> Inl (''open '' @ path @ '': no such file or directory'')
      | Some data \<Rightarrow>
          (case env_unmarshal E data of
             Inl e \<Rightarrow> Inl e
           | Inr cfg \<Rightarrow> Inr (apply_defaults cfg)))"

definition tmp_path :: "string \<Rightarrow> string" where
  "tmp_path path = path @ ''.tmp''"

definition save_config ::
  "env \<Rightarrow> io \<Rightarrow> string \<Rightarrow> full_config \<Rightarrow> fs \<Rightarrow> fs \<times> go_error option" where
  "save_config E io path cfg fs =
     (case env_marshal_indent E cfg of
        Inl e \<Rightarrow> (fs, Some e)
      | Inr data \<Rightarrow>
          (case io_write io of
             Write_open_err e \<Rightarrow> (fs, Some e)
           | Write_short n e \<Rightarrow> (fs(tmp_path path \<mapsto> take n data), Some e)
           | Write_ok \<Rightarrow>
               (case io_rename io of
                  Rename_err e \<Rightarrow> (fs(tmp_path path \<mapsto> data), Some e)
                | Rename_ok \<Rightarrow> ((fs(tmp_path path := None))(path \<mapsto> data), None))))"

definition clone_full_config ::
  "env \<Rightarrow> full_config option \<Rightarrow> go_error + full_config option" where
  "clone_full_config E cfg =
     (case cfg of
        None \<Rightarrow> Inr None
      | Some c \<Rightarrow>
          (case env_marshal E c of
             Inl e \<Rightarrow> Inl e
           | Inr data \<Rightarrow>
               (case env_unmarshal E data of Inl e \<Rightarrow> Inl e | Inr c' \<Rightarrow> Inr (Some c'))))"

text \<open>\<open>FileStore\<close> is its path; \<open>Load\<close> and \<open>Save\<close> delegate.\<close>

record file_store =
  fstore_path :: string

definition NewFileStore :: "string \<Rightarrow> file_store" where
  "NewFileStore path = \<lparr>fstore_path = path\<rparr>"

definition filestore_Load :: "env \<Rightarrow> file_store \<Rightarrow> fs \<Rightarrow> go_error + full_config" where
  "filestore_Load E st fs = load_config E fs (fstore_path st)"

definition filestore_Save ::
  "env \<Rightarrow> io \<Rightarrow> file_store \<Rightarrow> full_config \<Rightarrow> fs \<Rightarrow> fs \<times> go_error option" where
  "filestore_Save E io st cfg fs = save_config E io (fstore_path st) cfg fs"

text \<open>
  The documented round trip of \<open>encoding/json\<close> on a configuration: what is marshalled,
  with or without indentation, unmarshals to the same value.
\<close>

definition json_roundtrip :: "env \<Rightarrow> bool" where
  "json_roundtrip E \<longleftrightarrow>
     (\<forall>c d. env_marshal E c = Inr d \<or> env_marshal_indent E c = Inr d \<longrightarrow>
            env_unmarshal E d = Inr c)"

lemma json_roundtripD:
  "json_roundtrip E \<Longrightarrow> env_marshal E c = Inr d \<Longrightarrow> env_unmarshal E d = Inr c"
  "json_roundtrip E \<Longrightarrow> env_marshal_indent E c = Inr d \<Longrightarrow> env_unmarshal E d = Inr c"
  by (auto simp: json_roundtrip_def)

lemma clone_roundtrip:
  "json_roundtrip E \<Longrightarrow> clone_full_config E (Some c) = Inr r \<Longrightarrow> r = Some c"
  by (auto simp: clone_full_config_def json_roundtripD split: sum.splits)

section \<open>Saving is atomic\<close>

text \<open>The primitive file operations of a save, and the file systems a crash can leave.\<close>

datatype fs_op = WriteFile string string | Rename string string

fun fs_exec :: "fs_op \<Rightarrow> fs \<Rightarrow> fs" where
  "fs_exec (WriteFile p d) fs = fs(p \<mapsto> d)"
| "fs_exec (Rename p q) fs = (case fs p of None \<Rightarrow> fs | Some d \<Rightarrow> (fs(p := None))(q \<mapsto> d))"

definition save_ops :: "string \<Rightarrow> string \<Rightarrow> fs_op list" where
  "save_ops path data = [WriteFile (tmp_path path) data, Rename (tmp_path path) path]"

text \<open>
  A crash happens between two operations, or within a write, which then leaves some prefix of
  the new contents. A rename is atomic.
\<close>

inductive crash_state :: "fs_op list \<Rightarrow> fs \<Rightarrow> fs \<Rightarrow> bool" where
  crash_now: "crash_state ops fs fs"
| crash_torn: "crash_state (WriteFile p d # ops) fs (fs(p \<mapsto> take n d))"
| crash_later: "crash_state ops (fs_exec op fs) fs' \<Longrightarrow> crash_state (op # ops) fs fs'"

inductive_cases crash_Nil: "crash_state [] fs fs'"
inductive_cases crash_Write: "crash_state (WriteFile p d # ops) fs fs'"
inductive_cases crash_Rename: "crash_state (Rename p q # ops) fs fs'"

lemma tmp_path_neq [simp]: "tmp_path path \<noteq> path" "path \<noteq> tmp_path path"
  by (simp_all add: tmp_path_def)

lemma crash_save_cases:
  assumes "crash_state (save_ops path data) fs fs'"
  shows "fs' = fs \<or> (\<exists>n. fs' = fs(tmp_path path \<mapsto> take n data)) \<or>
         fs' = (fs(tmp_path path := None))(path \<mapsto> data)"
proof -
  consider "fs' = fs" | n where "fs' = fs(tmp_path path \<mapsto> take n data)"
    | "crash_state [Rename (tmp_path path) path] (fs(tmp_path path \<mapsto> data)) fs'"
    using assms unfolding save_ops_def by (auto elim: crash_Write)
  then show ?thesis
  proof cases
    case 3
    then have "fs' = fs(tmp_path path \<mapsto> data) \<or>
        crash_state [] ((fs(tmp_path path := None))(path \<mapsto> data)) fs'"
      by (auto elim!: crash_Rename)
    then show ?thesis
      by (metis crash_Nil order_refl take_all)
  qed blast+
qed

lemma save_config_fs_cases:
  "save_config E io path cfg fs = (fs', r) \<Longrightarrow>
   (\<exists>data. env_marshal_indent E cfg = Inr data \<and> crash_state (save_ops path data) fs fs') \<or>
   (fs' = fs \<and> r \<noteq> None)"
proof -
  assume s: "save_config E io path cfg fs = (fs', r)"
  show ?thesis
  proof (cases "env_marshal_indent E cfg")
    case (Inl e)
    with s show ?thesis by (auto simp: save_config_def)
  next
    case (Inr data)
    have ok: "crash_state (save_ops path data) fs (fs(tmp_path path \<mapsto> data))"
      using crash_torn [of "tmp_path path" data _ fs "length data"]
      by (simp add: save_ops_def)
    have fin: "crash_state (save_ops path data) fs ((fs(tmp_path path := None))(path \<mapsto> data))"
      unfolding save_ops_def
      by (intro crash_later) (simp add: crash_now)
    show ?thesis
      using s Inr ok fin
      by (auto simp: save_config_def save_ops_def crash_torn crash_now
               split: write_outcome.splits rename_outcome.splits)
  qed
qed

lemma save_config_ok:
  "save_config E io path cfg fs = (fs', None) \<Longrightarrow>
   \<exists>data. env_marshal_indent E cfg = Inr data \<and> fs' path = Some data"
  by (auto simp: save_config_def split: sum.splits write_outcome.splits rename_outcome.splits)

lemma save_config_err:
  "save_config E io path cfg fs = (fs', Some e) \<Longrightarrow> fs' path = fs path"
  by (auto simp: save_config_def split: sum.splits write_outcome.splits rename_outcome.splits)

text \<open>Only the configuration file and its temporary sibling are ever touched.\<close>

lemma save_config_frame:
  "save_config E io path cfg fs = (fs', r) \<Longrightarrow> p \<noteq> path \<Longrightarrow> p \<noteq> tmp_path path \<Longrightarrow> fs' p = fs p"
  by (auto simp: save_config_def split: sum.splits write_outcome.splits rename_outcome.splits)

lemma load_config_applied: "load_config E fs path = Inr c \<Longrightarrow> defaults_applied c"
  by (auto simp: load_config_def split: option.splits sum.splits)

text \<open>Saving a configuration is atomic for the configuration file. Whether the save
  returns, fails at the write or at the rename, or the process dies at any point of it (even in
  the middle of writing), the file at the configured path holds its old contents or the complete
  new encoding, and no file but it and its temporary sibling has changed.\<close>

theorem save_config_atomic:
  assumes "save_config E io path cfg fs = (fs', r) \<or>
           (env_marshal_indent E cfg = Inr data \<and> crash_state (save_ops path data) fs fs')"
  shows "(fs' path = fs path \<or>
          (\<exists>d. env_marshal_indent E cfg = Inr d \<and> fs' path = Some d)) \<and>
         (\<forall>p. p \<noteq> path \<and> p \<noteq> tmp_path path \<longrightarrow> fs' p = fs p)"
proof -
  from assms consider "fs' = fs"
    | d where "env_marshal_indent E cfg = Inr d" "crash_state (save_ops path d) fs fs'"
    using save_config_fs_cases by blast
  then show ?thesis
  proof cases
    case 2
    from crash_save_cases [OF 2(2)] show ?thesis
      by (elim disjE exE) (simp_all add: 2(1))
  qed simp
qed

text \<open>A saved configuration is what the next load returns.\<close>

lemma save_load:
  assumes "json_roundtrip E" and "save_config E io path cfg fs = (fs', None)"
    and "defaults_applied cfg"
  shows "load_config E fs' path = Inr cfg"
proof -
  from save_config_ok [OF assms(2)] obtain data where
    "env_marshal_indent E cfg = Inr data" "fs' path = Some data" by blast
  then show ?thesis
    using assms(1,3) by (simp add: load_config_def json_roundtripD defaults_applied_def)
qed

end
