(* ===== verification/ConfigService.thy ===== *)
theory ConfigService
  imports ConfigStore
begin

text \<open>
  \<open>internal/config/service.go\<close>: the owner of the configuration. Its state is the path, the
  current configuration and the published snapshot; it reads and writes the file system. Every
  public operation holds the mutex from start to end, so an operation is one function on
  (service, file system). A mutator is the function literal that an operation hands to
  \<open>update\<close>: it turns the cloned configuration into the next one or fails. Main facts: the
  service invariant with durability, failure atomicity, and what each operation changes.
\<close>

record service =
  svc_path :: string
  svc_current :: full_config
  svc_snapshot :: snapshot

type_synonym mutator = "full_config \<Rightarrow> go_error + full_config"
type_synonym svc_result = "go_error option \<times> service \<times> fs"

section \<open>Construction and reading\<close>

definition NewService :: "env \<Rightarrow> fs \<Rightarrow> string \<Rightarrow> go_error + service" where
  "NewService E fs path =
     (if path = '''' then Inl ''config path is required''
      else
        case load_config E fs path of
          Inl e \<Rightarrow> Inl e
        | Inr cfg \<Rightarrow>
            (case validate_config (env_url_parse E) (Some cfg) of
               Some e \<Rightarrow> Inl e
             | None \<Rightarrow>
                 Inr \<lparr>svc_path = path, svc_current = cfg, svc_snapshot = build_snapshot cfg\<rparr>))"

definition svc_Config :: "env \<Rightarrow> service \<Rightarrow> go_error + full_config option" where
  "svc_Config E s = clone_full_config E (Some (svc_current s))"

definition svc_Snapshot :: "service \<Rightarrow> snapshot" where
  "svc_Snapshot s = svc_snapshot s"

fun find_backend :: "string \<Rightarrow> backend_config option list \<Rightarrow> backend_config option" where
  "find_backend i [] = None"
| "find_backend i (ob # bs) =
     (case ob of
        None \<Rightarrow> find_backend i bs
      | Some b \<Rightarrow> if bc_Id b = i then Some b else find_backend i bs)"

definition svc_GetBackend :: "service \<Rightarrow> string \<Rightarrow> backend_config option" where
  "svc_GetBackend s i = find_backend i (fc_Backends (svc_current s))"

section \<open>Applying and updating\<close>

definition applyLocked :: "env \<Rightarrow> io \<Rightarrow> full_config \<Rightarrow> service \<Rightarrow> fs \<Rightarrow> svc_result" where
  "applyLocked E io cfg s fs =
     (let cfg' = apply_defaults cfg
      in case validate_config (env_url_parse E) (Some cfg') of
           Some e \<Rightarrow> (Some e, s, fs)
         | None \<Rightarrow>
             (case save_config E io (svc_path s) cfg' fs of
                (fs', Some e) \<Rightarrow> (Some e, s, fs')
              | (fs', None) \<Rightarrow>
                  (None, s\<lparr>svc_current := cfg', svc_snapshot := build_snapshot cfg'\<rparr>, fs')))"

text \<open>The current configuration is never nil, so neither is its clone.\<close>

definition svc_update :: "env \<Rightarrow> io \<Rightarrow> mutator \<Rightarrow> service \<Rightarrow> fs \<Rightarrow> svc_result" where
  "svc_update E io mutate s fs =
     (case clone_full_config E (Some (svc_current s)) of
        Inl e \<Rightarrow> (Some e, s, fs)
      | Inr None \<Rightarrow> (Some ''invalid memory address or nil pointer dereference'', s, fs)
      | Inr (Some cfg) \<Rightarrow>
          (case mutate cfg of
             Inl e \<Rightarrow> (Some e, s, fs)
           | Inr cfg' \<Rightarrow> applyLocked E io cfg' s fs))"

definition svc_Replace :: "env \<Rightarrow> io \<Rightarrow> full_config option \<Rightarrow> service \<Rightarrow> fs \<Rightarrow> svc_result" where
  "svc_Replace E io cfg s fs =
     (case cfg of
        None \<Rightarrow> (Some ''config cannot be nil'', s, fs)
      | Some c \<Rightarrow> applyLocked E io c s fs)"

section \<open>Backends\<close>

definition add_backend :: "backend_config \<Rightarrow> mutator" where
  "add_backend nb cfg =
     (case check_all
        (\<lambda>ob. case ob of
                None \<Rightarrow> None
              | Some b \<Rightarrow> first_err
                  [(bc_Id b = bc_Id nb, ''backend already exists: '' @ bc_Id nb),
                   (bc_URL b = bc_URL nb, ''backend url already exists: '' @ bc_URL nb)])
        (fc_Backends cfg) of
        Some e \<Rightarrow> Inl e
      | None \<Rightarrow> Inr (cfg\<lparr>fc_Backends := fc_Backends cfg @ [Some nb]\<rparr>))"

definition svc_AddBackend :: "env \<Rightarrow> io \<Rightarrow> backend_config \<Rightarrow> service \<Rightarrow> fs \<Rightarrow> svc_result" where
  "svc_AddBackend E io nb s fs =
     (if bc_Id nb = '''' then (Some ''backend id cannot be empty'', s, fs)
      else if bc_URL nb = '''' then (Some ''backend url cannot be empty'', s, fs)
      else svc_update E io (add_backend nb) s fs)"

text \<open>The test of the loops that look for a backend: \<open>b != nil && b.Id == id\<close>.\<close>

definition is_backend :: "string \<Rightarrow> backend_config option \<Rightarrow> bool" where
  "is_backend i ob = (case ob of None \<Rightarrow> False | Some b \<Rightarrow> bc_Id b = i)"

definition edit_backend ::
  "string \<Rightarrow> int32 \<Rightarrow> bool \<Rightarrow> backend_config option \<Rightarrow> backend_config option" where
  "edit_backend url weight enabled =
     map_option (\<lambda>b. b\<lparr>bc_URL := (if url \<noteq> '''' then url else bc_URL b),
                        bc_Weight := weight, bc_Enabled := enabled\<rparr>)"

definition update_backend :: "string \<Rightarrow> string \<Rightarrow> int32 \<Rightarrow> bool \<Rightarrow> mutator" where
  "update_backend i url weight enabled cfg =
     (case update_first (is_backend i) (edit_backend url weight enabled) (fc_Backends cfg) of
        None \<Rightarrow> Inl (''backend does not exist in config: '' @ i)
      | Some bs \<Rightarrow> Inr (cfg\<lparr>fc_Backends := bs\<rparr>))"

definition svc_UpdateBackend ::
  "env \<Rightarrow> io \<Rightarrow> string \<Rightarrow> string \<Rightarrow> int32 \<Rightarrow> bool \<Rightarrow> service \<Rightarrow> fs \<Rightarrow> svc_result" where
  "svc_UpdateBackend E io i url weight enabled s fs =
     (if i = '''' then (Some ''backend id cannot be empty'', s, fs)
      else svc_update E io (update_backend i url weight enabled) s fs)"

fun removeString :: "string list \<Rightarrow> string \<Rightarrow> string list" where
  "removeString [] target = []"
| "removeString (item # items) target =
     (if item \<noteq> target then item # removeString items target else removeString items target)"

definition drop_backend_refs :: "string \<Rightarrow> virtual_host \<Rightarrow> virtual_host" where
  "drop_backend_refs i v =
     v\<lparr>vh_BackendIDs := removeString (vh_BackendIDs v) i,
       vh_PathRoutes :=
         map (\<lambda>r. r\<lparr>pr_BackendIDs := removeString (pr_BackendIDs r) i\<rparr>) (vh_PathRoutes v)\<rparr>"

definition remove_backend :: "string \<Rightarrow> mutator" where
  "remove_backend i cfg =
     (case remove_first (is_backend i) (fc_Backends cfg) of
        None \<Rightarrow> Inl (''backend does not exist in config: '' @ i)
      | Some bs \<Rightarrow>
          Inr (cfg\<lparr>fc_Backends := bs,
                   fc_VirtualHosts := map (drop_backend_refs i) (fc_VirtualHosts cfg)\<rparr>))"

definition svc_RemoveBackend :: "env \<Rightarrow> io \<Rightarrow> string \<Rightarrow> service \<Rightarrow> fs \<Rightarrow> svc_result" where
  "svc_RemoveBackend E io i s fs =
     (if i = '''' then (Some ''backend id cannot be empty'', s, fs)
      else svc_update E io (remove_backend i) s fs)"

section \<open>Virtual hosts\<close>

definition add_virtual_host :: "virtual_host \<Rightarrow> mutator" where
  "add_virtual_host v cfg =
     (case check_all
        (\<lambda>w. if vh_Domain w = vh_Domain v
             then Some (''virtual host already exists: '' @ vh_Domain v) else None)
        (fc_VirtualHosts cfg) of
        Some e \<Rightarrow> Inl e
      | None \<Rightarrow>
          Inr (cfg\<lparr>fc_VirtualHosts := fc_VirtualHosts cfg
                     @ [if vh_SecurityPolicyID v = ''''
                        then v\<lparr>vh_SecurityPolicyID := ''default''\<rparr> else v]\<rparr>))"

definition svc_AddVirtualHost :: "env \<Rightarrow> io \<Rightarrow> virtual_host \<Rightarrow> service \<Rightarrow> fs \<Rightarrow> svc_result" where
  "svc_AddVirtualHost E io v s fs =
     (if vh_Domain v = '''' then (Some ''virtual host domain cannot be empty'', s, fs)
      else svc_update E io (add_virtual_host v) s fs)"

text \<open>An empty policy is inherited from the host that is replaced, else it is the default.\<close>

definition replace_virtual_host :: "string \<Rightarrow> virtual_host \<Rightarrow> virtual_host \<Rightarrow> virtual_host" where
  "replace_virtual_host domain v old =
     (let p = (if vh_SecurityPolicyID v = '''' then vh_SecurityPolicyID old
               else vh_SecurityPolicyID v)
      in v\<lparr>vh_SecurityPolicyID := (if p = '''' then ''default'' else p), vh_Domain := domain\<rparr>)"

definition update_virtual_host :: "string \<Rightarrow> virtual_host \<Rightarrow> mutator" where
  "update_virtual_host domain v cfg =
     (case update_first (\<lambda>w. vh_Domain w = domain) (replace_virtual_host domain v)
             (fc_VirtualHosts cfg) of
        None \<Rightarrow> Inl (''virtual host does not exist in config: '' @ domain)
      | Some vs \<Rightarrow> Inr (cfg\<lparr>fc_VirtualHosts := vs\<rparr>))"

definition svc_UpdateVirtualHost ::
  "env \<Rightarrow> io \<Rightarrow> string \<Rightarrow> virtual_host \<Rightarrow> service \<Rightarrow> fs \<Rightarrow> svc_result" where
  "svc_UpdateVirtualHost E io domain v s fs =
     (if domain = '''' then (Some ''virtual host domain cannot be empty'', s, fs)
      else svc_update E io (update_virtual_host domain v) s fs)"

definition remove_virtual_host :: "string \<Rightarrow> mutator" where
  "remove_virtual_host domain cfg =
     (case remove_first (\<lambda>w. vh_Domain w = domain) (fc_VirtualHosts cfg) of
        None \<Rightarrow> Inl (''virtual host does not exist in config: '' @ domain)
      | Some vs \<Rightarrow> Inr (cfg\<lparr>fc_VirtualHosts := vs\<rparr>))"

definition svc_RemoveVirtualHost :: "env \<Rightarrow> io \<Rightarrow> string \<Rightarrow> service \<Rightarrow> fs \<Rightarrow> svc_result" where
  "svc_RemoveVirtualHost E io domain s fs =
     (if domain = '''' then (Some ''virtual host domain cannot be empty'', s, fs)
      else svc_update E io (remove_virtual_host domain) s fs)"

definition set_vhost_policy :: "string \<Rightarrow> string \<Rightarrow> mutator" where
  "set_vhost_policy domain policyID cfg =
     (case update_first (\<lambda>w. vh_Domain w = domain) (vh_SecurityPolicyID_update (\<lambda>_. policyID))
             (fc_VirtualHosts cfg) of
        None \<Rightarrow> Inl (''virtual host does not exist in config: '' @ domain)
      | Some vs \<Rightarrow> Inr (cfg\<lparr>fc_VirtualHosts := vs\<rparr>))"

definition svc_SetVirtualHostSecurityPolicy ::
  "env \<Rightarrow> io \<Rightarrow> string \<Rightarrow> string \<Rightarrow> service \<Rightarrow> fs \<Rightarrow> svc_result" where
  "svc_SetVirtualHostSecurityPolicy E io domain policyID s fs =
     (if domain = '''' then (Some ''virtual host domain cannot be empty'', s, fs)
      else if policyID = '''' then (Some ''security policy id cannot be empty'', s, fs)
      else svc_update E io (set_vhost_policy domain policyID) s fs)"

section \<open>Server, policies and load balancer\<close>

definition update_server :: "goint \<Rightarrow> goint \<Rightarrow> mutator" where
  "update_server proxyPort adminGrpcPort cfg =
     Inr (cfg\<lparr>fc_Server :=
                \<lparr>sc_ProxyPort = (if proxyPort \<noteq> 0 then proxyPort else sc_ProxyPort (fc_Server cfg)),
                 sc_AdminGrpcPort =
                   (if adminGrpcPort \<noteq> 0 then adminGrpcPort
                    else sc_AdminGrpcPort (fc_Server cfg))\<rparr>\<rparr>)"

definition svc_UpdateServer :: "env \<Rightarrow> io \<Rightarrow> goint \<Rightarrow> goint \<Rightarrow> service \<Rightarrow> fs \<Rightarrow> svc_result" where
  "svc_UpdateServer E io proxyPort adminGrpcPort s fs =
     svc_update E io (update_server proxyPort adminGrpcPort) s fs"

definition upsert_policy :: "security_policy \<Rightarrow> mutator" where
  "upsert_policy p cfg =
     (case update_first (\<lambda>q. sp_Id q = sp_Id p) (\<lambda>_. p) (sec_Policies (fc_Security cfg)) of
        Some ps \<Rightarrow> Inr (cfg\<lparr>fc_Security := \<lparr>sec_Policies = ps\<rparr>\<rparr>)
      | None \<Rightarrow>
          Inr (cfg\<lparr>fc_Security := \<lparr>sec_Policies = sec_Policies (fc_Security cfg) @ [p]\<rparr>\<rparr>))"

definition svc_UpsertPolicy :: "env \<Rightarrow> io \<Rightarrow> security_policy \<Rightarrow> service \<Rightarrow> fs \<Rightarrow> svc_result" where
  "svc_UpsertPolicy E io p s fs =
     (if sp_Id p = '''' then (Some ''security policy id cannot be empty'', s, fs)
      else svc_update E io (upsert_policy p) s fs)"

definition update_load_balancer :: "string \<Rightarrow> mutator" where
  "update_load_balancer strategy cfg =
     Inr (cfg\<lparr>fc_LoadBalancer := (fc_LoadBalancer cfg)\<lparr>lbc_Strategy := strategy\<rparr>\<rparr>)"

definition svc_UpdateLoadBalancer :: "env \<Rightarrow> io \<Rightarrow> string \<Rightarrow> service \<Rightarrow> fs \<Rightarrow> svc_result" where
  "svc_UpdateLoadBalancer E io strategy s fs =
     (if strategy = '''' then (Some ''load balancer strategy cannot be empty'', s, fs)
      else svc_update E io (update_load_balancer strategy) s fs)"

section \<open>The contract of the mutators\<close>

text \<open>
  The runtime keeps parts that it builds once from a configuration (transport, health manager,
  logger). It relies on every single edit leaving those sections alone; only \<open>Replace\<close>
  changes them. The contract of an edit, what follows for an update by it, and its
  interpretation for each mutator.
\<close>

definition same_sections :: "full_config \<Rightarrow> full_config \<Rightarrow> bool" where
  "same_sections c c' \<longleftrightarrow>
     fc_Timeouts c' = fc_Timeouts c \<and> fc_HealthCheck c' = fc_HealthCheck c \<and>
     fc_Logging c' = fc_Logging c"

lemma same_sections_defaults:
  "same_sections c c' \<Longrightarrow> defaults_applied c \<Longrightarrow> same_sections c (apply_defaults c')"
proof -
  assume same: "same_sections c c'" and "defaults_applied c"
  then have c: "apply_defaults c = c" by (simp add: defaults_applied_def)
  have "same_sections (apply_defaults c) (apply_defaults c')"
    using same by (simp add: same_sections_def apply_defaults_def)
  then show ?thesis unfolding c .
qed

lemma applyLocked_cases:
  assumes "applyLocked E io c s fs = (r, s', fs')"
  obtains (ok) "r = None" "valid_config (env_url_parse E) (apply_defaults c)"
      "save_config E io (svc_path s) (apply_defaults c) fs = (fs', None)"
      "s' = s\<lparr>svc_current := apply_defaults c,
             svc_snapshot := build_snapshot (apply_defaults c)\<rparr>"
    | (invalid) e where "r = Some e" "s' = s" "fs' = fs"
      "validate_config (env_url_parse E) (Some (apply_defaults c)) = Some e"
    | (unsaved) e where "r = Some e" "s' = s"
      "save_config E io (svc_path s) (apply_defaults c) fs = (fs', Some e)"
proof (cases "validate_config (env_url_parse E) (Some (apply_defaults c))")
  case None
  obtain fs1 r1 where sv: "save_config E io (svc_path s) (apply_defaults c) fs = (fs1, r1)"
    by fastforce
  from None have v: "valid_config (env_url_parse E) (apply_defaults c)"
    by (simp add: validate_config_None)
  show thesis
  proof (cases r1)
    case None
    with assms sv \<open>validate_config _ _ = None\<close> show thesis
      by (intro ok) (auto simp: applyLocked_def v Let_def)
  next
    case (Some e)
    with assms sv \<open>validate_config _ _ = None\<close> show thesis
      by (intro unsaved [of e]) (auto simp: applyLocked_def Let_def)
  qed
next
  case (Some e)
  with assms show thesis by (intro invalid [of e]) (auto simp: applyLocked_def Let_def)
qed

lemma svc_update_cases:
  assumes "json_roundtrip E" and "svc_update E io m s fs = (r, s', fs')"
  obtains (ok) c where "r = None" "m (svc_current s) = Inr c"
      "valid_config (env_url_parse E) (apply_defaults c)"
      "save_config E io (svc_path s) (apply_defaults c) fs = (fs', None)"
      "s' = s\<lparr>svc_current := apply_defaults c,
             svc_snapshot := build_snapshot (apply_defaults c)\<rparr>"
    | (failed) e where "r = Some e" "s' = s" "fs' (svc_path s) = fs (svc_path s)"
proof (cases "clone_full_config E (Some (svc_current s))")
  case (Inl e)
  with assms(2) show thesis by (intro failed [of e]) (auto simp: svc_update_def)
next
  case (Inr oc)
  with clone_roundtrip [OF assms(1)] have oc: "oc = Some (svc_current s)" by simp
  show thesis
  proof (cases "m (svc_current s)")
    case (Inl e)
    with assms(2) Inr oc show thesis
      by (intro failed [of e]) (auto simp: svc_update_def)
  next
    case m: (Inr c)
    with assms(2) Inr oc have "applyLocked E io c s fs = (r, s', fs')"
      by (simp add: svc_update_def)
    then show thesis
      by (cases rule: applyLocked_cases) (auto intro: ok [OF _ m] failed save_config_err)
  qed
qed

locale section_edit =
  fixes mutate :: mutator
  assumes keeps: "mutate c = Inr c' \<Longrightarrow> same_sections c c'"
begin

lemma update_keeps_sections:
  assumes "json_roundtrip E" and "defaults_applied (svc_current s)"
    and "svc_update E io mutate s fs = (r, s', fs')"
  shows "same_sections (svc_current s) (svc_current s')"
  using assms(1,3)
proof (cases rule: svc_update_cases)
  case (ok c)
  then show ?thesis
    using keeps same_sections_defaults assms(2) by simp
next
  case failed
  then show ?thesis by (simp add: same_sections_def)
qed

end

interpretation add_backend: section_edit "add_backend b" for b
  by unfold_locales (auto simp: add_backend_def same_sections_def split: option.splits)

interpretation update_backend: section_edit "update_backend i u w en" for i u w en
  by unfold_locales (auto simp: update_backend_def same_sections_def split: option.splits)

interpretation remove_backend: section_edit "remove_backend i" for i
  by unfold_locales (auto simp: remove_backend_def same_sections_def split: option.splits)

interpretation add_virtual_host: section_edit "add_virtual_host v" for v
  by unfold_locales (auto simp: add_virtual_host_def same_sections_def split: option.splits)

interpretation update_virtual_host: section_edit "update_virtual_host d v" for d v
  by unfold_locales (auto simp: update_virtual_host_def same_sections_def split: option.splits)

interpretation remove_virtual_host: section_edit "remove_virtual_host d" for d
  by unfold_locales (auto simp: remove_virtual_host_def same_sections_def split: option.splits)

interpretation set_vhost_policy: section_edit "set_vhost_policy d p" for d p
  by unfold_locales (auto simp: set_vhost_policy_def same_sections_def split: option.splits)

interpretation update_server: section_edit "update_server p a" for p a
  by unfold_locales (auto simp: update_server_def same_sections_def)

interpretation upsert_policy: section_edit "upsert_policy p" for p
  by unfold_locales (auto simp: upsert_policy_def same_sections_def split: option.splits)

interpretation update_load_balancer: section_edit "update_load_balancer st" for st
  by unfold_locales (auto simp: update_load_balancer_def same_sections_def)

section \<open>Runs of the service\<close>

text \<open>The operations of the service that change state, with their arguments.\<close>

datatype svc_op =
    Op_Replace "full_config option"
  | Op_AddBackend backend_config
  | Op_UpdateBackend string string int32 bool
  | Op_RemoveBackend string
  | Op_AddVirtualHost virtual_host
  | Op_UpdateVirtualHost string virtual_host
  | Op_RemoveVirtualHost string
  | Op_SetVirtualHostSecurityPolicy string string
  | Op_UpdateServer goint goint
  | Op_UpsertPolicy security_policy
  | Op_UpdateLoadBalancer string

fun svc_exec :: "env \<Rightarrow> io \<Rightarrow> svc_op \<Rightarrow> service \<Rightarrow> fs \<Rightarrow> svc_result" where
  "svc_exec E io (Op_Replace c) = svc_Replace E io c"
| "svc_exec E io (Op_AddBackend b) = svc_AddBackend E io b"
| "svc_exec E io (Op_UpdateBackend i u w en) = svc_UpdateBackend E io i u w en"
| "svc_exec E io (Op_RemoveBackend i) = svc_RemoveBackend E io i"
| "svc_exec E io (Op_AddVirtualHost v) = svc_AddVirtualHost E io v"
| "svc_exec E io (Op_UpdateVirtualHost d v) = svc_UpdateVirtualHost E io d v"
| "svc_exec E io (Op_RemoveVirtualHost d) = svc_RemoveVirtualHost E io d"
| "svc_exec E io (Op_SetVirtualHostSecurityPolicy d p) =
     svc_SetVirtualHostSecurityPolicy E io d p"
| "svc_exec E io (Op_UpdateServer p a) = svc_UpdateServer E io p a"
| "svc_exec E io (Op_UpsertPolicy p) = svc_UpsertPolicy E io p"
| "svc_exec E io (Op_UpdateLoadBalancer st) = svc_UpdateLoadBalancer E io st"

text \<open>
  The states of a service that was started on a path: after its construction, after any
  operation with any outcome of its system calls, and after other processes have changed any
  file but the configuration.
\<close>

inductive svc_reach :: "env \<Rightarrow> string \<Rightarrow> service \<Rightarrow> fs \<Rightarrow> bool" for E path where
  reach_new: "NewService E fs path = Inr s \<Longrightarrow> svc_reach E path s fs"
| reach_op: "svc_reach E path s fs \<Longrightarrow> svc_exec E io op s fs = (r, s', fs') \<Longrightarrow>
    svc_reach E path s' fs'"
| reach_env: "svc_reach E path s fs \<Longrightarrow> fs' path = fs path \<Longrightarrow> svc_reach E path s fs'"

definition svc_inv :: "env \<Rightarrow> string \<Rightarrow> service \<Rightarrow> fs \<Rightarrow> bool" where
  "svc_inv E path s fs \<longleftrightarrow>
     svc_path s = path \<and>
     valid_config (env_url_parse E) (svc_current s) \<and>
     defaults_applied (svc_current s) \<and>
     svc_snapshot s = build_snapshot (svc_current s) \<and>
     load_config E fs path = Inr (svc_current s)"

lemma svc_invD:
  assumes "svc_inv E path s fs"
  shows inv_path: "svc_path s = path"
    and inv_valid: "valid_config (env_url_parse E) (svc_current s)"
    and inv_defaults: "defaults_applied (svc_current s)"
    and inv_snapshot: "svc_snapshot s = build_snapshot (svc_current s)"
    and inv_durable: "load_config E fs path = Inr (svc_current s)"
  using assms by (simp_all add: svc_inv_def)

text \<open>Every operation is one of three things: an early failure, an edit of the current
  configuration, or a replacement of it.\<close>

lemma svc_exec_cases:
  assumes "json_roundtrip E" and "svc_exec E io op s fs = (r, s', fs')"
  obtains (ok) c where "r = None" "valid_config (env_url_parse E) (apply_defaults c)"
      "save_config E io (svc_path s) (apply_defaults c) fs = (fs', None)"
      "s' = s\<lparr>svc_current := apply_defaults c,
             svc_snapshot := build_snapshot (apply_defaults c)\<rparr>"
    | (failed) e where "r = Some e" "s' = s" "fs' (svc_path s) = fs (svc_path s)"
proof -
  have upd: thesis if "svc_update E io m s fs = (r, s', fs')" for m
    using assms(1) that by (cases rule: svc_update_cases) (auto intro: ok failed)
  have apl: thesis if "applyLocked E io c s fs = (r, s', fs')" for c
    using that by (cases rule: applyLocked_cases) (auto intro: ok failed save_config_err)
  note ops = svc_Replace_def svc_AddBackend_def svc_UpdateBackend_def svc_RemoveBackend_def
    svc_AddVirtualHost_def svc_UpdateVirtualHost_def svc_RemoveVirtualHost_def
    svc_SetVirtualHostSecurityPolicy_def svc_UpdateServer_def svc_UpsertPolicy_def
    svc_UpdateLoadBalancer_def
  from assms(2) show thesis
    by (cases op) (auto simp: ops split: if_splits option.splits intro: upd apl failed)
qed

lemma svc_inv_new: "NewService E fs path = Inr s \<Longrightarrow> svc_inv E path s fs"
  by (auto simp: NewService_def svc_inv_def validate_config_None
           split: if_splits sum.splits option.splits dest: load_config_applied)

lemma svc_inv_op:
  assumes rt: "json_roundtrip E" and inv: "svc_inv E path s fs"
    and "svc_exec E io op s fs = (r, s', fs')"
  shows "svc_inv E path s' fs'"
  using rt assms(3)
proof (cases rule: svc_exec_cases)
  case (ok c)
  then show ?thesis
    using save_load [OF rt] inv_path [OF inv] by (simp add: svc_inv_def)
next
  case (failed e)
  then show ?thesis using inv by (simp add: svc_inv_def load_config_def)
qed

lemma svc_reach_inv:
  "svc_reach E path s fs \<Longrightarrow> json_roundtrip E \<Longrightarrow> svc_inv E path s fs"
proof (induction rule: svc_reach.induct)
  case reach_new
  then show ?case using svc_inv_new by blast
next
  case reach_op
  then show ?case using svc_inv_op by blast
next
  case reach_env
  then show ?case by (simp add: svc_inv_def load_config_def)
qed

end
