(* ===== verification/ConfigSample.thy ===== *)
theory ConfigSample
  imports ConfigStore
begin

text \<open>
  A concrete instance for the witnesses: the configuration of \<open>configs/config.json\<close>, a
  parser for the URLs that occur in it, and a JSON codec for a finite table of configurations
  (it refuses the others, which the contract \<open>json_roundtrip\<close> allows).
\<close>

definition backend_1 :: backend_config where
  "backend_1 = \<lparr>bc_Id = ''backend-1'', bc_URL = ''http://backend-a:3000'',
                bc_Weight = 1, bc_Enabled = True\<rparr>"

definition backend_2 :: backend_config where
  "backend_2 = \<lparr>bc_Id = ''backend-2'', bc_URL = ''http://backend-b:3000'',
                bc_Weight = 1, bc_Enabled = True\<rparr>"

definition sample_policy :: security_policy where
  "sample_policy = \<lparr>sp_Id = ''default'',
     sp_RateLimiting = \<lparr>rl_Enabled = False, rl_RatePerIP = 100, rl_Burst = 50, rl_WindowSec = 60\<rparr>\<rparr>"

definition sample_vhost :: virtual_host where
  "sample_vhost = \<lparr>vh_Domain = ''app.example.local'', vh_BackendIDs = [''backend-1'', ''backend-2''],
     vh_SecurityPolicyID = ''default'', vh_PathRoutes = []\<rparr>"

definition sample_health_check :: health_check_config where
  "sample_health_check =
     \<lparr>hcc_Enabled = True,
      hcc_Probe = \<lparr>hp_Type = ''http'', hp_Path = ''/health'', hp_Method = ''GET'',
                   hp_TimeoutMs = 1000, hp_SuccessCodes = [200]\<rparr>,
      hcc_Schedule = \<lparr>hs_IntervalMs = 2000, hs_JitterMs = 500\<rparr>,
      hcc_Concurrency = \<lparr>hc_Workers = 16, hc_QueueSize = 64\<rparr>,
      hcc_Thresholds = \<lparr>ht_Healthy = 1, ht_Unhealthy = 3\<rparr>,
      hcc_Recovery = \<lparr>hr_Backoff = \<lparr>hb_Enabled = False, hb_InitialMs = 5000,
                                      hb_MaxMs = 30000, hb_Multiplier = Fin 2\<rparr>\<rparr>,
      hcc_Transport = \<lparr>htr_MaxIdleConns = 100, htr_MaxIdleConnsPerHost = 4,
                       htr_MaxConnsPerHost = 16, htr_KeepAliveMs = 30000\<rparr>,
      hcc_Passive = \<lparr>ph_Enabled = False\<rparr>\<rparr>"

definition sample_config :: full_config where
  "sample_config =
     \<lparr>fc_Server = \<lparr>sc_ProxyPort = 8080, sc_AdminGrpcPort = 50051\<rparr>,
      fc_LoadBalancer = \<lparr>lbc_Strategy = ''least-connections''\<rparr>,
      fc_Backends = [Some backend_1, Some backend_2],
      fc_HealthCheck = sample_health_check,
      fc_Timeouts = \<lparr>tc_ConnectTimeoutMs = 30000, tc_ResponseTimeoutMs = 30000,
                     tc_KeepAliveTimeoutMs = 30000, tc_IdleConnTimeoutMs = 90000\<rparr>,
      fc_Security = \<lparr>sec_Policies = [sample_policy]\<rparr>,
      fc_VirtualHosts = [sample_vhost],
      fc_Logging = \<lparr>lg_Enabled = True, lg_Level = ''info'', lg_Async = True, lg_BufferSize = 65536\<rparr>\<rparr>"

lemmas sample_defs =
  backend_1_def backend_2_def sample_policy_def sample_vhost_def sample_health_check_def
  sample_config_def

text \<open>Absolute \<open>http\<close> URLs only.\<close>

definition sample_url_parse :: url_parser where
  "sample_url_parse u =
     (if has_prefix u ''http://'' then Some (''http'', drop 7 u) else None)"

text \<open>The table codec: the document of a configuration is its position, in unary.\<close>

fun position :: "'a \<Rightarrow> 'a list \<Rightarrow> nat option" where
  "position x [] = None"
| "position x (y # ys) = (if x = y then Some 0 else map_option Suc (position x ys))"

lemma position_nth: "position x xs = Some n \<Longrightarrow> n < length xs \<and> xs ! n = x"
  by (induction xs arbitrary: n) (auto split: if_splits)

definition table_env :: "full_config list \<Rightarrow> env" where
  "table_env cs =
     (let enc = (\<lambda>c. case position c cs of
                        None \<Rightarrow> Inl ''json: unsupported value''
                      | Some n \<Rightarrow> Inr (replicate n CHR ''x''))
      in \<lparr>env_url_parse = sample_url_parse, env_marshal = enc, env_marshal_indent = enc,
          env_unmarshal = (\<lambda>d. if length d < length cs then Inr (cs ! length d)
                                else Inl ''unexpected end of JSON input'')\<rparr>)"

lemma table_env_roundtrip [simp]: "json_roundtrip (table_env cs)"
  by (auto simp: json_roundtrip_def table_env_def Let_def split: option.splits
           dest!: position_nth)

lemma table_env_url_parse [simp]: "env_url_parse (table_env cs) = sample_url_parse"
  by (simp add: table_env_def Let_def)

definition io_ok :: io where
  "io_ok = \<lparr>io_write = Write_ok, io_rename = Rename_ok\<rparr>"

lemma sample_sel [simp]:
  "fc_Backends sample_config = [Some backend_1, Some backend_2]"
  "backend_list sample_config = [backend_1, backend_2]"
  "fc_VirtualHosts sample_config = [sample_vhost]"
  "fc_Security sample_config = \<lparr>sec_Policies = [sample_policy]\<rparr>"
  "fc_HealthCheck sample_config = sample_health_check"
  "backend_ids sample_config = {''backend-1'', ''backend-2''}"
  "policy_ids sample_config = {''default''}"
  by (auto simp: sample_defs backend_list_def backend_ids_def policy_ids_def)

lemma sample_fields [simp]:
  "bc_Id backend_1 = ''backend-1''" "bc_URL backend_1 = ''http://backend-a:3000''"
  "bc_Weight backend_1 = 1" "bc_Enabled backend_1"
  "bc_Id backend_2 = ''backend-2''" "bc_URL backend_2 = ''http://backend-b:3000''"
  "bc_Weight backend_2 = 1" "bc_Enabled backend_2"
  "sp_Id sample_policy = ''default''" "\<not> rl_Enabled (sp_RateLimiting sample_policy)"
  "vh_Domain sample_vhost = ''app.example.local''"
  "vh_BackendIDs sample_vhost = [''backend-1'', ''backend-2'']"
  "vh_SecurityPolicyID sample_vhost = ''default''" "vh_PathRoutes sample_vhost = []"
  by (simp_all add: sample_defs)

lemma sample_config_valid [simp]: "valid_config sample_url_parse sample_config"
proof -
  have "valid_health_check sample_health_check"
    by (simp add: valid_health_check_def sample_health_check_def has_prefix_def)
  moreover have "valid_backend sample_url_parse backend_1" "valid_backend sample_url_parse backend_2"
    by (simp_all add: valid_backend_def sample_url_parse_def has_prefix_def)
  moreover have "valid_policy sample_policy" "valid_vhost {''backend-1'', ''backend-2''} {''default''} sample_vhost"
    by (simp_all add: valid_policy_def valid_vhost_def)
  moreover have "to_lower ''info'' = ''info''" by code_simp
  ultimately show ?thesis
    unfolding valid_config_def
    by simp (simp add: sample_config_def valid_timeouts_def)
qed

lemma sample_defaults [simp]: "defaults_applied sample_config"
  unfolding defaults_applied_def by (simp add: sample_defs apply_defaults_def
      apply_health_checks_defaults_def default_probe_def default_backoff_def
      default_transport_def default_timeouts_def or_default_def
      ensure_default_security_policy_def default_vhost_def)

lemma sample_apply_defaults [simp]: "apply_defaults sample_config = sample_config"
  using sample_defaults by (simp add: defaults_applied_def)

section \<open>A running service\<close>

text \<open>The same configuration without \<open>backend-1\<close>.\<close>

definition sample_removed :: full_config where
  "sample_removed = sample_config\<lparr>fc_Backends := [Some backend_2],
     fc_VirtualHosts := [sample_vhost\<lparr>vh_BackendIDs := [''backend-2'']\<rparr>]\<rparr>"

definition sample_env :: env where
  "sample_env = table_env [sample_config, sample_removed]"

definition sample_path :: string where
  "sample_path = ''config.json''"

definition sample_fs :: fs where
  "sample_fs = [sample_path \<mapsto> '''']"

lemma sample_env_simps [simp]:
  "json_roundtrip sample_env" "env_url_parse sample_env = sample_url_parse"
  by (simp_all add: sample_env_def)

lemma sample_removed_neq [simp]: "sample_removed \<noteq> sample_config"
proof
  assume "sample_removed = sample_config"
  then have "fc_Backends sample_removed = fc_Backends sample_config" by simp
  then show False by (simp add: sample_removed_def)
qed

lemma sample_marshal [simp]:
  "env_marshal sample_env sample_config = Inr ''''"
  "env_marshal_indent sample_env sample_removed = Inr ''x''"
  "env_unmarshal sample_env '''' = Inr sample_config"
  by (simp_all add: sample_env_def table_env_def Let_def)

lemma sample_removed_sel [simp]:
  "backend_list sample_removed = [backend_2]"
  "fc_Backends sample_removed = [Some backend_2]"
  "backend_ids sample_removed = {''backend-2''}"
  "policy_ids sample_removed = {''default''}"
  "fc_VirtualHosts sample_removed = [sample_vhost\<lparr>vh_BackendIDs := [''backend-2'']\<rparr>]"
  "fc_Security sample_removed = fc_Security sample_config"
  "fc_HealthCheck sample_removed = fc_HealthCheck sample_config"
  "fc_Server sample_removed = fc_Server sample_config"
  "fc_Logging sample_removed = fc_Logging sample_config"
  "fc_LoadBalancer sample_removed = fc_LoadBalancer sample_config"
  "fc_Timeouts sample_removed = fc_Timeouts sample_config"
  by (simp_all add: sample_removed_def backend_list_def backend_ids_def policy_ids_def)

lemma sample_removed_valid [simp]: "valid_config sample_url_parse sample_removed"
proof -
  have "valid_vhost {''backend-2''} {''default''} (sample_vhost\<lparr>vh_BackendIDs := [''backend-2'']\<rparr>)"
    by (simp add: valid_vhost_def)
  then show ?thesis
    using sample_config_valid unfolding valid_config_def by (simp del: sample_config_valid)
qed

lemma sample_removed_defaults [simp]: "apply_defaults sample_removed = sample_removed"
proof -
  have "apply_defaults sample_removed = (apply_defaults sample_config)
      \<lparr>fc_Backends := [Some backend_2],
       fc_VirtualHosts := [default_vhost (sample_vhost\<lparr>vh_BackendIDs := [''backend-2'']\<rparr>)]\<rparr>"
    by (simp add: sample_removed_def apply_defaults_def)
  also have "default_vhost (sample_vhost\<lparr>vh_BackendIDs := [''backend-2'']\<rparr>) =
      sample_vhost\<lparr>vh_BackendIDs := [''backend-2'']\<rparr>"
    by (simp add: default_vhost_def or_default_def)
  finally show ?thesis by (simp add: sample_removed_def)
qed

text \<open>A crash in the middle of writing the shorter document: the configuration file is intact.\<close>

theorem save_config_atomic_witness:
  "(sample_fs(tmp_path sample_path \<mapsto> take 0 ''x'')) sample_path \<in> {Some '''', Some ''x''} \<and>
   (sample_fs(tmp_path sample_path \<mapsto> take 0 ''x'')) ''other.json'' = None"
proof -
  have crash: "env_marshal_indent sample_env sample_removed = Inr ''x'' \<and>
      crash_state (save_ops sample_path ''x'') sample_fs
        (sample_fs(tmp_path sample_path \<mapsto> take 0 ''x''))"
    unfolding save_ops_def by (simp add: crash_torn del: take0 take.simps)
  have "''other.json'' \<noteq> sample_path" "''other.json'' \<noteq> tmp_path sample_path"
    by (simp_all add: sample_path_def tmp_path_def)
  with save_config_atomic [where io = io_ok and r = None, OF disjI2 [OF crash]] show ?thesis
    by (auto simp: sample_fs_def)
qed

end
