(* ===== verification/ConfigRefine.thy ===== *)
theory ConfigRefine
  imports ConfigService ConfigSample
begin

text \<open>
  What the service promises about the routing data that it publishes: a specification of its
  operations over three finite maps (backends by id, policies by id, virtual hosts by domain)
  and the proof that the published snapshot follows it. With it come the properties of
  \<open>internal/config/service.go\<close> as a whole: restart recovers the state, a failed operation
  changes nothing, removing a backend leaves no reference to it.
\<close>

section \<open>The abstract view\<close>

record routing_view =
  rv_backends :: "string \<rightharpoonup> backend_config"
  rv_policies :: "string \<rightharpoonup> security_policy"
  rv_vhosts :: "string \<rightharpoonup> virtual_host"
  rv_strategy :: string

definition snapshot_view :: "snapshot \<Rightarrow> routing_view" where
  "snapshot_view sn =
     \<lparr>rv_backends = sn_BackendsById sn, rv_policies = sn_PoliciesById sn,
      rv_vhosts = sn_VHostsByDomain sn,
      rv_strategy = lbc_Strategy (fc_LoadBalancer (sn_Raw sn))\<rparr>"

text \<open>A virtual host without references to a backend.\<close>

definition forget_backend :: "string \<Rightarrow> virtual_host \<Rightarrow> virtual_host" where
  "forget_backend i v =
     v\<lparr>vh_BackendIDs := filter (\<lambda>j. j \<noteq> i) (vh_BackendIDs v),
       vh_PathRoutes := map (\<lambda>r. r\<lparr>pr_BackendIDs := filter (\<lambda>j. j \<noteq> i) (pr_BackendIDs r)\<rparr>)
                          (vh_PathRoutes v)\<rparr>"

fun view_step :: "svc_op \<Rightarrow> routing_view \<Rightarrow> routing_view" where
  "view_step (Op_Replace None) w = w"
| "view_step (Op_Replace (Some c)) w = snapshot_view (build_snapshot (apply_defaults c))"
| "view_step (Op_AddBackend b) w = w\<lparr>rv_backends := (rv_backends w)(bc_Id b \<mapsto> b)\<rparr>"
| "view_step (Op_UpdateBackend i url weight enabled) w =
     w\<lparr>rv_backends := (rv_backends w)(i := map_option
         (\<lambda>b. \<lparr>bc_Id = bc_Id b, bc_URL = (if url = '''' then bc_URL b else url),
               bc_Weight = weight, bc_Enabled = enabled\<rparr>) (rv_backends w i))\<rparr>"
| "view_step (Op_RemoveBackend i) w =
     w\<lparr>rv_backends := (rv_backends w)(i := None),
       rv_vhosts := map_option (forget_backend i) \<circ> rv_vhosts w\<rparr>"
| "view_step (Op_AddVirtualHost v) w =
     w\<lparr>rv_vhosts := (rv_vhosts w)(vh_Domain v \<mapsto> default_vhost v)\<rparr>"
| "view_step (Op_UpdateVirtualHost d v) w =
     w\<lparr>rv_vhosts := (rv_vhosts w)(d := map_option
         (\<lambda>old. v\<lparr>vh_Domain := d,
                  vh_SecurityPolicyID := (if vh_SecurityPolicyID v = ''''
                                          then vh_SecurityPolicyID old
                                          else vh_SecurityPolicyID v)\<rparr>) (rv_vhosts w d))\<rparr>"
| "view_step (Op_RemoveVirtualHost d) w = w\<lparr>rv_vhosts := (rv_vhosts w)(d := None)\<rparr>"
| "view_step (Op_SetVirtualHostSecurityPolicy d p) w =
     w\<lparr>rv_vhosts := (rv_vhosts w)(d := map_option (vh_SecurityPolicyID_update (\<lambda>_. p))
                                         (rv_vhosts w d))\<rparr>"
| "view_step (Op_UpdateServer p a) w = w"
| "view_step (Op_UpsertPolicy p) w = w\<lparr>rv_policies := (rv_policies w)(sp_Id p \<mapsto> p)\<rparr>"
| "view_step (Op_UpdateLoadBalancer st) w = w\<lparr>rv_strategy := st\<rparr>"

section \<open>The indexes of a valid configuration\<close>

lemma index_by_keyed: "distinct (map k xs) \<Longrightarrow> index_by k xs Map.empty = keyed k xs"
proof (intro ext)
  fix i assume d: "distinct (map k xs)"
  show "index_by k xs Map.empty i = keyed k xs i"
  proof (cases "keyed k xs i")
    case None
    then show ?thesis by (metis index_by_notin keyed_None)
  next
    case (Some x)
    with d have "index_by k xs Map.empty i = Some x" by (simp add: index_by_distinct keyed_iff)
    with Some show ?thesis by simp
  qed
qed

definition config_view :: "full_config \<Rightarrow> routing_view" where
  "config_view c =
     \<lparr>rv_backends = keyed bc_Id (backend_list c),
      rv_policies = keyed sp_Id (sec_Policies (fc_Security c)),
      rv_vhosts = keyed vh_Domain (fc_VirtualHosts c),
      rv_strategy = lbc_Strategy (fc_LoadBalancer c)\<rparr>"

lemma view_of_valid:
  assumes "valid_config up c"
  shows "snapshot_view (build_snapshot c) = config_view c"
  using vc_ids [OF assms] vc_policy_ids [OF assms] vc_domains [OF assms]
  by (simp add: snapshot_view_def config_view_def build_snapshot_def index_backends_eq index_by_keyed backend_list_def)

lemma find_backend_keyed: "find_backend i bs = keyed bc_Id (non_nil bs) i"
  by (induction bs rule: non_nil.induct) auto

lemma removeString_filter [simp]: "removeString xs i = filter (\<lambda>j. j \<noteq> i) xs"
  by (induction xs) auto

lemma drop_backend_refs_eq [simp]: "drop_backend_refs i = forget_backend i"
  by (simp add: fun_eq_iff drop_backend_refs_def forget_backend_def)

lemma remove_first_non_nil:
  "remove_first (is_backend i) bs = Some bs' \<Longrightarrow>
   remove_first (\<lambda>b. bc_Id b = i) (non_nil bs) = Some (non_nil bs')"
  by (induction bs arbitrary: bs' rule: non_nil.induct)
    (auto simp: is_backend_def split: if_splits)

lemma update_first_non_nil:
  "update_first (is_backend i) (map_option f) bs = Some bs' \<Longrightarrow>
   update_first (\<lambda>b. bc_Id b = i) f (non_nil bs) = Some (non_nil bs')"
  by (induction bs arbitrary: bs' rule: non_nil.induct)
    (auto simp: is_backend_def split: if_splits)

text \<open>The defaults add nothing to the routing data of a configuration that has them.\<close>

lemma no_default_policy_needed:
  "defaults_applied c \<Longrightarrow> \<exists>p \<in> set (sec_Policies (fc_Security c)). sp_Id p = ''default''"
  using apply_defaults_policy [of c] by (simp add: defaults_applied_def)

lemma ensure_default_id:
  "\<exists>p \<in> set (sec_Policies s). sp_Id p = ''default'' \<Longrightarrow> ensure_default_security_policy s = s"
  by (simp add: ensure_default_security_policy_def)

lemma defaults_ensure: "defaults_applied c \<Longrightarrow> ensure_default_security_policy (fc_Security c) = fc_Security c"
  by (simp add: no_default_policy_needed ensure_default_id)

lemma defaults_vhosts:
  "defaults_applied c \<Longrightarrow> map default_vhost (fc_VirtualHosts c) = fc_VirtualHosts c"
  unfolding defaults_applied_def using apply_defaults_VirtualHosts [of c] by simp

lemma defaults_vhost: "defaults_applied c \<Longrightarrow> v \<in> set (fc_VirtualHosts c) \<Longrightarrow> default_vhost v = v"
  using defaults_vhosts [of c] by (metis in_set_conv_nth length_map nth_map)

section \<open>Each edit follows its specification\<close>

lemma view_of_defaults:
  "config_view (apply_defaults c) =
     \<lparr>rv_backends = keyed bc_Id (backend_list c),
      rv_policies = keyed sp_Id (sec_Policies (ensure_default_security_policy (fc_Security c))),
      rv_vhosts = map_option default_vhost \<circ> keyed vh_Domain (fc_VirtualHosts c),
      rv_strategy = or_default '''' ''least-connections'' (lbc_Strategy (fc_LoadBalancer c))\<rparr>"
  by (simp add: config_view_def keyed_map) (simp add: apply_defaults_def)

text \<open>For a configuration with its defaults the same, written without them.\<close>

lemma view_of_edit:
  assumes "defaults_applied c"
    and "fc_Security c' = fc_Security c" and "fc_LoadBalancer c' = fc_LoadBalancer c"
  shows "config_view (apply_defaults c') =
     (config_view c)\<lparr>rv_backends := keyed bc_Id (backend_list c'),
       rv_vhosts := map_option default_vhost \<circ> keyed vh_Domain (fc_VirtualHosts c')\<rparr>"
proof -
  have "lbc_Strategy (fc_LoadBalancer (apply_defaults c)) \<noteq> ''''"
    by (simp add: apply_defaults_def or_default_def)
  then have "lbc_Strategy (fc_LoadBalancer c) \<noteq> ''''"
    using assms(1) by (simp add: defaults_applied_def)
  then show ?thesis
    using assms unfolding view_of_defaults
    by (simp add: config_view_def defaults_ensure or_default_neq)
qed

lemma keyed_vhost_default:
  "defaults_applied c \<Longrightarrow>
   map_option default_vhost (keyed vh_Domain (fc_VirtualHosts c) d) =
   keyed vh_Domain (fc_VirtualHosts c) d"
  by (cases "keyed vh_Domain (fc_VirtualHosts c) d")
    (auto dest!: keyed_Some intro: defaults_vhost)

lemma keyed_vhosts_default:
  "defaults_applied c \<Longrightarrow>
   map_option default_vhost \<circ> keyed vh_Domain (fc_VirtualHosts c) =
   keyed vh_Domain (fc_VirtualHosts c)"
  by (simp add: fun_eq_iff keyed_vhost_default)

lemma refine_add_backend:
  assumes "defaults_applied c" and "add_backend nb c = Inr c'"
  shows "config_view (apply_defaults c') = view_step (Op_AddBackend nb) (config_view c)"
proof -
  from assms(2) have c': "c' = c\<lparr>fc_Backends := fc_Backends c @ [Some nb]\<rparr>"
    and "check_all (\<lambda>ob. case ob of None \<Rightarrow> None
              | Some b \<Rightarrow> first_err
                  [(bc_Id b = bc_Id nb, ''backend already exists: '' @ bc_Id nb),
                   (bc_URL b = bc_URL nb, ''backend url already exists: '' @ bc_URL nb)])
            (fc_Backends c) = None"
    by (auto simp: add_backend_def split: option.splits)
  then have "bc_Id nb \<notin> bc_Id ` set (backend_list c)"
    by (fastforce simp: check_all_None first_err_None)
  then show ?thesis
    using assms(1) unfolding c'
    by (subst view_of_edit [OF assms(1)])
      (simp_all add: keyed_vhosts_default config_view_def backend_list_def keyed_append1)
qed

lemma refine_update_backend:
  assumes "defaults_applied c" and "update_backend i url weight enabled c = Inr c'"
  shows "config_view (apply_defaults c') =
         view_step (Op_UpdateBackend i url weight enabled) (config_view c)"
proof -
  let ?f = "\<lambda>b. b\<lparr>bc_URL := (if url \<noteq> '''' then url else bc_URL b),
                 bc_Weight := weight, bc_Enabled := enabled\<rparr>"
  from assms(2) obtain bs where c': "c' = c\<lparr>fc_Backends := bs\<rparr>"
    and bs: "update_first (is_backend i) (map_option ?f) (fc_Backends c) = Some bs"
    by (auto simp: update_backend_def edit_backend_def split: option.splits)
  have "keyed bc_Id (non_nil bs) = (keyed bc_Id (backend_list c))
      (i := map_option ?f (keyed bc_Id (backend_list c) i))"
    unfolding backend_list_def
    by (rule keyed_update_first [OF update_first_non_nil [OF bs]]) simp
  moreover have "?f = (\<lambda>b. \<lparr>bc_Id = bc_Id b, bc_URL = (if url = '''' then bc_URL b else url),
               bc_Weight = weight, bc_Enabled = enabled\<rparr>)" by (simp add: fun_eq_iff)
  ultimately show ?thesis
    using assms(1) unfolding c'
    by (subst view_of_edit [OF assms(1)])
      (simp_all add: keyed_vhosts_default config_view_def backend_list_def)
qed

lemma refine_remove_backend:
  assumes "defaults_applied c" and "valid_config up c" and "remove_backend i c = Inr c'"
  shows "config_view (apply_defaults c') = view_step (Op_RemoveBackend i) (config_view c)"
proof -
  from assms(3) obtain bs where
    c': "c' = c\<lparr>fc_Backends := bs,
                fc_VirtualHosts := map (forget_backend i) (fc_VirtualHosts c)\<rparr>"
    and bs: "remove_first (is_backend i) (fc_Backends c) = Some bs"
    by (auto simp: remove_backend_def split: option.splits)
  have b: "keyed bc_Id (non_nil bs) = (keyed bc_Id (backend_list c))(i := None)"
    using vc_ids [OF assms(2)] unfolding backend_list_def
    by (rule keyed_remove_first [OF remove_first_non_nil [OF bs]])
  have "keyed vh_Domain (map (forget_backend i) (fc_VirtualHosts c)) =
      map_option (forget_backend i) \<circ> keyed vh_Domain (fc_VirtualHosts c)"
    by (rule keyed_map) (simp add: forget_backend_def)
  moreover have "map_option default_vhost (map_option (forget_backend i) x) =
      map_option (forget_backend i) (map_option default_vhost x)" for x
    by (cases x) (simp_all add: forget_backend_def default_vhost_def)
  ultimately have "map_option default_vhost \<circ> keyed vh_Domain (map (forget_backend i) (fc_VirtualHosts c))
      = map_option (forget_backend i) \<circ> keyed vh_Domain (fc_VirtualHosts c)"
    using keyed_vhost_default [OF assms(1)] by (simp add: fun_eq_iff)
  with b show ?thesis
    using assms(1) unfolding c'
    by (subst view_of_edit [OF assms(1)]) (simp_all add: config_view_def backend_list_def)
qed

text \<open>An edit of one virtual host that yields a host with its defaults.\<close>

lemma refine_vhost_edit:
  assumes d: "defaults_applied c"
    and vs: "update_first (\<lambda>w. vh_Domain w = dmn) f (fc_VirtualHosts c) = Some vs"
    and f: "\<And>w. vh_Domain w = dmn \<Longrightarrow> vh_Domain (f w) = dmn"
    and p: "\<And>w. w \<in> set (fc_VirtualHosts c) \<Longrightarrow> vh_SecurityPolicyID (f w) \<noteq> ''''"
  shows "config_view (apply_defaults (c\<lparr>fc_VirtualHosts := vs\<rparr>)) =
     (config_view c)\<lparr>rv_vhosts := (rv_vhosts (config_view c))
        (dmn := map_option f (rv_vhosts (config_view c) dmn))\<rparr>"
proof -
  let ?k = "keyed vh_Domain (fc_VirtualHosts c)"
  have k: "keyed vh_Domain vs = ?k(dmn := map_option f (?k dmn))"
    using vs f by (rule keyed_update_first)
  have "map_option default_vhost (map_option f (?k dmn)) = map_option f (?k dmn)"
    by (cases "?k dmn") (auto simp: default_vhost_def or_default_neq p dest!: keyed_Some)
  then have "map_option default_vhost \<circ> keyed vh_Domain vs = ?k(dmn := map_option f (?k dmn))"
    unfolding k by (auto simp: fun_eq_iff keyed_vhost_default [OF d])
  then show ?thesis
    by (subst view_of_edit [OF d]) (simp_all add: config_view_def backend_list_def)
qed

lemma defaults_vhost_policy:
  assumes "defaults_applied c" and "v \<in> set (fc_VirtualHosts c)"
  shows "vh_SecurityPolicyID v \<noteq> ''''"
proof -
  have "vh_SecurityPolicyID (default_vhost v) \<noteq> ''''"
    by (simp add: default_vhost_def or_default_def)
  then show ?thesis using defaults_vhost [OF assms] by simp
qed

lemma refine_set_vhost_policy:
  assumes "defaults_applied c" and "set_vhost_policy dmn p c = Inr c'" and "p \<noteq> ''''"
  shows "config_view (apply_defaults c') =
         view_step (Op_SetVirtualHostSecurityPolicy dmn p) (config_view c)"
proof -
  from assms(2) obtain vs where c': "c' = c\<lparr>fc_VirtualHosts := vs\<rparr>"
    and vs: "update_first (\<lambda>w. vh_Domain w = dmn) (vh_SecurityPolicyID_update (\<lambda>_. p))
               (fc_VirtualHosts c) = Some vs"
    by (auto simp: set_vhost_policy_def split: option.splits)
  show ?thesis
    unfolding c' by (subst refine_vhost_edit [OF assms(1) vs]) (simp_all add: assms(3))
qed

lemma refine_update_virtual_host:
  assumes "defaults_applied c" and "update_virtual_host dmn v c = Inr c'"
  shows "config_view (apply_defaults c') =
         view_step (Op_UpdateVirtualHost dmn v) (config_view c)"
proof -
  from assms(2) obtain vs where c': "c' = c\<lparr>fc_VirtualHosts := vs\<rparr>"
    and vs: "update_first (\<lambda>w. vh_Domain w = dmn) (replace_virtual_host dmn v)
               (fc_VirtualHosts c) = Some vs"
    by (auto simp: update_virtual_host_def split: option.splits)
  have r: "replace_virtual_host dmn v w = v\<lparr>vh_Domain := dmn,
      vh_SecurityPolicyID := (if vh_SecurityPolicyID v = '''' then vh_SecurityPolicyID w
                              else vh_SecurityPolicyID v)\<rparr>"
    if "w \<in> set (fc_VirtualHosts c)" for w
    using defaults_vhost_policy [OF assms(1) that]
    by (simp add: replace_virtual_host_def Let_def)
  have "map_option (replace_virtual_host dmn v) (keyed vh_Domain (fc_VirtualHosts c) dmn) =
      map_option (\<lambda>w. v\<lparr>vh_Domain := dmn, vh_SecurityPolicyID :=
          (if vh_SecurityPolicyID v = '''' then vh_SecurityPolicyID w
           else vh_SecurityPolicyID v)\<rparr>) (keyed vh_Domain (fc_VirtualHosts c) dmn)"
    (is "map_option ?f ?o = map_option ?g ?o")
  proof (cases ?o)
    case (Some w)
    then have "w \<in> set (fc_VirtualHosts c)" by (auto dest: keyed_Some)
    with Some r show ?thesis by simp
  qed simp
  then show ?thesis
    unfolding c'
    by (subst refine_vhost_edit [OF assms(1) vs])
      (simp_all add: replace_virtual_host_def Let_def config_view_def)
qed

lemma refine_remove_virtual_host:
  assumes "defaults_applied c" and "valid_config up c" and "remove_virtual_host dmn c = Inr c'"
  shows "config_view (apply_defaults c') = view_step (Op_RemoveVirtualHost dmn) (config_view c)"
proof -
  from assms(3) obtain vs where c': "c' = c\<lparr>fc_VirtualHosts := vs\<rparr>"
    and vs: "remove_first (\<lambda>w. vh_Domain w = dmn) (fc_VirtualHosts c) = Some vs"
    by (auto simp: remove_virtual_host_def split: option.splits)
  have k: "keyed vh_Domain vs = (keyed vh_Domain (fc_VirtualHosts c))(dmn := None)"
    using vs vc_domains [OF assms(2)] by (rule keyed_remove_first)
  then have "map_option default_vhost \<circ> keyed vh_Domain vs =
      (keyed vh_Domain (fc_VirtualHosts c))(dmn := None)"
    by (auto simp: fun_eq_iff keyed_vhost_default [OF assms(1)])
  then show ?thesis
    unfolding c'
    by (subst view_of_edit [OF assms(1)]) (simp_all add: config_view_def backend_list_def)
qed

lemma refine_add_virtual_host:
  assumes "defaults_applied c" and "add_virtual_host v c = Inr c'"
  shows "config_view (apply_defaults c') = view_step (Op_AddVirtualHost v) (config_view c)"
proof -
  have v: "(if vh_SecurityPolicyID v = '''' then v\<lparr>vh_SecurityPolicyID := ''default''\<rparr> else v)
      = default_vhost v" by (simp add: default_vhost_def or_default_def)
  from assms(2) have c': "c' = c\<lparr>fc_VirtualHosts := fc_VirtualHosts c @ [default_vhost v]\<rparr>"
    and "check_all (\<lambda>w. if vh_Domain w = vh_Domain v
             then Some (''virtual host already exists: '' @ vh_Domain v) else None)
          (fc_VirtualHosts c) = None"
    unfolding add_virtual_host_def v by (auto split: option.splits)
  then have new: "vh_Domain (default_vhost v) \<notin> vh_Domain ` set (fc_VirtualHosts c)"
    by (auto simp: check_all_None split: if_splits)
  show ?thesis
    unfolding c'
    by (subst view_of_edit [OF assms(1)])
      (auto simp: config_view_def backend_list_def keyed_append1 [OF new] fun_eq_iff
         keyed_vhost_default [OF assms(1)])
qed

lemma refine_upsert_policy:
  assumes "defaults_applied c" and "upsert_policy p c = Inr c'"
  shows "config_view (apply_defaults c') = view_step (Op_UpsertPolicy p) (config_view c)"
proof -
  obtain ps where c': "c' = c\<lparr>fc_Security := \<lparr>sec_Policies = ps\<rparr>\<rparr>"
    and k: "keyed sp_Id ps = (keyed sp_Id (sec_Policies (fc_Security c)))(sp_Id p \<mapsto> p)"
  proof (cases "update_first (\<lambda>q. sp_Id q = sp_Id p) (\<lambda>_. p) (sec_Policies (fc_Security c))")
    case None
    then have "sp_Id p \<notin> sp_Id ` set (sec_Policies (fc_Security c))" by auto
    with assms(2) None show thesis
      by (intro that) (auto simp: upsert_policy_def keyed_append1)
  next
    case (Some ps)
    then have "\<exists>q \<in> set (sec_Policies (fc_Security c)). sp_Id q = sp_Id p"
      by (auto dest: update_first_SomeD)
    then have "keyed sp_Id (sec_Policies (fc_Security c)) (sp_Id p) \<noteq> None"
      by (simp only: keyed_defined)
    with keyed_update_first [OF Some] assms(2) Some show thesis
      by (intro that) (auto simp: upsert_policy_def)
  qed
  from no_default_policy_needed [OF assms(1)]
  have "keyed sp_Id (sec_Policies (fc_Security c)) ''default'' \<noteq> None"
    by (simp only: keyed_defined)
  then have "keyed sp_Id ps ''default'' \<noteq> None" unfolding k by simp
  then have "\<exists>q \<in> set ps. sp_Id q = ''default''" by (simp only: keyed_defined)
  then have "ensure_default_security_policy \<lparr>sec_Policies = ps\<rparr> = \<lparr>sec_Policies = ps\<rparr>"
    by (simp add: ensure_default_id)
  moreover have "config_view (apply_defaults c) = config_view c"
    using assms(1) by (simp add: defaults_applied_def)
  ultimately show ?thesis
    unfolding c' view_of_defaults using k by (simp add: config_view_def backend_list_def)
qed

lemma refine_update_load_balancer:
  assumes "defaults_applied c" and "update_load_balancer st c = Inr c'" and "st \<noteq> ''''"
  shows "config_view (apply_defaults c') = view_step (Op_UpdateLoadBalancer st) (config_view c)"
  using assms unfolding view_of_defaults
  by (auto simp: update_load_balancer_def config_view_def keyed_vhosts_default defaults_ensure
      backend_list_def or_default_neq)

lemma refine_update_server:
  assumes "defaults_applied c" and "update_server p a c = Inr c'"
  shows "config_view (apply_defaults c') = view_step (Op_UpdateServer p a) (config_view c)"
  using assms(2)
  by (subst view_of_edit [OF assms(1)])
    (auto simp: update_server_def config_view_def backend_list_def
       keyed_vhosts_default [OF assms(1)])

section \<open>The service follows its specification\<close>

lemmas svc_op_defs =
  svc_Replace_def svc_AddBackend_def svc_UpdateBackend_def svc_RemoveBackend_def
  svc_AddVirtualHost_def svc_UpdateVirtualHost_def svc_RemoveVirtualHost_def
  svc_SetVirtualHostSecurityPolicy_def svc_UpdateServer_def svc_UpsertPolicy_def
  svc_UpdateLoadBalancer_def

text \<open>The edit behind an operation.\<close>

fun op_edit :: "svc_op \<Rightarrow> mutator" where
  "op_edit (Op_Replace None) = (\<lambda>_. Inl ''config cannot be nil'')"
| "op_edit (Op_Replace (Some c)) = (\<lambda>_. Inr c)"
| "op_edit (Op_AddBackend b) = add_backend b"
| "op_edit (Op_UpdateBackend i u w en) = update_backend i u w en"
| "op_edit (Op_RemoveBackend i) = remove_backend i"
| "op_edit (Op_AddVirtualHost v) = add_virtual_host v"
| "op_edit (Op_UpdateVirtualHost d v) = update_virtual_host d v"
| "op_edit (Op_RemoveVirtualHost d) = remove_virtual_host d"
| "op_edit (Op_SetVirtualHostSecurityPolicy d p) = set_vhost_policy d p"
| "op_edit (Op_UpdateServer p a) = update_server p a"
| "op_edit (Op_UpsertPolicy p) = upsert_policy p"
| "op_edit (Op_UpdateLoadBalancer st) = update_load_balancer st"

text \<open>The arguments that an operation refuses before it looks at the configuration.\<close>

fun op_args_ok :: "svc_op \<Rightarrow> bool" where
  "op_args_ok (Op_Replace c) \<longleftrightarrow> c \<noteq> None"
| "op_args_ok (Op_AddBackend b) \<longleftrightarrow> bc_Id b \<noteq> '''' \<and> bc_URL b \<noteq> ''''"
| "op_args_ok (Op_UpdateBackend i u w en) \<longleftrightarrow> i \<noteq> ''''"
| "op_args_ok (Op_RemoveBackend i) \<longleftrightarrow> i \<noteq> ''''"
| "op_args_ok (Op_AddVirtualHost v) \<longleftrightarrow> vh_Domain v \<noteq> ''''"
| "op_args_ok (Op_UpdateVirtualHost d v) \<longleftrightarrow> d \<noteq> ''''"
| "op_args_ok (Op_RemoveVirtualHost d) \<longleftrightarrow> d \<noteq> ''''"
| "op_args_ok (Op_SetVirtualHostSecurityPolicy d p) \<longleftrightarrow> d \<noteq> '''' \<and> p \<noteq> ''''"
| "op_args_ok (Op_UpdateServer p a) \<longleftrightarrow> True"
| "op_args_ok (Op_UpsertPolicy p) \<longleftrightarrow> sp_Id p \<noteq> ''''"
| "op_args_ok (Op_UpdateLoadBalancer st) \<longleftrightarrow> st \<noteq> ''''"

lemma svc_exec_ok:
  assumes "json_roundtrip E" and "svc_exec E io op s fs = (None, s', fs')"
  shows "op_args_ok op \<and>
     (\<exists>c. op_edit op (svc_current s) = Inr c \<and>
          valid_config (env_url_parse E) (apply_defaults c) \<and>
          s' = s\<lparr>svc_current := apply_defaults c,
                 svc_snapshot := build_snapshot (apply_defaults c)\<rparr>)"
proof -
  have upd: "\<exists>c. m (svc_current s) = Inr c \<and> valid_config (env_url_parse E) (apply_defaults c) \<and>
      s' = s\<lparr>svc_current := apply_defaults c, svc_snapshot := build_snapshot (apply_defaults c)\<rparr>"
    if "svc_update E io m s fs = (None, s', fs')" for m
    using assms(1) that by (cases rule: svc_update_cases) auto
  have apl: "valid_config (env_url_parse E) (apply_defaults c) \<and>
      s' = s\<lparr>svc_current := apply_defaults c, svc_snapshot := build_snapshot (apply_defaults c)\<rparr>"
    if "applyLocked E io c s fs = (None, s', fs')" for c
    using that by (cases rule: applyLocked_cases) auto
  from assms(2) show ?thesis
    by (cases op) (auto simp: svc_op_defs split: if_splits option.splits dest!: upd apl)
qed

lemma op_edit_refines:
  assumes "valid_config up c" and "defaults_applied c" and "op_args_ok op"
    and "op_edit op c = Inr c'" and "valid_config up (apply_defaults c')"
  shows "config_view (apply_defaults c') = view_step op (config_view c)"
proof (cases op)
  case (Op_Replace oc)
  with assms show ?thesis by (cases oc) (auto simp: view_of_valid)
qed (use assms in \<open>auto intro: refine_add_backend refine_update_backend refine_remove_backend
      refine_add_virtual_host refine_update_virtual_host refine_remove_virtual_host
      refine_set_vhost_policy refine_upsert_policy refine_update_load_balancer
      refine_update_server simp del: view_step.simps\<close>)

text \<open>C2: the snapshot that the service publishes refines three finite maps. In every state that
  a service can reach, a successful operation moves the maps (backends by id, policies by id,
  virtual hosts by domain) and the strategy exactly as its specification \<open>view_step\<close> says:
  one key inserted, changed or deleted, the rest untouched; removing a backend also takes its id
  out of every virtual host and route.\<close>

theorem service_refines_maps:
  assumes "svc_reach E path s fs" and "json_roundtrip E"
    and "svc_exec E io op s fs = (None, s', fs')"
  shows "snapshot_view (svc_Snapshot s') = view_step op (snapshot_view (svc_Snapshot s))"
proof -
  note inv = svc_reach_inv [OF assms(1,2)]
  from svc_exec_ok [OF assms(2,3)] obtain c where ok: "op_args_ok op"
    and ed: "op_edit op (svc_current s) = Inr c"
    and v: "valid_config (env_url_parse E) (apply_defaults c)"
    and s': "svc_snapshot s' = build_snapshot (apply_defaults c)" by auto
  have "config_view (apply_defaults c) = view_step op (config_view (svc_current s))"
    by (rule op_edit_refines [OF inv_valid [OF inv] inv_defaults [OF inv] ok ed v])
  then show ?thesis
    unfolding svc_Snapshot_def s' inv_snapshot [OF inv] view_of_valid [OF v]
      view_of_valid [OF inv_valid [OF inv]] .
qed

definition sample_service :: service where
  "sample_service = \<lparr>svc_path = sample_path, svc_current = sample_config,
     svc_snapshot = build_snapshot sample_config\<rparr>"

definition sample_service_removed :: service where
  "sample_service_removed = \<lparr>svc_path = sample_path, svc_current = sample_removed,
     svc_snapshot = build_snapshot sample_removed\<rparr>"

lemma sample_new: "NewService sample_env sample_fs sample_path = Inr sample_service"
  by (simp add: NewService_def sample_path_def load_config_def sample_fs_def
      validate_config_None [THEN iffD2] sample_service_def)

lemma sample_remove_backend: "remove_backend ''backend-1'' sample_config = Inr sample_removed"
  by (simp add: remove_backend_def is_backend_def sample_removed_def forget_backend_def)

lemma sample_remove_exec:
  "svc_exec sample_env io_ok (Op_RemoveBackend ''backend-1'') sample_service sample_fs =
   (None, sample_service_removed, [sample_path \<mapsto> ''x''])"
  by (simp add: svc_RemoveBackend_def svc_update_def sample_service_def sample_remove_backend
      clone_full_config_def applyLocked_def Let_def validate_config_None [THEN iffD2] save_config_def io_ok_def
      sample_service_removed_def sample_fs_def fun_eq_iff)

theorem service_refines_maps_witness:
  "snapshot_view (svc_Snapshot sample_service_removed) =
   view_step (Op_RemoveBackend ''backend-1'') (snapshot_view (svc_Snapshot sample_service))"
  by (rule service_refines_maps [OF reach_new [OF sample_new] _ sample_remove_exec]) simp

lemma inv_restart:
  assumes "svc_inv E path s fs" and "path \<noteq> ''''"
  shows "NewService E fs path = Inr s"
proof -
  have "s = \<lparr>svc_path = path, svc_current = svc_current s, svc_snapshot = build_snapshot (svc_current s)\<rparr>"
    using inv_path [OF assms(1)] inv_snapshot [OF assms(1)] by simp
  then show ?thesis
    using assms(2) inv_durable [OF assms(1)] inv_valid [OF assms(1)]
    by (simp add: NewService_def validate_config_None [THEN iffD2])
qed

text \<open>C3: the configuration is durable. In every state that a service can reach, whatever
  the outcome of the system calls of its saves so far, starting a new service on the same file
  yields exactly the current one: same configuration, same snapshot.\<close>

theorem service_restart:
  assumes "svc_reach E path s fs" and "json_roundtrip E"
  shows "NewService E fs path = Inr s"
proof (rule inv_restart [OF svc_reach_inv [OF assms]])
  show "path \<noteq> ''''" using assms(1)
    by (induction rule: svc_reach.induct) (auto simp: NewService_def)
qed

theorem service_restart_witness:
  "NewService sample_env [sample_path \<mapsto> ''x''] sample_path = Inr sample_service_removed"
  by (rule service_restart [OF reach_op [OF reach_new [OF sample_new] sample_remove_exec]]) simp

text \<open>C6: every state that a service can reach holds a valid configuration with all defaults
  filled in, whose snapshot resolves every reference of a virtual host or route to a backend or
  a policy of the configuration.\<close>

theorem service_invariant:
  assumes "svc_reach E path s fs" and "json_roundtrip E"
  shows "valid_config (env_url_parse E) (svc_current s) \<and> defaults_applied (svc_current s) \<and>
    svc_Snapshot s = build_snapshot (svc_current s) \<and>
    (\<forall>v d. sn_VHostsByDomain (svc_Snapshot s) d = Some v \<longrightarrow>
       sn_PoliciesById (svc_Snapshot s) (vh_SecurityPolicyID v) \<noteq> None \<and>
       (\<forall>i. i \<in> set (vh_BackendIDs v) \<or> (\<exists>r \<in> set (vh_PathRoutes v). i \<in> set (pr_BackendIDs r)) \<longrightarrow>
            sn_BackendsById (svc_Snapshot s) i \<noteq> None))"
proof -
  note inv = svc_reach_inv [OF assms]
  note v = inv_valid [OF inv]
  have "sn_VHostsByDomain (build_snapshot (svc_current s)) d = Some w \<Longrightarrow>
      w \<in> set (fc_VirtualHosts (svc_current s))" for w d
    using snapshot_vhost_iff [OF vc_domains [OF v]] by simp
  then show ?thesis
    using v inv_defaults [OF inv] snapshot_vhost_policy [OF v] snapshot_vhost_backends [OF v]
    unfolding svc_Snapshot_def inv_snapshot [OF inv] by fastforce
qed

theorem service_invariant_witness:
  "valid_config (env_url_parse sample_env) (svc_current sample_service_removed) \<and>
   sn_PoliciesById (svc_Snapshot sample_service_removed) ''default'' \<noteq> None"
proof -
  note r = reach_op [OF reach_new [OF sample_new] sample_remove_exec]
  have "sn_VHostsByDomain (svc_Snapshot sample_service_removed) ''app.example.local'' =
      Some (sample_vhost\<lparr>vh_BackendIDs := [''backend-2'']\<rparr>)"
    by (simp add: svc_Snapshot_def sample_service_removed_def build_snapshot_def)
  with service_invariant [OF r] show ?thesis by fastforce
qed

text \<open>C7: a failed operation of the service changes nothing. Whether it fails on its arguments,
  in the edit, in the validation or while saving, the current configuration, the published
  snapshot and the configuration file stay as they were.\<close>

theorem service_failure_atomic:
  assumes "json_roundtrip E" and "svc_exec E io op s fs = (Some e, s', fs')"
  shows "s' = s \<and> fs' (svc_path s) = fs (svc_path s)"
  using assms by (cases rule: svc_exec_cases) auto

theorem service_failure_atomic_witness:
  "\<exists>fs'. svc_exec sample_env \<lparr>io_write = Write_short 1 ''no space left on device'', io_rename = Rename_ok\<rparr>
       (Op_RemoveBackend ''backend-1'') sample_service sample_fs =
     (Some ''no space left on device'', sample_service, fs') \<and>
     fs' sample_path = Some '''' \<and> fs' (tmp_path sample_path) = Some ''x''"
proof -
  let ?io = "\<lparr>io_write = Write_short 1 ''no space left on device'', io_rename = Rename_ok\<rparr>"
  have ex: "svc_exec sample_env ?io (Op_RemoveBackend ''backend-1'') sample_service sample_fs =
      (Some ''no space left on device'', sample_service, sample_fs(tmp_path sample_path \<mapsto> ''x''))"
    by (simp add: svc_RemoveBackend_def svc_update_def sample_service_def sample_remove_backend
      clone_full_config_def applyLocked_def Let_def validate_config_None [THEN iffD2] save_config_def)
  with service_failure_atomic [OF _ ex] show ?thesis
    by (simp add: sample_fs_def sample_service_def)
qed

section \<open>When a backend can be removed\<close>

lemma is_backend_Some [simp]: "is_backend i (Some b) \<longleftrightarrow> bc_Id b = i"
  by (simp add: is_backend_def)

lemma is_backend_None [simp]: "\<not> is_backend i None"
  by (simp add: is_backend_def)

text \<open>An edit of the backends and virtual hosts of a valid configuration is valid when those
  two sections are; the defaults do not touch it.\<close>

lemma edit_defaults:
  assumes d: "defaults_applied c" and p: "\<And>v. v \<in> set vs \<Longrightarrow> vh_SecurityPolicyID v \<noteq> ''''"
  shows "apply_defaults (c\<lparr>fc_Backends := bs, fc_VirtualHosts := vs\<rparr>) =
         c\<lparr>fc_Backends := bs, fc_VirtualHosts := vs\<rparr>"
proof -
  have "map default_vhost vs = vs"
    using p by (intro map_idI) (simp add: default_vhost_def or_default_neq)
  then have "apply_defaults (c\<lparr>fc_Backends := bs, fc_VirtualHosts := vs\<rparr>) =
      (apply_defaults c)\<lparr>fc_Backends := bs, fc_VirtualHosts := vs\<rparr>"
    by (simp add: apply_defaults_def)
  then show ?thesis using d by (simp add: defaults_applied_def)
qed

lemma edit_valid:
  assumes "valid_config up c"
  shows "valid_config up (c\<lparr>fc_Backends := bs, fc_VirtualHosts := vs\<rparr>) \<longleftrightarrow>
     None \<notin> set bs \<and> (\<forall>b \<in> set (non_nil bs). valid_backend up b) \<and>
     distinct (map bc_Id (non_nil bs)) \<and> distinct (map bc_URL (non_nil bs)) \<and>
     (\<exists>b \<in> set (non_nil bs). bc_Enabled b) \<and>
     (\<forall>v \<in> set vs. valid_vhost (bc_Id ` set (non_nil bs)) (policy_ids c) v) \<and>
     distinct (map vh_Domain vs)"
  using assms unfolding valid_config_def backend_list_def backend_ids_def policy_ids_def
  by simp

lemma valid_vhost_forget:
  assumes "valid_vhost ids pols v"
  shows "valid_vhost (ids - {i}) pols (forget_backend i v) \<longleftrightarrow>
     (\<exists>j \<in> set (vh_BackendIDs v). j \<noteq> i) \<or>
     (vh_PathRoutes v \<noteq> [] \<and>
      (\<forall>r \<in> set (vh_PathRoutes v). \<exists>j \<in> set (pr_BackendIDs r). j \<noteq> i))"
  using assms unfolding valid_vhost_def valid_route_def forget_backend_def
  by (simp add: filter_empty_conv) blast

text \<open>Exactly when a backend can be removed. On a valid configuration, the edit of
  \<open>RemoveBackend\<close> passes the validator if and only if the backend exists, another backend is
  enabled, and every virtual host keeps a backend: some default backend, or at least one route and
  a backend in each of its routes.\<close>

theorem remove_backend_accepted_iff:
  assumes "valid_config up c" and "defaults_applied c"
  shows "(\<exists>c'. remove_backend i c = Inr c' \<and>
               validate_config up (Some (apply_defaults c')) = None) \<longleftrightarrow>
     i \<in> backend_ids c \<and> (\<exists>b \<in> set (backend_list c). bc_Enabled b \<and> bc_Id b \<noteq> i) \<and>
     (\<forall>v \<in> set (fc_VirtualHosts c).
        (\<exists>j \<in> set (vh_BackendIDs v). j \<noteq> i) \<or>
        (vh_PathRoutes v \<noteq> [] \<and>
         (\<forall>r \<in> set (vh_PathRoutes v). \<exists>j \<in> set (pr_BackendIDs r). j \<noteq> i)))"
proof (cases "remove_first (is_backend i) (fc_Backends c)")
  case None
  then have "i \<notin> backend_ids c" by (fastforce simp: backend_ids_def)
  moreover have "remove_backend i c = Inl (''backend does not exist in config: '' @ i)"
    unfolding remove_backend_def None by simp
  ultimately show ?thesis by simp
next
  case (Some bs)
  let ?vs = "map (forget_backend i) (fc_VirtualHosts c)"
  let ?c = "c\<lparr>fc_Backends := bs, fc_VirtualHosts := ?vs\<rparr>"
  have rm: "remove_backend i c = Inr ?c" using Some by (simp add: remove_backend_def)
  from remove_first_SomeD [OF Some] obtain us b ws where
    bs: "fc_Backends c = us @ Some b # ws" "bs = us @ ws" "bc_Id b = i"
    by (metis is_backend_None is_backend_Some not_Some_eq)
  have "i \<in> backend_ids c" using bs by (auto simp: backend_ids_def backend_list_def)
  have nn: "set (non_nil bs) = {b \<in> set (backend_list c). bc_Id b \<noteq> i}"
    using vc_ids [OF assms(1)] unfolding bs backend_list_def by (force simp: bs(3))
  have ids: "bc_Id ` set (non_nil bs) = backend_ids c - {i}"
    unfolding nn backend_ids_def by auto
  have "distinct (map bc_Id (non_nil bs))" "distinct (map bc_URL (non_nil bs))"
    using vc_ids [OF assms(1)] vc_urls [OF assms(1)] unfolding bs backend_list_def by auto
  moreover have "None \<notin> set bs" "\<forall>b \<in> set (non_nil bs). valid_backend up b"
    using vc_no_nil [OF assms(1)] vc_backend [OF assms(1)] nn by (auto simp: bs)
  moreover have "distinct (map vh_Domain ?vs)"
    using vc_domains [OF assms(1)] by (simp add: comp_def forget_backend_def)
  moreover have "apply_defaults ?c = ?c"
    using defaults_vhost_policy [OF assms(2)]
    by (intro edit_defaults [OF assms(2)]) (auto simp: forget_backend_def)
  moreover have "(\<forall>v \<in> set ?vs. valid_vhost (backend_ids c - {i}) (policy_ids c) v) \<longleftrightarrow>
     (\<forall>v \<in> set (fc_VirtualHosts c).
        (\<exists>j \<in> set (vh_BackendIDs v). j \<noteq> i) \<or>
        (vh_PathRoutes v \<noteq> [] \<and>
         (\<forall>r \<in> set (vh_PathRoutes v). \<exists>j \<in> set (pr_BackendIDs r). j \<noteq> i)))"
    using valid_vhost_forget [OF vc_vhost [OF assms(1)]] by simp
  moreover have "(\<exists>b \<in> set (non_nil bs). bc_Enabled b) \<longleftrightarrow>
      (\<exists>b \<in> set (backend_list c). bc_Enabled b \<and> bc_Id b \<noteq> i)"
    unfolding nn by auto
  ultimately show ?thesis
    using \<open>i \<in> backend_ids c\<close>
    by (simp add: rm validate_config_None edit_valid [OF assms(1)] ids del: set_map)
qed

theorem remove_backend_accepted_iff_witness:
  "(\<exists>c'. remove_backend ''backend-1'' sample_config = Inr c' \<and>
         validate_config sample_url_parse (Some (apply_defaults c')) = None) \<and>
   \<not> (\<exists>c'. remove_backend ''backend-2'' sample_removed = Inr c' \<and>
         validate_config sample_url_parse (Some (apply_defaults c')) = None)"
proof -
  have "defaults_applied sample_removed" by (simp add: defaults_applied_def)
  note last = remove_backend_accepted_iff [OF sample_removed_valid this, of "''backend-2''"]
  note first = remove_backend_accepted_iff
    [OF sample_config_valid sample_defaults, of "''backend-1''"]
  show ?thesis unfolding first last by simp
qed

end
