(* ===== verification/BackendStatus.thy ===== *)
theory BackendStatus
  imports ConfigTypes
begin

text \<open>
  \<open>BackendStatus\<close> of \<open>internal/proxy/runtime/runtime.go\<close>: the health state of one backend,
  driven by the results of active probes and of proxied requests. Every method holds the mutex
  of the status, so each is one function. Main facts: the counters are the lengths of the
  current streak modulo \<open>2 ^ 32\<close>, and the health state is the verdict of the last streak
  that reached its threshold, however long a streak is.
\<close>

section \<open>The state and its methods\<close>

text \<open>A \<open>time.Time\<close> as nanoseconds from the zero time, which is 0.\<close>

type_synonym go_time = int

datatype health_state = HealthUnknown | HealthHealthy | HealthUnhealthy

record backend_status =
  bs_healthState :: health_state
  bs_consecutiveFailures :: uint32
  bs_consecutiveSuccess :: uint32
  bs_lastError :: string
  bs_lastHealthCheck :: go_time
  bs_lastStateChange :: go_time

text \<open>\<open>BackendStatusSnapshot\<close>, a copy of the fields.\<close>

record status_snapshot =
  ss_HealthState :: health_state
  ss_ConsecutiveFailures :: uint32
  ss_ConsecutiveSuccesses :: uint32
  ss_LastError :: string
  ss_LastHealthCheck :: go_time
  ss_LastStateChange :: go_time

text \<open>The composite literal \<open>BackendStatus{}\<close>.\<close>

definition zero_status :: backend_status where
  "zero_status =
     \<lparr>bs_healthState = HealthUnknown, bs_consecutiveFailures = 0, bs_consecutiveSuccess = 0,
      bs_lastError = '''', bs_lastHealthCheck = 0, bs_lastStateChange = 0\<rparr>"

definition status_Snapshot :: "backend_status \<Rightarrow> status_snapshot" where
  "status_Snapshot s =
     \<lparr>ss_HealthState = bs_healthState s, ss_ConsecutiveFailures = bs_consecutiveFailures s,
      ss_ConsecutiveSuccesses = bs_consecutiveSuccess s, ss_LastError = bs_lastError s,
      ss_LastHealthCheck = bs_lastHealthCheck s, ss_LastStateChange = bs_lastStateChange s\<rparr>"

definition IsActive :: "backend_status \<Rightarrow> bool" where
  "IsActive s \<longleftrightarrow> bs_healthState s = HealthHealthy"

definition GetLastError :: "backend_status \<Rightarrow> string" where
  "GetLastError s = bs_lastError s"

text \<open>
  The conversion \<open>uint32(threshold)\<close> keeps the 32 bits of the \<open>int32\<close>, and the comparison
  is the unsigned one of words.
\<close>

definition record_result ::
  "bool \<Rightarrow> go_error option \<Rightarrow> health_threshold_config \<Rightarrow> backend_status \<Rightarrow> backend_status" where
  "record_result healthy resultErr htc s =
     (if healthy then
        (let n = bs_consecutiveSuccess s + 1
         in s\<lparr>bs_consecutiveFailures := 0, bs_consecutiveSuccess := n, bs_lastError := '''',
              bs_healthState := (if n \<ge> ht_Healthy htc then HealthHealthy
                                 else bs_healthState s)\<rparr>)
      else
        (let n = bs_consecutiveFailures s + 1
         in s\<lparr>bs_consecutiveSuccess := 0, bs_consecutiveFailures := n,
              bs_lastError := (case resultErr of None \<Rightarrow> bs_lastError s | Some e \<Rightarrow> e),
              bs_healthState := (if n \<ge> ht_Unhealthy htc then HealthUnhealthy
                                 else bs_healthState s)\<rparr>))"

definition applyResult ::
  "bool \<Rightarrow> go_error option \<Rightarrow> health_threshold_config \<Rightarrow> go_time \<Rightarrow> bool
   \<Rightarrow> backend_status \<Rightarrow> bool \<times> backend_status" where
  "applyResult healthy resultErr htc now activeProbe s =
     (let previous = bs_healthState s;
          s0 = (if activeProbe then s\<lparr>bs_lastHealthCheck := now\<rparr> else s);
          s1 = record_result healthy resultErr htc s0
      in if previous \<noteq> bs_healthState s1
         then (True, s1\<lparr>bs_lastStateChange := now\<rparr>) else (False, s1))"

definition ApplyProbeResult ::
  "bool \<Rightarrow> go_error option \<Rightarrow> health_threshold_config \<Rightarrow> go_time \<Rightarrow> backend_status
   \<Rightarrow> bool \<times> backend_status" where
  "ApplyProbeResult healthy probeErr htc now s = applyResult healthy probeErr htc now True s"

definition ApplyPassiveResult ::
  "bool \<Rightarrow> go_error option \<Rightarrow> health_threshold_config \<Rightarrow> go_time \<Rightarrow> backend_status
   \<Rightarrow> bool \<times> backend_status" where
  "ApplyPassiveResult healthy resultErr htc now s = applyResult healthy resultErr htc now False s"

definition status_Reset :: "backend_status \<Rightarrow> backend_status" where
  "status_Reset s =
     s\<lparr>bs_healthState := HealthUnknown, bs_consecutiveFailures := 0, bs_consecutiveSuccess := 0,
       bs_lastError := '''', bs_lastHealthCheck := 0, bs_lastStateChange := 0\<rparr>"

definition MarkHealthy :: "backend_status \<Rightarrow> backend_status" where
  "MarkHealthy s =
     s\<lparr>bs_healthState := HealthHealthy, bs_consecutiveFailures := 0, bs_consecutiveSuccess := 0,
       bs_lastError := ''''\<rparr>"

section \<open>One result\<close>

lemma record_success:
  "bs_consecutiveFailures (record_result True err htc s) = 0"
  "bs_consecutiveSuccess (record_result True err htc s) = bs_consecutiveSuccess s + 1"
  "bs_lastError (record_result True err htc s) = ''''"
  "bs_healthState (record_result True err htc s) =
     (if bs_consecutiveSuccess s + 1 \<ge> ht_Healthy htc then HealthHealthy else bs_healthState s)"
  by (simp_all add: record_result_def Let_def)

lemma record_failure:
  "bs_consecutiveSuccess (record_result False err htc s) = 0"
  "bs_consecutiveFailures (record_result False err htc s) = bs_consecutiveFailures s + 1"
  "bs_lastError (record_result False err htc s) =
     (case err of None \<Rightarrow> bs_lastError s | Some e \<Rightarrow> e)"
  "bs_healthState (record_result False err htc s) =
     (if bs_consecutiveFailures s + 1 \<ge> ht_Unhealthy htc then HealthUnhealthy
      else bs_healthState s)"
  by (simp_all add: record_result_def Let_def)

lemma record_times [simp]:
  "bs_lastHealthCheck (record_result healthy err htc s) = bs_lastHealthCheck s"
  "bs_lastStateChange (record_result healthy err htc s) = bs_lastStateChange s"
  by (simp_all add: record_result_def Let_def)

lemma record_stamp [simp]:
  "record_result healthy err htc (s\<lparr>bs_lastHealthCheck := now\<rparr>) =
   (record_result healthy err htc s)\<lparr>bs_lastHealthCheck := now\<rparr>"
  by (cases err) (simp_all add: record_result_def Let_def)

text \<open>The time stamps do not influence the other fields.\<close>

lemma applyResult_fields [simp]:
  "bs_consecutiveFailures (snd (applyResult healthy err htc now active s)) =
   bs_consecutiveFailures (record_result healthy err htc s)"
  "bs_consecutiveSuccess (snd (applyResult healthy err htc now active s)) =
   bs_consecutiveSuccess (record_result healthy err htc s)"
  "bs_lastError (snd (applyResult healthy err htc now active s)) =
   bs_lastError (record_result healthy err htc s)"
  "bs_healthState (snd (applyResult healthy err htc now active s)) =
   bs_healthState (record_result healthy err htc s)"
  by (simp_all add: applyResult_def Let_def)

lemma applyResult_changed [simp]:
  "fst (applyResult healthy err htc now active s) \<longleftrightarrow>
   bs_healthState (record_result healthy err htc s) \<noteq> bs_healthState s"
  by (auto simp: applyResult_def Let_def)

lemma applyResult_times:
  "bs_lastStateChange (snd (applyResult healthy err htc now active s)) =
   (if fst (applyResult healthy err htc now active s) then now else bs_lastStateChange s)"
  "bs_lastHealthCheck (snd (applyResult healthy err htc now active s)) =
   (if active then now else bs_lastHealthCheck s)"
  by (simp_all add: applyResult_def Let_def)

section \<open>Runs of results\<close>

text \<open>A result with its error, its time and whether it came from an active probe.\<close>

record health_result =
  hres_ok :: bool
  hres_err :: "go_error option"
  hres_now :: go_time
  hres_active :: bool

fun apply_results ::
  "health_threshold_config \<Rightarrow> health_result list \<Rightarrow> backend_status \<Rightarrow> backend_status" where
  "apply_results htc [] s = s"
| "apply_results htc (r # rs) s =
     apply_results htc rs
       (snd (applyResult (hres_ok r) (hres_err r) htc (hres_now r) (hres_active r) s))"

lemma apply_results_append:
  "apply_results htc (rs @ qs) s = apply_results htc qs (apply_results htc rs s)"
  by (induction rs arbitrary: s) simp_all

text \<open>The length of the streak of \<open>v\<close> at the end of a list.\<close>

definition streak :: "'a \<Rightarrow> 'a list \<Rightarrow> nat" where
  "streak v xs = length (takeWhile (\<lambda>x. x = v) (rev xs))"

lemma streak_Nil [simp]: "streak v [] = 0"
  by (simp add: streak_def)

lemma streak_snoc [simp]: "streak v (xs @ [x]) = (if x = v then Suc (streak v xs) else 0)"
  by (simp add: streak_def)

text \<open>
  The specification: the verdict of the last moment at which the streak of successes or of
  failures was at least its threshold. The list has the newest result first.
\<close>

definition front_streak :: "'a list \<Rightarrow> nat" where
  "front_streak vs = (case vs of [] \<Rightarrow> 0 | v # _ \<Rightarrow> length (takeWhile (\<lambda>x. x = v) vs))"

fun verdict :: "nat \<Rightarrow> nat \<Rightarrow> health_state \<Rightarrow> bool list \<Rightarrow> health_state" where
  "verdict H U h [] = h"
| "verdict H U h (v # vs) =
     (if v \<and> front_streak (v # vs) \<ge> H then HealthHealthy
      else if \<not> v \<and> front_streak (v # vs) \<ge> U then HealthUnhealthy
      else verdict H U h vs)"

lemma front_streak_snoc: "front_streak (rev (xs @ [x])) = streak x (xs @ [x])"
  by (simp add: front_streak_def streak_def)

lemma verdict_snoc:
  "verdict H U h (rev (xs @ [x])) =
     (if x \<and> streak x (xs @ [x]) \<ge> H then HealthHealthy
      else if \<not> x \<and> streak x (xs @ [x]) \<ge> U then HealthUnhealthy
      else verdict H U h (rev xs))"
  unfolding rev_append rev.simps append.simps verdict.simps
  using front_streak_snoc [of xs x] by (cases x) simp_all

text \<open>The verdict of a streak at its threshold.\<close>

lemma verdict_streak:
  "0 < H \<Longrightarrow> H \<le> streak True xs \<Longrightarrow> verdict H U h (rev xs) = HealthHealthy"
  "0 < U \<Longrightarrow> U \<le> streak False xs \<Longrightarrow> verdict H U h (rev xs) = HealthUnhealthy"
  by (induction xs rule: rev_induct) (auto simp: verdict_snoc simp del: rev_append split: if_splits)

text \<open>The threshold as the comparison of the code reads it.\<close>

abbreviation thr :: "int32 \<Rightarrow> nat" where
  "thr w \<equiv> unat w"

lemma counter_wrap:
  assumes "unat c = n mod 2 ^ 32"
  shows "unat (c + 1 :: uint32) = Suc n mod 2 ^ 32"
proof -
  have "unat (c + 1) = (unat c + 1) mod 2 ^ 32" by (simp add: unat_word_ariths)
  then show ?thesis using assms by (simp add: mod_Suc_eq)
qed

lemma unat_lt2p_32: "unat (t :: uint32) < 2 ^ 32"
  using unsigned_less [of t] by simp

lemma threshold_reached:
  fixes t :: uint32
  assumes "unat c = Suc n mod 2 ^ 32" and "t \<le> c"
  shows "thr t \<le> Suc n"
  using assms mod_less_eq_dividend [of "Suc n" "2 ^ 32"]
  by (simp add: word_le_nat_alt del: mod_less_eq_dividend)

text \<open>When a wrapped counter is below the threshold, the streak was long enough before.\<close>

lemma below_threshold:
  fixes t :: uint32
  assumes "unat c = Suc n mod 2 ^ 32" and "\<not> t \<le> c" and "thr t \<le> Suc n"
  shows "thr t \<le> n"
proof -
  have "unat c < thr t" using assms(2) by (simp add: word_le_nat_alt)
  then have "Suc n \<noteq> thr t" using assms(1) unat_lt2p_32 [of t] by auto
  with assms(3) show ?thesis by simp
qed

lemma apply_results_spec:
  assumes s: "bs_consecutiveFailures s = 0" "bs_consecutiveSuccess s = 0"
    and pos: "0 < thr (ht_Healthy htc)" "0 < thr (ht_Unhealthy htc)"
  shows "unat (bs_consecutiveSuccess (apply_results htc rs s))
           = streak True (map hres_ok rs) mod 2 ^ 32 \<and>
         unat (bs_consecutiveFailures (apply_results htc rs s))
           = streak False (map hres_ok rs) mod 2 ^ 32 \<and>
         bs_healthState (apply_results htc rs s) =
           verdict (thr (ht_Healthy htc)) (thr (ht_Unhealthy htc)) (bs_healthState s)
             (rev (map hres_ok rs))"
proof (induction rs rule: rev_induct)
  case Nil
  then show ?case by (simp add: s)
next
  case (snoc r rs)
  let ?t = "apply_results htc rs s" and ?xs = "map hres_ok rs"
  let ?H = "thr (ht_Healthy htc)" and ?U = "thr (ht_Unhealthy htc)"
  let ?v = "verdict ?H ?U (bs_healthState s)"
  let ?u = "record_result (hres_ok r) (hres_err r) htc ?t"
  have "bs_healthState ?u = ?v (rev (?xs @ [hres_ok r])) \<and>
      unat (bs_consecutiveSuccess ?u) = streak True (?xs @ [hres_ok r]) mod 2 ^ 32 \<and>
      unat (bs_consecutiveFailures ?u) = streak False (?xs @ [hres_ok r]) mod 2 ^ 32"
  proof (cases "hres_ok r")
    case True
    have n: "unat (bs_consecutiveSuccess ?t + 1) = Suc (streak True ?xs) mod 2 ^ 32"
      using snoc by (intro counter_wrap) simp
    have "(if ht_Healthy htc \<le> bs_consecutiveSuccess ?t + 1 then HealthHealthy
        else bs_healthState ?t) = ?v (rev (?xs @ [True]))"
      unfolding verdict_snoc using threshold_reached [OF n] below_threshold [OF n]
        verdict_streak(1) [OF pos(1)] snoc by auto
    then show ?thesis using True n by (simp add: record_success)
  next
    case False
    have n: "unat (bs_consecutiveFailures ?t + 1) = Suc (streak False ?xs) mod 2 ^ 32"
      using snoc by (intro counter_wrap) simp
    have "(if ht_Unhealthy htc \<le> bs_consecutiveFailures ?t + 1 then HealthUnhealthy
        else bs_healthState ?t) = ?v (rev (?xs @ [False]))"
      unfolding verdict_snoc using threshold_reached [OF n] below_threshold [OF n]
        verdict_streak(2) [OF pos(2)] snoc by auto
    then show ?thesis using False n by (simp add: record_failure)
  qed
  then show ?case by (simp add: apply_results_append del: rev_append)
qed

lemma streak_suffix: "n \<le> streak v xs \<Longrightarrow> \<exists>p. xs = p @ replicate n v"
proof (induction n arbitrary: xs)
  case (Suc n)
  then show ?case
  proof (cases xs rule: rev_cases)
    case (snoc ys y)
    with Suc.prems have "y = v" "n \<le> streak v ys" by (auto split: if_splits)
    with Suc.IH [of ys] snoc show ?thesis by (auto simp: replicate_append_same [symmetric])
  qed simp
qed simp

lemma verdict_stays:
  assumes "0 < U" and "\<And>p q. xs \<noteq> p @ replicate U False @ q"
  shows "verdict H U HealthHealthy (rev xs) = HealthHealthy"
  using assms(2)
proof (induction xs rule: rev_induct)
  case (snoc x xs)
  have "xs \<noteq> p @ replicate U False @ q" for p q
    using snoc.prems [of p "q @ [x]"] by auto
  moreover have "\<not> U \<le> streak False (xs @ [x])"
    using streak_suffix [of U False "xs @ [x]"] snoc.prems [of _ "[]"] assms(1) by auto
  ultimately show ?case using snoc.IH assms(1) unfolding verdict_snoc by (cases x) simp_all
qed simp

section \<open>Properties\<close>

text \<open>C11: dampened health transitions. From a status without a streak (a new one, or after a
  reset or \<open>MarkHealthy\<close>) and for positive thresholds, after any number of probe and passive
  results the counters are the lengths of the current streaks modulo \<open>2 ^ 32\<close> and the health
  state is the verdict of the last streak that reached its threshold; in particular the
  wrap-around of a counter never changes the state.\<close>

theorem health_is_verdict:
  assumes "bs_consecutiveFailures s = 0" and "bs_consecutiveSuccess s = 0"
    and "0 < sint (ht_Healthy htc)" and "0 < sint (ht_Unhealthy htc)"
  shows "unat (bs_consecutiveSuccess (apply_results htc rs s))
           = streak True (map hres_ok rs) mod 2 ^ 32 \<and>
         unat (bs_consecutiveFailures (apply_results htc rs s))
           = streak False (map hres_ok rs) mod 2 ^ 32 \<and>
         bs_healthState (apply_results htc rs s) =
           verdict (unat (ht_Healthy htc)) (unat (ht_Unhealthy htc)) (bs_healthState s)
             (rev (map hres_ok rs))"
proof -
  have "0 < unat w" if "0 < sint w" for w :: int32
    using that by (metis gr0I less_irrefl signed_0 unat_eq_zero)
  with assms show ?thesis by (intro apply_results_spec) auto
qed

definition sample_thresholds :: health_threshold_config where
  "sample_thresholds = \<lparr>ht_Healthy = 1, ht_Unhealthy = 3\<rparr>"

definition sample_results :: "bool list \<Rightarrow> health_result list" where
  "sample_results = map (\<lambda>ok. \<lparr>hres_ok = ok, hres_err = (if ok then None else Some ''timeout''),
                                hres_now = 7, hres_active = True\<rparr>)"

theorem health_is_verdict_witness:
  "bs_healthState (apply_results sample_thresholds
     (sample_results [True, False, False, True, False, False, False]) zero_status) = HealthUnhealthy"
  using health_is_verdict [of zero_status sample_thresholds
      "sample_results [True, False, False, True, False, False, False]"]
  by (simp add: zero_status_def sample_thresholds_def sample_results_def front_streak_def)

text \<open>A transient failure never takes a backend out of rotation. An active backend
  without a streak stays active through any results, of probes or of proxied requests, that do
  not contain as many failures in a row as the unhealthy threshold.\<close>

theorem transient_failures_tolerated:
  assumes "IsActive s" and "bs_consecutiveFailures s = 0" and "bs_consecutiveSuccess s = 0"
    and "0 < sint (ht_Healthy htc)" and "0 < sint (ht_Unhealthy htc)"
    and "\<And>p q. map hres_ok rs \<noteq> p @ replicate (unat (ht_Unhealthy htc)) False @ q"
  shows "IsActive (apply_results htc rs s)"
proof -
  have pos: "0 < unat w" if "0 < sint w" for w :: int32
    using that by (metis gr0I less_irrefl signed_0 unat_eq_zero)
  have "bs_healthState (apply_results htc rs s) = verdict (unat (ht_Healthy htc))
      (unat (ht_Unhealthy htc)) (bs_healthState s) (rev (map hres_ok rs))"
    using apply_results_spec [OF assms(2,3) pos pos] assms(4,5) by blast
  with verdict_stays [OF pos [OF assms(5)] assms(6)] assms(1) show ?thesis
    by (simp add: IsActive_def)
qed

theorem transient_failures_tolerated_witness:
  "IsActive (apply_results sample_thresholds (sample_results [False, False, True, False])
     (MarkHealthy zero_status))"
proof (rule transient_failures_tolerated)
  fix p q
  show "map hres_ok (sample_results [False, False, True, False]) \<noteq>
      p @ replicate (unat (ht_Unhealthy sample_thresholds)) False @ q"
  proof
    assume eq: "map hres_ok (sample_results [False, False, True, False]) =
      p @ replicate (unat (ht_Unhealthy sample_thresholds)) False @ q"
    have "replicate 3 False = [False, False, False]" by (simp add: numeral_3_eq_3)
    with eq have e: "[False, False, True, False] = p @ False # False # False # q"
      by (simp add: sample_results_def sample_thresholds_def)
    then show False by (cases p rule: list.exhaust) (auto simp: Cons_eq_append_conv)
  qed
qed (simp_all add: IsActive_def MarkHealthy_def zero_status_def sample_thresholds_def)

end
