(* ===== verification/CasLoop.thy ===== *)
theory CasLoop
  imports Prelude
begin

text \<open>
  Lock-free updates of one shared word, as \<open>internal/metrics/metrics.go\<close> does them: a load,
  a computed new value and a compare-and-swap that is retried when another thread was faster
  (\<open>updateEWMA\<close>, \<open>DecrementActiveConnections\<close>), next to atomic read-modify-write
  operations (\<open>atomic.AddUint64\<close>). Main fact: every such run is linearizable, each finished
  thread has taken effect exactly once.
\<close>

text \<open>The program counter of a thread: before its load, between load and swap, returned.\<close>

datatype 'a cas_pc = Ready | Loaded 'a | Done

text \<open>
  The shared value, the threads, and the order in which the finished ones took effect. The
  update of a thread is a function of the value; \<open>None\<close> stands for returning without a store.
\<close>

record 'a cas_state =
  cs_val :: 'a
  cs_pc :: "nat \<Rightarrow> 'a cas_pc"
  cs_log :: "nat list"

inductive cas_step ::
  "(nat \<Rightarrow> 'a \<Rightarrow> 'a option) \<Rightarrow> 'a cas_state \<Rightarrow> 'a cas_state \<Rightarrow> bool" for f where
  load_return: "cs_pc s i = Ready \<Longrightarrow> f i (cs_val s) = None \<Longrightarrow>
    cas_step f s (s\<lparr>cs_pc := (cs_pc s)(i := Done), cs_log := cs_log s @ [i]\<rparr>)"
| load_value: "cs_pc s i = Ready \<Longrightarrow> f i (cs_val s) = Some w \<Longrightarrow>
    cas_step f s (s\<lparr>cs_pc := (cs_pc s)(i := Loaded (cs_val s))\<rparr>)"
| swap_ok: "cs_pc s i = Loaded v \<Longrightarrow> cs_val s = v \<Longrightarrow> f i v = Some w \<Longrightarrow>
    cas_step f s (s\<lparr>cs_val := w, cs_pc := (cs_pc s)(i := Done), cs_log := cs_log s @ [i]\<rparr>)"
| swap_lost: "cs_pc s i = Loaded v \<Longrightarrow> cs_val s \<noteq> v \<Longrightarrow>
    cas_step f s (s\<lparr>cs_pc := (cs_pc s)(i := Ready)\<rparr>)"
| atomic_op: "cs_pc s i = Ready \<Longrightarrow> f i (cs_val s) = Some w \<Longrightarrow>
    cas_step f s (s\<lparr>cs_val := w, cs_pc := (cs_pc s)(i := Done), cs_log := cs_log s @ [i]\<rparr>)"

definition cas_init :: "'a \<Rightarrow> 'a cas_state" where
  "cas_init v = \<lparr>cs_val = v, cs_pc = (\<lambda>_. Ready), cs_log = []\<rparr>"

inductive cas_reach :: "(nat \<Rightarrow> 'a \<Rightarrow> 'a option) \<Rightarrow> 'a \<Rightarrow> 'a cas_state \<Rightarrow> bool" for f v where
  cas_start: "cas_reach f v (cas_init v)"
| cas_next: "cas_reach f v s \<Longrightarrow> cas_step f s s' \<Longrightarrow> cas_reach f v s'"

text \<open>The updates one after the other.\<close>

definition apply_one :: "(nat \<Rightarrow> 'a \<Rightarrow> 'a option) \<Rightarrow> nat \<Rightarrow> 'a \<Rightarrow> 'a" where
  "apply_one f i v = (case f i v of None \<Rightarrow> v | Some w \<Rightarrow> w)"

definition run_seq :: "(nat \<Rightarrow> 'a \<Rightarrow> 'a option) \<Rightarrow> nat list \<Rightarrow> 'a \<Rightarrow> 'a" where
  "run_seq f is v = fold (apply_one f) is v"

lemma run_seq_simps [simp]:
  "run_seq f [] v = v"
  "run_seq f (is @ [i]) v = apply_one f i (run_seq f is v)"
  by (simp_all add: run_seq_def)

lemma cas_linearizable:
  assumes "cas_reach f v s"
  shows "cs_val s = run_seq f (cs_log s) v \<and> distinct (cs_log s) \<and>
         set (cs_log s) = {i. cs_pc s i = Done}"
  using assms
proof (induction rule: cas_reach.induct)
  case cas_start
  then show ?case by (simp add: cas_init_def)
next
  case (cas_next s s')
  from cas_next.hyps(2) cas_next.IH show ?case
    by (cases rule: cas_step.cases) (auto simp: apply_one_def split: if_splits)
qed

end
