(* ===== verification/Metrics.thy ===== *)
theory Metrics
  imports CasLoop ConfigTypes
begin

text \<open>
  \<open>internal/metrics\<close>: the counters of the proxy and the registry of the backend metrics
  (\<open>metrics.go\<close>, \<open>backend.go\<close>, \<open>http.go\<close>, \<open>security.go\<close>, \<open>exporters.go\<close>).
  The registry maps URLs to metrics; no code keeps a metrics pointer across two calls, so the
  map holds the metrics themselves. A float that the code stores as bits is the float. The
  resource collectors, which sample the operating system, are left out.
\<close>

section \<open>State\<close>

record backend_metrics =
  bm_Requests :: uint64
  bm_Failures :: uint64
  bm_ActiveConnections :: uint64
  bm_Timeouts :: uint64
  bm_HealthChecks :: uint64
  bm_FailedHealthChecks :: uint64
  bm_LatencyEWMA :: f64
  bm_ErrorRateEWMA :: f64
  bm_CpuPercent :: f64
  bm_MemoryPercent :: f64
  bm_ConsecutiveFailures :: uint32
  bm_ConsecutiveSuccess :: uint32
  bm_LastFailureTime :: int64

definition zero_backend_metrics :: backend_metrics where
  "zero_backend_metrics =
     \<lparr>bm_Requests = 0, bm_Failures = 0, bm_ActiveConnections = 0, bm_Timeouts = 0,
      bm_HealthChecks = 0, bm_FailedHealthChecks = 0, bm_LatencyEWMA = Fin 0,
      bm_ErrorRateEWMA = Fin 0, bm_CpuPercent = Fin 0, bm_MemoryPercent = Fin 0,
      bm_ConsecutiveFailures = 0, bm_ConsecutiveSuccess = 0, bm_LastFailureTime = 0\<rparr>"

type_synonym backend_metrics_manager = "string \<rightharpoonup> backend_metrics"

record http_metrics =
  hm_RequestSizeTotal :: uint64
  hm_ResponseSizeTotal :: uint64
  hm_StatusCodes :: "goint \<rightharpoonup> uint64"
  hm_MethodsCount :: "string \<rightharpoonup> uint64"

record security_metrics =
  sm_AllowedRequests :: uint64
  sm_BlockedRequests :: uint64

record metrics =
  mt_Backends :: backend_metrics_manager
  mt_Security :: security_metrics
  mt_HTTP :: http_metrics
  mt_TotalRequests :: uint64
  mt_FailedRequests :: uint64
  mt_TotalLatencyMs :: uint64
  mt_MinuteRequests :: uint64
  mt_MinuteErrors :: uint64

definition NewMetrics :: metrics where
  "NewMetrics =
     \<lparr>mt_Backends = Map.empty,
      mt_Security = \<lparr>sm_AllowedRequests = 0, sm_BlockedRequests = 0\<rparr>,
      mt_HTTP = \<lparr>hm_RequestSizeTotal = 0, hm_ResponseSizeTotal = 0,
                 hm_StatusCodes = Map.empty, hm_MethodsCount = Map.empty\<rparr>,
      mt_TotalRequests = 0, mt_FailedRequests = 0, mt_TotalLatencyMs = 0,
      mt_MinuteRequests = 0, mt_MinuteErrors = 0\<rparr>"

section \<open>The registry\<close>

text \<open>\<open>LoadOrStore\<close>: registering a known URL keeps its metrics.\<close>

definition bmm_Register :: "string \<Rightarrow> backend_metrics_manager \<Rightarrow> backend_metrics_manager" where
  "bmm_Register url b = (case b url of Some _ \<Rightarrow> b | None \<Rightarrow> b(url \<mapsto> zero_backend_metrics))"

definition bmm_Deregister :: "string \<Rightarrow> backend_metrics_manager \<Rightarrow> backend_metrics_manager" where
  "bmm_Deregister url b = b(url := None)"

definition bmm_Get :: "string \<Rightarrow> backend_metrics_manager \<Rightarrow> backend_metrics option" where
  "bmm_Get url b = b url"

text \<open>An update of the metrics of a URL, if it is registered.\<close>

definition on_backend :: "string \<Rightarrow> (backend_metrics \<Rightarrow> backend_metrics) \<Rightarrow> metrics \<Rightarrow> metrics" where
  "on_backend url f m =
     (case bmm_Get url (mt_Backends m) of
        None \<Rightarrow> m
      | Some bm \<Rightarrow> m\<lparr>mt_Backends := (mt_Backends m)(url \<mapsto> f bm)\<rparr>)"

section \<open>Recording\<close>

text \<open>One turn of the loop of \<open>updateEWMA\<close>: the new average of an old one.\<close>

definition ewma_step :: "f64 \<Rightarrow> f64 \<Rightarrow> f64 \<Rightarrow> f64" where
  "ewma_step newVal alpha oldVal =
     (if f64_eq oldVal (Fin 0) then newVal
      else f64_add (f64_mul alpha newVal) (f64_mul (f64_sub (Fin 1) alpha) oldVal))"

definition alpha_latency :: f64 where
  "alpha_latency = mk64 (2 / 10)"

definition alpha_error :: f64 where
  "alpha_error = mk64 (8 / 100)"

definition record_backend_end ::
  "f64 \<Rightarrow> bool \<Rightarrow> int32 \<Rightarrow> int64 \<Rightarrow> backend_metrics \<Rightarrow> backend_metrics" where
  "record_backend_end latencyMs isError code now bm =
     (let b1 = bm\<lparr>bm_Requests := bm_Requests bm + 1\<rparr>;
          b2 = (if isError then
                  (let b = b1\<lparr>bm_Failures := bm_Failures b1 + 1, bm_LastFailureTime := now\<rparr>
                   in if sint code \<ge> 500
                      then b\<lparr>bm_ConsecutiveSuccess := 0,
                             bm_ConsecutiveFailures := bm_ConsecutiveFailures b + 1\<rparr>
                      else b)
                else b1\<lparr>bm_ConsecutiveSuccess := bm_ConsecutiveSuccess b1 + 1,
                        bm_ConsecutiveFailures := 0\<rparr>);
          b3 = b2\<lparr>bm_LatencyEWMA := ewma_step latencyMs alpha_latency (bm_LatencyEWMA b2)\<rparr>;
          errRate = (if isError then Fin 1 else Fin 0)
      in b3\<lparr>bm_ErrorRateEWMA := ewma_step errRate alpha_error (bm_ErrorRateEWMA b3)\<rparr>)"

text \<open>\<open>conv\<close> gives the conversion \<open>uint64(latencyMs)\<close> of a value that does not fit, which
  Go leaves to the implementation.\<close>

definition uint64_of :: "(f64 \<Rightarrow> uint64) \<Rightarrow> f64 \<Rightarrow> uint64" where
  "uint64_of conv x = (case f64_to_uint64 x of Some n \<Rightarrow> n | None \<Rightarrow> conv x)"

definition RecordRequestEnd ::
  "(f64 \<Rightarrow> uint64) \<Rightarrow> string \<Rightarrow> f64 \<Rightarrow> bool \<Rightarrow> int32 \<Rightarrow> int64 \<Rightarrow> metrics \<Rightarrow> metrics" where
  "RecordRequestEnd conv url latencyMs isError code now m =
     (let m1 = m\<lparr>mt_TotalRequests := mt_TotalRequests m + 1,
                 mt_TotalLatencyMs := mt_TotalLatencyMs m + uint64_of conv latencyMs,
                 mt_MinuteRequests := mt_MinuteRequests m + 1\<rparr>;
          m2 = (if isError
                then m1\<lparr>mt_FailedRequests := mt_FailedRequests m1 + 1,
                        mt_MinuteErrors := mt_MinuteErrors m1 + 1\<rparr>
                else m1)
      in on_backend url (record_backend_end latencyMs isError code now) m2)"

definition RecordRequestSize :: "int64 \<Rightarrow> metrics \<Rightarrow> metrics" where
  "RecordRequestSize sz m =
     m\<lparr>mt_HTTP := (mt_HTTP m)\<lparr>hm_RequestSizeTotal := hm_RequestSizeTotal (mt_HTTP m) + sz\<rparr>\<rparr>"

definition RecordResponseSize :: "int64 \<Rightarrow> metrics \<Rightarrow> metrics" where
  "RecordResponseSize sz m =
     m\<lparr>mt_HTTP := (mt_HTTP m)\<lparr>hm_ResponseSizeTotal := hm_ResponseSizeTotal (mt_HTTP m) + sz\<rparr>\<rparr>"

definition RecordRateLimitAllow :: "metrics \<Rightarrow> metrics" where
  "RecordRateLimitAllow m =
     m\<lparr>mt_Security := (mt_Security m)
         \<lparr>sm_AllowedRequests := sm_AllowedRequests (mt_Security m) + 1\<rparr>\<rparr>"

definition RecordRateLimitBlock :: "metrics \<Rightarrow> metrics" where
  "RecordRateLimitBlock m =
     m\<lparr>mt_Security := (mt_Security m)
         \<lparr>sm_BlockedRequests := sm_BlockedRequests (mt_Security m) + 1\<rparr>\<rparr>"

definition RecordTimeout :: "string \<Rightarrow> metrics \<Rightarrow> metrics" where
  "RecordTimeout backend = on_backend backend (\<lambda>b. b\<lparr>bm_Timeouts := bm_Timeouts b + 1\<rparr>)"

definition RecordHealthCheck :: "string \<Rightarrow> bool \<Rightarrow> metrics \<Rightarrow> metrics" where
  "RecordHealthCheck backend success =
     on_backend backend
       (\<lambda>b. let b1 = b\<lparr>bm_HealthChecks := bm_HealthChecks b + 1\<rparr>
            in if success then b1
               else b1\<lparr>bm_FailedHealthChecks := bm_FailedHealthChecks b1 + 1\<rparr>)"

text \<open>\<open>items[k]++\<close>: a missing key counts from zero.\<close>

definition bump :: "'k \<Rightarrow> ('k \<rightharpoonup> uint64) \<Rightarrow> ('k \<rightharpoonup> uint64)" where
  "bump k items = items(k \<mapsto> (case items k of None \<Rightarrow> 0 | Some n \<Rightarrow> n) + 1)"

definition RecordStatusCode :: "goint \<Rightarrow> metrics \<Rightarrow> metrics" where
  "RecordStatusCode status m =
     m\<lparr>mt_HTTP := (mt_HTTP m)\<lparr>hm_StatusCodes := bump status (hm_StatusCodes (mt_HTTP m))\<rparr>\<rparr>"

definition RecordMethod :: "string \<Rightarrow> metrics \<Rightarrow> metrics" where
  "RecordMethod meth m =
     m\<lparr>mt_HTTP := (mt_HTTP m)\<lparr>hm_MethodsCount := bump meth (hm_MethodsCount (mt_HTTP m))\<rparr>\<rparr>"

definition IncrementActiveConnections :: "string \<Rightarrow> metrics \<Rightarrow> metrics" where
  "IncrementActiveConnections url =
     on_backend url (\<lambda>b. b\<lparr>bm_ActiveConnections := bm_ActiveConnections b + 1\<rparr>)"

text \<open>One turn of the decrement's loop: \<open>None\<close> is the early return at zero.\<close>

definition dec_step :: "uint64 \<Rightarrow> uint64 option" where
  "dec_step current = (if current = 0 then None else Some (current - 1))"

definition DecrementActiveConnections :: "string \<Rightarrow> metrics \<Rightarrow> metrics" where
  "DecrementActiveConnections url =
     on_backend url (\<lambda>b. b\<lparr>bm_ActiveConnections :=
       (case dec_step (bm_ActiveConnections b) of None \<Rightarrow> bm_ActiveConnections b
        | Some n \<Rightarrow> n)\<rparr>)"

section \<open>Reading\<close>

text \<open>The maps that the getters fill from a walk over the registry; \<open>int32\<close> of a counter keeps
  its low 32 bits.\<close>

definition per_backend :: "(backend_metrics \<Rightarrow> 'a) \<Rightarrow> metrics \<Rightarrow> (string \<rightharpoonup> 'a)" where
  "per_backend f m = map_option f \<circ> mt_Backends m"

definition GetRequestsPerBackend :: "metrics \<Rightarrow> (string \<rightharpoonup> int32)" where
  "GetRequestsPerBackend = per_backend (\<lambda>b. ucast (bm_Requests b))"

definition GetFailedRequestsPerBackend :: "metrics \<Rightarrow> (string \<rightharpoonup> int32)" where
  "GetFailedRequestsPerBackend = per_backend (\<lambda>b. ucast (bm_Failures b))"

definition GetActiveConnectionsPerBackend :: "metrics \<Rightarrow> (string \<rightharpoonup> int32)" where
  "GetActiveConnectionsPerBackend = per_backend (\<lambda>b. ucast (bm_ActiveConnections b))"

definition GetTimeoutsPerBackend :: "metrics \<Rightarrow> (string \<rightharpoonup> int32)" where
  "GetTimeoutsPerBackend = per_backend (\<lambda>b. ucast (bm_Timeouts b))"

definition GetHealthChecksPerBackend :: "metrics \<Rightarrow> (string \<rightharpoonup> int32)" where
  "GetHealthChecksPerBackend = per_backend (\<lambda>b. ucast (bm_HealthChecks b))"

definition GetFailedHealthChecksPerBackend :: "metrics \<Rightarrow> (string \<rightharpoonup> int32)" where
  "GetFailedHealthChecksPerBackend = per_backend (\<lambda>b. ucast (bm_FailedHealthChecks b))"

definition GetAvgLatencyPerBackends :: "metrics \<Rightarrow> (string \<rightharpoonup> f64)" where
  "GetAvgLatencyPerBackends = per_backend bm_LatencyEWMA"

definition GetStatusCodes :: "metrics \<Rightarrow> (goint \<rightharpoonup> uint64)" where
  "GetStatusCodes m = hm_StatusCodes (mt_HTTP m)"

definition GetMethodsCount :: "metrics \<Rightarrow> (string \<rightharpoonup> uint64)" where
  "GetMethodsCount m = hm_MethodsCount (mt_HTTP m)"

definition GetTotalRequests :: "metrics \<Rightarrow> uint64" where
  "GetTotalRequests m = mt_TotalRequests m"

definition GetTotalFailedRequests :: "metrics \<Rightarrow> uint64" where
  "GetTotalFailedRequests m = mt_FailedRequests m"

section \<open>Views\<close>

text \<open>The responses of \<open>internal/view/metrics.go\<close> that the exporters fill; time stamps are
  left out, and so is \<open>Goroutines\<close> of a backend, which no exporter sets.\<close>

record backend_metrics_response =
  bmr_URL :: string
  bmr_Requests :: uint64
  bmr_Failures :: uint64
  bmr_ActiveConnections :: uint64
  bmr_Timeouts :: uint64
  bmr_HealthChecks :: uint64
  bmr_FailedHealthChecks :: uint64
  bmr_LatencyEWMA :: f64
  bmr_ErrorRateEWMA :: f64
  bmr_CpuPercent :: f64
  bmr_MemoryPercent :: f64

definition ToBackendMetricsResponse :: "string \<Rightarrow> metrics \<Rightarrow> backend_metrics_response" where
  "ToBackendMetricsResponse url m =
     (case bmm_Get url (mt_Backends m) of
        None \<Rightarrow>
          \<lparr>bmr_URL = url, bmr_Requests = 0, bmr_Failures = 0, bmr_ActiveConnections = 0,
           bmr_Timeouts = 0, bmr_HealthChecks = 0, bmr_FailedHealthChecks = 0,
           bmr_LatencyEWMA = Fin 0, bmr_ErrorRateEWMA = Fin 0, bmr_CpuPercent = Fin 0,
           bmr_MemoryPercent = Fin 0\<rparr>
      | Some bm \<Rightarrow>
          \<lparr>bmr_URL = url, bmr_Requests = bm_Requests bm, bmr_Failures = bm_Failures bm,
           bmr_ActiveConnections = bm_ActiveConnections bm, bmr_Timeouts = bm_Timeouts bm,
           bmr_HealthChecks = bm_HealthChecks bm, bmr_FailedHealthChecks = bm_FailedHealthChecks bm,
           bmr_LatencyEWMA = bm_LatencyEWMA bm, bmr_ErrorRateEWMA = bm_ErrorRateEWMA bm,
           bmr_CpuPercent = f64_mul (bm_CpuPercent bm) (Fin 100),
           bmr_MemoryPercent = f64_mul (bm_MemoryPercent bm) (Fin 100)\<rparr>)"

text \<open>\<open>order\<close> is the order in which the walk over the registry visits its URLs.\<close>

definition ToAllBackendsResponse :: "string list \<Rightarrow> metrics \<Rightarrow> backend_metrics_response list" where
  "ToAllBackendsResponse order m = map (\<lambda>url. ToBackendMetricsResponse url m) order"

definition ToSecurityMetricsResponse :: "metrics \<Rightarrow> security_metrics" where
  "ToSecurityMetricsResponse m = mt_Security m"

record http_metrics_response =
  hmr_TotalRequestSize :: uint64
  hmr_TotalResponseSize :: uint64
  hmr_StatusCodes :: "int32 \<rightharpoonup> uint64"
  hmr_MethodsCount :: "string \<rightharpoonup> uint64"

text \<open>\<open>order\<close> is the order in which the loop visits the keys of the status code map.\<close>

definition ToHTTPMetricsResponse :: "goint list \<Rightarrow> metrics \<Rightarrow> http_metrics_response" where
  "ToHTTPMetricsResponse order m =
     \<lparr>hmr_TotalRequestSize = hm_RequestSizeTotal (mt_HTTP m),
      hmr_TotalResponseSize = hm_ResponseSizeTotal (mt_HTTP m),
      hmr_StatusCodes = foldl (\<lambda>r k. r(ucast k := hm_StatusCodes (mt_HTTP m) k)) Map.empty order,
      hmr_MethodsCount = hm_MethodsCount (mt_HTTP m)\<rparr>"

section \<open>The registry\<close>

lemma bmm_Register_dom [simp]: "dom (bmm_Register url b) = insert url (dom b)"
  by (auto simp: bmm_Register_def split: option.splits)

lemma bmm_Register_other [simp]: "url' \<noteq> url \<Longrightarrow> bmm_Register url b url' = b url'"
  by (simp add: bmm_Register_def split: option.splits)

lemma bmm_Register_keeps: "b url = Some bm \<Longrightarrow> bmm_Register url' b url = Some bm"
  by (auto simp: bmm_Register_def split: option.splits)

lemma bmm_Deregister_dom [simp]: "dom (bmm_Deregister url b) = dom b - {url}"
  by (auto simp: bmm_Deregister_def split: if_splits)

lemma on_backend_dom [simp]: "dom (mt_Backends (on_backend url f m)) = dom (mt_Backends m)"
  by (auto simp: on_backend_def bmm_Get_def split: option.splits)

lemma on_backend_other [simp]:
  "url' \<noteq> url \<Longrightarrow> mt_Backends (on_backend url f m) url' = mt_Backends m url'"
  by (auto simp: on_backend_def bmm_Get_def split: option.splits)

lemma on_backend_same [simp]:
  "mt_Backends (on_backend url f m) url = map_option f (mt_Backends m url)"
  by (auto simp: on_backend_def bmm_Get_def split: option.splits)

lemma on_backend_globals [simp]:
  "mt_TotalRequests (on_backend url f m) = mt_TotalRequests m"
  "mt_FailedRequests (on_backend url f m) = mt_FailedRequests m"
  "mt_MinuteRequests (on_backend url f m) = mt_MinuteRequests m"
  "mt_MinuteErrors (on_backend url f m) = mt_MinuteErrors m"
  "mt_TotalLatencyMs (on_backend url f m) = mt_TotalLatencyMs m"
  "mt_Security (on_backend url f m) = mt_Security m"
  "mt_HTTP (on_backend url f m) = mt_HTTP m"
  by (simp_all add: on_backend_def split: option.splits)

section \<open>Averages stay in range\<close>

lemma round64_le_one: "x \<le> 1 \<Longrightarrow> round64 x \<le> 1"
  using round64_mono [of x 1] round64_nat [of 1] by simp

text \<open>The weight \<open>0.08\<close> as a float, its complement \<open>1.0 - alpha\<close>, and that the two do not
  add up to more than one once rounded.\<close>

definition err_w :: rat where "err_w = 5764607523034235 / 2 ^ 56"
definition err_rest :: rat where "err_rest = 8286623314361713 / 2 ^ 53"

lemma err_weights:
  "0 \<le> err_w" "err_w \<le> 1" "0 \<le> err_rest" "err_rest \<le> 1"
  by (simp_all add: err_w_def err_rest_def)

lemma alpha_error_value: "alpha_error = Fin err_w"
  unfolding alpha_error_def err_w_def using round64_eqI [of "- 4" "8 / 100" 5764607523034235]
  by (subst mk64_small) (simp_all add: pow2_def)

lemma one_minus_alpha_error: "f64_sub (Fin 1) (Fin err_w) = Fin err_rest"
  unfolding f64_sub_def err_w_def err_rest_def
  using round64_eqI [of "- 1" "1 - 5764607523034235 / 2 ^ 56" 8286623314361713]
  by (simp add: mk64_small pow2_def)

lemma alpha_error_complement: "round64 (err_w + err_rest) \<le> 1"
  unfolding err_w_def err_rest_def
  using round64_eqI [of 0 "5764607523034235 / 2 ^ 56 + 8286623314361713 / 2 ^ 53" 4503599627370496]
  by (simp add: pow2_def)

lemma alpha_error_exact: "round64 err_w = err_w"
  using round64_eqI [of "- 4" "5764607523034235 / 2 ^ 56" 5764607523034235]
  by (simp add: pow2_def err_w_def)

lemma alpha_error_rest_exact: "round64 err_rest = err_rest"
  using round64_eqI [of "- 1" "8286623314361713 / 2 ^ 53" 8286623314361713]
  by (simp add: pow2_def err_rest_def)

definition unit_float :: "f64 \<Rightarrow> bool" where
  "unit_float x \<longleftrightarrow> (\<exists>r. x = Fin r \<and> 0 \<le> r \<and> r \<le> 1)"

lemma unit_float_simps [simp]: "unit_float (Fin r) \<longleftrightarrow> 0 \<le> r \<and> r \<le> 1"
  by (simp add: unit_float_def)

text \<open>A product with a weight in the unit interval, rounded.\<close>

lemma mk64_scaled:
  assumes "0 \<le> w" "w \<le> 1" "round64 w = w" "0 \<le> x" "x \<le> 1"
  shows "\<exists>p. f64_mul (Fin w) (Fin x) = Fin p \<and> 0 \<le> p \<and> p \<le> w"
proof -
  have le: "w * x \<le> w" using assms by (simp add: mult_left_le)
  have "0 \<le> w * x" using assms by simp
  moreover have "w * x \<le> 1" using le assms(2) by linarith
  ultimately have "mk64 (w * x) = Fin (round64 (w * x))"
    by (intro mk64_small) (simp add: abs_le_iff)
  then show ?thesis
    using round64_nonneg [OF \<open>0 \<le> w * x\<close>] round64_mono [OF le] assms(3) by simp
qed

lemma ewma_error_unit:
  assumes "unit_float new" and "unit_float old"
  shows "unit_float (ewma_step new alpha_error old)"
proof -
  obtain n r where n: "new = Fin n" "0 \<le> n" "n \<le> 1" and r: "old = Fin r" "0 \<le> r" "r \<le> 1"
    using assms by (auto simp: unit_float_def)
  obtain p where p: "f64_mul (Fin err_w) (Fin n) = Fin p" "0 \<le> p" "p \<le> err_w"
    using mk64_scaled [OF err_weights(1,2) alpha_error_exact n(2,3)] by auto
  obtain q where q: "f64_mul (Fin err_rest) (Fin r) = Fin q" "0 \<le> q" "q \<le> err_rest"
    using mk64_scaled [OF err_weights(3,4) alpha_error_rest_exact r(2,3)] by auto
  have le: "round64 (p + q) \<le> 1"
    using round64_mono [of "p + q" "err_w + err_rest"] p q alpha_error_complement by linarith
  have ge: "0 \<le> round64 (p + q)" using p q by (intro round64_nonneg) simp
  have "mk64 (p + q) = Fin (round64 (p + q))"
    using le ge pow2_less [of 0 1024] by (intro mk64_Fin) (simp add: abs_less_iff)
  then have "f64_add (f64_mul (Fin err_w) (Fin n)) (f64_mul (Fin err_rest) (Fin r)) =
      Fin (round64 (p + q))"
    unfolding p(1) q(1) by simp
  then show ?thesis
    using n r le ge unfolding ewma_step_def alpha_error_value one_minus_alpha_error by simp
qed

section \<open>Runs of recordings\<close>

datatype metrics_op =
    M_Register string
  | M_Deregister string
  | M_RequestEnd string f64 bool int32 int64
  | M_Timeout string
  | M_HealthCheck string bool
  | M_Increment string
  | M_Decrement string

fun metrics_exec :: "(f64 \<Rightarrow> uint64) \<Rightarrow> metrics_op \<Rightarrow> metrics \<Rightarrow> metrics" where
  "metrics_exec conv (M_Register u) m = m\<lparr>mt_Backends := bmm_Register u (mt_Backends m)\<rparr>"
| "metrics_exec conv (M_Deregister u) m = m\<lparr>mt_Backends := bmm_Deregister u (mt_Backends m)\<rparr>"
| "metrics_exec conv (M_RequestEnd u l e c t) m = RecordRequestEnd conv u l e c t m"
| "metrics_exec conv (M_Timeout u) m = RecordTimeout u m"
| "metrics_exec conv (M_HealthCheck u ok) m = RecordHealthCheck u ok m"
| "metrics_exec conv (M_Increment u) m = IncrementActiveConnections u m"
| "metrics_exec conv (M_Decrement u) m = DecrementActiveConnections u m"

definition run_metrics :: "(f64 \<Rightarrow> uint64) \<Rightarrow> metrics_op list \<Rightarrow> metrics \<Rightarrow> metrics" where
  "run_metrics conv ops m = fold (metrics_exec conv) ops m"

text \<open>The specification: unbounded counters of the recordings since a URL was registered, in the
  order requests, failures, timeouts, health checks and failed health checks.\<close>

record tally =
  ty_requests :: nat
  ty_failures :: nat
  ty_timeouts :: nat
  ty_checks :: nat
  ty_failed_checks :: nat

definition zero_tally :: tally where
  "zero_tally = \<lparr>ty_requests = 0, ty_failures = 0, ty_timeouts = 0, ty_checks = 0, ty_failed_checks = 0\<rparr>"

fun tally_step :: "string \<Rightarrow> metrics_op \<Rightarrow> tally option \<Rightarrow> tally option" where
  "tally_step u (M_Register v) t =
     (if u = v then (case t of None \<Rightarrow> Some zero_tally | Some n \<Rightarrow> Some n) else t)"
| "tally_step u (M_Deregister v) t = (if u = v then None else t)"
| "tally_step u (M_RequestEnd v l e c tm) t =
     (if u = v then map_option (\<lambda>n. n\<lparr>ty_requests := ty_requests n + 1,
        ty_failures := (if e then ty_failures n + 1 else ty_failures n)\<rparr>) t else t)"
| "tally_step u (M_Timeout v) t =
     (if u = v then map_option (\<lambda>n. n\<lparr>ty_timeouts := ty_timeouts n + 1\<rparr>) t else t)"
| "tally_step u (M_HealthCheck v ok) t =
     (if u = v then map_option (\<lambda>n. n\<lparr>ty_checks := ty_checks n + 1,
        ty_failed_checks := (if ok then ty_failed_checks n else ty_failed_checks n + 1)\<rparr>) t else t)"
| "tally_step u (M_Increment v) t = t"
| "tally_step u (M_Decrement v) t = t"

definition counts :: "uint64 \<Rightarrow> nat \<Rightarrow> bool" where
  "counts w n \<longleftrightarrow> unat w = n mod 2 ^ 64"

lemma counts_0 [simp]: "counts 0 0"
  by (simp add: counts_def)

lemma counts_Suc: "counts w n \<Longrightarrow> counts (w + 1) (Suc n)"
proof -
  assume "counts w n"
  moreover have "unat (w + 1) = (unat w + 1) mod 2 ^ 64" by (simp add: unat_word_ariths)
  ultimately show ?thesis by (simp add: counts_def mod_Suc_eq)
qed

definition tallies :: "backend_metrics \<Rightarrow> tally \<Rightarrow> bool" where
  "tallies b t \<longleftrightarrow>
     counts (bm_Requests b) (ty_requests t) \<and> counts (bm_Failures b) (ty_failures t) \<and>
     counts (bm_Timeouts b) (ty_timeouts t) \<and> counts (bm_HealthChecks b) (ty_checks t) \<and>
     counts (bm_FailedHealthChecks b) (ty_failed_checks t) \<and>
     ty_failures t \<le> ty_requests t \<and> ty_failed_checks t \<le> ty_checks t \<and>
     unit_float (bm_ErrorRateEWMA b)"

lemma tallies_zero: "tallies zero_backend_metrics zero_tally"
  by (simp add: tallies_def zero_backend_metrics_def zero_tally_def)

lemma record_backend_end_sel [simp]:
  "bm_Requests (record_backend_end l e c tm b) = bm_Requests b + 1"
  "bm_Failures (record_backend_end l e c tm b) = (if e then bm_Failures b + 1 else bm_Failures b)"
  "bm_Timeouts (record_backend_end l e c tm b) = bm_Timeouts b"
  "bm_HealthChecks (record_backend_end l e c tm b) = bm_HealthChecks b"
  "bm_FailedHealthChecks (record_backend_end l e c tm b) = bm_FailedHealthChecks b"
  "bm_ActiveConnections (record_backend_end l e c tm b) = bm_ActiveConnections b"
  "bm_ErrorRateEWMA (record_backend_end l e c tm b) =
     ewma_step (if e then Fin 1 else Fin 0) alpha_error (bm_ErrorRateEWMA b)"
  by (simp_all add: record_backend_end_def Let_def)

text \<open>What each operation does to the metrics of a URL.\<close>

fun backend_op :: "metrics_op \<Rightarrow> backend_metrics \<Rightarrow> backend_metrics" where
  "backend_op (M_RequestEnd u l e c tm) b = record_backend_end l e c tm b"
| "backend_op (M_Timeout u) b = b\<lparr>bm_Timeouts := bm_Timeouts b + 1\<rparr>"
| "backend_op (M_HealthCheck u ok) b =
     b\<lparr>bm_HealthChecks := bm_HealthChecks b + 1,
       bm_FailedHealthChecks := (if ok then bm_FailedHealthChecks b
                                 else bm_FailedHealthChecks b + 1)\<rparr>"
| "backend_op (M_Increment u) b = b\<lparr>bm_ActiveConnections := bm_ActiveConnections b + 1\<rparr>"
| "backend_op (M_Decrement u) b =
     b\<lparr>bm_ActiveConnections := (case dec_step (bm_ActiveConnections b) of
         None \<Rightarrow> bm_ActiveConnections b | Some n \<Rightarrow> n)\<rparr>"
| "backend_op _ b = b"

fun op_url :: "metrics_op \<Rightarrow> string" where
  "op_url (M_Register u) = u"
| "op_url (M_Deregister u) = u"
| "op_url (M_RequestEnd u l e c tm) = u"
| "op_url (M_Timeout u) = u"
| "op_url (M_HealthCheck u ok) = u"
| "op_url (M_Increment u) = u"
| "op_url (M_Decrement u) = u"

lemma metrics_exec_backend:
  "mt_Backends (metrics_exec conv op m) u =
     (if op_url op \<noteq> u then mt_Backends m u
      else case op of
        M_Register _ \<Rightarrow> (case mt_Backends m u of None \<Rightarrow> Some zero_backend_metrics | Some b \<Rightarrow> Some b)
      | M_Deregister _ \<Rightarrow> None
      | _ \<Rightarrow> map_option (backend_op op) (mt_Backends m u))"
proof (cases "op_url op = u")
  case True
  have if_let: "(\<lambda>b. let b1 = b\<lparr>bm_HealthChecks := bm_HealthChecks b + 1\<rparr>
            in if ok then b1 else b1\<lparr>bm_FailedHealthChecks := bm_FailedHealthChecks b1 + 1\<rparr>) =
       (\<lambda>b. backend_op (M_HealthCheck v ok) b)" for ok v
    by (simp add: fun_eq_iff Let_def)
  with True show ?thesis
    by (cases op; cases "mt_Backends m u")
      (auto simp: RecordRequestEnd_def Let_def RecordTimeout_def RecordHealthCheck_def
        if_let IncrementActiveConnections_def DecrementActiveConnections_def bmm_Register_def
        bmm_Deregister_def)
next
  case False
  then show ?thesis
    by (cases op) (auto simp: RecordRequestEnd_def Let_def RecordTimeout_def RecordHealthCheck_def
        IncrementActiveConnections_def DecrementActiveConnections_def bmm_Deregister_def)
qed

lemma ewma_01:
  "unit_float old \<Longrightarrow> unit_float (ewma_step (Fin 0) alpha_error old)"
  "unit_float old \<Longrightarrow> unit_float (ewma_step (Fin 1) alpha_error old)"
  by (simp_all add: ewma_error_unit)

lemma tallies_op:
  "tallies b t \<Longrightarrow> tally_step (op_url op) op (Some t) = Some t' \<Longrightarrow>
   (\<And>v. op \<noteq> M_Deregister v) \<Longrightarrow> tallies (backend_op op b) t'"
  by (cases op)
    (auto simp: tallies_def counts_Suc ewma_01)

lemma run_metrics_snoc [simp]:
  "run_metrics conv (ops @ [op]) m = metrics_exec conv op (run_metrics conv ops m)"
  "run_metrics conv [] m = m"
  by (simp_all add: run_metrics_def)

text \<open>The backend counters count. After any recordings, registrations and deregistrations
  on new metrics, a URL has metrics exactly if it is registered, each counter is the number of its
  events since then modulo \<open>2 ^ 64\<close>, no failure is counted without its request or check, and
  the error rate average is a number between 0 and 1, roundings included.\<close>

theorem backend_counters:
  "rel_option tallies (mt_Backends (run_metrics conv ops NewMetrics) u)
     (fold (tally_step u) ops None)"
proof (induction ops rule: rev_induct)
  case Nil
  then show ?case by (simp add: NewMetrics_def)
next
  case (snoc op ops)
  let ?m = "run_metrics conv ops NewMetrics" and ?t = "fold (tally_step u) ops None"
  have "rel_option tallies (mt_Backends (metrics_exec conv op ?m) u) (tally_step u op ?t)"
  proof (cases "op_url op = u")
    case False
    then have "tally_step u op ?t = ?t" by (cases op) auto
    with False snoc.IH show ?thesis by (simp add: metrics_exec_backend)
  next
    case True
    show ?thesis
    proof (cases "mt_Backends ?m u")
      case None
      with snoc.IH have "?t = None" by simp
      with None True show ?thesis
        unfolding metrics_exec_backend by (cases op) (auto simp: tallies_zero)
    next
      case (Some b)
      with snoc.IH obtain t where t: "?t = Some t" "tallies b t"
        by (auto simp: option_rel_Some1)
      with Some True tallies_op [OF t(2), of op] show ?thesis
        unfolding metrics_exec_backend by (cases op) auto
    qed
  qed
  then show ?case by simp
qed

section \<open>Concurrent connection counting\<close>

text \<open>The threads that count connections: an atomic increment or a decrement by the loop.\<close>

definition conn_update :: "(nat \<Rightarrow> bool) \<Rightarrow> nat \<Rightarrow> uint64 \<Rightarrow> uint64 option" where
  "conn_update is_inc i v = (if is_inc i then Some (v + 1) else dec_step v)"

lemma apply_one_conn:
  "apply_one (conn_update is_inc) i v =
   (if is_inc i then v + 1 else if v = 0 then 0 else v - 1)"
  by (simp add: apply_one_def conn_update_def dec_step_def)

lemma run_seq_conn:
  "length (filter is_inc is) < 2 ^ 64 \<Longrightarrow>
   unat (run_seq (conn_update is_inc) is 0) = foldl (\<lambda>n i. if is_inc i then Suc n else n - 1) 0 is \<and>
   foldl (\<lambda>n i. if is_inc i then Suc n else n - 1) 0 is \<le> length (filter is_inc is)"
proof (induction "is" rule: rev_induct)
  case (snoc i "is")
  let ?n = "foldl (\<lambda>n i. if is_inc i then Suc n else n - 1) 0 is"
  let ?w = "run_seq (conn_update is_inc) is 0"
  from snoc.prems have "length (filter is_inc is) < 2 ^ 64" by (auto split: if_splits)
  with snoc.IH have IH: "unat ?w = ?n" "?n \<le> length (filter is_inc is)" by auto
  show ?case
  proof (cases "is_inc i")
    case True
    with snoc.prems IH have "unat ?w + 1 < 2 ^ 64" by simp
    then have "unat (?w + 1) = unat ?w + 1" by (simp add: unat_word_ariths)
    with True IH show ?thesis by (simp add: apply_one_conn)
  next
    case False
    have "unat (?w - 1) = unat ?w - 1" if "?w \<noteq> 0" using that by (simp add: unat_minus_one)
    with False IH show ?thesis
      by (cases "?w = 0") (auto simp: apply_one_conn)
  qed
qed simp

text \<open>C12: concurrent connection counting is exact. In every interleaving of increments and of the
  load, compare and swap steps of decrements, the counter is what the finished operations give one
  after the other, each taking effect once, a decrement at zero doing nothing; it never wraps below
  zero.\<close>

theorem active_connections_exact:
  assumes "cas_reach (conn_update is_inc) 0 s"
    and "length (filter is_inc (cs_log s)) < 2 ^ 64"
  shows "unat (cs_val s) = foldl (\<lambda>n i. if is_inc i then Suc n else n - 1) 0 (cs_log s) \<and>
         distinct (cs_log s) \<and> set (cs_log s) = {i. cs_pc s i = Done}"
  using cas_linearizable [OF assms(1)] run_seq_conn [OF assms(2)] by simp

text \<open>An increment and two decrements; the swap of the second one loses, it retries and
  returns at zero.\<close>

theorem active_connections_exact_witness:
  "\<exists>s. cas_reach (conn_update (\<lambda>i. i = 0)) 0 s \<and> cs_log s = [0, 1, 2] \<and> unat (cs_val s) = 0"
proof -
  let ?f = "conn_update (\<lambda>i. i = 0)"
  let ?s1 = "\<lparr>cs_val = 1, cs_pc = (\<lambda>_. Ready)(0 := Done), cs_log = [0]\<rparr> :: uint64 cas_state"
  let ?s2 = "?s1\<lparr>cs_pc := (cs_pc ?s1)(1 := Loaded 1)\<rparr>"
  let ?s3 = "?s2\<lparr>cs_pc := (cs_pc ?s2)(2 := Loaded 1)\<rparr>"
  let ?s4 = "\<lparr>cs_val = 0, cs_pc = (cs_pc ?s3)(1 := Done), cs_log = [0, 1]\<rparr>"
  let ?s5 = "?s4\<lparr>cs_pc := (cs_pc ?s4)(2 := Ready)\<rparr>"
  let ?s6 = "\<lparr>cs_val = 0, cs_pc = (cs_pc ?s5)(2 := Done), cs_log = [0, 1, 2]\<rparr>"
  have "cas_step ?f (cas_init 0) ?s1"
    using atomic_op [of "cas_init 0" 0 ?f 1] by (simp add: cas_init_def conn_update_def)
  moreover have "cas_step ?f ?s1 ?s2"
    using load_value [of ?s1 1 ?f 0] by (simp add: conn_update_def dec_step_def)
  moreover have "cas_step ?f ?s2 ?s3"
    using load_value [of ?s2 2 ?f 0] by (simp add: conn_update_def dec_step_def)
  moreover have "cas_step ?f ?s3 ?s4"
    using swap_ok [of ?s3 1 1 ?f 0] by (simp add: conn_update_def dec_step_def)
  moreover have "cas_step ?f ?s4 ?s5"
    using swap_lost [of ?s4 2 1 ?f] by simp
  moreover have "cas_step ?f ?s5 ?s6"
    using load_return [of ?s5 2 ?f] by (simp add: conn_update_def dec_step_def)
  ultimately have reach: "cas_reach ?f 0 ?s6"
    by (meson cas_start cas_next)
  have "unat (cs_val ?s6) = 0"
    using active_connections_exact [OF reach] by simp
  with reach show ?thesis by (intro exI [of _ ?s6]) simp
qed

end
