(* ===== verification/RuntimeState.thy ===== *)
theory RuntimeState
  imports ConfigRefine BackendStatus Metrics
begin

text \<open>
  \<open>internal/proxy/runtime\<close>: the state that request handlers read and the operations that
  replace it. Backend statuses are shared by pointer between the registry, the published states
  (old ones included) and the health checker, so they live in a store of addressed cells. An
  operation of \<open>Runtime\<close> holds \<open>updateMu\<close> while it edits the configuration and publishes
  the next state; it is one function on (runtime, file system) here, and the callbacks it makes
  are its list of events.
\<close>

section \<open>Shared statuses\<close>

type_synonym status_ref = nat

record status_store =
  st_mem :: "status_ref \<Rightarrow> backend_status"
  st_next :: status_ref

definition st_new :: "status_store \<Rightarrow> status_ref \<times> status_store" where
  "st_new S = (st_next S, S\<lparr>st_mem := (st_mem S)(st_next S := zero_status),
                             st_next := Suc (st_next S)\<rparr>)"

definition st_modify :: "status_ref \<Rightarrow> (backend_status \<Rightarrow> backend_status) \<Rightarrow> status_store \<Rightarrow> status_store" where
  "st_modify a f S = S\<lparr>st_mem := (st_mem S)(a := f (st_mem S a))\<rparr>"

text \<open>\<open>BackendRegistry\<close>: its map of statuses by backend id.\<close>

type_synonym backend_registry = "string \<rightharpoonup> status_ref"

definition registry_Get :: "string \<Rightarrow> backend_registry \<Rightarrow> status_ref option" where
  "registry_Get i br = br i"

text \<open>The loop of \<open>Reconcile\<close>: known ids keep their status, new ones get a fresh one.\<close>

fun reconcile_loop ::
  "backend_registry \<Rightarrow> backend_config option list \<Rightarrow> backend_registry \<times> status_store
   \<Rightarrow> backend_registry \<times> status_store" where
  "reconcile_loop br [] (nxt, S) = (nxt, S)"
| "reconcile_loop br (None # bs) (nxt, S) = reconcile_loop br bs (nxt, S)"
| "reconcile_loop br (Some b # bs) (nxt, S) =
     (case br (bc_Id b) of
        Some a \<Rightarrow> reconcile_loop br bs (nxt(bc_Id b \<mapsto> a), S)
      | None \<Rightarrow>
          (let (a, S') = st_new S in reconcile_loop br bs (nxt(bc_Id b \<mapsto> a), S')))"

definition Reconcile ::
  "backend_config option list \<Rightarrow> backend_registry \<Rightarrow> status_store
   \<Rightarrow> backend_registry \<times> status_store" where
  "Reconcile bs br S = reconcile_loop br bs (Map.empty, S)"

section \<open>The runtime state\<close>

text \<open>An HTTP client: its identity and the durations, in nanoseconds, that it is built with.\<close>

record http_client =
  hcl_id :: nat
  hcl_IdleConnTimeout :: int
  hcl_TLSHandshakeTimeout :: int
  hcl_ExpectContinueTimeout :: int
  hcl_DialTimeout :: int
  hcl_DialKeepAlive :: int
  hcl_Timeout :: int

datatype lb_kind = LeastConnections | AdaptiveLB

text \<open>A load balancer: its identity and its implementation.\<close>

record load_balancer =
  lbl_id :: nat
  lbl_kind :: lb_kind

record runtime_state =
  rs_Snapshot :: snapshot
  rs_HTTPClient :: http_client
  rs_LoadBalancer :: load_balancer
  rs_backendStatuses :: backend_registry

text \<open>\<open>rt_objects\<close> numbers the clients and balancers that were allocated, \<open>rt_closed\<close> lists
  the clients whose idle connections were closed, and the two flags tell whether a callback is
  set.\<close>

record runtime =
  rt_Config :: service
  rt_Metrics :: metrics
  rt_statuses :: backend_registry
  rt_store :: status_store
  rt_state :: runtime_state
  rt_objects :: nat
  rt_closed :: "nat list"
  rt_onRateLimitUpdate :: bool
  rt_onHealthCheckRequired :: bool

datatype rt_event =
    Ev_RateLimitUpdate string rate_limiting_config
  | Ev_HealthCheckRequired backend_config

definition milliseconds :: "int32 \<Rightarrow> int" where
  "milliseconds ms = sint ms * 1000000"

definition buildHTTPClient :: "nat \<Rightarrow> snapshot \<Rightarrow> http_client" where
  "buildHTTPClient i sn =
     (let t = fc_Timeouts (sn_Raw sn)
      in \<lparr>hcl_id = i,
          hcl_IdleConnTimeout = milliseconds (tc_IdleConnTimeoutMs t),
          hcl_TLSHandshakeTimeout = milliseconds (tc_ConnectTimeoutMs t),
          hcl_ExpectContinueTimeout = milliseconds (tc_ResponseTimeoutMs t),
          hcl_DialTimeout = milliseconds (tc_ConnectTimeoutMs t),
          hcl_DialKeepAlive = milliseconds (tc_KeepAliveTimeoutMs t),
          hcl_Timeout = milliseconds (tc_ResponseTimeoutMs t)\<rparr>)"

definition GetLoadBalancer :: "nat \<Rightarrow> string \<Rightarrow> load_balancer" where
  "GetLoadBalancer i strategy =
     (if strategy = ''least-connections'' then \<lparr>lbl_id = i, lbl_kind = LeastConnections\<rparr>
      else if strategy = ''adaptive'' then \<lparr>lbl_id = i, lbl_kind = AdaptiveLB\<rparr>
      else \<lparr>lbl_id = i, lbl_kind = LeastConnections\<rparr>)"

text \<open>With health checks off, every enabled backend is marked healthy.\<close>

fun mark_enabled ::
  "backend_registry \<Rightarrow> backend_config option list \<Rightarrow> status_store \<Rightarrow> status_store" where
  "mark_enabled statuses [] S = S"
| "mark_enabled statuses (None # bs) S = mark_enabled statuses bs S"
| "mark_enabled statuses (Some b # bs) S =
     (if \<not> bc_Enabled b then mark_enabled statuses bs S
      else
        case statuses (bc_Id b) of
          None \<Rightarrow> mark_enabled statuses bs S
        | Some a \<Rightarrow> mark_enabled statuses bs (st_modify a MarkHealthy S))"

text \<open>\<open>n\<close> is the number of objects allocated so far; the result has the state, the store and
  the new number.\<close>

definition buildRuntimeState ::
  "runtime_state option \<Rightarrow> snapshot \<Rightarrow> backend_registry \<Rightarrow> status_store \<Rightarrow> nat
   \<Rightarrow> runtime_state \<times> status_store \<times> nat" where
  "buildRuntimeState previous sn statuses S n =
     (let (client, n1) =
            (case previous of
               None \<Rightarrow> (buildHTTPClient n sn, Suc n)
             | Some p \<Rightarrow>
                 if fc_Timeouts (sn_Raw (rs_Snapshot p)) \<noteq> fc_Timeouts (sn_Raw sn)
                 then (buildHTTPClient n sn, Suc n) else (rs_HTTPClient p, n));
          strategy = lbc_Strategy (fc_LoadBalancer (sn_Raw sn));
          (balancer, n2) =
            (case previous of
               None \<Rightarrow> (GetLoadBalancer n1 strategy, Suc n1)
             | Some p \<Rightarrow>
                 if lbc_Strategy (fc_LoadBalancer (sn_Raw (rs_Snapshot p))) \<noteq> strategy
                 then (GetLoadBalancer n1 strategy, Suc n1) else (rs_LoadBalancer p, n1));
          S' = (if \<not> hcc_Enabled (fc_HealthCheck (sn_Raw sn))
                then mark_enabled statuses (fc_Backends (sn_Raw sn)) S else S)
      in (\<lparr>rs_Snapshot = sn, rs_HTTPClient = client, rs_LoadBalancer = balancer,
           rs_backendStatuses = statuses\<rparr>, S', n2))"

section \<open>Construction and update\<close>

text \<open>The loops that register and deregister the metrics of backends.\<close>

fun registerBackendMetrics ::
  "backend_config option list \<Rightarrow> backend_metrics_manager \<Rightarrow> backend_metrics_manager" where
  "registerBackendMetrics [] b = b"
| "registerBackendMetrics (None # bs) b = registerBackendMetrics bs b"
| "registerBackendMetrics (Some x # bs) b = registerBackendMetrics bs (bmm_Register (bc_URL x) b)"

fun deregisterRemovedBackendMetrics ::
  "backend_config option list \<Rightarrow> snapshot \<Rightarrow> backend_metrics_manager \<Rightarrow> backend_metrics_manager" where
  "deregisterRemovedBackendMetrics [] nxt b = b"
| "deregisterRemovedBackendMetrics (None # bs) nxt b = deregisterRemovedBackendMetrics bs nxt b"
| "deregisterRemovedBackendMetrics (Some x # bs) nxt b =
     deregisterRemovedBackendMetrics bs nxt
       (if sn_BackendsById nxt (bc_Id x) = None then bmm_Deregister (bc_URL x) b else b)"

definition closeReplacedHTTPClient :: "runtime_state \<Rightarrow> runtime_state \<Rightarrow> nat list \<Rightarrow> nat list" where
  "closeReplacedHTTPClient previous nxt closedIds =
     (if hcl_id (rs_HTTPClient previous) = hcl_id (rs_HTTPClient nxt) then closedIds
      else closedIds @ [hcl_id (rs_HTTPClient previous)])"

definition on_manager :: "(backend_metrics_manager \<Rightarrow> backend_metrics_manager) \<Rightarrow> metrics \<Rightarrow> metrics" where
  "on_manager f m = m\<lparr>mt_Backends := f (mt_Backends m)\<rparr>"

text \<open>\<open>NewRuntime\<close>; the configuration has no nil backend once it is validated.\<close>

definition NewRuntime :: "env \<Rightarrow> fs \<Rightarrow> string \<Rightarrow> go_error + runtime" where
  "NewRuntime E fs configPath =
     (case NewService E fs configPath of
        Inl e \<Rightarrow> Inl e
      | Inr svc \<Rightarrow>
          (let sn = svc_Snapshot svc;
               bs = fc_Backends (sn_Raw sn);
               m = on_manager (registerBackendMetrics bs) NewMetrics;
               (statuses, S) = Reconcile bs Map.empty \<lparr>st_mem = (\<lambda>_. zero_status), st_next = 0\<rparr>;
               (initial, S', n) = buildRuntimeState None sn statuses S 0
           in Inr \<lparr>rt_Config = svc, rt_Metrics = m, rt_statuses = statuses, rt_store = S',
                   rt_state = initial, rt_objects = n, rt_closed = [],
                   rt_onRateLimitUpdate = False, rt_onHealthCheckRequired = False\<rparr>))"

text \<open>What \<open>applyUpdate\<close> does after its \<open>mutate\<close> has succeeded.\<close>

definition publish :: "runtime \<Rightarrow> runtime" where
  "publish rt =
     (let sn = svc_Snapshot (rt_Config rt);
          bs = fc_Backends (sn_Raw sn);
          previous = rt_state rt;
          (statuses, S) = Reconcile bs (rt_statuses rt) (rt_store rt);
          (nxt, S', n) = buildRuntimeState (Some previous) sn statuses S (rt_objects rt);
          m1 = on_manager (registerBackendMetrics bs) (rt_Metrics rt);
          m2 = on_manager (deregisterRemovedBackendMetrics
                 (fc_Backends (sn_Raw (rs_Snapshot previous))) sn) m1
      in rt\<lparr>rt_statuses := statuses, rt_store := S', rt_objects := n, rt_state := nxt,
            rt_Metrics := m2,
            rt_closed := closeReplacedHTTPClient previous nxt (rt_closed rt)\<rparr>)"

type_synonym rt_result = "go_error option \<times> runtime \<times> fs \<times> rt_event list"

definition applyUpdate ::
  "(service \<Rightarrow> fs \<Rightarrow> svc_result) \<Rightarrow> runtime \<Rightarrow> fs \<Rightarrow> go_error option \<times> runtime \<times> fs" where
  "applyUpdate mutate rt fs =
     (case mutate (rt_Config rt) fs of
        (Some e, svc, fs') \<Rightarrow> (Some e, rt\<lparr>rt_Config := svc\<rparr>, fs')
      | (None, svc, fs') \<Rightarrow> (None, publish (rt\<lparr>rt_Config := svc\<rparr>), fs'))"

section \<open>Reading\<close>

definition State :: "runtime \<Rightarrow> runtime_state" where
  "State rt = rt_state rt"

definition state_BackendStatus :: "runtime_state \<Rightarrow> string \<Rightarrow> status_ref option" where
  "state_BackendStatus state i = rs_backendStatuses state i"

record backend_response =
  br_Id :: string
  br_URL :: string
  br_Weight :: int32
  br_Enabled :: bool
  br_Active :: bool
  br_ErrorCount :: uint32
  br_LastError :: string

text \<open>The response of one backend: its configuration and, when it has one, its status.\<close>

definition backend_item ::
  "status_store \<Rightarrow> runtime_state \<Rightarrow> string \<Rightarrow> backend_config \<Rightarrow> backend_response" where
  "backend_item S state i b =
     (let item = \<lparr>br_Id = bc_Id b, br_URL = bc_URL b, br_Weight = bc_Weight b,
                  br_Enabled = bc_Enabled b, br_Active = False, br_ErrorCount = 0,
                  br_LastError = ''''\<rparr>
      in case state_BackendStatus state i of
           None \<Rightarrow> item
         | Some a \<Rightarrow>
             (let snap = status_Snapshot (st_mem S a)
              in item\<lparr>br_Active := (ss_HealthState snap = HealthHealthy),
                      br_ErrorCount := ss_ConsecutiveFailures snap,
                      br_LastError := ss_LastError snap\<rparr>))"

definition state_Backends :: "status_store \<Rightarrow> runtime_state \<Rightarrow> backend_response list" where
  "state_Backends S state =
     map (\<lambda>b. backend_item S state (bc_Id b) b)
       (non_nil (fc_Backends (sn_Raw (rs_Snapshot state))))"

definition state_Backend :: "status_store \<Rightarrow> runtime_state \<Rightarrow> string \<Rightarrow> backend_response option" where
  "state_Backend S state i =
     (case sn_BackendsById (rs_Snapshot state) i of
        None \<Rightarrow> None
      | Some b \<Rightarrow> Some (backend_item S state i b))"

definition rt_GetBackendsResponse :: "runtime \<Rightarrow> backend_response list" where
  "rt_GetBackendsResponse rt = state_Backends (rt_store rt) (State rt)"

definition rt_GetBackendResponse :: "runtime \<Rightarrow> string \<Rightarrow> backend_response option" where
  "rt_GetBackendResponse rt i = state_Backend (rt_store rt) (State rt) i"

definition rt_GetServerConfig :: "runtime \<Rightarrow> server_config" where
  "rt_GetServerConfig rt = fc_Server (sn_Raw (rs_Snapshot (State rt)))"

definition rt_GetLoadBalancerConfig :: "runtime \<Rightarrow> string" where
  "rt_GetLoadBalancerConfig rt =
     lbc_Strategy (fc_LoadBalancer (sn_Raw (rs_Snapshot (State rt))))"

definition rt_GetVirtualHosts :: "runtime \<Rightarrow> virtual_host list" where
  "rt_GetVirtualHosts rt = fc_VirtualHosts (sn_Raw (rs_Snapshot (State rt)))"

definition rt_GetVirtualHost :: "runtime \<Rightarrow> string \<Rightarrow> virtual_host option" where
  "rt_GetVirtualHost rt host = sn_VHostsByDomain (rs_Snapshot (State rt)) host"

definition rt_GetPolicies :: "runtime \<Rightarrow> security_policy list" where
  "rt_GetPolicies rt = sec_Policies (fc_Security (sn_Raw (rs_Snapshot (State rt))))"

text \<open>The loop cuts the host at its first colon.\<close>

fun cut_port :: "string \<Rightarrow> string" where
  "cut_port [] = []"
| "cut_port (c # cs) = (if c = CHR '':'' then [] else c # cut_port cs)"

definition snapshot_rate_limiting :: "snapshot \<Rightarrow> string \<Rightarrow> rate_limiting_config" where
  "snapshot_rate_limiting sn host =
     (case sn_VHostsByDomain sn host of
        None \<Rightarrow> zero_rate_limiting
      | Some v \<Rightarrow>
          (case sn_PoliciesById sn (vh_SecurityPolicyID v) of
             None \<Rightarrow> zero_rate_limiting
           | Some p \<Rightarrow> sp_RateLimiting p))"

definition rt_GetSecurityConfigHost :: "runtime \<Rightarrow> string \<Rightarrow> rate_limiting_config" where
  "rt_GetSecurityConfigHost rt host =
     snapshot_rate_limiting (rs_Snapshot (State rt)) (cut_port host)"

record virtual_host_security =
  vhs_Domain :: string
  vhs_SecurityPolicyID :: string
  vhs_Policy :: security_policy

definition rt_GetVirtualHostSecurity :: "runtime \<Rightarrow> string \<Rightarrow> virtual_host_security option" where
  "rt_GetVirtualHostSecurity rt domain =
     (let sn = rs_Snapshot (State rt)
      in case sn_VHostsByDomain sn domain of
           None \<Rightarrow> None
         | Some v \<Rightarrow>
             (case sn_PoliciesById sn (vh_SecurityPolicyID v) of
                None \<Rightarrow> None
              | Some p \<Rightarrow>
                  Some \<lparr>vhs_Domain = vh_Domain v, vhs_SecurityPolicyID = vh_SecurityPolicyID v,
                        vhs_Policy = p\<rparr>))"

definition rt_SnapshotView :: "runtime \<Rightarrow> snapshot" where
  "rt_SnapshotView rt = rs_Snapshot (State rt)"

definition rt_GetBackend :: "runtime \<Rightarrow> string \<Rightarrow> backend_config option" where
  "rt_GetBackend rt i = svc_GetBackend (rt_Config rt) i"

definition rt_GetBackends :: "runtime \<Rightarrow> backend_config option list" where
  "rt_GetBackends rt = fc_Backends (sn_Raw (rs_Snapshot (State rt)))"

definition rt_GetHealthConfig :: "runtime \<Rightarrow> health_check_config" where
  "rt_GetHealthConfig rt = fc_HealthCheck (sn_Raw (rs_Snapshot (State rt)))"

definition rt_GetBackendStatus :: "runtime \<Rightarrow> string \<Rightarrow> status_ref option" where
  "rt_GetBackendStatus rt i = state_BackendStatus (State rt) i"

section \<open>Operations\<close>

definition triggerBackendHealthCheck :: "backend_config \<Rightarrow> runtime \<Rightarrow> rt_event list" where
  "triggerBackendHealthCheck b rt =
     (if rt_onHealthCheckRequired rt then [Ev_HealthCheckRequired b] else [])"

definition rt_SetOnRateLimitUpdate :: "bool \<Rightarrow> runtime \<Rightarrow> runtime" where
  "rt_SetOnRateLimitUpdate cb rt = rt\<lparr>rt_onRateLimitUpdate := cb\<rparr>"

definition rt_SetOnBackendHealthCheckRequired :: "bool \<Rightarrow> runtime \<Rightarrow> runtime" where
  "rt_SetOnBackendHealthCheckRequired cb rt = rt\<lparr>rt_onHealthCheckRequired := cb\<rparr>"

text \<open>An operation that only updates.\<close>

definition plain_update :: "(service \<Rightarrow> fs \<Rightarrow> svc_result) \<Rightarrow> runtime \<Rightarrow> fs \<Rightarrow> rt_result" where
  "plain_update mutate rt fs =
     (case applyUpdate mutate rt fs of (r, rt', fs') \<Rightarrow> (r, rt', fs', []))"

definition rt_AddBackend :: "env \<Rightarrow> io \<Rightarrow> backend_config \<Rightarrow> runtime \<Rightarrow> fs \<Rightarrow> rt_result" where
  "rt_AddBackend E io b rt fs =
     (case applyUpdate (svc_AddBackend E io b) rt fs of
        (Some e, rt', fs') \<Rightarrow> (Some e, rt', fs', [])
      | (None, rt', fs') \<Rightarrow>
          (None, rt', fs', if bc_Enabled b then triggerBackendHealthCheck b rt' else []))"

definition rt_RemoveBackend :: "env \<Rightarrow> io \<Rightarrow> string \<Rightarrow> runtime \<Rightarrow> fs \<Rightarrow> rt_result" where
  "rt_RemoveBackend E io i = plain_update (svc_RemoveBackend E io i)"

definition should_recheck :: "backend_config option \<Rightarrow> backend_config \<Rightarrow> bool" where
  "should_recheck previous b \<longleftrightarrow>
     bc_Enabled b \<and>
     (case previous of None \<Rightarrow> True
      | Some p \<Rightarrow> \<not> bc_Enabled p \<or> bc_URL p \<noteq> bc_URL b)"

definition rt_UpdateBackend ::
  "env \<Rightarrow> io \<Rightarrow> string \<Rightarrow> string \<Rightarrow> int32 \<Rightarrow> bool \<Rightarrow> runtime \<Rightarrow> fs \<Rightarrow> rt_result" where
  "rt_UpdateBackend E io i url weight enabled rt fs =
     (let previous = svc_GetBackend (rt_Config rt) i
      in case applyUpdate (svc_UpdateBackend E io i url weight enabled) rt fs of
           (Some e, rt', fs') \<Rightarrow> (Some e, rt', fs', [])
         | (None, rt', fs') \<Rightarrow>
             (case svc_GetBackend (rt_Config rt') i of
                None \<Rightarrow> (None, rt', fs', [])
              | Some b \<Rightarrow>
                  if should_recheck previous b then
                    (let checks = hcc_Enabled (rt_GetHealthConfig rt');
                         rt'' = (case rt_GetBackendStatus rt' i of
                                   None \<Rightarrow> rt'
                                 | Some a \<Rightarrow> rt'\<lparr>rt_store := st_modify a
                                     (if checks then status_Reset else MarkHealthy) (rt_store rt')\<rparr>)
                     in (None, rt'', fs',
                         if checks then triggerBackendHealthCheck b rt'' else []))
                  else (None, rt', fs', [])))"

definition rt_UpdateServerConfig :: "env \<Rightarrow> io \<Rightarrow> int32 \<Rightarrow> int32 \<Rightarrow> runtime \<Rightarrow> fs \<Rightarrow> rt_result" where
  "rt_UpdateServerConfig E io proxyPort adminGrpcPort =
     plain_update (svc_UpdateServer E io (scast proxyPort) (scast adminGrpcPort))"

definition rt_UpdateLoadBalancerConfig :: "env \<Rightarrow> io \<Rightarrow> string \<Rightarrow> runtime \<Rightarrow> fs \<Rightarrow> rt_result" where
  "rt_UpdateLoadBalancerConfig E io strategy = plain_update (svc_UpdateLoadBalancer E io strategy)"

definition rt_AddVirtualHost :: "env \<Rightarrow> io \<Rightarrow> virtual_host \<Rightarrow> runtime \<Rightarrow> fs \<Rightarrow> rt_result" where
  "rt_AddVirtualHost E io v = plain_update (svc_AddVirtualHost E io v)"

definition rt_RemoveVirtualHost :: "env \<Rightarrow> io \<Rightarrow> string \<Rightarrow> runtime \<Rightarrow> fs \<Rightarrow> rt_result" where
  "rt_RemoveVirtualHost E io domain = plain_update (svc_RemoveVirtualHost E io domain)"

definition rt_UpdateVirtualHost :: "env \<Rightarrow> io \<Rightarrow> string \<Rightarrow> virtual_host \<Rightarrow> runtime \<Rightarrow> fs \<Rightarrow> rt_result" where
  "rt_UpdateVirtualHost E io domain v = plain_update (svc_UpdateVirtualHost E io domain v)"

text \<open>The calls of the rate limit callback after a change of policies: for one domain what is in
  effect for it, for a policy its own settings for each domain that has it. They read the state once
  more, after \<open>applyUpdate\<close> has released its lock.\<close>

definition host_callbacks :: "string \<Rightarrow> runtime \<Rightarrow> rt_event list" where
  "host_callbacks domain rt =
     (if rt_onRateLimitUpdate rt
      then [Ev_RateLimitUpdate domain (rt_GetSecurityConfigHost rt domain)] else [])"

definition policy_callbacks :: "security_policy \<Rightarrow> runtime \<Rightarrow> rt_event list" where
  "policy_callbacks p rt =
     (if rt_onRateLimitUpdate rt
      then map (\<lambda>v. Ev_RateLimitUpdate (vh_Domain v) (sp_RateLimiting p))
             (filter (\<lambda>v. vh_SecurityPolicyID v = sp_Id p)
                (fc_VirtualHosts (sn_Raw (rs_Snapshot (State rt)))))
      else [])"

declare host_callbacks_def [simp] policy_callbacks_def [simp]

definition rt_SetVirtualHostSecurityPolicy ::
  "env \<Rightarrow> io \<Rightarrow> string \<Rightarrow> string \<Rightarrow> runtime \<Rightarrow> fs \<Rightarrow> rt_result" where
  "rt_SetVirtualHostSecurityPolicy E io domain policyID rt fs =
     (case applyUpdate (svc_SetVirtualHostSecurityPolicy E io domain policyID) rt fs of
        (Some e, rt', fs') \<Rightarrow> (Some e, rt', fs', [])
      | (None, rt', fs') \<Rightarrow>
          (None, rt', fs', host_callbacks domain rt'))"

definition rt_UpsertPolicy :: "env \<Rightarrow> io \<Rightarrow> security_policy \<Rightarrow> runtime \<Rightarrow> fs \<Rightarrow> rt_result" where
  "rt_UpsertPolicy E io p rt fs =
     (case applyUpdate (svc_UpsertPolicy E io p) rt fs of
        (Some e, rt', fs') \<Rightarrow> (Some e, rt', fs', [])
      | (None, rt', fs') \<Rightarrow>
          (None, rt', fs', policy_callbacks p rt'))"

text \<open>The operations of the runtime as data, and the operation of the service behind each.\<close>

datatype rt_op =
    RT_AddBackend backend_config
  | RT_UpdateBackend string string int32 bool
  | RT_RemoveBackend string
  | RT_AddVirtualHost virtual_host
  | RT_UpdateVirtualHost string virtual_host
  | RT_RemoveVirtualHost string
  | RT_SetVirtualHostSecurityPolicy string string
  | RT_UpsertPolicy security_policy
  | RT_UpdateServer int32 int32
  | RT_UpdateLoadBalancer string

fun rt_exec :: "env \<Rightarrow> io \<Rightarrow> rt_op \<Rightarrow> runtime \<Rightarrow> fs \<Rightarrow> rt_result" where
  "rt_exec E io (RT_AddBackend b) = rt_AddBackend E io b"
| "rt_exec E io (RT_UpdateBackend i u w en) = rt_UpdateBackend E io i u w en"
| "rt_exec E io (RT_RemoveBackend i) = rt_RemoveBackend E io i"
| "rt_exec E io (RT_AddVirtualHost v) = rt_AddVirtualHost E io v"
| "rt_exec E io (RT_UpdateVirtualHost d v) = rt_UpdateVirtualHost E io d v"
| "rt_exec E io (RT_RemoveVirtualHost d) = rt_RemoveVirtualHost E io d"
| "rt_exec E io (RT_SetVirtualHostSecurityPolicy d p) = rt_SetVirtualHostSecurityPolicy E io d p"
| "rt_exec E io (RT_UpsertPolicy p) = rt_UpsertPolicy E io p"
| "rt_exec E io (RT_UpdateServer p a) = rt_UpdateServerConfig E io p a"
| "rt_exec E io (RT_UpdateLoadBalancer st) = rt_UpdateLoadBalancerConfig E io st"

fun svc_of :: "rt_op \<Rightarrow> svc_op" where
  "svc_of (RT_AddBackend b) = Op_AddBackend b"
| "svc_of (RT_UpdateBackend i u w en) = Op_UpdateBackend i u w en"
| "svc_of (RT_RemoveBackend i) = Op_RemoveBackend i"
| "svc_of (RT_AddVirtualHost v) = Op_AddVirtualHost v"
| "svc_of (RT_UpdateVirtualHost d v) = Op_UpdateVirtualHost d v"
| "svc_of (RT_RemoveVirtualHost d) = Op_RemoveVirtualHost d"
| "svc_of (RT_SetVirtualHostSecurityPolicy d p) = Op_SetVirtualHostSecurityPolicy d p"
| "svc_of (RT_UpsertPolicy p) = Op_UpsertPolicy p"
| "svc_of (RT_UpdateServer p a) = Op_UpdateServer (scast p) (scast a)"
| "svc_of (RT_UpdateLoadBalancer st) = Op_UpdateLoadBalancer st"

text \<open>
  Every operation runs its service operation; if that fails, the runtime keeps everything but
  the service (which the failure left as it was), if it succeeds the next state is published and
  at most one status cell is written afterwards.
\<close>

lemma rt_exec_cases:
  assumes "rt_exec E io op rt fs = (r, rt', fs', evs)"
  obtains (ok) svc where "r = None" "svc_exec E io (svc_of op) (rt_Config rt) fs = (None, svc, fs')"
      "rt' = publish (rt\<lparr>rt_Config := svc\<rparr>) \<or>
       (\<exists>a f i. rt' = (let p = publish (rt\<lparr>rt_Config := svc\<rparr>) in
                     p\<lparr>rt_store := st_modify a f (rt_store p)\<rparr>) \<and>
              f \<in> {status_Reset, MarkHealthy} \<and>
              rt_GetBackendStatus (publish (rt\<lparr>rt_Config := svc\<rparr>)) i = Some a \<and>
              (\<exists>u w en. op = RT_UpdateBackend i u w en))"
    | (failed) e svc where "r = Some e" "svc_exec E io (svc_of op) (rt_Config rt) fs = (Some e, svc, fs')"
      "rt' = rt\<lparr>rt_Config := svc\<rparr>" "evs = []"
proof -
  obtain r1 svc fs1 where sx: "svc_exec E io (svc_of op) (rt_Config rt) fs = (r1, svc, fs1)"
    by (metis prod_cases3)
  note defs = plain_update_def applyUpdate_def rt_AddBackend_def rt_RemoveBackend_def
    rt_AddVirtualHost_def rt_UpdateVirtualHost_def rt_RemoveVirtualHost_def
    rt_SetVirtualHostSecurityPolicy_def rt_UpsertPolicy_def rt_UpdateServerConfig_def
    rt_UpdateLoadBalancerConfig_def
  show thesis
  proof (cases r1)
    case (Some e)
    have "r = Some e \<and> rt' = rt\<lparr>rt_Config := svc\<rparr> \<and> evs = [] \<and> fs' = fs1"
      using assms sx Some
      by (cases op) (auto simp: defs rt_UpdateBackend_def Let_def)
    with sx Some show thesis by (intro failed [of e svc]) auto
  next
    case None
    let ?p = "publish (rt\<lparr>rt_Config := svc\<rparr>)"
    show thesis
    proof (cases "\<exists>i u w en. op = RT_UpdateBackend i u w en")
      case True
      then obtain i u w en where op: "op = RT_UpdateBackend i u w en" by blast
      from assms sx None have "r = None \<and> fs' = fs1 \<and>
          (rt' = ?p \<or> (\<exists>a f. rt' = ?p\<lparr>rt_store := st_modify a f (rt_store ?p)\<rparr> \<and>
             f \<in> {status_Reset, MarkHealthy} \<and> rt_GetBackendStatus ?p i = Some a))"
        unfolding op
        by (auto simp: applyUpdate_def rt_UpdateBackend_def Let_def
            split: option.splits if_splits)
      with sx None op show thesis
        by (intro ok [of svc]) (auto simp: Let_def)
    next
      case False
      have "r = None \<and> fs' = fs1 \<and> rt' = ?p"
        using assms sx None False by (cases op) (auto simp: defs)
      with sx None show thesis by (intro ok [of svc]) auto
    qed
  qed
qed

end
