(* ===== verification/LoadBalance.thy ===== *)
theory LoadBalance
  imports RuntimeState
begin

text \<open>
  \<open>internal/lb\<close>: the two load balancers, the contract that the request handler relies on, and
  its interpretation on both. Candidates are never nil here: the handler takes them from the
  snapshot. The random numbers of the adaptive balancer and the function \<open>math.Exp\<close> are
  arguments. Main facts: both balancers pick an enabled candidate whenever they can; least
  connections picks the first candidate with the fewest connections; the adaptive one loses its
  randomness once a weight overflows.
\<close>

definition ErrNoAvailableBackend :: go_error where
  "ErrNoAvailableBackend = ''no available backend''"

section \<open>Least connections\<close>

text \<open>The loop: its state is the best backend so far and \<open>minConnections\<close>.\<close>

fun least_loop ::
  "backend_metrics_manager \<Rightarrow> backend_config list \<Rightarrow> backend_config option \<Rightarrow> uint64
   \<Rightarrow> backend_config option" where
  "least_loop mgr [] best minConnections = best"
| "least_loop mgr (b # bs) best minConnections =
     (if \<not> bc_Enabled b then least_loop mgr bs best minConnections
      else
        case bmm_Get (bc_URL b) mgr of
          None \<Rightarrow> least_loop mgr bs best minConnections
        | Some bm \<Rightarrow>
            (let currentConns = bm_ActiveConnections bm
             in if best = None \<or> currentConns < minConnections
                then least_loop mgr bs (Some b) currentConns
                else least_loop mgr bs best minConnections))"

definition least_Next ::
  "backend_metrics_manager \<Rightarrow> backend_config list \<Rightarrow> go_error + backend_config" where
  "least_Next mgr bs =
     (if bs = [] then Inl ErrNoAvailableBackend
      else case least_loop mgr bs None 0 of
             None \<Rightarrow> Inl ErrNoAvailableBackend
           | Some b \<Rightarrow> Inr b)"

section \<open>Adaptive\<close>

text \<open>The random numbers of one call: the value of \<open>rand.Float64()\<close>, and a number whose
  remainders are the values of \<open>rand.IntN(n)\<close>, which lie below \<open>n\<close>.\<close>

record rand_source =
  rnd_Float64 :: f64
  rnd_seed :: nat

definition rand_IntN :: "rand_source \<Rightarrow> nat \<Rightarrow> nat" where
  "rand_IntN rnd n = rnd_seed rnd mod n"

text \<open>The fields of \<open>AdaptiveLB\<close> with the values of \<open>NewAdaptiveLB\<close>.\<close>

record adaptive_lb =
  alb_temperature :: f64
  alb_latencyWeight :: f64
  alb_errorWeight :: f64
  alb_failStreakWeight :: f64
  alb_connsWeight :: f64
  alb_weightFactor :: f64
  alb_minResourceFactor :: f64

definition NewAdaptiveLB :: adaptive_lb where
  "NewAdaptiveLB =
     \<lparr>alb_temperature = mk64 (2 / 10), alb_latencyWeight = Fin 2, alb_errorWeight = Fin 100,
      alb_failStreakWeight = Fin 5, alb_connsWeight = Fin 2, alb_weightFactor = mk64 (1 / 10),
      alb_minResourceFactor = mk64 (1 / 1000)\<rparr>"

definition resourceFactor :: "adaptive_lb \<Rightarrow> f64 \<Rightarrow> f64" where
  "resourceFactor alb percent =
     (if f64_le percent (Fin 0) then Fin 1
      else
        let factor = f64_sub (Fin 1) percent
        in if f64_less factor (alb_minResourceFactor alb) then alb_minResourceFactor alb else factor)"

definition computeScore :: "adaptive_lb \<Rightarrow> backend_config \<Rightarrow> backend_metrics \<Rightarrow> f64" where
  "computeScore alb b bm =
     (let latency = bm_LatencyEWMA bm;
          errorRate = bm_ErrorRateEWMA bm;
          conns = f64_of_int (uint (bm_ActiveConnections bm));
          failStreak = f64_of_int (uint (bm_ConsecutiveFailures bm));
          den = f64_add (f64_add (f64_add (f64_add (Fin 1)
                  (f64_div latency (alb_latencyWeight alb)))
                  (f64_mul errorRate (alb_errorWeight alb)))
                  (f64_mul failStreak (alb_failStreakWeight alb)))
                  (f64_div conns (alb_connsWeight alb));
          base = f64_div (Fin 1) den;
          weightBonus = f64_add (Fin 1)
                          (f64_mul (f64_of_int (sint (bc_Weight b))) (alb_weightFactor alb));
          cpuFactor = resourceFactor alb (bm_CpuPercent bm);
          memFactor = resourceFactor alb (bm_MemoryPercent bm);
          score = f64_mul (f64_mul (f64_mul base weightBonus) cpuFactor) memFactor
      in if f64_less score (mk64 (1 / 1000)) then mk64 (1 / 1000) else score)"

type_synonym scored_backend = "backend_config \<times> f64"

fun scoreBackends ::
  "adaptive_lb \<Rightarrow> backend_metrics_manager \<Rightarrow> backend_config list \<Rightarrow> scored_backend list" where
  "scoreBackends alb mgr [] = []"
| "scoreBackends alb mgr (b # bs) =
     (if \<not> bc_Enabled b then scoreBackends alb mgr bs
      else
        case bmm_Get (bc_URL b) mgr of
          None \<Rightarrow> scoreBackends alb mgr bs
        | Some bm \<Rightarrow> (b, computeScore alb b bm) # scoreBackends alb mgr bs)"

text \<open>The exponential weight of a score, and the second loop of \<open>softmaxPick\<close>: the first
  backend at which \<open>r\<close> is used up.\<close>

definition softmax_weight :: "(f64 \<Rightarrow> f64) \<Rightarrow> adaptive_lb \<Rightarrow> f64 \<Rightarrow> f64" where
  "softmax_weight math_Exp alb score = math_Exp (f64_div (f64_mul score (Fin 100)) (alb_temperature alb))"

fun pick_loop :: "scored_backend list \<Rightarrow> f64 \<Rightarrow> backend_config option" where
  "pick_loop [] r = None"
| "pick_loop ((b, w) # rest) r =
     (let r' = f64_sub r w in if f64_le r' (Fin 0) then Some b else pick_loop rest r')"

definition softmaxPick ::
  "(f64 \<Rightarrow> f64) \<Rightarrow> adaptive_lb \<Rightarrow> f64 \<Rightarrow> scored_backend list \<Rightarrow> backend_config" where
  "softmaxPick math_Exp alb rnd scored =
     (if length scored = 1 then fst (hd scored)
      else
        let weighted = map (\<lambda>(b, s). (b, softmax_weight math_Exp alb s)) scored;
            sum = foldl (\<lambda>acc (b, w). f64_add acc w) (Fin 0) weighted
        in case pick_loop weighted (f64_mul rnd sum) of
             Some b \<Rightarrow> b
           | None \<Rightarrow> fst (last scored))"

definition adaptive_Next ::
  "(f64 \<Rightarrow> f64) \<Rightarrow> rand_source \<Rightarrow> backend_metrics_manager \<Rightarrow> backend_config list
   \<Rightarrow> go_error + backend_config" where
  "adaptive_Next math_Exp rnd mgr bs =
     (if bs = [] then Inl ErrNoAvailableBackend
      else
        let scored = scoreBackends NewAdaptiveLB mgr bs
        in if scored = [] then
             (let enabled = filter bc_Enabled bs
              in if enabled = [] then Inl ErrNoAvailableBackend
                 else Inr (enabled ! rand_IntN rnd (length enabled)))
           else Inr (softmaxPick math_Exp NewAdaptiveLB (rnd_Float64 rnd) scored))"

text \<open>The interface call \<open>LoadBalancer.Next\<close>, dispatched on the implementation.\<close>

definition lb_Next ::
  "(f64 \<Rightarrow> f64) \<Rightarrow> rand_source \<Rightarrow> load_balancer \<Rightarrow> backend_metrics_manager
   \<Rightarrow> backend_config list \<Rightarrow> go_error + backend_config" where
  "lb_Next math_Exp rnd l mgr bs =
     (case lbl_kind l of
        LeastConnections \<Rightarrow> least_Next mgr bs
      | AdaptiveLB \<Rightarrow> adaptive_Next math_Exp rnd mgr bs)"

section \<open>The contract\<close>

text \<open>What the request handler relies on: the pick is an enabled candidate, an enabled candidate
  with metrics is enough for a pick, and the only error is \<open>ErrNoAvailableBackend\<close>.\<close>

locale balancer_contract =
  fixes nxt :: "backend_metrics_manager \<Rightarrow> backend_config list \<Rightarrow> go_error + backend_config"
  assumes sound: "nxt mgr bs = Inr b \<Longrightarrow> b \<in> set bs \<and> bc_Enabled b"
    and complete: "b \<in> set bs \<Longrightarrow> bc_Enabled b \<Longrightarrow> bmm_Get (bc_URL b) mgr \<noteq> None \<Longrightarrow>
      \<exists>c. nxt mgr bs = Inr c"
    and only_error: "nxt mgr bs = Inl e \<Longrightarrow> e = ErrNoAvailableBackend"
begin

lemma empty_fails: "nxt mgr [] = Inl ErrNoAvailableBackend"
  using sound [of mgr "[]"] only_error [of mgr "[]"] by (cases "nxt mgr []") auto

text \<open>After a failed pick is taken out, the next one is another backend.\<close>

lemma retry_other:
  assumes "nxt mgr (filter (\<lambda>c. bc_Id c \<noteq> bc_Id b) bs) = Inr c"
  shows "c \<in> set bs \<and> bc_Id c \<noteq> bc_Id b \<and> bc_Enabled c"
  using sound [OF assms] by simp

end

section \<open>Least connections keep the contract\<close>

text \<open>The enabled candidates with registered metrics, and their connection counts.\<close>

definition eligible :: "backend_metrics_manager \<Rightarrow> backend_config list \<Rightarrow> backend_config list" where
  "eligible mgr bs = filter (\<lambda>b. bc_Enabled b \<and> bmm_Get (bc_URL b) mgr \<noteq> None) bs"

definition conns :: "backend_metrics_manager \<Rightarrow> backend_config \<Rightarrow> uint64" where
  "conns mgr b = (case bmm_Get (bc_URL b) mgr of None \<Rightarrow> 0 | Some bm \<Rightarrow> bm_ActiveConnections bm)"

text \<open>The first element of a list with the least connections.\<close>

definition first_least :: "backend_metrics_manager \<Rightarrow> backend_config \<Rightarrow> backend_config list \<Rightarrow> bool" where
  "first_least mgr b xs \<longleftrightarrow>
     (\<exists>us vs. xs = us @ b # vs \<and> (\<forall>u \<in> set us. conns mgr b < conns mgr u) \<and>
              (\<forall>v \<in> set vs. conns mgr b \<le> conns mgr v))"

lemma first_leastI:
  "xs = us @ b # vs \<Longrightarrow> \<forall>u \<in> set us. conns mgr b < conns mgr u \<Longrightarrow>
   \<forall>v \<in> set vs. conns mgr b \<le> conns mgr v \<Longrightarrow> first_least mgr b xs"
  unfolding first_least_def by blast

lemma least_loop_Some:
  "\<exists>b. least_loop mgr bs (Some b0) (conns mgr b0) = Some b \<and>
       first_least mgr b (b0 # eligible mgr bs)"
proof (induction bs arbitrary: b0)
  case Nil
  then show ?case by (auto simp: eligible_def intro: first_leastI [of _ "[]"])
next
  case (Cons c bs)
  show ?case
  proof (cases "bc_Enabled c \<and> bmm_Get (bc_URL c) mgr \<noteq> None")
    case False
    then have "least_loop mgr (c # bs) (Some b0) (conns mgr b0) =
        least_loop mgr bs (Some b0) (conns mgr b0)" "eligible mgr (c # bs) = eligible mgr bs"
      by (auto simp: eligible_def)
    with Cons.IH [of b0] show ?thesis by simp
  next
    case True
    then obtain bm where bm: "bmm_Get (bc_URL c) mgr = Some bm" by blast
    have el: "eligible mgr (c # bs) = c # eligible mgr bs" using True by (simp add: eligible_def)
    have cc: "conns mgr c = bm_ActiveConnections bm" by (simp add: conns_def bm)
    show ?thesis
    proof (cases "conns mgr c < conns mgr b0")
      case less: True
      from Cons.IH [of c] obtain b us vs where b: "least_loop mgr bs (Some c) (conns mgr c) = Some b"
        "c # eligible mgr bs = us @ b # vs" "\<forall>u \<in> set us. conns mgr b < conns mgr u"
        "\<forall>v \<in> set vs. conns mgr b \<le> conns mgr v"
        unfolding first_least_def by blast
      have "conns mgr b \<le> conns mgr c" using b(2-4) by (cases us) auto
      with less have "conns mgr b < conns mgr b0" by simp
      with b have "first_least mgr b (b0 # c # eligible mgr bs)"
        by (intro first_leastI [of _ "b0 # us" _ vs]) auto
      moreover have "least_loop mgr (c # bs) (Some b0) (conns mgr b0) = Some b"
        using True bm less b(1) cc by simp
      ultimately show ?thesis unfolding el by blast
    next
      case ge: False
      from Cons.IH [of b0] obtain b us vs where b: "least_loop mgr bs (Some b0) (conns mgr b0) = Some b"
        "b0 # eligible mgr bs = us @ b # vs" "\<forall>u \<in> set us. conns mgr b < conns mgr u"
        "\<forall>v \<in> set vs. conns mgr b \<le> conns mgr v"
        unfolding first_least_def by blast
      have "first_least mgr b (b0 # c # eligible mgr bs)"
      proof (cases us)
        case Nil
        with b ge show ?thesis by (intro first_leastI [of _ "[]" _ "c # vs"]) auto
      next
        case (Cons u us')
        with b ge have "conns mgr b < conns mgr c" by auto
        with Cons b show ?thesis by (intro first_leastI [of _ "b0 # c # us'" _ vs]) auto
      qed
      moreover have "least_loop mgr (c # bs) (Some b0) (conns mgr b0) = Some b"
        using True bm ge b(1) cc by simp
      ultimately show ?thesis unfolding el by blast
    qed
  qed
qed

lemma least_loop_None:
  "case least_loop mgr bs None m of
     None \<Rightarrow> eligible mgr bs = []
   | Some b \<Rightarrow> first_least mgr b (eligible mgr bs)"
proof (induction bs)
  case Nil
  then show ?case by (simp add: eligible_def)
next
  case (Cons c bs)
  show ?case
  proof (cases "bc_Enabled c \<and> bmm_Get (bc_URL c) mgr \<noteq> None")
    case False
    then have "least_loop mgr (c # bs) None m = least_loop mgr bs None m"
      "eligible mgr (c # bs) = eligible mgr bs"
      by (auto simp: eligible_def)
    with Cons.IH show ?thesis by (simp only:)
  next
    case True
    then have "least_loop mgr (c # bs) None m = least_loop mgr bs (Some c) (conns mgr c)"
      "eligible mgr (c # bs) = c # eligible mgr bs"
      by (auto simp: eligible_def conns_def)
    with least_loop_Some [of mgr bs c] show ?thesis by (auto simp del: least_loop.simps)
  qed
qed

lemma least_Next_spec:
  "case least_Next mgr bs of
     Inl e \<Rightarrow> e = ErrNoAvailableBackend \<and> eligible mgr bs = []
   | Inr b \<Rightarrow> first_least mgr b (eligible mgr bs)"
proof (cases "bs = []")
  case True
  then show ?thesis by (simp add: least_Next_def eligible_def)
next
  case False
  with least_loop_None [of mgr bs 0] show ?thesis
    by (cases "least_loop mgr bs None 0") (simp_all add: least_Next_def)
qed

lemma first_least_in: "first_least mgr b (eligible mgr bs) \<Longrightarrow>
  b \<in> set bs \<and> bc_Enabled b \<and> bmm_Get (bc_URL b) mgr \<noteq> None"
proof -
  assume "first_least mgr b (eligible mgr bs)"
  then obtain us vs where "eligible mgr bs = us @ b # vs" unfolding first_least_def by blast
  then have "b \<in> set (eligible mgr bs)" by simp
  then show ?thesis by (simp add: eligible_def)
qed

interpretation least: balancer_contract least_Next
proof unfold_locales
  fix mgr and bs :: "backend_config list" and b
  assume "least_Next mgr bs = Inr b"
  then show "b \<in> set bs \<and> bc_Enabled b"
    using least_Next_spec [of mgr bs] first_least_in by fastforce
next
  fix mgr and bs :: "backend_config list" and b
  assume "b \<in> set bs" "bc_Enabled b" "bmm_Get (bc_URL b) mgr \<noteq> None"
  then have "eligible mgr bs \<noteq> []" by (auto simp: eligible_def filter_empty_conv)
  then show "\<exists>c. least_Next mgr bs = Inr c"
    using least_Next_spec [of mgr bs] by (cases "least_Next mgr bs") auto
next
  fix mgr bs e
  assume "least_Next mgr bs = Inl e"
  then show "e = ErrNoAvailableBackend" using least_Next_spec [of mgr bs] by simp
qed

section \<open>The adaptive balancer keeps the contract\<close>

lemma fst_scoreBackends: "map fst (scoreBackends alb mgr bs) = eligible mgr bs"
  by (induction bs) (auto simp: eligible_def)

lemma scoreBackends_Nil: "scoreBackends alb mgr bs = [] \<longleftrightarrow> eligible mgr bs = []"
  by (metis fst_scoreBackends map_is_Nil_conv)

lemma pick_loop_in: "pick_loop ws r = Some b \<Longrightarrow> b \<in> fst ` set ws"
  by (induction ws r rule: pick_loop.induct) (auto simp: Let_def split: if_splits)

lemma fst_weighted: "fst ` set (map (\<lambda>(b, s). (b, w s)) scored) = fst ` set scored"
  by force

lemma softmaxPick_in: "scored \<noteq> [] \<Longrightarrow> softmaxPick ex alb r scored \<in> fst ` set scored"
proof (cases "length scored = 1")
  case True
  then show "softmaxPick ex alb r scored \<in> fst ` set scored"
    by (cases scored) (auto simp: softmaxPick_def)
next
  case False
  assume "scored \<noteq> []"
  with False show ?thesis
    using pick_loop_in fst_weighted [where w = "softmax_weight ex alb" and scored = scored]
    by (fastforce simp: softmaxPick_def Let_def split: option.split)
qed

lemma adaptive_Next_spec:
  "case adaptive_Next ex rnd mgr bs of
     Inl e \<Rightarrow> e = ErrNoAvailableBackend \<and> (\<forall>b \<in> set bs. \<not> bc_Enabled b)
   | Inr b \<Rightarrow> b \<in> set bs \<and> bc_Enabled b \<and>
       (eligible mgr bs \<noteq> [] \<longrightarrow> bmm_Get (bc_URL b) mgr \<noteq> None)"
proof (cases "bs = [] \<or> eligible mgr bs = []")
  case True
  have "rand_IntN rnd n < n" if "n > 0" for n
    using that by (simp add: rand_IntN_def)
  then have "xs ! rand_IntN rnd (length xs) \<in> set xs" if "xs \<noteq> []" for xs :: "backend_config list"
    using that by (intro nth_mem) simp
  from this [of "filter bc_Enabled bs"] True show ?thesis
    by (auto simp: adaptive_Next_def scoreBackends_Nil Let_def filter_empty_conv)
next
  case False
  let ?sc = "scoreBackends NewAdaptiveLB mgr bs"
  have "?sc \<noteq> []" using False by (simp add: scoreBackends_Nil)
  then have "softmaxPick ex NewAdaptiveLB (rnd_Float64 rnd) ?sc \<in> fst ` set ?sc"
    by (rule softmaxPick_in)
  also have "fst ` set ?sc = set (eligible mgr bs)"
    by (metis fst_scoreBackends list.set_map)
  finally show ?thesis
    using False by (simp add: adaptive_Next_def scoreBackends_Nil eligible_def)
qed

interpretation adaptive: balancer_contract "adaptive_Next ex rnd" for ex rnd
proof unfold_locales
  fix mgr and bs :: "backend_config list" and b
  assume "adaptive_Next ex rnd mgr bs = Inr b"
  then show "b \<in> set bs \<and> bc_Enabled b"
    using adaptive_Next_spec [where ex = ex and rnd = rnd and mgr = mgr and bs = bs] by simp
next
  fix mgr and bs :: "backend_config list" and b
  assume "b \<in> set bs" "bc_Enabled b" "bmm_Get (bc_URL b) mgr \<noteq> None"
  then show "\<exists>c. adaptive_Next ex rnd mgr bs = Inr c"
    using adaptive_Next_spec [where ex = ex and rnd = rnd and mgr = mgr and bs = bs] by (cases "adaptive_Next ex rnd mgr bs") auto
next
  fix mgr and bs :: "backend_config list" and e
  assume "adaptive_Next ex rnd mgr bs = Inl e"
  then show "e = ErrNoAvailableBackend"
    using adaptive_Next_spec [where ex = ex and rnd = rnd and mgr = mgr and bs = bs] by simp
qed

text \<open>What \<open>GetLoadBalancer\<close> returns keeps the contract, whatever the strategy.\<close>

interpretation any: balancer_contract "lb_Next ex rnd l" for ex rnd l
proof unfold_locales
  fix mgr and bs :: "backend_config list" and b
  assume "lb_Next ex rnd l mgr bs = Inr b"
  then show "b \<in> set bs \<and> bc_Enabled b"
    using least.sound adaptive.sound by (auto simp: lb_Next_def split: lb_kind.splits)
next
  fix mgr and bs :: "backend_config list" and b
  assume "b \<in> set bs" "bc_Enabled b" "bmm_Get (bc_URL b) mgr \<noteq> None"
  then show "\<exists>c. lb_Next ex rnd l mgr bs = Inr c"
    using least.complete adaptive.complete by (auto simp: lb_Next_def split: lb_kind.splits)
next
  fix mgr and bs :: "backend_config list" and e
  assume "lb_Next ex rnd l mgr bs = Inl e"
  then show "e = ErrNoAvailableBackend"
    using least.only_error adaptive.only_error by (auto simp: lb_Next_def split: lb_kind.splits)
qed

text \<open>Least connections picks the first of the enabled candidates with registered metrics that
  have the fewest active connections, and fails with \<open>ErrNoAvailableBackend\<close> exactly when there
  is no such candidate.\<close>

theorem least_connections_minimum:
  "case least_Next mgr bs of
     Inl e \<Rightarrow> e = ErrNoAvailableBackend \<and> eligible mgr bs = []
   | Inr b \<Rightarrow> first_least mgr b (eligible mgr bs)"
  by (rule least_Next_spec)

text \<open>C13: whatever the strategy and the random numbers, the balancer picks an enabled candidate, it
  finds one whenever an enabled candidate has metrics, its only error is
  \<open>ErrNoAvailableBackend\<close>, and once a failed backend is taken out the next pick is another
  backend.\<close>

theorem balancer_pick_sound:
  "case lb_Next ex rnd l mgr bs of
     Inl e \<Rightarrow> e = ErrNoAvailableBackend \<and> eligible mgr bs = []
   | Inr b \<Rightarrow> b \<in> set bs \<and> bc_Enabled b \<and>
       (case lb_Next ex rnd l mgr (filter (\<lambda>c. bc_Id c \<noteq> bc_Id b) bs) of
          Inl e \<Rightarrow> e = ErrNoAvailableBackend
        | Inr c \<Rightarrow> c \<in> set bs \<and> bc_Enabled c \<and> bc_Id c \<noteq> bc_Id b)"
proof (cases "lb_Next ex rnd l mgr bs")
  case (Inl e)
  have "eligible mgr bs = []"
  proof (rule ccontr)
    assume "eligible mgr bs \<noteq> []"
    then obtain b where "b \<in> set bs" "bc_Enabled b" "bmm_Get (bc_URL b) mgr \<noteq> None"
      by (auto simp: eligible_def filter_empty_conv)
    then have "\<exists>c. lb_Next ex rnd l mgr bs = Inr c" by (rule any.complete)
    with Inl show False by simp
  qed
  with Inl any.only_error [OF Inl] show ?thesis by simp
next
  case (Inr b)
  show ?thesis
  proof (cases "lb_Next ex rnd l mgr (filter (\<lambda>c. bc_Id c \<noteq> bc_Id b) bs)")
    case err: (Inl e)
    with any.sound [OF Inr] any.only_error [OF err] show ?thesis by (simp add: Inr)
  next
    case ok: (Inr c)
    with any.sound [OF Inr] any.retry_other [OF ok] show ?thesis by (simp add: Inr)
  qed
qed

section \<open>Overflow of the adaptive weights\<close>

text \<open>Arithmetic on values that stay in the range of small integers.\<close>

lemma mk64_between:
  assumes "a \<le> x" "x \<le> of_int b" "round64 a = a" "\<bar>b\<bar> \<le> 2 ^ 53" "0 \<le> a"
  obtains r where "mk64 x = Fin r" "a \<le> r" "r \<le> of_int b"
proof -
  have "x \<le> 2 ^ 53"
  proof -
    have "(of_int b :: rat) \<le> of_int (2 ^ 53)" using assms(4) by (simp only: of_int_le_iff)
    with assms(2) show ?thesis by simp
  qed
  with assms(1,5) have "mk64 x = Fin (round64 x)" by (intro mk64_small) simp
  moreover have "a \<le> round64 x" using round64_mono [OF assms(1)] assms(3) by simp
  moreover have "round64 x \<le> of_int b" using round64_mono [OF assms(2)] round64_int [OF assms(4)] by simp
  ultimately show thesis by (rule that)
qed

lemma round64_half [simp]: "round64 (1 / 2) = 1 / 2"
  using round64_eqI [of "- 1" "1 / 2" "2 ^ 52"] by (simp add: pow2_def)

lemma round64_three_halves [simp]: "round64 (3 / 2) = 3 / 2"
  using round64_eqI [of 0 "3 / 2" "3 * 2 ^ 51"] by (simp add: pow2_def)

lemma round64_one [simp]: "round64 1 = 1"
  using round64_int [of 1] by simp

definition tenth :: rat where
  "tenth = 7205759403792794 / 2 ^ 56"

lemma tenth: "mk64 (1 / 10) = Fin tenth" "1 / 10 \<le> tenth" "tenth \<le> 1"
  unfolding tenth_def using round64_eqI [of "- 4" "1 / 10" 7205759403792794]
  by (subst mk64_small) (simp_all add: pow2_def)

definition fifth :: rat where
  "fifth = 7205759403792794 / 2 ^ 55"

lemma fifth: "mk64 (2 / 10) = Fin fifth" "1 / 5 \<le> fifth" "fifth \<le> 21 / 100"
  unfolding fifth_def using round64_eqI [of "- 3" "2 / 10" 7205759403792794]
  by (subst mk64_small) (simp_all add: pow2_def)

lemma NewAdaptiveLB_sel [simp]:
  "alb_latencyWeight NewAdaptiveLB = Fin 2" "alb_errorWeight NewAdaptiveLB = Fin 100"
  "alb_failStreakWeight NewAdaptiveLB = Fin 5" "alb_connsWeight NewAdaptiveLB = Fin 2"
  "alb_weightFactor NewAdaptiveLB = Fin tenth" "alb_temperature NewAdaptiveLB = Fin fifth"
  by (simp_all only: NewAdaptiveLB_def tenth(1) fifth(1) adaptive_lb.select_convs)

lemma zero_backend_metrics_sel:
  "bm_LatencyEWMA zero_backend_metrics = Fin 0" "bm_ErrorRateEWMA zero_backend_metrics = Fin 0"
  "bm_ActiveConnections zero_backend_metrics = 0" "bm_ConsecutiveFailures zero_backend_metrics = 0"
  "bm_CpuPercent zero_backend_metrics = Fin 0" "bm_MemoryPercent zero_backend_metrics = Fin 0"
  by (simp_all add: zero_backend_metrics_def)

lemma mk64_01: "mk64 0 = Fin 0" "mk64 1 = Fin 1"
  by (simp_all add: mk64_small)

lemma f64_idle:
  "f64_of_int 0 = Fin 0" "f64_div (Fin 0) (Fin 2) = Fin 0" "f64_mul (Fin 0) (Fin 100) = Fin 0"
  "f64_mul (Fin 0) (Fin 5) = Fin 0" "f64_add (Fin 1) (Fin 0) = Fin 1" "f64_div (Fin 1) (Fin 1) = Fin 1"
  by (simp_all add: f64_of_int_def mk64_01)

lemma resourceFactor_0: "resourceFactor alb (Fin 0) = Fin 1"
  by (simp add: resourceFactor_def f64_le_def)

lemma computeScore_idle:
  "computeScore NewAdaptiveLB b zero_backend_metrics =
     (let s = f64_mul (f64_mul (f64_mul (Fin 1) (f64_add (Fin 1)
                (f64_mul (f64_of_int (sint (bc_Weight b))) (Fin tenth)))) (Fin 1)) (Fin 1)
      in if f64_less s (mk64 (1 / 1000)) then mk64 (1 / 1000) else s)"
  unfolding computeScore_def zero_backend_metrics_sel NewAdaptiveLB_sel Let_def unsigned_0
    f64_idle resourceFactor_0 by (rule refl)

text \<open>The score of a backend without traffic is \<open>1 + weight / 10\<close>, roundings aside.\<close>

lemma idle_score:
  assumes "0 \<le> sint (bc_Weight b)"
  obtains q where "computeScore NewAdaptiveLB b zero_backend_metrics = Fin q"
    "1 \<le> q" "q \<le> 2 ^ 32" "5 \<le> sint (bc_Weight b) \<Longrightarrow> 3 / 2 \<le> q"
proof -
  define W where "W = sint (bc_Weight b)"
  have W: "0 \<le> W" "W < 2 ^ 31"
    using assms sint_lt [of "bc_Weight b"] by (simp_all add: W_def)
  then have Wr: "(0 :: rat) \<le> of_int W" "(of_int W :: rat) \<le> of_int (2 ^ 31)"
    by (simp, simp only: of_int_le_iff)
  define lo :: rat where "lo = (if 5 \<le> W then 3 / 2 else 1)"
  have lo: "round64 lo = lo" "1 \<le> lo" by (simp_all add: lo_def)
  define lo1 :: rat where "lo1 = (if 5 \<le> W then 1 / 2 else 0)"
  have lo1: "round64 lo1 = lo1" "0 \<le> lo1" "lo = 1 + lo1" by (simp_all add: lo1_def lo_def)
  have w_lo: "lo1 \<le> of_int W * tenth"
  proof (cases "5 \<le> W")
    case True
    then have "(5 :: rat) \<le> of_int W" by simp
    with tenth(2) have "5 * (1 / 10) \<le> of_int W * tenth" by (intro mult_mono) auto
    with True show ?thesis by (simp add: lo1_def)
  next
    case False
    with Wr(1) tenth(2) show ?thesis by (simp add: lo1_def)
  qed
  have w_hi: "of_int W * tenth \<le> of_int (2 ^ 31)"
    using mult_mono [OF Wr(2) tenth(3)] tenth(2) by simp
  have b31: "\<bar>2 ^ 31 :: int\<bar> \<le> 2 ^ 53" and b32: "\<bar>2 ^ 32 :: int\<bar> \<le> 2 ^ 53" by simp_all
  obtain w where w: "mk64 (of_int W * tenth) = Fin w" "lo1 \<le> w" "w \<le> of_int (2 ^ 31)"
    by (rule mk64_between [OF w_lo w_hi lo1(1) b31 lo1(2)])
  have v_lo: "lo \<le> 1 + w" and v_hi: "1 + w \<le> of_int (2 ^ 32)" using w(2,3) lo1(3) by simp_all
  have lo0: "0 \<le> lo" using lo(2) by simp
  note step = mk64_between [OF _ _ lo(1) b32 lo0]
  obtain v where v: "mk64 (1 + w) = Fin v" "lo \<le> v" "v \<le> of_int (2 ^ 32)"
    by (rule step [OF v_lo v_hi])
  obtain v1 where v1: "mk64 v = Fin v1" "lo \<le> v1" "v1 \<le> of_int (2 ^ 32)"
    by (rule step [OF v(2,3)])
  obtain v2 where v2: "mk64 v1 = Fin v2" "lo \<le> v2" "v2 \<le> of_int (2 ^ 32)"
    by (rule step [OF v1(2,3)])
  obtain v3 where v3: "mk64 v2 = Fin v3" "lo \<le> v3" "v3 \<le> of_int (2 ^ 32)"
    by (rule step [OF v2(2,3)])
  have Wf: "f64_of_int (sint (bc_Weight b)) = Fin (of_int W)"
    unfolding W_def [symmetric] using W by (intro f64_of_int_exact) simp
  have thousandth: "\<not> f64_less (Fin v3) (mk64 (1 / 1000))"
  proof -
    have "round64 (1 / 1000) \<le> 1" using round64_mono [of "1 / 1000" 1] by simp
    with v3(2) lo(2) show ?thesis by (simp add: mk64_small)
  qed
  have "f64_add (Fin 1) (f64_mul (f64_of_int (sint (bc_Weight b))) (Fin tenth)) = Fin v"
    unfolding Wf f64_mul.simps w(1) f64_add.simps v(1) ..
  then have "computeScore NewAdaptiveLB b zero_backend_metrics = Fin v3"
    unfolding computeScore_idle Let_def
    by (simp only: f64_mul.simps mult_1 mult_1_right v1(1) v2(1) v3(1) thousandth if_False)
  moreover have "1 \<le> v3" "v3 \<le> 2 ^ 32" using v3(2,3) lo(2) by simp_all
  moreover have "3 / 2 \<le> v3" if "5 \<le> W" using v3(2) that by (simp add: lo_def)
  ultimately show thesis unfolding W_def by (rule that)
qed

lemma softmax_weight_fin:
  assumes "1 \<le> q" "q \<le> 2 ^ 32"
  obtains x where "softmax_weight ex NewAdaptiveLB (Fin q) = ex (Fin x)" "3 / 2 \<le> q \<Longrightarrow> 710 \<le> x"
proof -
  define lo :: int where "lo = (if 3 / 2 \<le> q then 150 else 100)"
  have lo: "round64 (of_int lo) = of_int lo" "0 \<le> (of_int lo :: rat)"
    by (simp_all add: lo_def round64_int del: of_int_numeral)
  have b: "\<bar>2 ^ 39 :: int\<bar> \<le> 2 ^ 53" "\<bar>2 ^ 42 :: int\<bar> \<le> 2 ^ 53" by simp_all
  have "of_int lo \<le> q * 100" "q * 100 \<le> of_int (2 ^ 39)" using assms by (simp_all add: lo_def)
  then obtain p where p: "mk64 (q * 100) = Fin p" "of_int lo \<le> p" "p \<le> of_int (2 ^ 39)"
    by (rule mk64_between [OF _ _ lo(1) b(1) lo(2)])
  define lo2 :: int where "lo2 = (if 3 / 2 \<le> q then 710 else 0)"
  have lo2: "round64 (of_int lo2) = of_int lo2" "0 \<le> (of_int lo2 :: rat)"
    by (simp_all add: lo2_def round64_int del: of_int_numeral)
  have f0: "0 < fifth" using fifth(2) by simp
  have hi: "p / fifth \<le> of_int (2 ^ 42)"
  proof -
    have "of_int (2 ^ 42) * (1 / 5) \<le> of_int (2 ^ 42) * fifth" using fifth(2) by (intro mult_left_mono) auto
    with p(3) have "p \<le> of_int (2 ^ 42) * fifth" by simp
    then show ?thesis by (simp add: pos_divide_le_eq [OF f0])
  qed
  have le: "of_int lo2 \<le> p / fifth"
  proof (cases "3 / 2 \<le> q")
    case True
    have "710 * fifth \<le> p" using p(2) True fifth(3) by (simp add: lo_def)
    with True show ?thesis by (simp add: pos_le_divide_eq [OF f0] lo2_def)
  next
    case False
    then have "0 \<le> p" using p(2) by (simp add: lo_def)
    with False f0 show ?thesis by (simp add: lo2_def)
  qed
  obtain x where x: "mk64 (p / fifth) = Fin x" "of_int lo2 \<le> x"
    by (rule mk64_between [OF le hi lo2(1) b(2) lo2(2)])
  have "softmax_weight ex NewAdaptiveLB (Fin q) = ex (Fin x)"
    using f0 by (simp add: softmax_weight_def p(1) x(1))
  then show thesis using x(2) by (intro that [of x]) (simp_all add: lo2_def)
qed

text \<open>Weights as \<open>math.Exp\<close> gives them: infinite or not negative.\<close>

definition exp_value :: "f64 \<Rightarrow> bool" where
  "exp_value w \<longleftrightarrow> w = PInf \<or> (\<exists>q \<ge> 0. w = Fin q)"

lemma add_exp_value:
  "exp_value a \<Longrightarrow> exp_value w \<Longrightarrow> exp_value (f64_add a w)"
  "exp_value a \<Longrightarrow> exp_value w \<Longrightarrow> a = PInf \<or> w = PInf \<Longrightarrow> f64_add a w = PInf"
proof -
  have "exp_value (mk64 x)" if "0 \<le> x" for x
    using round64_nonneg [OF that] pow2_pos [of 1024]
    by (auto simp: exp_value_def mk64_def Let_def)
  then show "exp_value a \<Longrightarrow> exp_value w \<Longrightarrow> exp_value (f64_add a w)"
    by (auto simp: exp_value_def [of a] exp_value_def [of w]) (auto simp: exp_value_def)
  show "exp_value a \<Longrightarrow> exp_value w \<Longrightarrow> a = PInf \<or> w = PInf \<Longrightarrow> f64_add a w = PInf"
    by (auto simp: exp_value_def)
qed

lemma sum_weights_inf:
  assumes "exp_value acc" and "\<And>b w. (b, w) \<in> set ws \<Longrightarrow> exp_value w"
    and "acc = PInf \<or> (\<exists>b. (b, PInf) \<in> set ws)"
  shows "foldl (\<lambda>acc (b, w). f64_add acc w) acc ws = PInf"
  using assms
proof (induction ws arbitrary: acc)
  case (Cons x ws)
  obtain b w where x: "x = (b, w)" by (cases x)
  with Cons.prems(2) [of b w] have w: "exp_value w" by simp
  have "exp_value (f64_add acc w)" using Cons.prems(1) w by (rule add_exp_value)
  moreover have "f64_add acc w = PInf \<or> (\<exists>b. (b, PInf) \<in> set ws)"
    using Cons.prems(3) add_exp_value(2) [OF Cons.prems(1) w] x by auto
  ultimately show ?case using Cons.IH Cons.prems(2) x by auto
qed auto

lemma pick_loop_inf:
  assumes "\<And>b w. (b, w) \<in> set ws \<Longrightarrow> exp_value w" and "r = PInf \<or> r = NaN"
  shows "pick_loop ws r = None"
  using assms
proof (induction ws arbitrary: r)
  case (Cons x ws)
  obtain b w where x: "x = (b, w)" by (cases x)
  with Cons.prems(1) [of b w] have "exp_value w" by simp
  with Cons.prems(2) have "f64_sub r w = PInf \<or> f64_sub r w = NaN"
    by (auto simp: exp_value_def f64_sub_def)
  moreover have "\<not> f64_le PInf (Fin 0)" "\<not> f64_le NaN (Fin 0)" by (simp_all add: f64_le_def)
  ultimately show ?case using Cons.IH Cons.prems(1) x by (auto simp: Let_def)
qed simp

lemma softmaxPick_inf:
  assumes "length scored \<noteq> 1" and "0 \<le> r"
    and "\<And>b s. (b, s) \<in> set scored \<Longrightarrow> exp_value (softmax_weight ex alb s)"
    and "(b0, s0) \<in> set scored" "softmax_weight ex alb s0 = PInf"
  shows "softmaxPick ex alb (Fin r) scored = fst (last scored)"
proof -
  let ?ws = "map (\<lambda>(b, s). (b, softmax_weight ex alb s)) scored"
  have w: "\<And>b w. (b, w) \<in> set ?ws \<Longrightarrow> exp_value w" using assms(3) by auto
  have "(b0, PInf) \<in> set ?ws" using assms(4,5) by force
  then have "Fin 0 = PInf \<or> (\<exists>b. (b, PInf) \<in> set ?ws)" by blast
  with w have "foldl (\<lambda>acc (b, w). f64_add acc w) (Fin 0) ?ws = PInf"
    by (intro sum_weights_inf) (simp_all add: exp_value_def)
  moreover have "f64_mul (Fin r) PInf = PInf \<or> f64_mul (Fin r) PInf = NaN"
    using assms(2) by (simp add: inf_times_def)
  ultimately have "pick_loop ?ws (f64_mul (Fin r) (foldl (\<lambda>acc (b, w). f64_add acc w) (Fin 0) ?ws)) = None"
    using pick_loop_inf [of ?ws "f64_mul (Fin r) PInf"] w by metis
  then show ?thesis using assms(1) by (simp add: softmaxPick_def Let_def del: pick_loop.simps f64_mul.simps)
qed

text \<open>Adaptive balancing degenerates when a weight overflows. On two or more idle backends of
  which one has a configured weight of 5 or more, \<open>math.Exp\<close> returns an infinity (its
  documented overflow, from 710 on), the sum of the weights is infinite, no subtraction ever
  brings the random number down, and every request goes to the last candidate, whatever its weight
  and the random number.\<close>

theorem adaptive_overflow:
  assumes "\<And>x. 710 \<le> x \<Longrightarrow> ex (Fin x) = PInf" and "\<And>x. exp_value (ex (Fin x))"
    and "rnd_Float64 rnd = Fin r" "0 \<le> r"
    and "\<And>b. b \<in> set bs \<Longrightarrow> bc_Enabled b \<and> 1 \<le> sint (bc_Weight b) \<and>
           bmm_Get (bc_URL b) mgr = Some zero_backend_metrics"
    and "b0 \<in> set bs" "5 \<le> sint (bc_Weight b0)" and "2 \<le> length bs"
  shows "adaptive_Next ex rnd mgr bs = Inr (last bs)"
proof -
  let ?sc = "scoreBackends NewAdaptiveLB mgr bs"
  have "eligible mgr bs = bs" using assms(5) by (simp add: eligible_def)
  then have fst: "map fst ?sc = bs" by (simp add: fst_scoreBackends)
  then have len: "length ?sc = length bs" by (metis length_map)
  have sc: "s = computeScore NewAdaptiveLB b zero_backend_metrics \<and> b \<in> set bs" if "(b, s) \<in> set ?sc" for b s
    using that assms(5) by (induction bs) auto
  have ws: "exp_value (softmax_weight ex NewAdaptiveLB s)" if "(b, s) \<in> set ?sc" for b s
  proof -
    from sc [OF that] assms(5) have s: "s = computeScore NewAdaptiveLB b zero_backend_metrics"
      "1 \<le> sint (bc_Weight b)" by auto
    from s(2) have "0 \<le> sint (bc_Weight b)" by simp
    then obtain q where q: "s = Fin q" "1 \<le> q" "q \<le> 2 ^ 32" unfolding s(1) by (rule idle_score)
    from softmax_weight_fin [OF q(2,3)] obtain x where
      "softmax_weight ex NewAdaptiveLB (Fin q) = ex (Fin x)" by blast
    with assms(2) q(1) show ?thesis by simp
  qed
  from assms(6) fst obtain s0 where s0: "(b0, s0) \<in> set ?sc" by (metis imageE list.set_map prod.collapse)
  from assms(7) have "0 \<le> sint (bc_Weight b0)" by simp
  then obtain q where q: "computeScore NewAdaptiveLB b0 zero_backend_metrics = Fin q"
    "1 \<le> q" "q \<le> 2 ^ 32" "3 / 2 \<le> q" using assms(7) idle_score by blast
  from softmax_weight_fin [OF q(2,3)] q(4) obtain x where
    "softmax_weight ex NewAdaptiveLB (Fin q) = ex (Fin x)" "710 \<le> x" by blast
  with assms(1) q(1) sc [OF s0] have w0: "softmax_weight ex NewAdaptiveLB s0 = PInf" by simp
  have "softmaxPick ex NewAdaptiveLB (Fin r) ?sc = fst (last ?sc)"
    using assms(4,8) len ws s0 w0 by (intro softmaxPick_inf) auto
  moreover have "fst (last ?sc) = last bs"
    using fst assms(8) len by (metis last_map list.size(3) not_numeral_le_zero)
  moreover have "bs \<noteq> []" "?sc \<noteq> []" using assms(8) len by auto
  ultimately show ?thesis by (simp add: adaptive_Next_def Let_def assms(3))
qed

text \<open>Weights 10 and 1: the backend of weight 1 gets every request.\<close>

definition weighted_pair :: "backend_config list" where
  "weighted_pair =
     [\<lparr>bc_Id = ''big'', bc_URL = ''http://big'', bc_Weight = 10, bc_Enabled = True\<rparr>,
      \<lparr>bc_Id = ''small'', bc_URL = ''http://small'', bc_Weight = 1, bc_Enabled = True\<rparr>]"

theorem adaptive_overflow_witness:
  "adaptive_Next (\<lambda>x. case x of Fin a \<Rightarrow> if 710 \<le> a then PInf else Fin 1 | _ \<Rightarrow> NaN)
     \<lparr>rnd_Float64 = Fin 0, rnd_seed = 0\<rparr> (\<lambda>_. Some zero_backend_metrics) weighted_pair =
   Inr (weighted_pair ! 1)"
proof -
  let ?ex = "\<lambda>x. case x of Fin a \<Rightarrow> if 710 \<le> a then PInf else Fin 1 | _ \<Rightarrow> NaN"
  have "adaptive_Next ?ex \<lparr>rnd_Float64 = Fin 0, rnd_seed = 0\<rparr> (\<lambda>_. Some zero_backend_metrics)
      weighted_pair = Inr (last weighted_pair)"
    by (rule adaptive_overflow [of _ _ 0 _ _ "hd weighted_pair"])
      (auto simp: exp_value_def weighted_pair_def bmm_Get_def)
  then show ?thesis by (simp add: weighted_pair_def)
qed

end
