(* ===== verification/RuntimeProps.thy ===== *)
theory RuntimeProps
  imports RuntimeState
begin

text \<open>
  The properties of \<open>internal/proxy/runtime\<close>: the runtime invariant over all runs, with the
  health checker and the request handlers writing statuses and counters in between; failure
  atomicity; the identity of statuses, HTTP client and load balancer across updates; the
  callbacks; and where the metrics registry does not follow the configuration.
\<close>

section \<open>Statuses in the store\<close>

lemma st_modify_simps [simp]:
  "st_next (st_modify a f S) = st_next S"
  "st_mem (st_modify a f S) a' = (if a' = a then f (st_mem S a) else st_mem S a')"
  by (simp_all add: st_modify_def)

lemma MarkHealthy_idem [simp]: "MarkHealthy (MarkHealthy s) = MarkHealthy s"
  by (simp add: MarkHealthy_def)

text \<open>The cells of a registry: allocated, and none shared by two ids.\<close>

definition registry_ok :: "backend_registry \<Rightarrow> status_store \<Rightarrow> bool" where
  "registry_ok br S \<longleftrightarrow>
     (\<forall>i a. br i = Some a \<longrightarrow> a < st_next S) \<and>
     (\<forall>i j a. br i = Some a \<and> br j = Some a \<longrightarrow> i = j)"

lemma registry_okD:
  "registry_ok br S \<Longrightarrow> br i = Some a \<Longrightarrow> a < st_next S"
  "registry_ok br S \<Longrightarrow> br i = Some a \<Longrightarrow> br j = Some a \<Longrightarrow> i = j"
  by (auto simp: registry_ok_def)

lemma registry_ok_modify [simp]: "registry_ok br (st_modify a f S) = registry_ok br S"
  by (simp add: registry_ok_def)

text \<open>What the loop of \<open>Reconcile\<close> has built so far, relative to the registry and the store
  that it started from.\<close>

definition reconciled ::
  "backend_registry \<Rightarrow> status_store \<Rightarrow> backend_registry \<Rightarrow> status_store \<Rightarrow> bool" where
  "reconciled br S0 m S \<longleftrightarrow>
     st_next S0 \<le> st_next S \<and>
     (\<forall>a < st_next S0. st_mem S a = st_mem S0 a) \<and>
     (\<forall>i a. m i = Some a \<longrightarrow>
        br i = Some a \<or> (br i = None \<and> st_next S0 \<le> a \<and> st_mem S a = zero_status)) \<and>
     registry_ok m S"

lemma reconciled_init: "reconciled br S0 Map.empty S0"
  by (simp add: reconciled_def registry_ok_def)

lemma reconciled_known:
  assumes "reconciled br S0 m S" and "registry_ok br S0" and "br i = Some a"
  shows "reconciled br S0 (m(i \<mapsto> a)) S"
proof -
  note r = assms(1) [unfolded reconciled_def]
  have a: "a < st_next S0" using registry_okD(1) [OF assms(2,3)] .
  have "j = i" if "m j = Some a" for j
  proof -
    from r that have "br j = Some a \<or> st_next S0 \<le> a" by blast
    with a registry_okD(2) [OF assms(2) _ assms(3)] show ?thesis by auto
  qed
  then have "registry_ok (m(i \<mapsto> a)) S"
    using r a unfolding registry_ok_def by (auto split: if_splits)
  then show ?thesis using r assms(3) by (auto simp: reconciled_def)
qed

lemma reconciled_new:
  assumes "reconciled br S0 m S" and "br i = None" and "st_new S = (a, S')"
  shows "reconciled br S0 (m(i \<mapsto> a)) S'"
proof -
  note r = assms(1) [unfolded reconciled_def]
  have S': "a = st_next S" "st_next S' = Suc (st_next S)"
    "st_mem S' = (st_mem S)(a := zero_status)"
    using assms(3) by (auto simp: st_new_def)
  have fresh: "m j \<noteq> Some a" for j using r S'(1) unfolding registry_ok_def by blast
  then have "registry_ok (m(i \<mapsto> a)) S'"
    using r S' unfolding registry_ok_def by (auto split: if_splits simp: less_SucI)
  then show ?thesis using r S' assms(2) fresh unfolding reconciled_def by auto
qed

lemma reconcile_loop_spec:
  "registry_ok br S0 \<Longrightarrow> reconciled br S0 m S \<Longrightarrow> reconcile_loop br bs (m, S) = (m', S') \<Longrightarrow>
   reconciled br S0 m' S' \<and> dom m' = dom m \<union> bc_Id ` set (non_nil bs)"
proof (induction br bs "(m, S)" arbitrary: m S rule: reconcile_loop.induct)
  case (3 br b bs m S)
  show ?case
  proof (cases "br (bc_Id b)")
    case (Some a)
    with "3.hyps"(2) [OF Some "3.prems"(1) reconciled_known [OF "3.prems"(2,1) Some]] "3.prems"(3)
    show ?thesis by auto
  next
    case None
    obtain a T where new: "st_new S = (a, T)" by fastforce
    from "3.hyps"(1) [OF None refl new [symmetric] "3.prems"(1)
        reconciled_new [OF "3.prems"(2) None new]] "3.prems"(3)
    show ?thesis by (auto simp: None new)
  qed
qed auto

lemma Reconcile_spec:
  assumes "registry_ok br S" and "Reconcile bs br S = (m, S')"
  shows "reconciled br S m S'" and "dom m = bc_Id ` set (non_nil bs)"
    and "br i = Some a \<Longrightarrow> i \<in> dom m \<Longrightarrow> m i = Some a"
proof -
  from reconcile_loop_spec [OF assms(1) reconciled_init assms(2) [unfolded Reconcile_def]]
  show "reconciled br S m S'" "dom m = bc_Id ` set (non_nil bs)" by auto
  then show "br i = Some a \<Longrightarrow> i \<in> dom m \<Longrightarrow> m i = Some a"
    by (fastforce simp: reconciled_def dom_def)
qed

text \<open>The cells that \<open>mark_enabled\<close> writes.\<close>

definition marks :: "backend_registry \<Rightarrow> backend_config option list \<Rightarrow> status_ref \<Rightarrow> bool" where
  "marks st bs a \<longleftrightarrow> (\<exists>b. Some b \<in> set bs \<and> bc_Enabled b \<and> st (bc_Id b) = Some a)"

lemma mark_enabled_spec:
  "st_next (mark_enabled st bs S) = st_next S \<and>
   st_mem (mark_enabled st bs S) a = (if marks st bs a then MarkHealthy (st_mem S a) else st_mem S a)"
  by (induction st bs S rule: mark_enabled.induct) (auto simp: marks_def split: option.splits)

section \<open>The metrics registry\<close>

lemma register_dom [simp]:
  "dom (registerBackendMetrics bs b) = dom b \<union> bc_URL ` set (non_nil bs)"
  by (induction bs b rule: registerBackendMetrics.induct) auto

lemma register_Some: "Some x \<in> set bs \<Longrightarrow> \<exists>bm. registerBackendMetrics bs b (bc_URL x) = Some bm"
  using register_dom [of bs b] by (auto simp: dom_def)

lemma register_keeps: "b u = Some bm \<Longrightarrow> registerBackendMetrics bs b u = Some bm"
  by (induction bs b rule: registerBackendMetrics.induct) (auto simp: bmm_Register_keeps)

definition removed_urls :: "backend_config option list \<Rightarrow> snapshot \<Rightarrow> string set" where
  "removed_urls bs nxt = {bc_URL b |b. Some b \<in> set bs \<and> sn_BackendsById nxt (bc_Id b) = None}"

lemma deregister_spec:
  "deregisterRemovedBackendMetrics bs nxt b u = (if u \<in> removed_urls bs nxt then None else b u)"
  by (induction bs nxt b rule: deregisterRemovedBackendMetrics.induct)
    (auto simp: removed_urls_def bmm_Deregister_def)

lemma on_manager_simps [simp]: "mt_Backends (on_manager f m) = f (mt_Backends m)"
  by (simp add: on_manager_def)

section \<open>What publishing does\<close>

lemma publish_simps:
  fixes rt
  defines "sn \<equiv> svc_snapshot (rt_Config rt)"
  shows "rt_Config (publish rt) = rt_Config rt"
    and "rs_Snapshot (rt_state (publish rt)) = sn"
    and "rs_backendStatuses (rt_state (publish rt)) = rt_statuses (publish rt)"
    and "rt_statuses (publish rt) = fst (Reconcile (fc_Backends (sn_Raw sn)) (rt_statuses rt) (rt_store rt))"
    and "rt_store (publish rt) =
      (if hcc_Enabled (fc_HealthCheck (sn_Raw sn))
       then snd (Reconcile (fc_Backends (sn_Raw sn)) (rt_statuses rt) (rt_store rt))
       else mark_enabled (rt_statuses (publish rt)) (fc_Backends (sn_Raw sn))
              (snd (Reconcile (fc_Backends (sn_Raw sn)) (rt_statuses rt) (rt_store rt))))"
    and "mt_Backends (rt_Metrics (publish rt)) =
      deregisterRemovedBackendMetrics (fc_Backends (sn_Raw (rs_Snapshot (rt_state rt)))) sn
        (registerBackendMetrics (fc_Backends (sn_Raw sn)) (mt_Backends (rt_Metrics rt)))"
    and "rt_onRateLimitUpdate (publish rt) = rt_onRateLimitUpdate rt"
    and "rt_onHealthCheckRequired (publish rt) = rt_onHealthCheckRequired rt"
  unfolding sn_def publish_def buildRuntimeState_def Let_def svc_Snapshot_def
  by (simp_all split: prod.splits option.splits)

lemma publish_client:
  fixes rt
  defines "sn \<equiv> svc_snapshot (rt_Config rt)" and "prev \<equiv> rt_state rt"
  assumes "fc_Timeouts (sn_Raw sn) = fc_Timeouts (sn_Raw (rs_Snapshot prev))"
  shows "rs_HTTPClient (rt_state (publish rt)) = rs_HTTPClient prev"
    and "rt_closed (publish rt) = rt_closed rt"
  using assms(3) unfolding sn_def prev_def publish_def buildRuntimeState_def Let_def svc_Snapshot_def
  by (simp_all add: closeReplacedHTTPClient_def split: prod.splits)

lemma publish_balancer:
  fixes rt
  defines "sn \<equiv> svc_snapshot (rt_Config rt)" and "prev \<equiv> rt_state rt"
  assumes "fc_Timeouts (sn_Raw sn) = fc_Timeouts (sn_Raw (rs_Snapshot prev))"
  defines "same \<equiv> lbc_Strategy (fc_LoadBalancer (sn_Raw (rs_Snapshot prev))) =
                  lbc_Strategy (fc_LoadBalancer (sn_Raw sn))"
  shows "rs_LoadBalancer (rt_state (publish rt)) =
      (if same then rs_LoadBalancer prev
       else GetLoadBalancer (rt_objects rt) (lbc_Strategy (fc_LoadBalancer (sn_Raw sn))))"
    and "rt_objects (publish rt) = (if same then rt_objects rt else Suc (rt_objects rt))"
  using assms(3) unfolding sn_def prev_def same_def publish_def buildRuntimeState_def Let_def
    svc_Snapshot_def
  by (simp_all split: prod.splits)

section \<open>The runtime invariant\<close>

definition rt_inv :: "env \<Rightarrow> string \<Rightarrow> runtime \<Rightarrow> fs \<Rightarrow> bool" where
  "rt_inv E path rt fs \<longleftrightarrow>
     svc_inv E path (rt_Config rt) fs \<and>
     rs_Snapshot (rt_state rt) = svc_snapshot (rt_Config rt) \<and>
     rs_backendStatuses (rt_state rt) = rt_statuses rt \<and>
     dom (rt_statuses rt) = backend_ids (svc_current (rt_Config rt)) \<and>
     registry_ok (rt_statuses rt) (rt_store rt) \<and>
     bc_URL ` set (backend_list (svc_current (rt_Config rt))) \<subseteq> dom (mt_Backends (rt_Metrics rt)) \<and>
     rs_HTTPClient (rt_state rt) = buildHTTPClient 0 (svc_snapshot (rt_Config rt)) \<and>
     rt_closed rt = [] \<and>
     rs_LoadBalancer (rt_state rt) =
       GetLoadBalancer (lbl_id (rs_LoadBalancer (rt_state rt)))
         (lbc_Strategy (fc_LoadBalancer (svc_current (rt_Config rt)))) \<and>
     lbl_id (rs_LoadBalancer (rt_state rt)) < rt_objects rt"

lemma rt_invD:
  assumes "rt_inv E path rt fs"
  shows ri_svc: "svc_inv E path (rt_Config rt) fs"
    and ri_snapshot: "rs_Snapshot (rt_state rt) = svc_snapshot (rt_Config rt)"
    and ri_statuses: "rs_backendStatuses (rt_state rt) = rt_statuses rt"
    and ri_dom: "dom (rt_statuses rt) = backend_ids (svc_current (rt_Config rt))"
    and ri_registry: "registry_ok (rt_statuses rt) (rt_store rt)"
    and ri_urls: "bc_URL ` set (backend_list (svc_current (rt_Config rt)))
                  \<subseteq> dom (mt_Backends (rt_Metrics rt))"
    and ri_client: "rs_HTTPClient (rt_state rt) = buildHTTPClient 0 (svc_snapshot (rt_Config rt))"
    and ri_closed: "rt_closed rt = []"
    and ri_balancer: "rs_LoadBalancer (rt_state rt) =
       GetLoadBalancer (lbl_id (rs_LoadBalancer (rt_state rt)))
         (lbc_Strategy (fc_LoadBalancer (svc_current (rt_Config rt))))"
    and ri_objects: "lbl_id (rs_LoadBalancer (rt_state rt)) < rt_objects rt"
  using assms unfolding rt_inv_def by blast+

lemma GetLoadBalancer_kind:
  "lbl_kind (GetLoadBalancer i s) = (if s = ''adaptive'' then AdaptiveLB else LeastConnections)"
  by (simp add: GetLoadBalancer_def)

lemma GetLoadBalancer_id [simp]: "lbl_id (GetLoadBalancer i s) = i"
  by (simp add: GetLoadBalancer_def)

lemma same_sections_refl [simp]: "same_sections c c"
  by (simp add: same_sections_def)

text \<open>No edit of the runtime touches the timeouts or the health settings.\<close>

lemma svc_of_sections:
  assumes "json_roundtrip E" and "defaults_applied (svc_current s)"
    and "svc_exec E io (svc_of op) s fs = (r, s', fs')"
  shows "same_sections (svc_current s) (svc_current s')"
  using assms(3)
  by (cases op)
    (auto simp: svc_op_defs split: if_splits
      dest: add_backend.update_keeps_sections [OF assms(1,2)]
        update_backend.update_keeps_sections [OF assms(1,2)]
        remove_backend.update_keeps_sections [OF assms(1,2)]
        add_virtual_host.update_keeps_sections [OF assms(1,2)]
        update_virtual_host.update_keeps_sections [OF assms(1,2)]
        remove_virtual_host.update_keeps_sections [OF assms(1,2)]
        set_vhost_policy.update_keeps_sections [OF assms(1,2)]
        update_server.update_keeps_sections [OF assms(1,2)]
        upsert_policy.update_keeps_sections [OF assms(1,2)]
        update_load_balancer.update_keeps_sections [OF assms(1,2)])

text \<open>A backend that an edit removes leaves its URL to no other backend.\<close>

lemma keyed_eq_set:
  "keyed k xs = keyed k ys \<Longrightarrow> distinct (map k xs) \<Longrightarrow> distinct (map k ys) \<Longrightarrow> set xs = set ys"
proof (intro set_eqI)
  fix x
  assume "keyed k xs = keyed k ys" "distinct (map k xs)" "distinct (map k ys)"
  then show "x \<in> set xs \<longleftrightarrow> x \<in> set ys"
    using keyed_iff [of k xs "k x" x] keyed_iff [of k ys "k x" x] by simp
qed

lemma removed_url_unused:
  assumes "svc_inv E path s fs" "svc_inv E path s' fs'" and rt: "json_roundtrip E"
    and "svc_exec E io (svc_of op) s fs = (None, s', fs')"
    and b: "b \<in> set (backend_list (svc_current s))" "bc_Id b \<notin> backend_ids (svc_current s')"
  shows "bc_URL b \<notin> bc_URL ` set (backend_list (svc_current s'))"
proof -
  let ?c = "svc_current s" and ?c' = "svc_current s'"
  note v = inv_valid [OF assms(1)] and v' = inv_valid [OF assms(2)]
  from svc_exec_ok [OF rt assms(4)] obtain c where ok: "op_args_ok (svc_of op)"
    "op_edit (svc_of op) ?c = Inr c" "valid_config (env_url_parse E) (apply_defaults c)"
    "?c' = apply_defaults c" by auto
  from op_edit_refines [OF v inv_defaults [OF assms(1)] ok(1-3)]
  have view: "config_view ?c' = view_step (svc_of op) (config_view ?c)" unfolding ok(4) .
  have mem: "x \<in> set (backend_list ?c) \<longleftrightarrow> rv_backends (config_view ?c) (bc_Id x) = Some x" for x
    using keyed_iff [OF vc_ids [OF v]] by (simp add: config_view_def)
  have mem': "x \<in> set (backend_list ?c') \<longleftrightarrow> rv_backends (config_view ?c') (bc_Id x) = Some x" for x
    using keyed_iff [OF vc_ids [OF v']] by (simp add: config_view_def)
  have gone: "rv_backends (config_view ?c') (bc_Id b) = None"
    using b(2) by (simp add: config_view_def keyed_None backend_ids_def)
  have here: "rv_backends (config_view ?c) (bc_Id b) = Some b" using b(1) mem by blast
  have "\<exists>i. op = RT_RemoveBackend i"
    using gone here view by (cases op) (auto split: if_splits)
  then obtain i where "op = RT_RemoveBackend i" ..
  with view have view': "rv_backends (config_view ?c') = (rv_backends (config_view ?c))(i := None)"
    by simp
  show ?thesis
  proof
    assume "bc_URL b \<in> bc_URL ` set (backend_list ?c')"
    then obtain x where x: "x \<in> set (backend_list ?c')" "bc_URL x = bc_URL b" by auto
    with view' have "x \<in> set (backend_list ?c)" unfolding mem mem' by (auto split: if_splits)
    with x(2) b(1) vc_urls [OF v] have "x = b" by (metis distinct_map inj_onD)
    with x(1) gone show False unfolding mem' by simp
  qed
qed

lemma rt_inv_publish:
  assumes inv: "rt_inv E path rt fs" and rt: "json_roundtrip E"
    and ex: "svc_exec E io (svc_of op) (rt_Config rt) fs = (None, svc, fs')"
  shows "rt_inv E path (publish (rt\<lparr>rt_Config := svc\<rparr>)) fs'"
proof -
  let ?rt = "rt\<lparr>rt_Config := svc\<rparr>" and ?s = "rt_Config rt"
  note si = ri_svc [OF inv]
  have si': "svc_inv E path svc fs'" by (rule svc_inv_op [OF rt si ex])
  have sn: "svc_snapshot svc = build_snapshot (svc_current svc)" using inv_snapshot [OF si'] .
  have sn0: "rs_Snapshot (rt_state rt) = build_snapshot (svc_current ?s)"
    using ri_snapshot [OF inv] inv_snapshot [OF si] by simp
  have same: "same_sections (svc_current ?s) (svc_current svc)"
    by (rule svc_of_sections [OF rt inv_defaults [OF si] ex])
  then have tm: "fc_Timeouts (sn_Raw (svc_snapshot (rt_Config ?rt))) =
      fc_Timeouts (sn_Raw (rs_Snapshot (rt_state ?rt)))"
    by (simp add: sn sn0 same_sections_def)
  obtain m S where rec: "Reconcile (fc_Backends (svc_current svc)) (rt_statuses rt) (rt_store rt) = (m, S)"
    by fastforce
  note rs = Reconcile_spec [OF ri_registry [OF inv] rec]
  have st: "rt_statuses (publish ?rt) = m" using rec by (simp add: publish_simps sn)
  have "registry_ok m S" using rs(1) by (simp add: reconciled_def)
  then have reg: "registry_ok m (rt_store (publish ?rt))"
    using rec mark_enabled_spec by (simp add: publish_simps sn st registry_ok_def)
  have urls: "bc_URL ` set (backend_list (svc_current svc)) \<subseteq> dom (mt_Backends (rt_Metrics (publish ?rt)))"
  proof
    fix u assume u: "u \<in> bc_URL ` set (backend_list (svc_current svc))"
    have "u \<notin> removed_urls (fc_Backends (svc_current ?s)) (svc_snapshot svc)"
    proof
      assume "u \<in> removed_urls (fc_Backends (svc_current ?s)) (svc_snapshot svc)"
      then obtain b where "b \<in> set (backend_list (svc_current ?s))" "bc_URL b = u"
        "bc_Id b \<notin> backend_ids (svc_current svc)"
        by (auto simp: removed_urls_def sn snapshot_backend_None)
      with removed_url_unused [OF si si' rt ex] u show False by blast
    qed
    moreover have "u \<in> dom (registerBackendMetrics (fc_Backends (svc_current svc)) (mt_Backends (rt_Metrics rt)))"
      using u by (simp add: backend_list_def)
    ultimately show "u \<in> dom (mt_Backends (rt_Metrics (publish ?rt)))"
      by (simp add: publish_simps(6) sn sn0 deregister_spec dom_def)
  qed
  have client: "rs_HTTPClient (rt_state (publish ?rt)) = buildHTTPClient 0 (svc_snapshot svc)"
    using publish_client(1) [OF tm] ri_client [OF inv] tm ri_snapshot [OF inv]
    by (simp add: buildHTTPClient_def Let_def)
  have "fc_LoadBalancer (sn_Raw (rs_Snapshot (rt_state ?rt))) = fc_LoadBalancer (svc_current ?s)"
    by (simp add: sn0)
  then have bal: "rs_LoadBalancer (rt_state (publish ?rt)) =
       GetLoadBalancer (lbl_id (rs_LoadBalancer (rt_state (publish ?rt))))
         (lbc_Strategy (fc_LoadBalancer (svc_current svc))) \<and>
     lbl_id (rs_LoadBalancer (rt_state (publish ?rt))) < rt_objects (publish ?rt)"
    using publish_balancer [OF tm] ri_balancer [OF inv] ri_objects [OF inv] by (auto simp: sn)
  show ?thesis
    unfolding rt_inv_def
    using si' rs(2) reg urls client bal publish_client(2) [OF tm] ri_closed [OF inv]
    by (simp add: publish_simps(1-3) st backend_ids_def backend_list_def)
qed

lemma rt_inv_store:
  "rt_inv E path rt fs \<Longrightarrow> registry_ok (rt_statuses rt) S \<Longrightarrow> rt_inv E path (rt\<lparr>rt_store := S\<rparr>) fs"
  by (simp add: rt_inv_def)

lemma rt_inv_exec:
  assumes "rt_inv E path rt fs" and "json_roundtrip E"
    and "rt_exec E io op rt fs = (r, rt', fs', evs)"
  shows "rt_inv E path rt' fs'"
  using assms(3)
proof (cases rule: rt_exec_cases)
  case (ok svc)
  note p = rt_inv_publish [OF assms(1,2) ok(2)]
  from ok(3) show ?thesis
    using p rt_inv_store [OF p] ri_registry [OF p] by (auto simp: Let_def)
next
  case (failed e svc)
  have "svc = rt_Config rt" "fs' path = fs path"
    using failed(2) inv_path [OF ri_svc [OF assms(1)]]
    by (cases rule: svc_exec_cases [OF assms(2) failed(2)]; auto)+
  then have "svc_inv E path (rt_Config rt) fs'"
    using ri_svc [OF assms(1)] by (simp add: svc_inv_def load_config_def)
  with assms(1) failed(3) \<open>svc = rt_Config rt\<close> show ?thesis by (simp add: rt_inv_def)
qed

lemma rt_inv_new:
  assumes "NewRuntime E fs path = Inr rt"
  shows "rt_inv E path rt fs"
proof -
  from assms obtain svc where new: "NewService E fs path = Inr svc"
    by (auto simp: NewRuntime_def split: sum.splits)
  note si = svc_inv_new [OF new]
  let ?bs = "fc_Backends (svc_current svc)"
  let ?S0 = "\<lparr>st_mem = (\<lambda>_. zero_status), st_next = 0\<rparr>"
  have sn: "svc_snapshot svc = build_snapshot (svc_current svc)" using inv_snapshot [OF si] .
  obtain m S where rec: "Reconcile ?bs Map.empty ?S0 = (m, S)" by fastforce
  have "registry_ok Map.empty ?S0" by (simp add: registry_ok_def)
  note rs = Reconcile_spec [OF this rec]
  have "registry_ok m S" using rs(1) by (simp add: reconciled_def)
  then have "registry_ok m (mark_enabled m ?bs S)"
    using mark_enabled_spec by (simp add: registry_ok_def)
  then have reg: "registry_ok m (rt_store rt)"
    using \<open>registry_ok m S\<close> assms
    by (auto simp: NewRuntime_def new Let_def svc_Snapshot_def sn rec buildRuntimeState_def)
  have rt: "rt_Config rt = svc" "rt_statuses rt = m" "rt_closed rt = []"
    "rt_Metrics rt = on_manager (registerBackendMetrics ?bs) NewMetrics"
    "rs_Snapshot (rt_state rt) = svc_snapshot svc" "rs_backendStatuses (rt_state rt) = m"
    "rs_HTTPClient (rt_state rt) = buildHTTPClient 0 (svc_snapshot svc)"
    "rs_LoadBalancer (rt_state rt) = GetLoadBalancer 1 (lbc_Strategy (fc_LoadBalancer (svc_current svc)))"
    "rt_objects rt = 2"
    using assms
    by (auto simp: NewRuntime_def new Let_def svc_Snapshot_def sn rec buildRuntimeState_def)
  show ?thesis
    unfolding rt_inv_def rt using si rs(2) reg by (simp add: backend_ids_def backend_list_def)
qed

text \<open>The runs of a runtime: operations with any outcome of their system calls; statuses written by
  the health checker and by request handlers; metrics recorded by them; callbacks set; and other
  processes changing any file but the configuration.\<close>

inductive rt_reach :: "env \<Rightarrow> string \<Rightarrow> runtime \<Rightarrow> fs \<Rightarrow> bool" for E path where
  rr_new: "NewRuntime E fs path = Inr rt \<Longrightarrow> rt_reach E path rt fs"
| rr_op: "rt_reach E path rt fs \<Longrightarrow> rt_exec E io op rt fs = (r, rt', fs', evs) \<Longrightarrow>
    rt_reach E path rt' fs'"
| rr_status: "rt_reach E path rt fs \<Longrightarrow>
    rt_reach E path (rt\<lparr>rt_store := st_modify a f (rt_store rt)\<rparr>) fs"
| rr_metrics: "rt_reach E path rt fs \<Longrightarrow> dom (mt_Backends m) = dom (mt_Backends (rt_Metrics rt)) \<Longrightarrow>
    rt_reach E path (rt\<lparr>rt_Metrics := m\<rparr>) fs"
| rr_callbacks: "rt_reach E path rt fs \<Longrightarrow>
    rt_reach E path (rt_SetOnRateLimitUpdate b1 (rt_SetOnBackendHealthCheckRequired b2 rt)) fs"
| rr_files: "rt_reach E path rt fs \<Longrightarrow> fs' path = fs path \<Longrightarrow> rt_reach E path rt fs'"

lemma rt_reach_inv: "rt_reach E path rt fs \<Longrightarrow> json_roundtrip E \<Longrightarrow> rt_inv E path rt fs"
proof (induction rule: rt_reach.induct)
  case rr_new
  then show ?case using rt_inv_new by blast
next
  case rr_op
  then show ?case using rt_inv_exec by blast
next
  case rr_status
  then show ?case using rt_inv_store ri_registry registry_ok_modify by blast
next
  case rr_files
  then show ?case by (simp add: rt_inv_def svc_inv_def load_config_def)
qed (simp_all add: rt_inv_def rt_SetOnRateLimitUpdate_def rt_SetOnBackendHealthCheckRequired_def)

section \<open>A running proxy\<close>

definition sample_runtime :: runtime where
  "sample_runtime = (case NewRuntime sample_env sample_fs sample_path of Inr rt \<Rightarrow> rt)"

lemma sample_runtime_new: "NewRuntime sample_env sample_fs sample_path = Inr sample_runtime"
  using sample_new by (simp add: sample_runtime_def NewRuntime_def Let_def split: prod.splits)

lemma NewRuntime_Config: "NewRuntime E fs path = Inr rt \<Longrightarrow> NewService E fs path = Inr (rt_Config rt)"
  by (auto simp: NewRuntime_def Let_def split: sum.splits prod.splits)

lemma sample_runtime_config [simp]: "rt_Config sample_runtime = sample_service"
  using NewRuntime_Config [OF sample_runtime_new] sample_new by simp

lemmas sample_reach = rr_new [OF sample_runtime_new]

lemma sample_runtime_removed:
  "rt_exec sample_env io_ok (RT_RemoveBackend ''backend-1'') sample_runtime sample_fs =
   (None, publish (sample_runtime\<lparr>rt_Config := sample_service_removed\<rparr>), [sample_path \<mapsto> ''x''], [])"
  using sample_remove_exec by (simp add: rt_RemoveBackend_def plain_update_def applyUpdate_def)

section \<open>Properties\<close>

text \<open>C9: what request handlers read is consistent. In every state that a runtime can reach (with
  the health checker and the handlers writing in between) the published state is the snapshot of the
  current, valid configuration; it has a status for exactly the configured backends, no two share
  one; every backend has metrics; the load balancer is the one of the configured strategy; and the
  HTTP client is the one the runtime started with, built from the current timeouts and never closed.\<close>

theorem runtime_invariant:
  assumes "rt_reach E path rt fs" and "json_roundtrip E"
  defines "cfg \<equiv> svc_current (rt_Config rt)" and "st \<equiv> State rt"
  shows "rs_Snapshot st = build_snapshot cfg \<and> valid_config (env_url_parse E) cfg \<and>
    dom (rs_backendStatuses st) = backend_ids cfg \<and> inj_on (rs_backendStatuses st) (backend_ids cfg) \<and>
    bc_URL ` set (backend_list cfg) \<subseteq> dom (mt_Backends (rt_Metrics rt)) \<and>
    lbl_kind (rs_LoadBalancer st) =
      (if lbc_Strategy (fc_LoadBalancer cfg) = ''adaptive'' then AdaptiveLB else LeastConnections) \<and>
    rs_HTTPClient st = buildHTTPClient 0 (build_snapshot cfg) \<and> rt_closed rt = []"
proof -
  note inv = rt_reach_inv [OF assms(1,2)]
  note si = ri_svc [OF inv]
  have "inj_on (rt_statuses rt) (backend_ids cfg)"
    using ri_registry [OF inv] ri_dom [OF inv] unfolding cfg_def
    by (intro inj_onI) (metis domD registry_okD(2))
  moreover have "lbl_kind (rs_LoadBalancer st) =
      (if lbc_Strategy (fc_LoadBalancer cfg) = ''adaptive'' then AdaptiveLB else LeastConnections)"
    using arg_cong [OF ri_balancer [OF inv], of lbl_kind]
    by (simp add: st_def State_def cfg_def GetLoadBalancer_kind)
  ultimately show ?thesis
    unfolding cfg_def st_def State_def
    using inv_valid [OF si] inv_snapshot [OF si] ri_snapshot [OF inv] ri_statuses [OF inv]
      ri_dom [OF inv] ri_urls [OF inv] ri_client [OF inv] ri_closed [OF inv] by simp
qed

theorem runtime_invariant_witness:
  "dom (rs_backendStatuses (State (publish (sample_runtime\<lparr>rt_Config := sample_service_removed\<rparr>))))
     = {''backend-2''} \<and>
   rt_closed (publish (sample_runtime\<lparr>rt_Config := sample_service_removed\<rparr>)) = []"
  using runtime_invariant [OF rr_op [OF sample_reach sample_runtime_removed]]
  by (simp add: publish_simps(1) sample_service_removed_def)

lemma failure_keeps:
  assumes "rt_reach E path rt fs" and "json_roundtrip E"
    and "rt_exec E io op rt fs = (Some e, rt', fs', evs)"
  shows "rt' = rt \<and> fs' path = fs path \<and> evs = []"
  using assms(3)
proof (cases rule: rt_exec_cases)
  case (failed e' svc)
  have "svc = rt_Config rt" "fs' (svc_path (rt_Config rt)) = fs (svc_path (rt_Config rt))"
    using failed(2) by (cases rule: svc_exec_cases [OF assms(2) failed(2)]; auto)+
  then show ?thesis
    using failed(3,4) inv_path [OF ri_svc [OF rt_reach_inv [OF assms(1,2)]]] by simp
qed simp

text \<open>A failed operation of the runtime changes nothing at all: configuration, published state,
  statuses, metrics and callbacks are as before, the configuration file keeps its contents, and no
  callback runs.\<close>

theorem runtime_failure_atomic:
  assumes "rt_reach E path rt fs" and "json_roundtrip E"
    and "rt_exec E io op rt fs = (Some e, rt', fs', evs)"
  shows "rt' = rt \<and> fs' path = fs path \<and> evs = []"
  by (rule failure_keeps [OF assms])

theorem runtime_failure_atomic_witness:
  "\<exists>fs'. rt_exec sample_env io_ok (RT_RemoveBackend ''missing'') sample_runtime sample_fs =
     (Some ''backend does not exist in config: missing'', sample_runtime, fs', []) \<and>
     fs' sample_path = Some ''''"
proof -
  have "remove_backend ''missing'' sample_config = Inl ''backend does not exist in config: missing''"
    by (simp add: remove_backend_def)
  then have "\<exists>rt' fs' evs. rt_exec sample_env io_ok (RT_RemoveBackend ''missing'') sample_runtime sample_fs =
      (Some ''backend does not exist in config: missing'', rt', fs', evs)"
    by (simp add: rt_RemoveBackend_def plain_update_def applyUpdate_def svc_RemoveBackend_def
        svc_update_def clone_full_config_def sample_service_def split: prod.splits)
  then obtain rt' fs' evs where
    ex: "rt_exec sample_env io_ok (RT_RemoveBackend ''missing'') sample_runtime sample_fs =
      (Some ''backend does not exist in config: missing'', rt', fs', evs)" by blast
  from runtime_failure_atomic [OF sample_reach _ ex] ex show ?thesis by (auto simp: sample_fs_def)
qed

text \<open>The id whose status an operation may reset.\<close>

fun resets :: "rt_op \<Rightarrow> string option" where
  "resets (RT_UpdateBackend i u w en) = Some i"
| "resets _ = None"

lemma publish_store:
  assumes "registry_ok (rt_statuses rt) (rt_store rt)" and "a < st_next (rt_store rt)"
  shows "st_mem (rt_store (publish rt)) a =
    (if \<not> hcc_Enabled (fc_HealthCheck (sn_Raw (svc_snapshot (rt_Config rt)))) \<and>
        marks (rt_statuses (publish rt)) (fc_Backends (sn_Raw (svc_snapshot (rt_Config rt)))) a
     then MarkHealthy (st_mem (rt_store rt) a) else st_mem (rt_store rt) a)"
proof -
  obtain m S where rec: "Reconcile (fc_Backends (sn_Raw (svc_snapshot (rt_Config rt))))
      (rt_statuses rt) (rt_store rt) = (m, S)" by fastforce
  have "st_mem S a = st_mem (rt_store rt) a"
    using Reconcile_spec(1) [OF assms(1) rec] assms(2) by (simp add: reconciled_def)
  then show ?thesis using rec mark_enabled_spec by (simp add: publish_simps)
qed

text \<open>C10: an update keeps the health of every backend it does not concern. After a successful
  operation, a backend that was and still is configured has the same status object; every status
  object that existed before, also one that only old states still refer to, has the same contents,
  except for the backend that \<open>UpdateBackend\<close> names and, when health checks are off, the enabled
  backends, which are marked healthy.\<close>

theorem status_identity:
  assumes "rt_reach E path rt fs" and "json_roundtrip E"
    and ex: "rt_exec E io op rt fs = (None, rt', fs', evs)"
  shows "(\<forall>i. rt_GetBackendStatus rt i \<noteq> None \<and> rt_GetBackendStatus rt' i \<noteq> None \<longrightarrow>
             rt_GetBackendStatus rt' i = rt_GetBackendStatus rt i) \<and>
    (\<forall>a < st_next (rt_store rt).
       (\<forall>i. resets op = Some i \<longrightarrow> rt_GetBackendStatus rt i \<noteq> Some a) \<longrightarrow>
       st_mem (rt_store rt') a = st_mem (rt_store rt) a \<or>
       \<not> hcc_Enabled (rt_GetHealthConfig rt') \<and>
       st_mem (rt_store rt') a = MarkHealthy (st_mem (rt_store rt) a))"
  using ex
proof (cases rule: rt_exec_cases)
  case (ok svc)
  note inv = rt_reach_inv [OF assms(1,2)]
  let ?p = "publish (rt\<lparr>rt_Config := svc\<rparr>)"
  note inv' = rt_inv_publish [OF inv assms(2) ok(2)]
  have reg: "registry_ok (rt_statuses rt) (rt_store rt)" using ri_registry [OF inv] .
  have st: "rt_statuses rt' = rt_statuses ?p" "rt_state rt' = rt_state ?p"
    using ok(3) by (auto simp: Let_def)
  have get: "rt_GetBackendStatus rt i = rt_statuses rt i"
    "rt_GetBackendStatus rt' i = rt_statuses ?p i" "rt_GetBackendStatus ?p i = rt_statuses ?p i" for i
    using ri_statuses [OF inv] ri_statuses [OF inv'] st
    by (simp_all add: rt_GetBackendStatus_def state_BackendStatus_def State_def)
  obtain m S where rec: "Reconcile (fc_Backends (sn_Raw (svc_snapshot svc))) (rt_statuses rt) (rt_store rt) = (m, S)"
    by fastforce
  then have m: "rt_statuses ?p = m" by (simp add: publish_simps)
  have same: "rt_statuses ?p i = rt_statuses rt i"
    if "rt_statuses rt i \<noteq> None" "rt_statuses ?p i \<noteq> None" for i
    using Reconcile_spec(3) [OF reg rec] that unfolding m by fastforce
  have hc: "rt_GetHealthConfig rt' = fc_HealthCheck (sn_Raw (svc_snapshot svc))"
    using st by (simp add: rt_GetHealthConfig_def State_def publish_simps)
  have "st_mem (rt_store rt') a = st_mem (rt_store rt) a \<or>
       \<not> hcc_Enabled (rt_GetHealthConfig rt') \<and>
       st_mem (rt_store rt') a = MarkHealthy (st_mem (rt_store rt) a)"
    if a: "a < st_next (rt_store rt)"
      and nr: "\<forall>i. resets op = Some i \<longrightarrow> rt_GetBackendStatus rt i \<noteq> Some a" for a
  proof -
    have "st_mem (rt_store rt') a = st_mem (rt_store ?p) a"
      using ok(3)
    proof
      assume "\<exists>a f i. rt' = (let p = ?p in p\<lparr>rt_store := st_modify a f (rt_store p)\<rparr>) \<and>
          f \<in> {status_Reset, MarkHealthy} \<and> rt_GetBackendStatus ?p i = Some a \<and>
          (\<exists>u w en. op = RT_UpdateBackend i u w en)"
      then obtain a0 f i where r: "rt' = ?p\<lparr>rt_store := st_modify a0 f (rt_store ?p)\<rparr>"
        "rt_statuses ?p i = Some a0" "resets op = Some i" by (auto simp: Let_def get)
      have "a \<noteq> a0"
      proof
        assume "a = a0"
        with Reconcile_spec(1) [OF reg rec] r(2) a have "rt_statuses rt i = Some a"
          unfolding m reconciled_def by fastforce
        with nr r(3) show False by (simp add: get)
      qed
      with r(1) show ?thesis by simp
    qed simp
    moreover have "st_mem (rt_store ?p) a \<in> {st_mem (rt_store rt) a, MarkHealthy (st_mem (rt_store rt) a)}"
      "hcc_Enabled (rt_GetHealthConfig rt') \<Longrightarrow> st_mem (rt_store ?p) a = st_mem (rt_store rt) a"
      using publish_store [of "rt\<lparr>rt_Config := svc\<rparr>"] reg a hc by simp_all
    ultimately show ?thesis by auto
  qed
  then show ?thesis using same by (auto simp: get)
qed simp

theorem status_identity_witness:
  "rt_GetBackendStatus (publish (sample_runtime\<lparr>rt_Config := sample_service_removed\<rparr>)) ''backend-2'' =
   rt_GetBackendStatus sample_runtime ''backend-2'' \<and>
   rt_GetBackendStatus sample_runtime ''backend-2'' \<noteq> None"
proof -
  let ?rt' = "publish (sample_runtime\<lparr>rt_Config := sample_service_removed\<rparr>)"
  have def: "rt_GetBackendStatus rt i \<noteq> None \<longleftrightarrow> i \<in> backend_ids (svc_current (rt_Config rt))"
    if "rt_inv sample_env sample_path rt fs" for rt fs i
    using ri_dom [OF that] ri_statuses [OF that]
    by (auto simp: rt_GetBackendStatus_def state_BackendStatus_def State_def)
  have "rt_GetBackendStatus sample_runtime ''backend-2'' \<noteq> None"
    using def [OF rt_inv_new [OF sample_runtime_new]] by (simp add: sample_service_def)
  moreover have "rt_GetBackendStatus ?rt' ''backend-2'' \<noteq> None"
    using def [OF rt_inv_exec [OF rt_inv_new [OF sample_runtime_new] _ sample_runtime_removed]]
    by (simp add: publish_simps(1) sample_service_removed_def)
  ultimately show ?thesis
    using status_identity [OF sample_reach _ sample_runtime_removed] by simp
qed

text \<open>The backend that the service holds, as the view has it.\<close>

lemma svc_GetBackend_view: "svc_GetBackend s i = rv_backends (config_view (svc_current s)) i"
  by (simp add: svc_GetBackend_def find_backend_keyed config_view_def backend_list_def)

lemma svc_exec_view:
  assumes "svc_inv E path s fs" and "json_roundtrip E" and "svc_exec E io op s fs = (None, s', fs')"
  shows "config_view (svc_current s') = view_step op (config_view (svc_current s))"
proof -
  from svc_exec_ok [OF assms(2,3)] obtain c where "op_args_ok op"
    "op_edit op (svc_current s) = Inr c" "valid_config (env_url_parse E) (apply_defaults c)"
    "svc_current s' = apply_defaults c" by auto
  with op_edit_refines [OF inv_valid [OF assms(1)] inv_defaults [OF assms(1)]] show ?thesis by simp
qed

lemma Reset_zero [simp]: "status_Reset s = zero_status"
  by (simp add: status_Reset_def zero_status_def)

text \<open>What \<open>UpdateBackend\<close> does to the backend it names.\<close>

lemma update_backend_effect:
  assumes "rt_reach E path rt fs" and "json_roundtrip E"
    and ex: "rt_exec E io (RT_UpdateBackend i url weight enabled) rt fs = (None, rt', fs', evs)"
    and hc: "hcc_Enabled (rt_GetHealthConfig rt)"
  shows "\<exists>old a. rt_GetBackend rt i = Some old \<and> rt_GetBackendStatus rt i = Some a \<and>
    rt_GetBackendStatus rt' i = Some a \<and>
    (let new = old\<lparr>bc_URL := (if url = '''' then bc_URL old else url),
                   bc_Weight := weight, bc_Enabled := enabled\<rparr>
     in rt_GetBackend rt' i = Some new \<and>
        (if enabled \<and> (\<not> bc_Enabled old \<or> bc_URL new \<noteq> bc_URL old)
         then st_mem (rt_store rt') a = zero_status \<and>
              evs = (if rt_onHealthCheckRequired rt then [Ev_HealthCheckRequired new] else [])
         else st_mem (rt_store rt') a = st_mem (rt_store rt) a \<and> evs = []))"
proof -
  note inv = rt_reach_inv [OF assms(1,2)]
  from ex obtain svc where
    sx': "svc_exec E io (svc_of (RT_UpdateBackend i url weight enabled)) (rt_Config rt) fs = (None, svc, fs')"
    by (cases rule: rt_exec_cases) auto
  then have sx: "svc_UpdateBackend E io i url weight enabled (rt_Config rt) fs = (None, svc, fs')"
    by simp
  let ?p = "publish (rt\<lparr>rt_Config := svc\<rparr>)"
  note inv' = rt_inv_publish [OF inv assms(2) sx']
  note view = svc_exec_view [OF ri_svc [OF inv] assms(2) sx']
  let ?f = "\<lambda>b. \<lparr>bc_Id = bc_Id b, bc_URL = (if url = '''' then bc_URL b else url),
               bc_Weight = weight, bc_Enabled = enabled\<rparr>"
  have new: "svc_GetBackend svc i = map_option ?f (svc_GetBackend (rt_Config rt) i)"
    using view by (simp add: svc_GetBackend_view)
  have pc: "rt_Config ?p = svc" by (simp add: publish_simps)
  have cid: "svc_GetBackend s j \<noteq> None \<longleftrightarrow> j \<in> backend_ids (svc_current s)" for s j
    by (simp add: svc_GetBackend_view config_view_def keyed_None backend_ids_def)
  have "svc_GetBackend (rt_Config rt) i \<noteq> None"
  proof
    assume none: "svc_GetBackend (rt_Config rt) i = None"
    have "\<exists>c. update_backend i url weight enabled (svc_current (rt_Config rt)) = Inr c"
      using svc_exec_ok [OF assms(2) sx'] by auto
    then obtain bs where "update_first (is_backend i) (edit_backend url weight enabled)
        (fc_Backends (svc_current (rt_Config rt))) = Some bs"
      by (auto simp: update_backend_def split: option.splits)
    then have "\<exists>x \<in> set (fc_Backends (svc_current (rt_Config rt))). is_backend i x"
      by (auto dest: update_first_SomeD)
    then have "i \<in> backend_ids (svc_current (rt_Config rt))"
      by (auto simp: is_backend_def backend_ids_def split: option.splits)
    with none cid show False by blast
  qed
  then obtain old where old: "svc_GetBackend (rt_Config rt) i = Some old" by blast
  with new have new': "svc_GetBackend svc i = Some (?f old)" by simp
  have "i \<in> dom (rt_statuses rt)" "i \<in> dom (rt_statuses ?p)"
    using ri_dom [OF inv] ri_dom [OF inv'] cid [of "rt_Config rt" i] cid [of svc i] old new'
    by (simp_all add: pc)
  then obtain a where a: "rt_statuses rt i = Some a" by blast
  obtain m S where rec: "Reconcile (fc_Backends (sn_Raw (svc_snapshot svc))) (rt_statuses rt) (rt_store rt) = (m, S)"
    by fastforce
  have m: "rt_statuses ?p = m" using rec by (simp add: publish_simps)
  have a': "rt_statuses ?p i = Some a"
    using Reconcile_spec(3) [OF ri_registry [OF inv] rec a] \<open>i \<in> dom (rt_statuses ?p)\<close> m by simp
  have hcp: "hcc_Enabled (fc_HealthCheck (sn_Raw (svc_snapshot svc)))"
    using hc ri_snapshot [OF inv] inv_snapshot [OF ri_svc [OF inv]] inv_snapshot [OF ri_svc [OF inv']]
      svc_of_sections [OF assms(2) inv_defaults [OF ri_svc [OF inv]] sx']
    by (simp add: rt_GetHealthConfig_def State_def same_sections_def pc)
  have mem: "st_mem (rt_store ?p) a = st_mem (rt_store rt) a"
    using publish_store [of "rt\<lparr>rt_Config := svc\<rparr>" a] ri_registry [OF inv] hcp
      registry_okD(1) [OF ri_registry [OF inv] a] by simp
  have getp: "rt_GetBackendStatus ?p i = Some a"
    using a' ri_statuses [OF inv'] by (simp add: rt_GetBackendStatus_def state_BackendStatus_def State_def)
  have hcp': "hcc_Enabled (rt_GetHealthConfig ?p)"
    using hcp by (simp add: rt_GetHealthConfig_def State_def publish_simps)
  have get: "rt_GetBackendStatus rt i = Some a"
    using a ri_statuses [OF inv] by (simp add: rt_GetBackendStatus_def state_BackendStatus_def State_def)
  have cb: "rt_onHealthCheckRequired ?p = rt_onHealthCheckRequired rt" by (simp add: publish_simps)
  have r: "should_recheck (Some old) (?f old) \<longleftrightarrow>
      enabled \<and> (\<not> bc_Enabled old \<or> (if url = '''' then bc_URL old else url) \<noteq> bc_URL old)"
    by (auto simp: should_recheck_def)
  show ?thesis
    using ex unfolding rt_exec.simps rt_UpdateBackend_def Let_def applyUpdate_def sx old prod.case
      option.case pc new' r
    using getp get hcp' cb mem old new' pc
    by (auto simp: rt_GetBackend_def triggerBackendHealthCheck_def rt_GetBackendStatus_def
        state_BackendStatus_def State_def split: if_splits)
qed

text \<open>When an updated backend is checked again. With health checks on, a successful
  \<open>UpdateBackend\<close> resets the status of the backend to that of a new one, and asks for a health
  check of the new configuration if a callback is set, exactly when the backend is enabled now and was
  disabled before or has a new URL; otherwise the status keeps its contents and nothing is asked.\<close>

theorem update_backend_recheck:
  assumes "rt_reach E path rt fs" and "json_roundtrip E"
    and ex: "rt_exec E io (RT_UpdateBackend i url weight enabled) rt fs = (None, rt', fs', evs)"
    and hc: "hcc_Enabled (rt_GetHealthConfig rt)"
  shows "\<exists>old a. rt_GetBackend rt i = Some old \<and> rt_GetBackendStatus rt i = Some a \<and>
    rt_GetBackendStatus rt' i = Some a \<and>
    (let new = old\<lparr>bc_URL := (if url = '''' then bc_URL old else url),
                   bc_Weight := weight, bc_Enabled := enabled\<rparr>
     in rt_GetBackend rt' i = Some new \<and>
        (if enabled \<and> (\<not> bc_Enabled old \<or> bc_URL new \<noteq> bc_URL old)
         then st_mem (rt_store rt') a = zero_status \<and>
              evs = (if rt_onHealthCheckRequired rt then [Ev_HealthCheckRequired new] else [])
         else st_mem (rt_store rt') a = st_mem (rt_store rt) a \<and> evs = []))"
  using assms by (rule update_backend_effect)

section \<open>More concrete runs\<close>

text \<open>The table codec knows a configuration as soon as it is in the table.\<close>

lemma position_mem: "x \<in> set xs \<Longrightarrow> \<exists>n. position x xs = Some n"
  by (induction xs) auto

lemma table_marshal:
  "c \<in> set cs \<Longrightarrow> \<exists>d. env_marshal (table_env cs) c = Inr d \<and> env_marshal_indent (table_env cs) c = Inr d"
  using position_mem [of c cs] by (auto simp: table_env_def Let_def)

lemma table_new:
  assumes "c \<in> set cs" "valid_config sample_url_parse c" "defaults_applied c"
  shows "\<exists>d. NewService (table_env cs) [sample_path \<mapsto> d] sample_path =
     Inr \<lparr>svc_path = sample_path, svc_current = c, svc_snapshot = build_snapshot c\<rparr>"
proof -
  from table_marshal [OF assms(1)] obtain d where "env_marshal (table_env cs) c = Inr d" by blast
  then have "env_unmarshal (table_env cs) d = Inr c"
    using json_roundtripD(1) [OF table_env_roundtrip] by blast
  moreover have "sample_path \<noteq> ''''" by (simp add: sample_path_def)
  ultimately show ?thesis
    using assms(2,3)
    by (intro exI [of _ d]) (simp add: NewService_def load_config_def defaults_applied_def
        validate_config_None [THEN iffD2])
qed

lemma table_update:
  assumes "svc_current s \<in> set cs" "m (svc_current s) = Inr c" "c \<in> set cs"
    and "valid_config sample_url_parse c" "defaults_applied c"
  shows "\<exists>fs'. svc_update (table_env cs) io_ok m s fs =
     (None, s\<lparr>svc_current := c, svc_snapshot := build_snapshot c\<rparr>, fs')"
proof -
  from table_marshal [OF assms(1)] obtain d where d: "env_marshal (table_env cs) (svc_current s) = Inr d"
    by blast
  with json_roundtripD(1) [OF table_env_roundtrip] have "env_unmarshal (table_env cs) d = Inr (svc_current s)"
    by blast
  with d assms(2) table_marshal [OF assms(3)] assms(4,5) show ?thesis
    by (auto simp: svc_update_def clone_full_config_def applyLocked_def Let_def io_ok_def
        validate_config_None [THEN iffD2] save_config_def defaults_applied_def)
qed

lemma table_runtime:
  assumes "c \<in> set cs" "valid_config sample_url_parse c" "defaults_applied c"
  shows "\<exists>fs rt. rt_reach (table_env cs) sample_path rt fs \<and> svc_current (rt_Config rt) = c \<and>
     rt_onRateLimitUpdate rt \<and> rt_onHealthCheckRequired rt"
proof -
  from table_new [OF assms] obtain d where
    new: "NewService (table_env cs) [sample_path \<mapsto> d] sample_path =
     Inr \<lparr>svc_path = sample_path, svc_current = c, svc_snapshot = build_snapshot c\<rparr>" by blast
  then have "\<exists>rt. NewRuntime (table_env cs) [sample_path \<mapsto> d] sample_path = Inr rt"
    by (simp add: NewRuntime_def Let_def split_def)
  then obtain rt where rt: "NewRuntime (table_env cs) [sample_path \<mapsto> d] sample_path = Inr rt" ..
  have "svc_current (rt_Config rt) = c"
    using NewRuntime_Config [OF rt] unfolding new by (metis Inr_inject service.select_convs(2))
  with rr_callbacks [OF rr_new [OF rt], of True True] show ?thesis
    by (intro exI [of _ "[sample_path \<mapsto> d]"]
        exI [of _ "rt_SetOnRateLimitUpdate True (rt_SetOnBackendHealthCheckRequired True rt)"])
      (auto simp: rt_SetOnRateLimitUpdate_def rt_SetOnBackendHealthCheckRequired_def)
qed

text \<open>Variants of the sample: a moved backend, a stricter default policy, a second policy.\<close>

definition moved_backend :: backend_config where
  "moved_backend = \<lparr>bc_Id = ''backend-1'', bc_URL = ''http://backend-c:3000'', bc_Weight = 1, bc_Enabled = True\<rparr>"

definition strict_limits :: rate_limiting_config where
  "strict_limits = \<lparr>rl_Enabled = True, rl_RatePerIP = 5, rl_Burst = 10, rl_WindowSec = 60\<rparr>"

definition sample_moved :: full_config where
  "sample_moved = sample_config\<lparr>fc_Backends := [Some moved_backend, Some backend_2]\<rparr>"

definition sample_limited :: full_config where
  "sample_limited = sample_config\<lparr>fc_Security :=
     \<lparr>sec_Policies = [\<lparr>sp_Id = ''default'', sp_RateLimiting = strict_limits\<rparr>]\<rparr>\<rparr>"

definition sample_two :: full_config where
  "sample_two = sample_config\<lparr>fc_Security :=
     \<lparr>sec_Policies = [sample_policy, \<lparr>sp_Id = ''strict'', sp_RateLimiting = strict_limits\<rparr>]\<rparr>\<rparr>"

definition sample_two_strict :: full_config where
  "sample_two_strict = sample_two\<lparr>fc_VirtualHosts := [sample_vhost\<lparr>vh_SecurityPolicyID := ''strict''\<rparr>]\<rparr>"

definition sample_table :: "full_config list" where
  "sample_table = [sample_config, sample_moved, sample_limited, sample_two, sample_two_strict]"

lemma sample_table_mem [simp]:
  "sample_config \<in> set sample_table" "sample_moved \<in> set sample_table"
  "sample_limited \<in> set sample_table" "sample_two \<in> set sample_table"
  "sample_two_strict \<in> set sample_table"
  by (simp_all add: sample_table_def)

lemma sample_backends_valid:
  "valid_backend sample_url_parse backend_1" "valid_backend sample_url_parse backend_2"
  "valid_backend sample_url_parse moved_backend"
  by (simp_all add: valid_backend_def sample_url_parse_def has_prefix_def moved_backend_def)

lemma strict_valid: "sp_RateLimiting p = strict_limits \<Longrightarrow> sp_Id p \<noteq> '''' \<Longrightarrow> valid_policy p"
  by (simp add: valid_policy_def strict_limits_def)

lemma sample_variants_valid [simp]:
  "valid_config sample_url_parse sample_moved" "valid_config sample_url_parse sample_limited"
  "valid_config sample_url_parse sample_two" "valid_config sample_url_parse sample_two_strict"
proof -
  note v = sample_config_valid [unfolded valid_config_def]
  have p: "valid_policy sample_policy" using v by simp
  have h: "valid_vhost {''backend-1'', ''backend-2''} P (sample_vhost\<lparr>vh_SecurityPolicyID := p\<rparr>)"
    if "p \<in> P" for p P using that by (simp add: valid_vhost_def)
  have h0: "valid_vhost {''backend-1'', ''backend-2''} P sample_vhost" if "''default'' \<in> P" for P
    using that by (simp add: valid_vhost_def)
  show "valid_config sample_url_parse sample_moved"
    using v h0 sample_backends_valid unfolding valid_config_def
    by (simp add: sample_moved_def backend_list_def backend_ids_def policy_ids_def moved_backend_def)
  show "valid_config sample_url_parse sample_limited" "valid_config sample_url_parse sample_two"
    "valid_config sample_url_parse sample_two_strict"
    using v h h0 sample_backends_valid strict_valid p unfolding valid_config_def
    by (simp_all add: sample_limited_def sample_two_def sample_two_strict_def backend_list_def
        backend_ids_def policy_ids_def)
qed

lemma sample_variants_defaults [simp]:
  "defaults_applied sample_moved" "defaults_applied sample_limited"
  "defaults_applied sample_two" "defaults_applied sample_two_strict"
  unfolding defaults_applied_def
  by (simp_all add: sample_moved_def sample_limited_def sample_two_def sample_two_strict_def
      sample_defs moved_backend_def apply_defaults_def
      apply_health_checks_defaults_def default_probe_def default_backoff_def
      default_transport_def default_timeouts_def or_default_def
      ensure_default_security_policy_def default_vhost_def)

text \<open>A runtime whose service performs an edit that stays in the table.\<close>

lemma table_step:
  assumes "svc_current (rt_Config rt) = c" and "c \<in> set sample_table"
    and c': "c' \<in> set sample_table" "valid_config sample_url_parse c'" "defaults_applied c'"
    and svc: "svc_exec (table_env sample_table) io_ok (svc_of op) (rt_Config rt) fs =
                svc_update (table_env sample_table) io_ok m (rt_Config rt) fs"
    and m: "m c = Inr c'"
  obtains rt' fs' evs where "rt_exec (table_env sample_table) io_ok op rt fs = (None, rt', fs', evs)"
    "svc_current (rt_Config rt') = c'"
proof -
  obtain fs' where up: "svc_update (table_env sample_table) io_ok m (rt_Config rt) fs =
      (None, (rt_Config rt)\<lparr>svc_current := c', svc_snapshot := build_snapshot c'\<rparr>, fs')"
    using table_update [of "rt_Config rt" sample_table m c'] assms(1,2) c' m by blast
  obtain r rt' fs'' evs where ex: "rt_exec (table_env sample_table) io_ok op rt fs = (r, rt', fs'', evs)"
    by (metis prod_cases4)
  have sx: "svc_exec (table_env sample_table) io_ok (svc_of op) (rt_Config rt) fs =
      (None, (rt_Config rt)\<lparr>svc_current := c', svc_snapshot := build_snapshot c'\<rparr>, fs')"
    using svc up by simp
  from ex have "r = None \<and> svc_current (rt_Config rt') = c'"
  proof (cases rule: rt_exec_cases)
    case (ok svc)
    with sx have "svc_current svc = c'" by auto
    with ok show ?thesis by (auto simp: publish_simps(1) Let_def)
  qed (use sx in simp)
  with ex that show thesis by blast
qed

lemma table_rt_exec:
  assumes c: "c \<in> set sample_table" "valid_config sample_url_parse c" "defaults_applied c"
    and c': "c' \<in> set sample_table" "valid_config sample_url_parse c'" "defaults_applied c'"
    and svc: "\<And>s fs. svc_current s = c \<Longrightarrow> svc_exec (table_env sample_table) io_ok (svc_of op) s fs =
                svc_update (table_env sample_table) io_ok m s fs"
    and m: "m c = Inr c'"
  shows "\<exists>fs rt rt' fs' evs. rt_reach (table_env sample_table) sample_path rt fs \<and>
     svc_current (rt_Config rt) = c \<and> rt_onRateLimitUpdate rt \<and> rt_onHealthCheckRequired rt \<and>
     rt_exec (table_env sample_table) io_ok op rt fs = (None, rt', fs', evs) \<and>
     svc_current (rt_Config rt') = c'"
proof -
  from table_runtime [OF c] obtain fs rt where rt: "rt_reach (table_env sample_table) sample_path rt fs"
    "svc_current (rt_Config rt) = c" "rt_onRateLimitUpdate rt" "rt_onHealthCheckRequired rt" by blast
  obtain rt' fs' evs where "rt_exec (table_env sample_table) io_ok op rt fs = (None, rt', fs', evs)"
    "svc_current (rt_Config rt') = c'"
    by (rule table_step [OF rt(2) c(1) c' svc [OF rt(2)] m])
  with rt show ?thesis by blast
qed

theorem update_backend_recheck_witness:
  "\<exists>fs rt rt' fs' evs a.
     rt_exec (table_env sample_table) io_ok
       (RT_UpdateBackend ''backend-1'' ''http://backend-c:3000'' 1 True) rt fs = (None, rt', fs', evs) \<and>
     rt_GetBackendStatus rt ''backend-1'' = Some a \<and> st_mem (rt_store rt') a = zero_status \<and>
     evs = [Ev_HealthCheckRequired moved_backend]"
proof -
  let ?op = "RT_UpdateBackend ''backend-1'' ''http://backend-c:3000'' 1 True"
  have "update_backend ''backend-1'' ''http://backend-c:3000'' 1 True sample_config = Inr sample_moved"
    by (simp add: update_backend_def is_backend_def edit_backend_def sample_moved_def moved_backend_def
        backend_1_def)
  then obtain fs rt rt' fs' evs where rt: "rt_reach (table_env sample_table) sample_path rt fs"
    "svc_current (rt_Config rt) = sample_config" "rt_onHealthCheckRequired rt"
    and ex: "rt_exec (table_env sample_table) io_ok ?op rt fs = (None, rt', fs', evs)"
    using table_rt_exec [of sample_config sample_moved ?op
        "update_backend ''backend-1'' ''http://backend-c:3000'' 1 True"]
    by (auto simp: svc_UpdateBackend_def)
  note inv = rt_reach_inv [OF rt(1) table_env_roundtrip]
  have hc: "hcc_Enabled (rt_GetHealthConfig rt)"
    using ri_snapshot [OF inv] inv_snapshot [OF ri_svc [OF inv]] rt(2)
    by (simp add: rt_GetHealthConfig_def State_def sample_health_check_def)
  have "rt_GetBackend rt ''backend-1'' = Some backend_1"
    using rt(2) by (simp add: rt_GetBackend_def svc_GetBackend_def)
  with update_backend_recheck [OF rt(1) table_env_roundtrip ex hc] rt(3)
  obtain a where "rt_GetBackendStatus rt ''backend-1'' = Some a" "st_mem (rt_store rt') a = zero_status"
    "evs = [Ev_HealthCheckRequired moved_backend]"
    by (auto simp: Let_def moved_backend_def backend_1_def)
  with ex show ?thesis by blast
qed

section \<open>Rate-limit callbacks\<close>

lemma snapshot_rate_limiting_view:
  "snapshot_rate_limiting sn d =
     (case rv_vhosts (snapshot_view sn) d of None \<Rightarrow> zero_rate_limiting
      | Some v \<Rightarrow> (case rv_policies (snapshot_view sn) (vh_SecurityPolicyID v) of
                    None \<Rightarrow> zero_rate_limiting | Some p \<Rightarrow> sp_RateLimiting p))"
  unfolding snapshot_rate_limiting_def snapshot_view_def routing_view.simps ..

lemma rt_view:
  assumes "rt_inv E path rt fs"
  shows "snapshot_view (rs_Snapshot (State rt)) = config_view (svc_current (rt_Config rt))"
  using ri_snapshot [OF assms] inv_snapshot [OF ri_svc [OF assms]]
    view_of_valid [OF inv_valid [OF ri_svc [OF assms]]] by (simp add: State_def)

lemma rt_exec_view:
  assumes "rt_inv E path rt fs" and "json_roundtrip E"
    and "rt_exec E io op rt fs = (None, rt', fs', evs)"
  shows "snapshot_view (rs_Snapshot (State rt')) =
         view_step (svc_of op) (snapshot_view (rs_Snapshot (State rt)))"
  using assms(3)
proof (cases rule: rt_exec_cases)
  case (ok svc)
  then have "rt_Config rt' = svc" by (auto simp: publish_simps(1) Let_def)
  with svc_exec_view [OF ri_svc [OF assms(1)] assms(2) ok(2)] show ?thesis
    unfolding rt_view [OF rt_inv_exec [OF assms]] rt_view [OF assms(1)] by simp
qed simp

lemma cut_port_no_colon: "CHR '':'' \<notin> set d \<Longrightarrow> cut_port d = d"
  by (induction d) auto

text \<open>The operations that edit policies or their assignment.\<close>

fun policy_edit :: "rt_op \<Rightarrow> bool" where
  "policy_edit (RT_UpsertPolicy p) \<longleftrightarrow> True"
| "policy_edit (RT_SetVirtualHostSecurityPolicy d p) \<longleftrightarrow> True"
| "policy_edit _ \<longleftrightarrow> False"

lemma policy_change_announced:
  assumes "rt_reach E path rt fs" and "json_roundtrip E"
    and ex: "rt_exec E io op rt fs = (None, rt', fs', evs)"
    and "policy_edit op" and "rt_onRateLimitUpdate rt" and "CHR '':'' \<notin> set d"
    and ch: "rt_GetSecurityConfigHost rt' d \<noteq> rt_GetSecurityConfigHost rt d"
  shows "Ev_RateLimitUpdate d (rt_GetSecurityConfigHost rt' d) \<in> set evs"
proof -
  note inv = rt_reach_inv [OF assms(1,2)]
  note view = rt_exec_view [OF inv assms(2) ex]
  have cb: "rt_onRateLimitUpdate rt'"
    using ex assms(5) by (cases rule: rt_exec_cases) (auto simp: Let_def publish_simps)
  have rl: "rt_GetSecurityConfigHost r d = snapshot_rate_limiting (rs_Snapshot (State r)) d" for r
    using cut_port_no_colon [OF assms(6)] by (simp add: rt_GetSecurityConfigHost_def)
  from assms(4) consider p where "op = RT_UpsertPolicy p"
    | dm p where "op = RT_SetVirtualHostSecurityPolicy dm p"
    by (cases op) auto
  then show ?thesis
  proof cases
    case (1 p)
    let ?w = "snapshot_view (rs_Snapshot (State rt))" and ?w' = "snapshot_view (rs_Snapshot (State rt'))"
    have w': "?w' = ?w\<lparr>rv_policies := (rv_policies ?w)(sp_Id p \<mapsto> p)\<rparr>" using view 1 by simp
    obtain v where v: "rv_vhosts ?w' d = Some v" "vh_SecurityPolicyID v = sp_Id p"
      using ch unfolding rl snapshot_rate_limiting_view w'
      by (cases "rv_vhosts ?w d") (auto split: if_splits)
    then have new: "rt_GetSecurityConfigHost rt' d = sp_RateLimiting p"
      unfolding rl snapshot_rate_limiting_view by (simp add: w')
    note inv' = rt_inv_exec [OF inv assms(2) ex]
    have "v \<in> set (fc_VirtualHosts (svc_current (rt_Config rt')))" "vh_Domain v = d"
      using v(1) unfolding rt_view [OF inv'] by (auto simp: config_view_def dest: keyed_Some)
    moreover have "sn_Raw (rs_Snapshot (State rt')) = svc_current (rt_Config rt')"
      using ri_snapshot [OF inv'] inv_snapshot [OF ri_svc [OF inv']] by (simp add: State_def)
    ultimately show ?thesis
      using ex 1 v(2) cb new
      by (auto simp: rt_UpsertPolicy_def split: prod.splits option.splits)
  next
    case (2 dm p)
    have "d = dm"
      using ch view 2 unfolding rl snapshot_rate_limiting_view
      by (cases "rv_vhosts (snapshot_view (rs_Snapshot (State rt))) d") (auto split: if_splits)
    then show ?thesis
      using ex 2 cb
      by (auto simp: rt_SetVirtualHostSecurityPolicy_def split: prod.splits option.splits)
  qed
qed

text \<open>What is announced is what is in effect, for domains without a port.\<close>

lemma announcement_current:
  assumes "rt_reach E path rt fs" and "json_roundtrip E"
    and ex: "rt_exec E io op rt fs = (None, rt', fs', evs)"
    and ev: "Ev_RateLimitUpdate d cfg \<in> set evs" and "CHR '':'' \<notin> set d"
  shows "cfg = rt_GetSecurityConfigHost rt' d"
proof -
  note inv = rt_reach_inv [OF assms(1,2)]
  note inv' = rt_inv_exec [OF inv assms(2) ex]
  note view = rt_exec_view [OF inv assms(2) ex]
  have raw: "sn_Raw (rs_Snapshot (State rt')) = svc_current (rt_Config rt')"
    using ri_snapshot [OF inv'] inv_snapshot [OF ri_svc [OF inv']] by (simp add: State_def)
  show ?thesis
  proof (cases "\<exists>p. op = RT_UpsertPolicy p")
    case True
    then obtain p where op: "op = RT_UpsertPolicy p" by blast
    with ex ev raw obtain v where v: "v \<in> set (fc_VirtualHosts (svc_current (rt_Config rt')))"
      "vh_Domain v = d" "vh_SecurityPolicyID v = sp_Id p" "cfg = sp_RateLimiting p"
      by (auto simp: rt_UpsertPolicy_def split: prod.splits option.splits if_splits)
    have dist: "distinct (map vh_Domain (fc_VirtualHosts (svc_current (rt_Config rt'))))"
      using inv_valid [OF ri_svc [OF inv']] by (simp add: valid_config_def)
    have "rv_vhosts (snapshot_view (rs_Snapshot (State rt'))) d = Some v"
      unfolding rt_view [OF inv'] using v(1,2) dist by (simp add: config_view_def keyed_iff)
    then show ?thesis
      using view op v cut_port_no_colon [OF assms(5)]
      unfolding rt_GetSecurityConfigHost_def snapshot_rate_limiting_view by simp
  next
    case False
    then show ?thesis
      using ex ev
      by (cases op) (auto simp: rt_SetVirtualHostSecurityPolicy_def plain_update_def
          rt_AddBackend_def rt_UpdateBackend_def triggerBackendHealthCheck_def rt_RemoveBackend_def
          rt_AddVirtualHost_def rt_UpdateVirtualHost_def rt_RemoveVirtualHost_def
          rt_UpdateServerConfig_def rt_UpdateLoadBalancerConfig_def Let_def
          split: prod.splits option.splits if_splits)
  qed
qed

text \<open>The other operations that leave the virtual hosts alone leave the settings in effect alone.\<close>

fun vhost_edit :: "rt_op \<Rightarrow> bool" where
  "vhost_edit (RT_AddVirtualHost v) \<longleftrightarrow> True"
| "vhost_edit (RT_UpdateVirtualHost d v) \<longleftrightarrow> True"
| "vhost_edit (RT_RemoveVirtualHost d) \<longleftrightarrow> True"
| "vhost_edit _ \<longleftrightarrow> False"

lemma limits_unchanged:
  assumes "rt_reach E path rt fs" and "json_roundtrip E"
    and ex: "rt_exec E io op rt fs = (r, rt', fs', evs)"
    and "r = None \<longrightarrow> \<not> policy_edit op \<and> \<not> vhost_edit op"
  shows "rt_GetSecurityConfigHost rt' d = rt_GetSecurityConfigHost rt d"
proof (cases r)
  case None
  with ex have ex: "rt_exec E io op rt fs = (None, rt', fs', evs)" by simp
  note view = rt_exec_view [OF rt_reach_inv [OF assms(1,2)] assms(2) ex]
  from assms(4) None show ?thesis
    unfolding rt_GetSecurityConfigHost_def snapshot_rate_limiting_view view
    by (cases op) (auto simp: forget_backend_def split: option.splits)
next
  case (Some e)
  with ex show ?thesis
    by (cases rule: rt_exec_cases) (auto simp: rt_GetSecurityConfigHost_def State_def)
qed

text \<open>The callbacks of an operation, read off whatever state is current when it gets to them; the list
  that \<open>rt_exec\<close> returns is the one of a call that nothing interrupts.\<close>

fun op_callbacks :: "rt_op \<Rightarrow> runtime \<Rightarrow> rt_event list" where
  "op_callbacks (RT_SetVirtualHostSecurityPolicy d p) rt = host_callbacks d rt"
| "op_callbacks (RT_UpsertPolicy p) rt = policy_callbacks p rt"
| "op_callbacks _ rt = []"

lemma exec_callbacks:
  assumes "rt_exec E io op rt fs = (None, rt', fs', evs)" and "policy_edit op"
  shows "evs = op_callbacks op rt'"
  using assms
  by (cases op) (auto simp: rt_SetVirtualHostSecurityPolicy_def rt_UpsertPolicy_def
      split: prod.splits option.splits)

lemma exec_quiet:
  assumes "rt_exec E io op rt fs = (r, rt', fs', evs)" and "\<not> (r = None \<and> policy_edit op)"
  shows "Ev_RateLimitUpdate d c \<notin> set evs"
  using assms
  by (cases op; cases r) (auto simp: rt_SetVirtualHostSecurityPolicy_def plain_update_def rt_UpsertPolicy_def
      rt_AddBackend_def rt_UpdateBackend_def triggerBackendHealthCheck_def rt_RemoveBackend_def
      rt_AddVirtualHost_def rt_UpdateVirtualHost_def rt_RemoveVirtualHost_def
      rt_UpdateServerConfig_def rt_UpdateLoadBalancerConfig_def Let_def
      split: prod.splits option.splits if_splits)

text \<open>What the settings in effect depend on: the policy of each domain, and the policies.\<close>

definition policy_data :: "runtime \<Rightarrow> (string \<rightharpoonup> string) \<times> (string \<rightharpoonup> security_policy)" where
  "policy_data rt =
     (\<lambda>d. map_option vh_SecurityPolicyID (rv_vhosts (snapshot_view (rs_Snapshot (State rt))) d),
      rv_policies (snapshot_view (rs_Snapshot (State rt))))"

lemma policy_data_limits:
  "rt_GetSecurityConfigHost rt d =
     (case fst (policy_data rt) (cut_port d) of None \<Rightarrow> zero_rate_limiting
      | Some p \<Rightarrow> (case snd (policy_data rt) p of None \<Rightarrow> zero_rate_limiting | Some q \<Rightarrow> sp_RateLimiting q))"
  unfolding rt_GetSecurityConfigHost_def snapshot_rate_limiting_view
  by (simp add: policy_data_def split: option.split)

lemma policy_data_state: "rt_state rt' = rt_state rt \<Longrightarrow> policy_data rt' = policy_data rt"
  by (simp add: policy_data_def State_def)

lemma policy_data_unchanged:
  assumes "rt_reach E path rt fs" and "json_roundtrip E"
    and ex: "rt_exec E io op rt fs = (r, rt', fs', evs)"
    and "r = None \<longrightarrow> \<not> policy_edit op \<and> \<not> vhost_edit op"
  shows "policy_data rt' = policy_data rt"
proof (cases r)
  case None
  with ex have ex: "rt_exec E io op rt fs = (None, rt', fs', evs)" by simp
  note view = rt_exec_view [OF rt_reach_inv [OF assms(1,2)] assms(2) ex]
  from assms(4) None show ?thesis
    unfolding policy_data_def view
    by (cases op) (auto simp: forget_backend_def option.map_comp comp_def split: option.splits)
next
  case (Some e)
  with ex show ?thesis
    by (cases rule: rt_exec_cases) (auto simp: policy_data_def State_def)
qed

lemma op_callbacks_iff:
  assumes "rt_inv E path rt fs" and "rt_onRateLimitUpdate rt"
  shows "Ev_RateLimitUpdate d c \<in> set (op_callbacks op rt) \<longleftrightarrow>
     (case op of
        RT_UpsertPolicy p \<Rightarrow> fst (policy_data rt) d = Some (sp_Id p) \<and> c = sp_RateLimiting p
      | RT_SetVirtualHostSecurityPolicy d' q \<Rightarrow> d = d' \<and> c = rt_GetSecurityConfigHost rt d
      | _ \<Rightarrow> False)"
proof (cases "\<exists>p. op = RT_UpsertPolicy p")
  case True
  then obtain p where op: "op = RT_UpsertPolicy p" by blast
  let ?vs = "fc_VirtualHosts (svc_current (rt_Config rt))"
  have raw: "sn_Raw (rs_Snapshot (State rt)) = svc_current (rt_Config rt)"
    using ri_snapshot [OF assms(1)] inv_snapshot [OF ri_svc [OF assms(1)]] by (simp add: State_def)
  have dist: "distinct (map vh_Domain ?vs)"
    using inv_valid [OF ri_svc [OF assms(1)]] by (simp add: valid_config_def)
  have "fst (policy_data rt) d = Some (sp_Id p) \<longleftrightarrow>
      (\<exists>v \<in> set ?vs. vh_Domain v = d \<and> vh_SecurityPolicyID v = sp_Id p)"
    unfolding policy_data_def rt_view [OF assms(1)]
    by (auto simp: config_view_def keyed_iff [OF dist])
  then show ?thesis using assms(2) by (auto simp: op raw)
next
  case False
  then show ?thesis using assms(2) by (cases op) auto
qed

lemma upsert_policy_data:
  assumes "rt_reach E path rt fs" and "json_roundtrip E"
    and "rt_exec E io (RT_UpsertPolicy p) rt fs = (None, rt', fs', evs)"
  shows "snd (policy_data rt') (sp_Id p) = Some p"
  using rt_exec_view [OF rt_reach_inv [OF assms(1,2)] assms(2,3)] by (simp add: policy_data_def)

text \<open>Policy changes reach the rate limiter. When its callback is set, a successful
  \<open>UpsertPolicy\<close> or \<open>SetVirtualHostSecurityPolicy\<close> announces, for every domain (without a
  port) whose effective rate limiting changed, the new settings.\<close>

theorem rate_limit_changes_announced:
  assumes "rt_reach E path rt fs" and "json_roundtrip E"
    and ex: "rt_exec E io op rt fs = (None, rt', fs', evs)"
    and "policy_edit op" and "rt_onRateLimitUpdate rt" and "CHR '':'' \<notin> set d"
    and ch: "rt_GetSecurityConfigHost rt' d \<noteq> rt_GetSecurityConfigHost rt d"
  shows "Ev_RateLimitUpdate d (rt_GetSecurityConfigHost rt' d) \<in> set evs"
  using assms by (rule policy_change_announced)

theorem rate_limit_changes_announced_witness:
  "\<exists>fs rt rt' fs' evs.
     rt_exec (table_env sample_table) io_ok
       (RT_UpsertPolicy \<lparr>sp_Id = ''default'', sp_RateLimiting = strict_limits\<rparr>) rt fs = (None, rt', fs', evs) \<and>
     Ev_RateLimitUpdate ''app.example.local'' strict_limits \<in> set evs"
proof -
  let ?p = "\<lparr>sp_Id = ''default'', sp_RateLimiting = strict_limits\<rparr>"
  have m: "upsert_policy ?p sample_config = Inr sample_limited"
    by (simp add: upsert_policy_def sample_limited_def)
  have nt: "\<not> rl_Enabled (sp_RateLimiting sample_policy)" "rl_Enabled strict_limits"
    by (simp_all add: strict_limits_def)
  from m obtain fs rt rt' fs' evs where rt: "rt_reach (table_env sample_table) sample_path rt fs"
    "svc_current (rt_Config rt) = sample_config" "rt_onRateLimitUpdate rt"
    "svc_current (rt_Config rt') = sample_limited"
    and ex: "rt_exec (table_env sample_table) io_ok (RT_UpsertPolicy ?p) rt fs = (None, rt', fs', evs)"
    using table_rt_exec [of sample_config sample_limited "RT_UpsertPolicy ?p" "upsert_policy ?p"]
    by (auto simp: svc_UpsertPolicy_def)
  note inv = rt_reach_inv [OF rt(1) table_env_roundtrip]
  note inv' = rt_inv_exec [OF inv table_env_roundtrip ex]
  have get: "rt_GetSecurityConfigHost r ''app.example.local'' =
      snapshot_rate_limiting (rs_Snapshot (State r)) ''app.example.local''" for r
    by (simp add: rt_GetSecurityConfigHost_def)
  have old: "rt_GetSecurityConfigHost rt ''app.example.local'' = sp_RateLimiting sample_policy"
    unfolding get snapshot_rate_limiting_view rt_view [OF inv] rt(2) by (simp add: config_view_def)
  have new: "rt_GetSecurityConfigHost rt' ''app.example.local'' = strict_limits"
    unfolding get snapshot_rate_limiting_view rt_view [OF inv'] rt(4)
    by (simp add: config_view_def sample_limited_def)
  have "rt_GetSecurityConfigHost rt' ''app.example.local'' \<noteq> rt_GetSecurityConfigHost rt ''app.example.local''"
    unfolding old new using nt by metis
  from rate_limit_changes_announced [OF rt(1) table_env_roundtrip ex _ rt(3) _ this] new
  have "Ev_RateLimitUpdate ''app.example.local'' strict_limits \<in> set evs" by simp
  with ex show ?thesis by blast
qed

text \<open>The exception. \<open>UpdateVirtualHost\<close> can move a virtual host to another security policy,
  and so change the rate limiting in effect for its domain, without announcing it: the limiter of the
  domain keeps its old settings.\<close>

theorem update_virtual_host_unannounced:
  "\<exists>fs rt rt' fs' evs d v.
     rt_reach (table_env sample_table) sample_path rt fs \<and> rt_onRateLimitUpdate rt \<and>
     rt_exec (table_env sample_table) io_ok (RT_UpdateVirtualHost d v) rt fs = (None, rt', fs', evs) \<and>
     rt_GetSecurityConfigHost rt' d \<noteq> rt_GetSecurityConfigHost rt d \<and> evs = []"
proof -
  let ?d = "''app.example.local''" and ?v = "sample_vhost\<lparr>vh_SecurityPolicyID := ''strict''\<rparr>"
  have m: "update_virtual_host ?d ?v sample_two = Inr sample_two_strict"
    by (simp add: update_virtual_host_def replace_virtual_host_def sample_two_strict_def sample_two_def)
  from m obtain fs rt rt' fs' evs where rt: "rt_reach (table_env sample_table) sample_path rt fs"
    "svc_current (rt_Config rt) = sample_two" "rt_onRateLimitUpdate rt"
    "svc_current (rt_Config rt') = sample_two_strict"
    and ex: "rt_exec (table_env sample_table) io_ok (RT_UpdateVirtualHost ?d ?v) rt fs = (None, rt', fs', evs)"
    using table_rt_exec [of sample_two sample_two_strict "RT_UpdateVirtualHost ?d ?v" "update_virtual_host ?d ?v"]
    by (auto simp: svc_UpdateVirtualHost_def)
  note inv = rt_reach_inv [OF rt(1) table_env_roundtrip]
  note inv' = rt_inv_exec [OF inv table_env_roundtrip ex]
  have get: "rt_GetSecurityConfigHost r ?d = snapshot_rate_limiting (rs_Snapshot (State r)) ?d" for r
    by (simp add: rt_GetSecurityConfigHost_def)
  have old: "rt_GetSecurityConfigHost rt ?d = sp_RateLimiting sample_policy"
    unfolding get snapshot_rate_limiting_view rt_view [OF inv] rt(2)
    by (simp add: config_view_def sample_two_def)
  have new: "rt_GetSecurityConfigHost rt' ?d = strict_limits"
    unfolding get snapshot_rate_limiting_view rt_view [OF inv'] rt(4)
    by (simp add: config_view_def sample_two_strict_def sample_two_def)
  have "\<not> rl_Enabled (sp_RateLimiting sample_policy)" "rl_Enabled strict_limits"
    by (simp_all add: strict_limits_def)
  then have "rt_GetSecurityConfigHost rt' ?d \<noteq> rt_GetSecurityConfigHost rt ?d"
    unfolding old new by metis
  moreover have "evs = []"
    using ex by (auto simp: rt_UpdateVirtualHost_def plain_update_def split: prod.splits)
  ultimately show ?thesis using ex rt(1,3) by blast
qed

section \<open>Metrics of moved backends\<close>

text \<open>Metrics leak when a backend moves. After a successful \<open>UpdateBackend\<close> with a new URL the
  old URL, which no backend has any more, still has its metrics.\<close>

theorem moved_backend_metrics_leak:
  assumes "rt_reach E path rt fs" and "json_roundtrip E"
    and ex: "rt_exec E io (RT_UpdateBackend i url weight enabled) rt fs = (None, rt', fs', evs)"
    and old: "rt_GetBackend rt i = Some old" and "url \<noteq> ''''" and "url \<noteq> bc_URL old"
  shows "bc_URL old \<notin> bc_URL ` set (backend_list (svc_current (rt_Config rt'))) \<and>
         bmm_Get (bc_URL old) (mt_Backends (rt_Metrics rt')) =
         bmm_Get (bc_URL old) (mt_Backends (rt_Metrics rt)) \<and>
         bmm_Get (bc_URL old) (mt_Backends (rt_Metrics rt')) \<noteq> None"
proof -
  note inv = rt_reach_inv [OF assms(1,2)]
  note inv' = rt_inv_exec [OF inv assms(2) ex]
  note si = ri_svc [OF inv] and si' = ri_svc [OF inv']
  from ex obtain svc where
    sx: "svc_exec E io (svc_of (RT_UpdateBackend i url weight enabled)) (rt_Config rt) fs = (None, svc, fs')"
    and rt': "rt_Metrics rt' = rt_Metrics (publish (rt\<lparr>rt_Config := svc\<rparr>))" "rt_Config rt' = svc"
    by (cases rule: rt_exec_cases) (auto simp: Let_def publish_simps(1))
  let ?k = "keyed bc_Id (backend_list (svc_current (rt_Config rt)))"
  let ?k' = "keyed bc_Id (backend_list (svc_current svc))"
  let ?new = "\<lparr>bc_Id = bc_Id old, bc_URL = url, bc_Weight = weight, bc_Enabled = enabled\<rparr>"
  have ko: "?k i = Some old"
    using old by (simp add: rt_GetBackend_def svc_GetBackend_view config_view_def)
  then have mem: "old \<in> set (backend_list (svc_current (rt_Config rt)))" "bc_Id old = i"
    by (auto dest: keyed_Some)
  from arg_cong [OF svc_exec_view [OF si assms(2) sx], of rv_backends]
  have k': "?k' = ?k(i \<mapsto> ?new)" using assms(5) ko by (simp add: config_view_def)
  have uniq: "b = old" if "b \<in> set (backend_list (svc_current (rt_Config rt)))" "bc_URL b = bc_URL old" for b
    using that mem(1) vc_urls [OF inv_valid [OF si]] unfolding distinct_map inj_on_def by blast
  have "bc_URL old \<notin> bc_URL ` set (backend_list (svc_current svc))"
  proof
    assume "bc_URL old \<in> bc_URL ` set (backend_list (svc_current svc))"
    then obtain b where b: "b \<in> set (backend_list (svc_current svc))" "bc_URL b = bc_URL old" by auto
    have "?k' (bc_Id b) = Some b"
      using b(1) keyed_iff [OF vc_ids [OF inv_valid [OF si']]] by (simp add: rt')
    with k' assms(6) b(2) have "?k (bc_Id b) = Some b" "bc_Id b \<noteq> i" by (auto split: if_splits)
    then have "b \<in> set (backend_list (svc_current (rt_Config rt)))" by (blast dest: keyed_Some)
    with uniq b(2) mem(2) \<open>bc_Id b \<noteq> i\<close> show False by blast
  qed
  moreover have "mt_Backends (rt_Metrics rt') (bc_URL old) = mt_Backends (rt_Metrics rt) (bc_URL old) \<and>
      mt_Backends (rt_Metrics rt) (bc_URL old) \<noteq> None"
  proof -
    have "bc_URL old \<in> dom (mt_Backends (rt_Metrics rt))" using ri_urls [OF inv] mem(1) by blast
    then obtain bm where bm: "mt_Backends (rt_Metrics rt) (bc_URL old) = Some bm" by blast
    have here: "i \<in> backend_ids (svc_current svc)"
      using fun_cong [OF k', of i] keyed_None [of bc_Id "backend_list (svc_current svc)" i]
      by (simp add: backend_ids_def)
    have prev: "fc_Backends (sn_Raw (rs_Snapshot (rt_state rt))) = fc_Backends (svc_current (rt_Config rt))"
      using ri_snapshot [OF inv] inv_snapshot [OF si] by simp
    have sn: "svc_snapshot svc = build_snapshot (svc_current svc)"
      using inv_snapshot [OF si'] by (simp add: rt'(2))
    have "bc_URL old \<notin> removed_urls (fc_Backends (svc_current (rt_Config rt))) (svc_snapshot svc)"
    proof
      assume "bc_URL old \<in> removed_urls (fc_Backends (svc_current (rt_Config rt))) (svc_snapshot svc)"
      then obtain b where "b \<in> set (backend_list (svc_current (rt_Config rt)))" "bc_URL b = bc_URL old"
        "bc_Id b \<notin> backend_ids (svc_current svc)"
        by (auto simp: removed_urls_def sn snapshot_backend_None)
      with uniq here mem(2) show False by blast
    qed
    then show ?thesis
      using bm by (simp add: rt'(1) publish_simps(6) prev deregister_spec register_keeps)
  qed
  ultimately show ?thesis by (simp add: rt'(2) bmm_Get_def)
qed

theorem moved_backend_metrics_leak_witness:
  "\<exists>fs rt rt' fs' evs.
     rt_exec (table_env sample_table) io_ok
       (RT_UpdateBackend ''backend-1'' ''http://backend-c:3000'' 1 True) rt fs = (None, rt', fs', evs) \<and>
     svc_current (rt_Config rt') = sample_moved \<and>
     bmm_Get ''http://backend-a:3000'' (mt_Backends (rt_Metrics rt')) \<noteq> None"
proof -
  let ?op = "RT_UpdateBackend ''backend-1'' ''http://backend-c:3000'' 1 True"
  have "update_backend ''backend-1'' ''http://backend-c:3000'' 1 True sample_config = Inr sample_moved"
    by (simp add: update_backend_def is_backend_def edit_backend_def sample_moved_def moved_backend_def
        backend_1_def)
  then obtain fs rt rt' fs' evs where rt: "rt_reach (table_env sample_table) sample_path rt fs"
    "svc_current (rt_Config rt) = sample_config" "svc_current (rt_Config rt') = sample_moved"
    and ex: "rt_exec (table_env sample_table) io_ok ?op rt fs = (None, rt', fs', evs)"
    using table_rt_exec [of sample_config sample_moved ?op
        "update_backend ''backend-1'' ''http://backend-c:3000'' 1 True"]
    by (auto simp: svc_UpdateBackend_def)
  have "rt_GetBackend rt ''backend-1'' = Some backend_1"
    using rt(2) by (simp add: rt_GetBackend_def svc_GetBackend_def)
  note leak = moved_backend_metrics_leak [OF rt(1) table_env_roundtrip ex this]
  have "bmm_Get (bc_URL backend_1) (mt_Backends (rt_Metrics rt')) \<noteq> None"
    by (rule leak [THEN conjunct2, THEN conjunct2]) simp_all
  then have "bmm_Get ''http://backend-a:3000'' (mt_Backends (rt_Metrics rt')) \<noteq> None" by simp
  with ex rt(3) show ?thesis by blast
qed

end
