(* ===== verification/AdminProto.thy ===== *)
theory AdminProto
  imports RuntimeProps
begin

text \<open>
  \<open>internal/admin/grpc/helpers.go\<close>: the messages of the admin protocol that the code fills and
  reads, and the conversions between them and the configuration. A pointer to a message is an
  option; the elements of a repeated field are never nil once they came over the wire. Main facts:
  the round trips, and that no number is truncated on its way to a message.
\<close>

section \<open>Messages\<close>

record pb_backend =
  pb_Id :: string
  pb_Url :: string
  pb_Weight :: int32
  pb_Enabled :: bool

record pb_backend_response =
  pbr_Id :: string
  pbr_Url :: string
  pbr_Weight :: int32
  pbr_Enabled :: bool
  pbr_Active :: bool
  pbr_ErrorCount :: uint32
  pbr_LastError :: string

record pb_path_route =
  ppr_Path :: string
  ppr_BackendIds :: "string list"
  ppr_StripPrefix :: bool
  ppr_Rewrite :: string

record pb_virtual_host =
  pvh_Domain :: string
  pvh_BackendIds :: "string list"
  pvh_PathRoutes :: "pb_path_route list"
  pvh_SecurityPolicyId :: string

record pb_rate_limiting =
  prl_Enabled :: bool
  prl_RatePerIp :: int32
  prl_Burst :: int32
  prl_WindowSec :: int32

record pb_security_policy =
  psp_Id :: string
  psp_RateLimiting :: "pb_rate_limiting option"

record pb_virtual_host_security =
  pvs_Domain :: string
  pvs_SecurityPolicyId :: string
  pvs_Policy :: "pb_security_policy option"

record pb_server_config =
  psc_ProxyPort :: int32
  psc_AdminGrpcPort :: int32

record basic_response =
  brs_Success :: bool
  brs_Message :: string
  brs_Error :: string

section \<open>Conversions\<close>

definition backendToPB :: "backend_response \<Rightarrow> pb_backend_response" where
  "backendToPB b =
     \<lparr>pbr_Id = br_Id b, pbr_Url = br_URL b, pbr_Weight = br_Weight b, pbr_Enabled = br_Enabled b,
      pbr_Active = br_Active b, pbr_ErrorCount = br_ErrorCount b, pbr_LastError = br_LastError b\<rparr>"

definition RateLimitingToPB :: "rate_limiting_config \<Rightarrow> pb_rate_limiting" where
  "RateLimitingToPB r =
     \<lparr>prl_Enabled = rl_Enabled r, prl_RatePerIp = rl_RatePerIP r, prl_Burst = rl_Burst r,
      prl_WindowSec = rl_WindowSec r\<rparr>"

definition RateLimitingFromPB :: "pb_rate_limiting option \<Rightarrow> rate_limiting_config" where
  "RateLimitingFromPB pb =
     (case pb of
        None \<Rightarrow> zero_rate_limiting
      | Some p \<Rightarrow>
          \<lparr>rl_Enabled = prl_Enabled p, rl_RatePerIP = prl_RatePerIp p, rl_Burst = prl_Burst p,
           rl_WindowSec = prl_WindowSec p\<rparr>)"

text \<open>The loops over the path routes. No route has a \<open>Rewrite\<close>: the literal leaves it empty.\<close>

fun routes_to_pb :: "path_route list \<Rightarrow> pb_path_route list \<Rightarrow> pb_path_route list" where
  "routes_to_pb [] out = out"
| "routes_to_pb (r # rs) out =
     routes_to_pb rs (out @ [\<lparr>ppr_Path = pr_Path r, ppr_BackendIds = pr_BackendIDs r,
                              ppr_StripPrefix = pr_StripPrefix r, ppr_Rewrite = ''''\<rparr>])"

definition VhostToPB :: "virtual_host \<Rightarrow> pb_virtual_host" where
  "VhostToPB v =
     \<lparr>pvh_Domain = vh_Domain v, pvh_BackendIds = vh_BackendIDs v,
      pvh_PathRoutes = routes_to_pb (vh_PathRoutes v) [], pvh_SecurityPolicyId = vh_SecurityPolicyID v\<rparr>"

fun routes_from_pb :: "pb_path_route list \<Rightarrow> path_route list \<Rightarrow> path_route list" where
  "routes_from_pb [] out = out"
| "routes_from_pb (r # rs) out =
     routes_from_pb rs (out @ [\<lparr>pr_Path = ppr_Path r, pr_BackendIDs = ppr_BackendIds r,
                                pr_StripPrefix = ppr_StripPrefix r\<rparr>])"

definition zero_virtual_host :: virtual_host where
  "zero_virtual_host = \<lparr>vh_Domain = '''', vh_BackendIDs = [], vh_SecurityPolicyID = '''', vh_PathRoutes = []\<rparr>"

definition VhostFromPB :: "pb_virtual_host option \<Rightarrow> virtual_host" where
  "VhostFromPB pb =
     (case pb of
        None \<Rightarrow> zero_virtual_host
      | Some p \<Rightarrow>
          \<lparr>vh_Domain = pvh_Domain p, vh_BackendIDs = pvh_BackendIds p,
           vh_SecurityPolicyID = pvh_SecurityPolicyId p,
           vh_PathRoutes = routes_from_pb (pvh_PathRoutes p) []\<rparr>)"

definition SecurityPolicyToPB :: "security_policy \<Rightarrow> pb_security_policy" where
  "SecurityPolicyToPB p =
     \<lparr>psp_Id = sp_Id p, psp_RateLimiting = Some (RateLimitingToPB (sp_RateLimiting p))\<rparr>"

definition SecurityPolicyFromPB :: "pb_security_policy option \<Rightarrow> security_policy" where
  "SecurityPolicyFromPB pb =
     (case pb of
        None \<Rightarrow> \<lparr>sp_Id = '''', sp_RateLimiting = zero_rate_limiting\<rparr>
      | Some p \<Rightarrow> \<lparr>sp_Id = psp_Id p, sp_RateLimiting = RateLimitingFromPB (psp_RateLimiting p)\<rparr>)"

fun PoliciesToPB :: "security_policy list \<Rightarrow> pb_security_policy list" where
  "PoliciesToPB [] = []"
| "PoliciesToPB (p # ps) = SecurityPolicyToPB p # PoliciesToPB ps"

definition VirtualHostSecurityToPB :: "virtual_host_security \<Rightarrow> pb_virtual_host_security" where
  "VirtualHostSecurityToPB sec =
     \<lparr>pvs_Domain = vhs_Domain sec, pvs_SecurityPolicyId = vhs_SecurityPolicyID sec,
      pvs_Policy = Some (SecurityPolicyToPB (vhs_Policy sec))\<rparr>"

text \<open>\<open>int32\<close> of an \<open>int\<close> keeps its low 32 bits.\<close>

definition ServerConfigToPB :: "server_config \<Rightarrow> pb_server_config" where
  "ServerConfigToPB cfg =
     \<lparr>psc_ProxyPort = ucast (sc_ProxyPort cfg), psc_AdminGrpcPort = ucast (sc_AdminGrpcPort cfg)\<rparr>"

definition LoadBalancerToPB :: "string \<Rightarrow> string" where
  "LoadBalancerToPB strategy = strategy"

definition fail :: "string \<Rightarrow> basic_response" where
  "fail msg = \<lparr>brs_Success = False, brs_Message = '''', brs_Error = msg\<rparr>"

definition success :: "string \<Rightarrow> basic_response" where
  "success msg = \<lparr>brs_Success = True, brs_Message = msg, brs_Error = ''''\<rparr>"

section \<open>Round trips\<close>

lemma routes_to_pb_eq:
  "routes_to_pb rs out = out @ map (\<lambda>r. \<lparr>ppr_Path = pr_Path r, ppr_BackendIds = pr_BackendIDs r,
                              ppr_StripPrefix = pr_StripPrefix r, ppr_Rewrite = ''''\<rparr>) rs"
  by (induction rs arbitrary: out) simp_all

lemma routes_from_pb_eq:
  "routes_from_pb rs out = out @ map (\<lambda>r. \<lparr>pr_Path = ppr_Path r, pr_BackendIDs = ppr_BackendIds r,
                                pr_StripPrefix = ppr_StripPrefix r\<rparr>) rs"
  by (induction rs arbitrary: out) simp_all

lemma rate_limiting_roundtrip: "RateLimitingFromPB (Some (RateLimitingToPB r)) = r"
  by (simp add: RateLimitingFromPB_def RateLimitingToPB_def)

lemma route_eta [simp]:
  "\<lparr>pr_Path = pr_Path r, pr_BackendIDs = pr_BackendIDs r, pr_StripPrefix = pr_StripPrefix r\<rparr> = r"
  by (cases r) simp

lemma vhost_roundtrip: "VhostFromPB (Some (VhostToPB v)) = v"
  by (simp add: VhostFromPB_def VhostToPB_def routes_to_pb_eq routes_from_pb_eq comp_def)

lemma policy_roundtrip: "SecurityPolicyFromPB (Some (SecurityPolicyToPB p)) = p"
  by (simp add: SecurityPolicyFromPB_def SecurityPolicyToPB_def rate_limiting_roundtrip)

lemma PoliciesToPB_map: "PoliciesToPB ps = map SecurityPolicyToPB ps"
  by (induction ps) simp_all

text \<open>A message for a virtual host survives the round trip if none of its routes asks for a rewrite,
  which the configuration cannot express.\<close>

lemma pb_vhost_roundtrip:
  "VhostToPB (VhostFromPB (Some p)) = p \<longleftrightarrow> (\<forall>r \<in> set (pvh_PathRoutes p). ppr_Rewrite r = '''')"
proof -
  have "VhostToPB (VhostFromPB (Some p)) = p\<lparr>pvh_PathRoutes := map (\<lambda>r. r\<lparr>ppr_Rewrite := ''''\<rparr>) (pvh_PathRoutes p)\<rparr>"
    by (simp add: VhostFromPB_def VhostToPB_def routes_to_pb_eq routes_from_pb_eq comp_def)
  moreover have "map (\<lambda>r. r\<lparr>ppr_Rewrite := ''''\<rparr>) rs = rs \<longleftrightarrow> (\<forall>r \<in> set rs. ppr_Rewrite r = '''')" for rs
  proof (induction rs)
    case (Cons r rs)
    have "r\<lparr>ppr_Rewrite := ''''\<rparr> = r \<longleftrightarrow> ppr_Rewrite r = ''''" by (cases r) auto
    with Cons show ?case by auto
  qed simp
  moreover have "p\<lparr>pvh_PathRoutes := rs\<rparr> = p \<longleftrightarrow> rs = pvh_PathRoutes p" for rs by (cases p) auto
  ultimately show ?thesis by simp
qed

text \<open>C34: what the control plane reports about a virtual host, a policy or a host's security can be sent
  back as it is: the configuration that the server reads from its own message is the one it was made
  from. In the other direction a message for a virtual host loses the \<open>rewrite\<close> of its routes, and
  nothing else.\<close>

theorem messages_roundtrip:
  "VhostFromPB (Some (VhostToPB v)) = v \<and>
   SecurityPolicyFromPB (Some (SecurityPolicyToPB p)) = p \<and>
   SecurityPolicyFromPB (pvs_Policy (VirtualHostSecurityToPB sec)) = vhs_Policy sec \<and>
   VhostToPB (VhostFromPB (Some pv)) =
     pv\<lparr>pvh_PathRoutes := map (\<lambda>r. r\<lparr>ppr_Rewrite := ''''\<rparr>) (pvh_PathRoutes pv)\<rparr>"
  by (simp add: vhost_roundtrip policy_roundtrip VirtualHostSecurityToPB_def)
    (simp add: VhostFromPB_def VhostToPB_def routes_to_pb_eq routes_from_pb_eq comp_def)

section \<open>Widths\<close>

lemma port_cast:
  fixes x :: goint
  assumes "sint x \<in> {1 .. 65535}"
  shows "sint (ucast x :: int32) = sint x"
proof -
  have "uint x = take_bit 64 (sint x)" by transfer (simp add: take_bit_signed_take_bit)
  then have u: "uint x = sint x" using assms by (simp add: take_bit_int_eq_self)
  have "sint (ucast x :: int32) = signed_take_bit 31 (uint x)" by (simp add: signed_ucast_eq)
  then show ?thesis using assms unfolding u by (simp add: signed_take_bit_int_eq_self)
qed

end
