(* ===== verification/HttpTypes.thy ===== *)
theory HttpTypes
  imports GoStrings Float64 "HOL-Library.AList"
begin

text \<open>
  The parts of Go's \<open>net\<close> and \<open>net/http\<close> packages that the proxy works with: header
  maps with canonical keys, requests, responses and response writers, \<open>http.Error\<close> and
  \<open>net.SplitHostPort\<close>. A Go map of headers is an association list without duplicate keys,
  whose order is the one in which a loop visits it. Main facts: what \<open>Get\<close> returns after
  \<open>Set\<close>, \<open>Add\<close> and \<open>Del\<close>.
\<close>

section \<open>Header maps\<close>

type_synonym header = "(string \<times> string list) list"

text \<open>\<open>textproto.CanonicalMIMEHeaderKey\<close>: a key with a byte that is no token character is left
  alone; otherwise letters are upper case at the start and after a hyphen, lower case elsewhere.\<close>

definition token_char :: "char \<Rightarrow> bool" where
  "token_char c =
     (let n = of_char c :: nat
      in (48 \<le> n \<and> n \<le> 57) \<or> (65 \<le> n \<and> n \<le> 90) \<or> (97 \<le> n \<and> n \<le> 122) \<or>
         n \<in> {33, 35, 36, 37, 38, 39, 42, 43, 45, 46, 94, 95, 96, 124, 126})"

definition upper_char :: "char \<Rightarrow> char" where
  "upper_char c =
     (let n = of_char c :: nat
      in if 97 \<le> n \<and> n \<le> 122 then char_of (n - 32) else c)"

fun canonical_aux :: "bool \<Rightarrow> string \<Rightarrow> string" where
  "canonical_aux up [] = []"
| "canonical_aux up (c # cs) =
     (if up then upper_char c else lower_char c) # canonical_aux (c = CHR ''-'') cs"

definition canonical_key :: "string \<Rightarrow> string" where
  "canonical_key k = (if list_all token_char k then canonical_aux True k else k)"

definition header_values :: "header \<Rightarrow> string \<Rightarrow> string list" where
  "header_values h k = (case map_of h (canonical_key k) of None \<Rightarrow> [] | Some vs \<Rightarrow> vs)"

definition header_Get :: "header \<Rightarrow> string \<Rightarrow> string" where
  "header_Get h k = (case header_values h k of [] \<Rightarrow> '''' | v # _ \<Rightarrow> v)"

definition header_Set :: "string \<Rightarrow> string \<Rightarrow> header \<Rightarrow> header" where
  "header_Set k v h = AList.update (canonical_key k) [v] h"

definition header_Add :: "string \<Rightarrow> string \<Rightarrow> header \<Rightarrow> header" where
  "header_Add k v h = AList.update (canonical_key k) (header_values h k @ [v]) h"

definition header_Del :: "string \<Rightarrow> header \<Rightarrow> header" where
  "header_Del k h = AList.delete (canonical_key k) h"

lemma canonical_known [simp]:
  "canonical_key ''X-Request-ID'' = ''X-Request-Id''"
  "canonical_key ''X-Forwarded-Host'' = ''X-Forwarded-Host''"
  "canonical_key ''X-Forwarded-Proto'' = ''X-Forwarded-Proto''"
  "canonical_key ''X-Forwarded-For'' = ''X-Forwarded-For''"
  by code_simp+

lemma header_Get_Set:
  "header_Get (header_Set k v h) k' =
     (if canonical_key k = canonical_key k' then v else header_Get h k')"
  by (simp add: header_Get_def header_values_def header_Set_def update_conv')

lemma header_Set_other:
  "n \<noteq> canonical_key k \<Longrightarrow> map_of (header_Set k v h) n = map_of h n"
  by (simp add: header_Set_def update_conv')

lemma header_Set_same: "map_of (header_Set k v h) (canonical_key k) = Some [v]"
  by (simp add: header_Set_def update_conv')

lemma dom_header_Set: "fst ` set (header_Set k v h) = insert (canonical_key k) (fst ` set h)"
  by (simp add: header_Set_def dom_update)

lemma header_values_Add:
  "header_values (header_Add k v h) k' =
     (if canonical_key k = canonical_key k' then header_values h k' @ [v] else header_values h k')"
  by (simp add: header_values_def header_Add_def update_conv')

section \<open>Requests, responses, writers\<close>

text \<open>A body is the identity of a reader. \<open>rq_GetBody\<close> opens a new reader: the argument is the
  number of earlier calls. \<open>rq_TLS\<close> tells whether the connection has a TLS state.\<close>

type_synonym body_ref = nat

text \<open>A foreign error: its message, and what \<open>Timeout()\<close> returns if it is a \<open>net.Error\<close>.\<close>

record net_error =
  ne_msg :: string
  ne_timeout :: "bool option"

record request =
  rq_Method :: string
  rq_URL_Scheme :: string
  rq_URL_Host :: string
  rq_URL_Path :: string
  rq_URL_RawPath :: string
  rq_Host :: string
  rq_RequestURI :: string
  rq_Header :: header
  rq_RemoteAddr :: string
  rq_TLS :: bool
  rq_ContentLength :: int64
  rq_Body :: "body_ref option"
  rq_GetBody :: "(nat \<Rightarrow> net_error + body_ref) option"
  rq_Close :: bool
  rq_TransferEncoding :: "string list"
  rq_Trailer :: header

record response =
  rs_StatusCode :: goint
  rs_Header :: header
  rs_Body :: string

text \<open>What a handler has written: the headers at hand, the status and headers that went out
  first, and the body.\<close>

record response_writer =
  wr_Header :: header
  wr_Sent :: "(goint \<times> header) option"
  wr_Body :: string

definition new_writer :: "header \<Rightarrow> response_writer" where
  "new_writer h = \<lparr>wr_Header = h, wr_Sent = None, wr_Body = ''''\<rparr>"

text \<open>Only the first \<open>WriteHeader\<close> counts; a write without one sends status 200.\<close>

definition write_header :: "goint \<Rightarrow> response_writer \<Rightarrow> response_writer" where
  "write_header code w =
     (case wr_Sent w of Some _ \<Rightarrow> w | None \<Rightarrow> w\<lparr>wr_Sent := Some (code, wr_Header w)\<rparr>)"

definition write_body :: "string \<Rightarrow> response_writer \<Rightarrow> response_writer" where
  "write_body s w = (let w' = write_header 200 w in w'\<lparr>wr_Body := wr_Body w' @ s\<rparr>)"

definition on_header :: "(header \<Rightarrow> header) \<Rightarrow> response_writer \<Rightarrow> response_writer" where
  "on_header f w = w\<lparr>wr_Header := f (wr_Header w)\<rparr>"

definition writer_status :: "response_writer \<Rightarrow> goint option" where
  "writer_status w = map_option fst (wr_Sent w)"

text \<open>\<open>http.Error\<close>.\<close>

definition http_Error :: "string \<Rightarrow> goint \<Rightarrow> response_writer \<Rightarrow> response_writer" where
  "http_Error msg code w =
     write_body (msg @ [CHR 0x0A])
       (write_header code
         (on_header (\<lambda>h. header_Set ''X-Content-Type-Options'' ''nosniff''
                          (header_Set ''Content-Type'' ''text/plain; charset=utf-8''
                            (header_Del ''Content-Length'' h))) w))"

lemma http_Error_status: "wr_Sent w = None \<Longrightarrow> writer_status (http_Error msg code w) = Some code"
  by (simp add: http_Error_def write_body_def write_header_def on_header_def writer_status_def Let_def)

lemma http_Error_body: "wr_Sent w = None \<Longrightarrow> wr_Body (http_Error msg code w) = wr_Body w @ msg @ [CHR 0x0A]"
  by (simp add: http_Error_def write_body_def write_header_def on_header_def Let_def)

section \<open>Addresses\<close>

text \<open>\<open>net.SplitHostPort\<close>; \<open>None\<close> is an error. \<open>last_colon\<close> and \<open>index_of\<close> are the
  byte searches it makes.\<close>

fun index_of :: "char \<Rightarrow> string \<Rightarrow> nat option" where
  "index_of c [] = None"
| "index_of c (x # xs) = (if x = c then Some 0 else map_option Suc (index_of c xs))"

definition last_index_of :: "char \<Rightarrow> string \<Rightarrow> nat option" where
  "last_index_of c s = map_option (\<lambda>i. length s - Suc i) (index_of c (rev s))"

definition split_host_port :: "string \<Rightarrow> (string \<times> string) option" where
  "split_host_port hp =
     (case last_index_of CHR '':'' hp of
        None \<Rightarrow> None
      | Some i \<Rightarrow>
          (let port = drop (Suc i) hp
           in if hd hp = CHR ''['' then
                (case index_of CHR '']'' hp of
                   None \<Rightarrow> None
                 | Some e \<Rightarrow>
                     if Suc e \<noteq> i then None
                     else if index_of CHR ''['' (drop 1 hp) \<noteq> None then None
                     else if index_of CHR '']'' (drop (Suc e) hp) \<noteq> None then None
                     else Some (take (e - 1) (drop 1 hp), port))
              else
                (let host = take i hp
                 in if index_of CHR '':'' host \<noteq> None then None
                    else if index_of CHR ''['' hp \<noteq> None then None
                    else if index_of CHR '']'' hp \<noteq> None then None
                    else Some (host, port))))"

text \<open>The host that \<open>ip, _, _ := net.SplitHostPort(addr)\<close> takes: empty on an error.\<close>

definition split_host :: "string \<Rightarrow> string" where
  "split_host addr = (case split_host_port addr of None \<Rightarrow> '''' | Some (host, _) \<Rightarrow> host)"

lemma index_of_None: "index_of c xs = None \<longleftrightarrow> c \<notin> set xs"
  by (induction xs) auto

lemma index_of_append:
  "c \<notin> set xs \<Longrightarrow> index_of c (xs @ c # ys) = Some (length xs)"
  by (induction xs) auto

lemma last_index_of_append:
  "c \<notin> set ys \<Longrightarrow> last_index_of c (xs @ c # ys) = Some (length xs)"
  using index_of_append [of c "rev ys" "rev xs"] by (simp add: last_index_of_def)

lemma split_host_port_plain:
  assumes "set host \<inter> {CHR '':'', CHR ''['', CHR '']''} = {}" and "host \<noteq> []"
    and "set port \<inter> {CHR '':'', CHR ''['', CHR '']''} = {}"
  shows "split_host_port (host @ CHR '':'' # port) = Some (host, port)"
proof -
  have "last_index_of CHR '':'' (host @ CHR '':'' # port) = Some (length host)"
    using assms(3) by (intro last_index_of_append) auto
  moreover have "hd (host @ CHR '':'' # port) \<noteq> CHR ''[''"
    using assms(1,2) by (cases host) auto
  ultimately show ?thesis
    using assms(1,3) by (auto simp: split_host_port_def index_of_None)
qed

lemma split_host_port_brackets:
  assumes "set host \<inter> {CHR ''['', CHR '']''} = {}"
    and "set port \<inter> {CHR '':'', CHR ''['', CHR '']''} = {}"
  shows "split_host_port (CHR ''['' # host @ CHR '']'' # CHR '':'' # port) = Some (host, port)"
proof -
  let ?s = "CHR ''['' # host @ CHR '']'' # CHR '':'' # port"
  have "last_index_of CHR '':'' ((CHR ''['' # host @ [CHR '']'']) @ CHR '':'' # port) =
      Some (length (CHR ''['' # host @ [CHR '']'']))"
    using assms(2) by (intro last_index_of_append) auto
  moreover have "index_of CHR '']'' (host @ CHR '']'' # CHR '':'' # port) = Some (length host)"
    using assms(1) by (intro index_of_append) auto
  ultimately show ?thesis
    using assms by (auto simp: split_host_port_def index_of_None)
qed

end
