(* ===== verification/NetIP.thy ===== *)
theory NetIP
  imports HttpTypes
begin

text \<open>
  IP addresses as Go's \<open>net\<close> and \<open>net/netip\<close> packages read, print and compare them:
  \<open>net.ParseIP\<close>, \<open>net.IP.String\<close>, \<open>net.ParseCIDR\<close> and \<open>net.IPNet.Contains\<close>,
  from their published behaviour. An address is its sequence of bytes, 16 of them as
  \<open>ParseIP\<close> returns it (IPv4 addresses mapped into IPv6). Main facts: printing an address and
  parsing the text gives the address back, for both families and with the longest run of zeros
  of an IPv6 address compressed, so that the text identifies the address.
\<close>

unbundle bit_operations_syntax

type_synonym byte = "8 word"
type_synonym ip = "byte list"

section \<open>Parsing\<close>

definition digit_of :: "char \<Rightarrow> nat option" where
  "digit_of c = (let n = of_char c :: nat in if 48 \<le> n \<and> n \<le> 57 then Some (n - 48) else None)"

definition hex_of :: "char \<Rightarrow> nat option" where
  "hex_of c =
     (let n = of_char c :: nat
      in if 48 \<le> n \<and> n \<le> 57 then Some (n - 48)
         else if 97 \<le> n \<and> n \<le> 102 then Some (n - 87)
         else if 65 \<le> n \<and> n \<le> 70 then Some (n - 55)
         else None)"

text \<open>Dotted fields: the fields so far, the value and the number of digits of the one at hand. No
  digits means that the text starts here or that the last byte was a dot.\<close>

fun v4_fields :: "byte list \<Rightarrow> nat \<Rightarrow> nat \<Rightarrow> string \<Rightarrow> byte list option" where
  "v4_fields fs v n [] = (if length fs < 3 then None else Some (fs @ [of_nat v]))"
| "v4_fields fs v n (c # cs) =
     (case digit_of c of
        Some d \<Rightarrow>
          if n = 1 \<and> v = 0 then None
          else if v * 10 + d > 255 then None
          else v4_fields fs (v * 10 + d) (Suc n) cs
      | None \<Rightarrow>
          if c \<noteq> CHR ''.'' then None
          else if n = 0 \<or> cs = [] then None
          else if length fs = 3 then None
          else v4_fields (fs @ [of_nat v]) 0 0 cs)"

text \<open>One group of hexadecimal digits: how many there are, their value and the rest; \<open>None\<close> if
  there are more than four.\<close>

fun scan_hex :: "nat \<Rightarrow> nat \<Rightarrow> string \<Rightarrow> (nat \<times> nat \<times> string) option" where
  "scan_hex off acc [] = Some (off, acc, [])"
| "scan_hex off acc (c # cs) =
     (case hex_of c of
        None \<Rightarrow> Some (off, acc, c # cs)
      | Some d \<Rightarrow>
          if off > 3 then None
          else if acc * 16 + d > 65535 then None
          else scan_hex (Suc off) (acc * 16 + d) cs)"

definition u16_bytes :: "nat \<Rightarrow> byte list" where
  "u16_bytes n = [of_nat (n div 256), of_nat (n mod 256)]"

text \<open>The loop over the groups: the bytes so far, where the \<open>::\<close> was and what is left.\<close>

function v6_loop ::
  "byte list \<Rightarrow> nat option \<Rightarrow> string \<Rightarrow> (byte list \<times> nat option \<times> string) option" where
  "v6_loop ip ell s =
     (if 16 \<le> length ip then Some (ip, ell, s)
      else
        case scan_hex 0 0 s of
          None \<Rightarrow> None
        | Some (off, acc, rest) \<Rightarrow>
            if off = 0 then None
            else if rest \<noteq> [] \<and> hd rest = CHR ''.'' then
              (if ell = None \<and> length ip \<noteq> 12 then None
               else if length ip + 4 > 16 then None
               else (case v4_fields [] 0 0 s of
                       None \<Rightarrow> None
                     | Some b \<Rightarrow> Some (ip @ b, ell, [])))
            else
              (let ip' = ip @ u16_bytes acc
               in case rest of
                    [] \<Rightarrow> Some (ip', ell, [])
                  | c # r \<Rightarrow>
                      if c \<noteq> CHR '':'' then None
                      else if r = [] then None
                      else if hd r = CHR '':'' then
                        (if ell \<noteq> None then None
                         else if tl r = [] then Some (ip', Some (length ip'), [])
                         else v6_loop ip' (Some (length ip')) (tl r))
                      else v6_loop ip' ell r))"
  by pat_completeness auto
termination
  by (relation "measure (\<lambda>(ip, _, _). 16 - length ip)") (auto simp: u16_bytes_def)

declare v6_loop.simps [simp del]

text \<open>All of the text must have been used, and a \<open>::\<close> stands for at least one group.\<close>

fun v6_finish :: "byte list \<times> nat option \<times> string \<Rightarrow> byte list option" where
  "v6_finish (ip, ell, s) =
     (if s \<noteq> [] then None
      else if length ip < 16 then
        (case ell of
           None \<Rightarrow> None
         | Some e \<Rightarrow> Some (take e ip @ replicate (16 - length ip) 0 @ drop e ip))
      else if ell \<noteq> None then None
      else Some ip)"

datatype netip_addr =
    Addr4 "byte list"
  | Addr6 "byte list" string

definition parse_v6 :: "string \<Rightarrow> netip_addr option" where
  "parse_v6 s =
     (let (t, zone) =
        (case index_of CHR ''%'' s of
           None \<Rightarrow> (s, None)
         | Some i \<Rightarrow> (take i s, Some (drop (Suc i) s)))
      in if zone = Some '''' then None
         else
           (let z = (case zone of None \<Rightarrow> '''' | Some z \<Rightarrow> z)
            in if has_prefix t ''::'' then
                 (if drop 2 t = [] then Some (Addr6 (replicate 16 0) z)
                  else
                    case Option.bind (v6_loop [] (Some 0) (drop 2 t)) v6_finish of
                      None \<Rightarrow> None
                    | Some ip \<Rightarrow> Some (Addr6 ip z))
               else
                 case Option.bind (v6_loop [] None t) v6_finish of
                   None \<Rightarrow> None
                 | Some ip \<Rightarrow> Some (Addr6 ip z)))"

text \<open>\<open>netip.ParseAddr\<close>: the first dot, colon or percent sign decides.\<close>

definition parse_addr :: "string \<Rightarrow> netip_addr option" where
  "parse_addr s =
     (case dropWhile (\<lambda>c. c \<noteq> CHR ''.'' \<and> c \<noteq> CHR '':'' \<and> c \<noteq> CHR ''%'') s of
        [] \<Rightarrow> None
      | c # _ \<Rightarrow>
          if c = CHR ''.'' then map_option Addr4 (v4_fields [] 0 0 s)
          else if c = CHR '':'' then parse_v6 s
          else None)"

definition v4_prefix :: "byte list" where
  "v4_prefix = replicate 10 0 @ [0xFF, 0xFF]"

fun as16 :: "netip_addr \<Rightarrow> ip" where
  "as16 (Addr4 b) = v4_prefix @ b"
| "as16 (Addr6 b z) = b"

fun addr_zone :: "netip_addr \<Rightarrow> string" where
  "addr_zone (Addr4 b) = ''''"
| "addr_zone (Addr6 b z) = z"

fun bit_length :: "netip_addr \<Rightarrow> nat" where
  "bit_length (Addr4 b) = 32"
| "bit_length (Addr6 b z) = 128"

text \<open>\<open>net.ParseIP\<close>; \<open>None\<close> is a nil address.\<close>

definition parse_ip :: "string \<Rightarrow> ip option" where
  "parse_ip s =
     (case parse_addr s of
        None \<Rightarrow> None
      | Some a \<Rightarrow> if addr_zone a \<noteq> '''' then None else Some (as16 a))"

section \<open>Printing\<close>

definition to4 :: "ip \<Rightarrow> ip option" where
  "to4 ip =
     (if length ip = 4 then Some ip
      else if length ip = 16 \<and> take 12 ip = v4_prefix then Some (drop 12 ip)
      else None)"

definition hex_digit :: "nat \<Rightarrow> char" where
  "hex_digit d = char_of (if d < 10 then 48 + d else 87 + d)"

fun show_hex :: "nat \<Rightarrow> string" where
  "show_hex n = (if n < 16 then [hex_digit n] else show_hex (n div 16) @ [hex_digit (n mod 16)])"

declare show_hex.simps [simp del]

fun join :: "string \<Rightarrow> string list \<Rightarrow> string" where
  "join sep [] = []"
| "join sep [x] = x"
| "join sep (x # y # ys) = x @ sep @ join sep (y # ys)"

fun groups :: "byte list \<Rightarrow> nat list" where
  "groups (a # b # bs) = (unat a * 256 + unat b) # groups bs"
| "groups _ = []"

text \<open>Where the first of the longest runs of at least two zero groups starts and ends; the source
  starts with 255 as a mark for none.\<close>

fun zero_step :: "nat list \<Rightarrow> nat \<Rightarrow> nat \<times> nat \<Rightarrow> nat \<times> nat" where
  "zero_step gs i (zs, ze) =
     (let l = length (takeWhile (\<lambda>g. g = 0) (drop i gs))
      in if 2 \<le> l \<and> ze - zs < l then (i, i + l) else (zs, ze))"

definition longest_zeros :: "nat list \<Rightarrow> nat \<times> nat" where
  "longest_zeros gs = fold (zero_step gs) [0..<length gs] (255, 255)"

definition v6_string :: "nat list \<Rightarrow> string" where
  "v6_string gs =
     (let (zs, ze) = longest_zeros gs
      in if zs = 255 then join '':'' (map show_hex gs)
         else join '':'' (map show_hex (take zs gs)) @ ''::'' @
              join '':'' (map show_hex (drop ze gs)))"

text \<open>\<open>net.IP.String\<close> of an address of 4 or 16 bytes.\<close>

definition ip_string :: "ip \<Rightarrow> string" where
  "ip_string ip =
     (case to4 ip of
        Some b \<Rightarrow> join ''.'' (map (\<lambda>x. show_nat (unat x)) b)
      | None \<Rightarrow> v6_string (groups ip))"

section \<open>Networks\<close>

record ip_net =
  in_IP :: ip
  in_Mask :: "byte list"

text \<open>\<open>net.CIDRMask\<close> for a number of bytes.\<close>

fun cidr_mask :: "nat \<Rightarrow> nat \<Rightarrow> byte list" where
  "cidr_mask n 0 = []"
| "cidr_mask n (Suc k) =
     (if 8 \<le> n then 0xFF # cidr_mask (n - 8) k
      else (NOT (drop_bit n (0xFF :: byte))) # cidr_mask 0 k)"

definition and_bytes :: "byte list \<Rightarrow> byte list \<Rightarrow> byte list" where
  "and_bytes xs ys = map2 (\<lambda>x y. x AND y) xs ys"

text \<open>\<open>dtoi\<close>: the value of the leading digits and the rest.\<close>

fun dtoi_aux :: "nat \<Rightarrow> string \<Rightarrow> (nat \<times> string) option" where
  "dtoi_aux n [] = Some (n, [])"
| "dtoi_aux n (c # cs) =
     (case digit_of c of
        None \<Rightarrow> Some (n, c # cs)
      | Some d \<Rightarrow> if n * 10 + d \<ge> 0xFFFFFF then None else dtoi_aux (n * 10 + d) cs)"

definition dtoi :: "string \<Rightarrow> (nat \<times> string) option" where
  "dtoi s = (if s = [] \<or> digit_of (hd s) = None then None else dtoi_aux 0 s)"

text \<open>\<open>net.ParseCIDR\<close>, of which the source uses the network only. The mask of an IPv4 network has
  four bytes, and so has its address.\<close>

definition parse_cidr :: "string \<Rightarrow> ip_net option" where
  "parse_cidr s =
     (case index_of CHR ''/'' s of
        None \<Rightarrow> None
      | Some i \<Rightarrow>
          (case parse_addr (take i s) of
             None \<Rightarrow> None
           | Some a \<Rightarrow>
               if addr_zone a \<noteq> '''' then None
               else
                 case dtoi (drop (Suc i) s) of
                   None \<Rightarrow> None
                 | Some (n, rest) \<Rightarrow>
                     if rest \<noteq> [] \<or> n > bit_length a then None
                     else
                       (let m = cidr_mask n (bit_length a div 8);
                            b = (case a of Addr4 b \<Rightarrow> b | Addr6 b z \<Rightarrow> b)
                        in Some \<lparr>in_IP = and_bytes b m, in_Mask = m\<rparr>)))"

text \<open>\<open>IPNet.Contains\<close>.\<close>

definition network_number :: "ip_net \<Rightarrow> (ip \<times> byte list) option" where
  "network_number n =
     (let ip = (case to4 (in_IP n) of Some b \<Rightarrow> b | None \<Rightarrow> in_IP n)
      in if to4 (in_IP n) = None \<and> length ip \<noteq> 16 then None
         else if length (in_Mask n) = 4 then
           (if length ip \<noteq> 4 then None else Some (ip, in_Mask n))
         else if length (in_Mask n) = 16 then
           Some (ip, if length ip = 4 then drop 12 (in_Mask n) else in_Mask n)
         else None)"

definition net_contains :: "ip_net \<Rightarrow> ip \<Rightarrow> bool" where
  "net_contains n ip =
     (let x = (case to4 ip of Some b \<Rightarrow> b | None \<Rightarrow> ip)
      in case network_number n of
           None \<Rightarrow> x = []
         | Some (nn, m) \<Rightarrow> length x = length nn \<and> and_bytes nn m = and_bytes x m)"

section \<open>Printing and parsing\<close>

lemma of_char_of_small: "n < 256 \<Longrightarrow> (of_char (char_of n :: char) :: nat) = n"
  by simp

lemma digit_of_digit [simp]: "d < 10 \<Longrightarrow> digit_of (digit d) = Some d"
  by (simp add: digit_of_def digit_def)

lemma hex_of_hex_digit [simp]: "d < 16 \<Longrightarrow> hex_of (hex_digit d) = Some d"
  by (auto simp: hex_of_def hex_digit_def)

lemma show_nat_byte:
  assumes "n < 256"
  shows "v4_fields fs 0 0 (show_nat n @ rest) = v4_fields fs n (length (show_nat n)) rest"
proof -
  consider "n < 10" | "10 \<le> n" "n < 100" | "100 \<le> n" by linarith
  then show ?thesis
  proof cases
    case 1
    then show ?thesis by (simp add: show_nat.simps [of n])
  next
    case 2
    then have "n div 10 < 10" "n div 10 \<noteq> 0" by auto
    with 2 show ?thesis
      by (simp add: show_nat.simps [of n] show_nat.simps [of "n div 10"])
  next
    case 3
    then have "n div 10 div 10 < 10" "n div 10 div 10 \<noteq> 0" "\<not> n div 10 < 10" "\<not> n < 10"
      using assms by auto
    moreover have "(n div 10 div 10 * 10 + n div 10 mod 10) * 10 + n mod 10 = n" by simp
    moreover have "n div 10 div 10 * 10 + n div 10 mod 10 = n div 10" by simp
    ultimately show ?thesis using assms
      by (simp add: show_nat.simps [of n] show_nat.simps [of "n div 10"]
          show_nat.simps [of "n div 10 div 10"] del: div_mult_mod_eq) linarith
  qed
qed

lemma show_nat_not_Nil [simp]: "show_nat n \<noteq> []"
  by (subst show_nat.simps) simp

lemma digit_of_dot [simp]: "digit_of CHR ''.'' = None"
  by (simp add: digit_of_def)

lemma unat_byte_bound: "unat (b :: byte) < 256"
  using unsigned_less [of b] by simp

lemma v4_fields_dot:
  "length fs < 3 \<Longrightarrow> s \<noteq> [] \<Longrightarrow>
   v4_fields fs 0 0 (show_nat (unat b) @ CHR ''.'' # s) = v4_fields (fs @ [b]) 0 0 s"
  by (simp add: show_nat_byte [OF unat_byte_bound])

lemma v4_fields_last:
  "length fs = 3 \<Longrightarrow> v4_fields fs 0 0 (show_nat (unat b)) = Some (fs @ [b])"
  using show_nat_byte [OF unat_byte_bound [of b], of fs "[]"] by simp

lemma v4_fields_print:
  assumes "length b = 4"
  shows "v4_fields [] 0 0 (join ''.'' (map (\<lambda>x. show_nat (unat x)) b)) = Some b"
proof -
  from assms obtain w x y z where "b = [w, x, y, z]"
    by (auto simp: numeral_eq_Suc length_Suc_conv)
  then show ?thesis by (simp add: v4_fields_dot v4_fields_last)
qed

lemma show_hex_not_Nil [simp]: "show_hex n \<noteq> []"
  by (subst show_hex.simps) simp

lemma scan_hex_show:
  assumes "n < 65536" and "rest = [] \<or> hex_of (hd rest) = None"
  shows "scan_hex 0 0 (show_hex n @ rest) = Some (length (show_hex n), n, rest)"
proof -
  have stop: "scan_hex off acc rest = Some (off, acc, rest)" for off acc
    using assms(2) by (cases rest) auto
  consider "n < 16" | "16 \<le> n" "n < 256" | "256 \<le> n" "n < 4096" | "4096 \<le> n" by linarith
  then show ?thesis
  proof cases
    case 1
    then show ?thesis by (simp add: show_hex.simps [of n] stop)
  next
    case 2
    then have "n div 16 < 16" by auto
    with 2 show ?thesis
      by (simp add: show_hex.simps [of n] show_hex.simps [of "n div 16"] stop)
  next
    case 3
    then have *: "n div 16 div 16 < 16" "\<not> n div 16 < 16" "\<not> n < 16" by auto
    have "n div 16 div 16 * 16 + n div 16 mod 16 = n div 16" by simp
    with 3 * show ?thesis
      by (simp add: show_hex.simps [of n] show_hex.simps [of "n div 16"]
          show_hex.simps [of "n div 16 div 16"] stop)
  next
    case 4
    then have *: "n div 16 div 16 div 16 < 16" "\<not> n div 16 div 16 < 16" "\<not> n div 16 < 16" "\<not> n < 16"
      using assms(1) by auto
    have "n div 16 div 16 div 16 * 16 + n div 16 div 16 mod 16 = n div 16 div 16"
      "n div 16 div 16 * 16 + n div 16 mod 16 = n div 16" by simp_all
    with 4 * assms(1) show ?thesis
      by (simp add: show_hex.simps [of n] show_hex.simps [of "n div 16"]
          show_hex.simps [of "n div 16 div 16"] show_hex.simps [of "n div 16 div 16 div 16"] stop)
        linarith
  qed
qed

lemma set_hex_digit: "d < 16 \<Longrightarrow> hex_digit d \<noteq> CHR '':'' \<and> hex_digit d \<noteq> CHR ''.'' \<and> hex_digit d \<noteq> CHR ''%''"
  using hex_of_hex_digit [of d] by (auto simp: hex_of_def Let_def split: if_splits)

lemma set_show_hex: "CHR '':'' \<notin> set (show_hex n) \<and> CHR ''.'' \<notin> set (show_hex n) \<and> CHR ''%'' \<notin> set (show_hex n)"
proof (induction n rule: show_hex.induct)
  case (1 n)
  then show ?case
    using set_hex_digit [of "n mod 16"] set_hex_digit [of n]
    by (subst (1 2 3) show_hex.simps) auto
qed

lemma set_join: "set (join sep xs) \<subseteq> set sep \<union> \<Union> (set ` set xs)"
  by (induction sep xs rule: join.induct) auto

text \<open>Groups and bytes.\<close>

abbreviation ungroup :: "nat list \<Rightarrow> byte list" where
  "ungroup gs \<equiv> concat (map u16_bytes gs)"

lemma u16_bytes_group [simp]: "u16_bytes (unat a * 256 + unat b) = [a, b]" for a b :: byte
  using unat_byte_bound [of b] by (simp add: u16_bytes_def)

lemma length_u16 [simp]: "length (u16_bytes g) = 2"
  by (simp add: u16_bytes_def)

lemma length_ungroup [simp]: "length (ungroup gs) = 2 * length gs"
  by (induction gs) auto

lemma ungroup_groups: "even (length ip) \<Longrightarrow> ungroup (groups ip) = ip"
  by (induction ip rule: groups.induct) auto

lemma length_groups: "length (groups ip) = length ip div 2"
  by (induction ip rule: groups.induct) auto

lemma groups_bound: "g \<in> set (groups ip) \<Longrightarrow> g < 65536"
proof (induction ip rule: groups.induct)
  case (1 a b bs)
  then show ?case using unat_byte_bound [of a] unat_byte_bound [of b] by auto
qed auto

lemma ungroup_zeros: "(\<forall>g \<in> set gs. g = 0) \<Longrightarrow> ungroup gs = replicate (2 * length gs) 0"
  by (induction gs) (auto simp: u16_bytes_def)

lemma hd_join: "xs \<noteq> [] \<Longrightarrow> hd xs \<noteq> [] \<Longrightarrow> hd (join sep xs) = hd (hd xs)"
  by (induction sep xs rule: join.induct) auto

lemma join_not_Nil: "xs \<noteq> [] \<Longrightarrow> hd xs \<noteq> [] \<Longrightarrow> join sep xs \<noteq> []"
  by (induction sep xs rule: join.induct) auto

lemma hd_show_hex: "hd (show_hex n) \<noteq> CHR '':''"
  using set_show_hex [of n] by (cases "show_hex n") auto

lemma hd_groups:
  "gs \<noteq> [] \<Longrightarrow> hd (join '':'' (map show_hex gs) @ r) \<noteq> CHR '':'' \<and>
   join '':'' (map show_hex gs) @ r \<noteq> []"
  using hd_show_hex [of "hd gs"] hd_join [of "map show_hex gs" "'':''"]
    join_not_Nil [of "map show_hex gs" "'':''"]
  by (simp add: list.map_sel hd_append)

lemma hex_of_colon [simp]: "hex_of CHR '':'' = None"
  by (simp add: hex_of_def)

text \<open>The loop on one group, followed by nothing or by a colon.\<close>

lemma v6_loop_last:
  "g < 65536 \<Longrightarrow> length ip < 16 \<Longrightarrow>
   v6_loop ip ell (show_hex g) = Some (ip @ u16_bytes g, ell, [])"
  using scan_hex_show [of g "[]"] by (subst v6_loop.simps) (simp add: Let_def)

lemma v6_loop_colon:
  assumes "g < 65536" and "length ip < 16" and "r \<noteq> []" and "hd r \<noteq> CHR '':''"
  shows "v6_loop ip ell (show_hex g @ CHR '':'' # r) = v6_loop (ip @ u16_bytes g) ell r"
  using assms scan_hex_show [of g "CHR '':'' # r"]
  by (subst v6_loop.simps) (simp add: Let_def)

lemma v6_loop_ellipsis:
  assumes "g < 65536" and "length ip < 16"
  shows "v6_loop ip None (show_hex g @ ''::'' @ r) =
     (if r = [] then Some (ip @ u16_bytes g, Some (length ip + 2), [])
      else v6_loop (ip @ u16_bytes g) (Some (length ip + 2)) r)"
  using assms scan_hex_show [of g "''::'' @ r"]
  by (subst v6_loop.simps) (simp add: Let_def)

text \<open>The loop on several groups.\<close>

lemma v6_loop_groups:
  "gs \<noteq> [] \<Longrightarrow> \<forall>g \<in> set gs. g < 65536 \<Longrightarrow> length ip + 2 * length gs \<le> 16 \<Longrightarrow>
   v6_loop ip ell (join '':'' (map show_hex gs)) = Some (ip @ ungroup gs, ell, [])"
proof (induction gs arbitrary: ip rule: induct_list012)
  case (2 g)
  then show ?case by (simp add: v6_loop_last)
next
  case (3 g h gs)
  then show ?case
    using hd_groups [of "h # gs" "[]"] by (simp add: v6_loop_colon)
qed simp

lemma v6_loop_groups_ellipsis:
  "gs \<noteq> [] \<Longrightarrow> \<forall>g \<in> set gs. g < 65536 \<Longrightarrow> length ip + 2 * length gs \<le> 16 \<Longrightarrow>
   v6_loop ip None (join '':'' (map show_hex gs) @ ''::'' @ r) =
     (if r = [] then Some (ip @ ungroup gs, Some (length ip + 2 * length gs), [])
      else v6_loop (ip @ ungroup gs) (Some (length ip + 2 * length gs)) r)"
proof (induction gs arbitrary: ip rule: induct_list012)
  case (2 g)
  then show ?case using v6_loop_ellipsis [of g ip r] by simp
next
  case (3 g h gs)
  have "v6_loop ip None (show_hex g @ CHR '':'' # (join '':'' (map show_hex (h # gs)) @ ''::'' @ r)) =
      v6_loop (ip @ u16_bytes g) None (join '':'' (map show_hex (h # gs)) @ ''::'' @ r)"
    using 3 hd_groups [of "h # gs" "''::'' @ r"] by (intro v6_loop_colon) auto
  with 3 show ?case by simp
qed simp

text \<open>The run of zeros.\<close>

definition zero_run :: "nat list \<Rightarrow> nat \<times> nat \<Rightarrow> bool" where
  "zero_run gs r \<longleftrightarrow>
     r = (255, 255) \<or>
     (fst r + 2 \<le> snd r \<and> snd r \<le> length gs \<and>
      (\<forall>g \<in> set (take (snd r - fst r) (drop (fst r) gs)). g = 0))"

lemma zero_run_step:
  assumes "zero_run gs r"
  shows "zero_run gs (zero_step gs i r)"
proof -
  obtain l where l: "length (takeWhile (\<lambda>g. g = 0) (drop i gs)) = l" by blast
  have "l \<le> length gs - i"
    using length_takeWhile_le [of "\<lambda>g. g = 0" "drop i gs"] l by simp
  moreover have "takeWhile (\<lambda>g. g = 0) (drop i gs) = take l (drop i gs)"
    using takeWhile_eq_take [of "\<lambda>g. g = 0" "drop i gs"] l by simp
  then have "\<forall>g \<in> set (take l (drop i gs)). g = 0"
    by (metis set_takeWhileD)
  ultimately have "2 \<le> l \<Longrightarrow> zero_run gs (i, i + l)"
    by (simp add: zero_run_def) linarith
  then show ?thesis
    using assms l by (cases r) simp
qed

lemma longest_zeros_run: "zero_run gs (longest_zeros gs)"
proof -
  have "zero_run gs r \<Longrightarrow> zero_run gs (fold (zero_step gs) is r)" for "is" r
    by (induction "is" arbitrary: r) (simp_all add: zero_run_step)
  then show ?thesis by (simp add: longest_zeros_def zero_run_def)
qed

lemma not_ellipsis: "s \<noteq> [] \<Longrightarrow> hd s \<noteq> CHR '':'' \<Longrightarrow> \<not> has_prefix s ''::''"
  by (cases s) (auto simp: has_prefix_def)

lemma parse_v6_print:
  assumes "length gs = 8" and b: "\<forall>g \<in> set gs. g < 65536"
  shows "parse_v6 (v6_string gs) = Some (Addr6 (ungroup gs) '''')"
proof -
  have noz: "index_of CHR ''%'' (v6_string gs) = None"
    using set_join [of "'':''"] set_show_hex
    by (fastforce simp: index_of_None v6_string_def split: prod.splits)
  obtain zs ze where lz: "longest_zeros gs = (zs, ze)" by fastforce
  from longest_zeros_run [of gs] have "(zs, ze) = (255, 255) \<or>
      (zs + 2 \<le> ze \<and> ze \<le> length gs \<and> (\<forall>g \<in> set (take (ze - zs) (drop zs gs)). g = 0))"
    by (simp add: zero_run_def lz)
  then show ?thesis
  proof (elim disjE conjE)
    assume "(zs, ze) = (255, 255)"
    with lz have l: "longest_zeros gs = (255, 255)" by simp
    have "gs \<noteq> []" using assms(1) by auto
    moreover from this have "\<not> has_prefix (join '':'' (map show_hex gs)) ''::''"
      using hd_groups [of gs "[]"] by (intro not_ellipsis) auto
    ultimately show ?thesis
      using noz assms v6_loop_groups [of gs "[]" None]
      by (simp add: parse_v6_def v6_string_def l)
  next
    assume l': "zs + 2 \<le> ze" "ze \<le> length gs"
      and z: "\<forall>g \<in> set (take (ze - zs) (drop zs gs)). g = 0"
    note l = lz l'
    have gsn: "gs \<noteq> []" using assms(1) by auto
    have split: "gs = take zs gs @ take (ze - zs) (drop zs gs) @ drop ze gs"
      using l(2) by (metis add.commute append_take_drop_id drop_drop le_add_diff_inverse2
          le_add1 le_trans)
    have "ungroup gs = ungroup (take zs gs) @ ungroup (take (ze - zs) (drop zs gs)) @ ungroup (drop ze gs)"
      using arg_cong [OF split, of ungroup] by simp
    also have "ungroup (take (ze - zs) (drop zs gs)) = replicate (2 * (ze - zs)) 0"
      using ungroup_zeros [OF z] l assms(1) by simp
    finally have u: "ungroup gs = ungroup (take zs gs) @ replicate (2 * (ze - zs)) 0 @ ungroup (drop ze gs)" .
    let ?s = "join '':'' (map show_hex (take zs gs)) @ ''::'' @ join '':'' (map show_hex (drop ze gs))"
    have s: "v6_string gs = ?s" using l assms(1) by (simp add: v6_string_def)
    have bt: "\<forall>g \<in> set (take zs gs). g < 65536" "\<forall>g \<in> set (drop ze gs). g < 65536"
      using b by (meson in_set_takeD, meson in_set_dropD)
    have tail: "v6_loop ip ell (join '':'' (map show_hex (drop ze gs))) = Some (ip @ ungroup (drop ze gs), ell, [])"
      if "ze < 8" "length ip = 2 * zs" for ip ell
      using that l assms(1) bt by (intro v6_loop_groups) auto
    have jnil: "join '':'' (map show_hex (drop ze gs)) = [] \<longleftrightarrow> ze = 8"
      using join_not_Nil [of "map show_hex (drop ze gs)" "'':''"] l(3) assms(1)
      by (cases "drop ze gs") auto
    show ?thesis
    proof (cases "zs = 0")
      case True
      then show ?thesis
        using noz s u l assms(1) jnil tail [of "[]" "Some 0"]
        by (auto simp: parse_v6_def has_prefix_def)
    next
      case False
      then have np: "\<not> has_prefix ?s ''::''"
        using hd_groups [of "take zs gs" "''::'' @ join '':'' (map show_hex (drop ze gs))"] l
        by (intro not_ellipsis) (use assms(1) in force)+
      have "v6_loop [] None ?s =
          (if join '':'' (map show_hex (drop ze gs)) = []
           then Some ([] @ ungroup (take zs gs), Some (length ([] :: byte list) + 2 * length (take zs gs)), [])
           else v6_loop ([] @ ungroup (take zs gs)) (Some (length ([] :: byte list) + 2 * length (take zs gs)))
                  (join '':'' (map show_hex (drop ze gs))))"
        by (rule v6_loop_groups_ellipsis) (use False gsn bt l assms(1) in simp_all)
      moreover have zl: "length (take zs gs) = zs" using l' assms(1) by simp
      ultimately have e: "v6_loop [] None ?s =
          (if ze = 8 then Some (ungroup (take zs gs), Some (2 * zs), [])
           else v6_loop (ungroup (take zs gs)) (Some (2 * zs)) (join '':'' (map show_hex (drop ze gs))))"
        unfolding jnil by simp
      have "v6_loop [] None ?s = Some (ungroup (take zs gs) @ ungroup (drop ze gs), Some (2 * zs), [])"
      proof (cases "ze = 8")
        case True
        then have "drop ze gs = []" using assms(1) by simp
        then show ?thesis unfolding e using True by simp
      next
        case False
        then have "ze < 8" using l' assms(1) by simp
        then show ?thesis
          unfolding e using False tail [of "ungroup (take zs gs)" "Some (2 * zs)"] zl by simp
      qed
      moreover have "v6_finish (ungroup (take zs gs) @ ungroup (drop ze gs), Some (2 * zs), []) =
          Some (ungroup gs)"
        unfolding u using zl l' assms(1) by (simp add: diff_mult_distrib2)
      ultimately show ?thesis
        using noz np unfolding parse_v6_def s by simp
    qed
  qed
qed

text \<open>What decides between the two families in a printed address.\<close>

lemma first_separator:
  assumes "\<forall>d \<in> {CHR ''.'', CHR '':'', CHR ''%''}. d \<in> set s \<longleftrightarrow> d = c"
    and "c \<in> {CHR ''.'', CHR '':''}"
  shows "\<exists>r. dropWhile (\<lambda>c. c \<noteq> CHR ''.'' \<and> c \<noteq> CHR '':'' \<and> c \<noteq> CHR ''%'') s = c # r"
proof -
  have "c \<in> set s" using assms by auto
  then obtain us vs where s: "s = us @ c # vs" "c \<notin> set us" by (metis split_list_first)
  then have "\<forall>d \<in> set us. d \<noteq> CHR ''.'' \<and> d \<noteq> CHR '':'' \<and> d \<noteq> CHR ''%''"
    using assms(1) by auto
  then show ?thesis using s assms(2) by (auto simp: dropWhile_append2)
qed

lemma digit_char: "d < 10 \<Longrightarrow> digit d \<noteq> CHR '':'' \<and> digit d \<noteq> CHR ''.'' \<and> digit d \<noteq> CHR ''%''"
  using digit_of_digit [of d] by (auto simp: digit_of_def Let_def split: if_splits)

lemma set_show_nat: "CHR '':'' \<notin> set (show_nat n) \<and> CHR ''.'' \<notin> set (show_nat n) \<and> CHR ''%'' \<notin> set (show_nat n)"
proof (induction n rule: show_nat.induct)
  case (1 n)
  then show ?case
    using digit_char [of "n mod 10"] digit_char [of n]
    by (subst (1 2 3) show_nat.simps) auto
qed

lemma v6_string_colon: "length gs = 8 \<Longrightarrow> CHR '':'' \<in> set (v6_string gs)"
proof -
  assume "length gs = 8"
  then obtain g h r where "gs = g # h # r"
    by (metis Suc_length_conv numeral_eq_Suc pred_numeral_simps(2) BitM.simps(1))
  then have "CHR '':'' \<in> set (join '':'' (map show_hex gs))" by simp
  then show ?thesis by (cases "longest_zeros gs") (simp add: v6_string_def)
qed

lemma set_v6_string: "c \<in> set (v6_string gs) \<Longrightarrow> c = CHR '':'' \<or> (\<exists>n. c \<in> set (show_hex n))"
  using set_join [of "'':''"] by (cases "longest_zeros gs") (fastforce simp: v6_string_def split: if_splits)

lemma parse_addr_v4:
  assumes "length b = 4"
  shows "parse_addr (join ''.'' (map (\<lambda>x. show_nat (unat x)) b)) = Some (Addr4 b)"
proof -
  let ?s = "join ''.'' (map (\<lambda>x. show_nat (unat x)) b)"
  from assms obtain w x y z where b: "b = [w, x, y, z]"
    by (auto simp: numeral_eq_Suc length_Suc_conv)
  have "\<exists>r. dropWhile (\<lambda>c. c \<noteq> CHR ''.'' \<and> c \<noteq> CHR '':'' \<and> c \<noteq> CHR ''%'') ?s = CHR ''.'' # r"
    by (rule first_separator) (use set_show_nat in \<open>auto simp: b\<close>)
  then show ?thesis by (auto simp: parse_addr_def v4_fields_print [OF assms])
qed

lemma parse_addr_v6:
  assumes "length gs = 8" and "\<forall>g \<in> set gs. g < 65536"
  shows "parse_addr (v6_string gs) = Some (Addr6 (ungroup gs) '''')"
proof -
  have "CHR ''.'' \<notin> set (v6_string gs) \<and> CHR ''%'' \<notin> set (v6_string gs)"
    using set_v6_string [of "CHR ''.''" gs] set_v6_string [of "CHR ''%''" gs] set_show_hex by auto
  then have "\<exists>r. dropWhile (\<lambda>c. c \<noteq> CHR ''.'' \<and> c \<noteq> CHR '':'' \<and> c \<noteq> CHR ''%'') (v6_string gs) = CHR '':'' # r"
    using v6_string_colon [OF assms(1)] by (intro first_separator) auto
  then show ?thesis by (auto simp: parse_addr_def parse_v6_print [OF assms])
qed

text \<open>The round trip: a printed address parses to itself.\<close>

lemma parse_ip_string:
  assumes "length ip = 16"
  shows "parse_ip (ip_string ip) = Some ip"
proof (cases "take 12 ip = v4_prefix")
  case True
  have "length (drop 12 ip) = 4" using assms by simp
  moreover have "v4_prefix @ drop 12 ip = ip" using True by (metis append_take_drop_id)
  ultimately show ?thesis
    using True assms by (simp add: parse_ip_def ip_string_def to4_def parse_addr_v4)
next
  case False
  have "parse_addr (v6_string (groups ip)) = Some (Addr6 (ungroup (groups ip)) '''')"
    using assms groups_bound by (intro parse_addr_v6) (auto simp: length_groups)
  then show ?thesis
    using False assms by (simp add: parse_ip_def ip_string_def to4_def ungroup_groups)
qed

lemma v4_fields_length: "v4_fields fs v n s = Some b \<Longrightarrow> length fs \<le> 3 \<Longrightarrow> length b = 4"
  by (induction fs v n s rule: v4_fields.induct) (auto split: option.splits if_splits)

lemma v6_loop_length:
  "v6_loop ip ell s = Some (ip', ell', s') \<Longrightarrow> even (length ip) \<Longrightarrow> length ip \<le> 16 \<Longrightarrow>
   (case ell of None \<Rightarrow> True | Some e \<Rightarrow> e \<le> length ip) \<Longrightarrow>
   length ip' \<le> 16 \<and> (case ell' of None \<Rightarrow> True | Some e \<Rightarrow> e \<le> length ip')"
proof (induction ip ell s rule: v6_loop.induct)
  case (1 ip ell s)
  show ?case
  proof (cases "16 \<le> length ip")
    case True
    with "1.prems" show ?thesis by (subst (asm) v6_loop.simps) (simp split: option.splits)
  next
    case False
    then have "length ip + 2 \<le> 16" using "1.prems"(2) by presburger
    with "1.prems" have len: "length (ip @ u16_bytes acc) \<le> 16" "even (length (ip @ u16_bytes acc))"
      and ell: "case ell of None \<Rightarrow> True | Some e \<Rightarrow> e \<le> length (ip @ u16_bytes acc)" for acc
      by (auto split: option.splits)
    note res = "1.prems"(1) [unfolded v6_loop.simps [of ip ell s] if_not_P [OF False] Let_def]
    then obtain off acc rest where sc: "scan_hex 0 0 s = Some (off, acc, rest)" and off: "off \<noteq> 0"
      by (auto split: option.splits if_splits)
    show ?thesis
    proof (cases "rest \<noteq> [] \<and> hd rest = CHR ''.''")
      case True
      then obtain b where "v4_fields [] 0 0 s = Some b" "length ip + 4 \<le> 16"
        "ip' = ip @ b" "ell' = ell"
        using res by (auto simp: sc split: option.splits if_splits)
      with ell [of 0] "1.prems"(4) show ?thesis
        by (auto dest!: v4_fields_length split: option.splits)
    next
      case nd: False
      note res2 = res [unfolded sc option.case prod.case if_not_P [OF off] if_not_P [OF nd]]
      note IH = "1.IH" [OF False sc refl refl off nd refl]
      show ?thesis
      proof (cases rest)
        case Nil
        with res2 len ell show ?thesis by auto
      next
        case (Cons c r)
        note IH' = IH [OF Cons]
        have c: "\<not> c \<noteq> CHR '':''" and r: "r \<noteq> []" using res2 by (auto simp: Cons split: if_splits)
        show ?thesis
        proof (cases "hd r = CHR '':''")
          case True
          with res2 c r have "ell = None" by (auto simp: Cons split: if_splits)
          with res2 c r True len IH'(1) [OF c r True] show ?thesis
            by (auto simp: Cons split: if_splits)
        next
          case False
          with res2 c r len ell IH'(2) [OF c r False] show ?thesis by (simp add: Cons)
        qed
      qed
    qed
  qed
qed

lemma v6_finish_length:
  assumes "Option.bind (v6_loop ip ell s) v6_finish = Some b" and "even (length ip)"
    and "length ip \<le> 16" and "case ell of None \<Rightarrow> True | Some e \<Rightarrow> e \<le> length ip"
  shows "length b = 16"
proof -
  obtain ip' ell' s' where l: "v6_loop ip ell s = Some (ip', ell', s')"
    and f: "v6_finish (ip', ell', s') = Some b"
    using assms(1) by (auto simp: bind_eq_Some_conv)
  from v6_loop_length [OF l assms(2-4)] f show ?thesis
    by (auto split: if_splits option.splits)
qed

lemma parse_ip_length: "parse_ip s = Some ip \<Longrightarrow> length ip = 16"
  by (auto simp: parse_ip_def parse_addr_def parse_v6_def Let_def v4_prefix_def
      dest: v4_fields_length v6_finish_length
      split: option.splits if_splits list.splits)

lemma ip_string_inj: "length a = 16 \<Longrightarrow> length b = 16 \<Longrightarrow> ip_string a = ip_string b \<longleftrightarrow> a = b"
  by (metis option.inject parse_ip_string)

end
