(* ===== verification/ClientIP.thy ===== *)
theory ClientIP
  imports NetIP
begin

text \<open>
  \<open>internal/middleware/clientip.go\<close> and \<open>internal/middleware/middleware.go\<close>: the address
  that stands for a client, and the chain of middlewares. Main facts: a peer that is not a trusted
  proxy cannot choose its address; behind trusted proxies that append the address they see, the
  client's own address is taken, or the peer's if the client sent something malformed; the address
  is the same for every middleware of the chain; the chain runs in the order of its \<open>Use\<close> calls.
\<close>

section \<open>The resolver\<close>

record client_ip_resolver =
  cr_trustedProxies :: "ip_net list"

text \<open>The loop over the networks; the error names the text that is no CIDR notation.\<close>

fun add_networks :: "string list \<Rightarrow> ip_net list \<Rightarrow> go_error + ip_net list" where
  "add_networks [] ns = Inr ns"
| "add_networks (raw # rs) ns =
     (let cidr = trim_space raw
      in if cidr = '''' then add_networks rs ns
         else
           case parse_cidr cidr of
             None \<Rightarrow> Inl cidr
           | Some n \<Rightarrow> add_networks rs (ns @ [n]))"

definition NewClientIPResolver :: "string \<Rightarrow> go_error + client_ip_resolver" where
  "NewClientIPResolver rawCIDRs =
     (if trim_space rawCIDRs = '''' then Inr \<lparr>cr_trustedProxies = []\<rparr>
      else
        case add_networks (split_on CHR '','' rawCIDRs) [] of
          Inl e \<Rightarrow> Inl e
        | Inr ns \<Rightarrow> Inr \<lparr>cr_trustedProxies = ns\<rparr>)"

fun isTrusted_loop :: "ip_net list \<Rightarrow> ip \<Rightarrow> bool" where
  "isTrusted_loop [] ip = False"
| "isTrusted_loop (n # ns) ip = (if net_contains n ip then True else isTrusted_loop ns ip)"

definition isTrusted :: "client_ip_resolver \<Rightarrow> ip \<Rightarrow> bool" where
  "isTrusted r ip = isTrusted_loop (cr_trustedProxies r) ip"

definition parseRemoteIP :: "string \<Rightarrow> ip option" where
  "parseRemoteIP remoteAddr =
     (case split_host_port remoteAddr of
        Some (host, _) \<Rightarrow> parse_ip host
      | None \<Rightarrow> parse_ip remoteAddr)"

text \<open>The loop that reads the chain; \<open>None\<close> is its early return.\<close>

fun forwarded_chain :: "string list \<Rightarrow> ip list \<Rightarrow> ip list option" where
  "forwarded_chain [] chain = Some chain"
| "forwarded_chain (part # parts) chain =
     (case parse_ip (trim_space part) of
        None \<Rightarrow> None
      | Some ip \<Rightarrow> forwarded_chain parts (chain @ [ip]))"

text \<open>The walk from the last address to the first, on the reversed chain.\<close>

fun first_untrusted :: "client_ip_resolver \<Rightarrow> ip list \<Rightarrow> ip option" where
  "first_untrusted r [] = None"
| "first_untrusted r (ip # ips) = (if \<not> isTrusted r ip then Some ip else first_untrusted r ips)"

definition Resolve :: "client_ip_resolver \<Rightarrow> request \<Rightarrow> string" where
  "Resolve r req =
     (case parseRemoteIP (rq_RemoteAddr req) of
        None \<Rightarrow> rq_RemoteAddr req
      | Some remoteIP \<Rightarrow>
          if \<not> isTrusted r remoteIP then ip_string remoteIP
          else
            (let forwarded = header_Get (rq_Header req) ''X-Forwarded-For''
             in if forwarded = '''' then ip_string remoteIP
                else
                  case forwarded_chain (split_on CHR '','' forwarded) [] of
                    None \<Rightarrow> ip_string remoteIP
                  | Some chain \<Rightarrow>
                      (case first_untrusted r (rev chain) of
                         Some ip \<Rightarrow> ip_string ip
                       | None \<Rightarrow>
                           (case chain of
                              [] \<Rightarrow> ip_string remoteIP
                            | ip # _ \<Rightarrow> ip_string ip))))"

section \<open>Middlewares\<close>

text \<open>A handler maps a request and the state it works on (the response included) to the new
  state, or panics; a middleware maps handlers to handlers.\<close>

type_synonym 's http_handler = "request \<Rightarrow> 's \<Rightarrow> 's option"
type_synonym 's http_middleware = "'s http_handler \<Rightarrow> 's http_handler"

definition resolved_request :: "client_ip_resolver \<Rightarrow> request \<Rightarrow> request" where
  "resolved_request r req =
     req\<lparr>rq_Header := header_Set ''X-Forwarded-For'' (Resolve r req) (rq_Header req)\<rparr>"

definition clientip_Middleware :: "client_ip_resolver \<Rightarrow> 's http_middleware" where
  "clientip_Middleware r nxt = (\<lambda>req. nxt (resolved_request r req))"

record 's middleware_chain =
  mc_middlewares :: "'s http_middleware list"

definition chain_Use :: "'s http_middleware \<Rightarrow> 's middleware_chain \<Rightarrow> 's middleware_chain" where
  "chain_Use mw c = c\<lparr>mc_middlewares := mc_middlewares c @ [mw]\<rparr>"

text \<open>The loop from the last middleware to the first, on the reversed list.\<close>

primrec apply_loop :: "'s http_middleware list \<Rightarrow> 's http_handler \<Rightarrow> 's http_handler" where
  "apply_loop [] handler = handler"
| "apply_loop (mw # mws) handler = apply_loop mws (mw handler)"

definition chain_Apply :: "'s middleware_chain \<Rightarrow> 's http_handler \<Rightarrow> 's http_handler" where
  "chain_Apply c handler = apply_loop (rev (mc_middlewares c)) handler"

lemma apply_loop_snoc: "apply_loop (mws @ [mw]) handler = mw (apply_loop mws handler)"
  by (induction mws arbitrary: handler) auto

text \<open>The first middleware that was used is the outermost.\<close>

lemma chain_Apply_Cons:
  "chain_Apply \<lparr>mc_middlewares = []\<rparr> handler = handler"
  "chain_Apply \<lparr>mc_middlewares = mw # mws\<rparr> handler =
     mw (chain_Apply \<lparr>mc_middlewares = mws\<rparr> handler)"
  by (simp_all add: chain_Apply_def apply_loop_snoc)

section \<open>Reading a chain of addresses\<close>

lemma forwarded_chain_append:
  "forwarded_chain (ps @ qs) chain =
     (case forwarded_chain ps chain of None \<Rightarrow> None | Some c \<Rightarrow> forwarded_chain qs c)"
  by (induction ps arbitrary: chain) (auto split: option.splits)

lemma forwarded_chain_Some:
  "forwarded_chain ps chain = Some c \<longleftrightarrow>
     (\<forall>p \<in> set ps. parse_ip (trim_space p) \<noteq> None) \<and>
     c = chain @ map (\<lambda>p. the (parse_ip (trim_space p))) ps"
  by (induction ps arbitrary: chain) (auto split: option.splits)

lemma forwarded_chain_None:
  "forwarded_chain ps chain = None \<longleftrightarrow> (\<exists>p \<in> set ps. parse_ip (trim_space p) = None)"
  by (induction ps arbitrary: chain) (auto split: option.splits)

lemma first_untrusted_append:
  "first_untrusted r (as @ bs) =
     (case first_untrusted r as of None \<Rightarrow> first_untrusted r bs | Some ip \<Rightarrow> Some ip)"
  by (induction as) auto

lemma first_untrusted_None: "first_untrusted r ips = None \<longleftrightarrow> (\<forall>ip \<in> set ips. isTrusted r ip)"
  by (induction ips) auto

lemma first_untrusted_Some: "first_untrusted r ips = Some ip \<Longrightarrow> ip \<in> set ips \<and> \<not> isTrusted r ip"
  by (induction ips) (auto split: if_splits)

section \<open>White space and commas around printed addresses\<close>

definition graphic :: "string \<Rightarrow> bool" where
  "graphic s \<longleftrightarrow> (\<forall>c \<in> set s. 33 \<le> (of_char c :: nat) \<and> (of_char c :: nat) \<le> 126 \<and> (of_char c :: nat) \<noteq> 44)"

lemma space_len_graphic: "graphic s \<Longrightarrow> space_len s = 0"
proof (cases s)
  case (Cons c cs)
  assume "graphic s"
  with Cons have c: "33 \<le> (of_char c :: nat)" "(of_char c :: nat) \<le> 126" by (auto simp: graphic_def)
  then have "c \<notin> {CHR 0x09, CHR 0x0A, CHR 0x0B, CHR 0x0C, CHR 0x0D, CHR 0x20}"
    "c \<noteq> CHR 0xC2" "c \<noteq> CHR 0xE1" "c \<noteq> CHR 0xE2" "c \<noteq> CHR 0xE3" by auto
  then show ?thesis unfolding space_len_def Cons by (simp add: has_prefix_def)
qed (simp add: space_len_def)

lemma graphic_drop: "graphic s \<Longrightarrow> graphic (drop n s)"
  using set_drop_subset [of n s] by (auto simp: graphic_def)

lemma trim_left_graphic: "graphic s \<Longrightarrow> trim_left s = s"
  by (subst trim_left.simps) (simp add: space_len_graphic)

lemma trim_right_graphic: "graphic s \<Longrightarrow> trim_right s = s"
  by (subst trim_right.simps)
    (simp add: space_len_end_def space_len_graphic graphic_drop)

lemma trim_space_graphic [simp]: "graphic s \<Longrightarrow> trim_space s = s"
  by (simp add: trim_space_def trim_left_graphic trim_right_graphic)

lemma trim_space_blank [simp]: "trim_space (CHR '' '' # s) = trim_space s"
  unfolding trim_space_def by (subst trim_left.simps) (simp add: space_len_def)

lemma graphic_digit: "d < 10 \<Longrightarrow> graphic [digit d]"
  by (auto simp: graphic_def digit_def)

lemma graphic_hex_digit: "d < 16 \<Longrightarrow> graphic [hex_digit d]"
  by (auto simp: graphic_def hex_digit_def)

lemma graphic_append [simp]: "graphic (s @ t) \<longleftrightarrow> graphic s \<and> graphic t"
  by (auto simp: graphic_def)

lemma graphic_show_nat: "graphic (show_nat n)"
proof (induction n rule: show_nat.induct)
  case (1 n)
  show ?case
  proof (cases "n < 10")
    case True
    then show ?thesis by (simp add: show_nat.simps [of n] graphic_digit)
  next
    case False
    with 1 show ?thesis by (simp add: show_nat.simps [of n] graphic_digit)
  qed
qed

lemma graphic_show_hex: "graphic (show_hex n)"
proof (induction n rule: show_hex.induct)
  case (1 n)
  show ?case
  proof (cases "n < 16")
    case True
    then show ?thesis by (simp add: show_hex.simps [of n] graphic_hex_digit)
  next
    case False
    with 1 show ?thesis by (simp add: show_hex.simps [of n] graphic_hex_digit)
  qed
qed

lemma graphic_Cons [simp]:
  "graphic (c # s) \<longleftrightarrow>
     33 \<le> (of_char c :: nat) \<and> (of_char c :: nat) \<le> 126 \<and> (of_char c :: nat) \<noteq> 44 \<and> graphic s"
  by (auto simp: graphic_def)

lemma graphic_Nil [simp]: "graphic []"
  by (simp add: graphic_def)

lemma graphic_join: "graphic sep \<Longrightarrow> \<forall>x \<in> set xs. graphic x \<Longrightarrow> graphic (join sep xs)"
  using set_join [of sep xs] unfolding graphic_def by blast

lemma graphic_ip_string: "graphic (ip_string ip)"
proof -
  have "graphic (v6_string gs)" for gs
    by (cases "longest_zeros gs") (simp add: v6_string_def graphic_show_hex graphic_join)
  moreover have "graphic '':''" "graphic ''.''" by (simp_all add: graphic_def)
  ultimately show ?thesis
    by (auto simp: ip_string_def graphic_show_nat intro!: graphic_join split: option.splits)
qed

lemma split_on_nocomma: "c \<notin> set s \<Longrightarrow> split_on c s = [s]"
  by (induction s) auto

lemma split_on_append: "split_on c (s @ c # t) = split_on c s @ split_on c t"
  by (induction s) (auto split: list.splits)

lemma graphic_nocomma: "graphic s \<Longrightarrow> CHR '','' \<notin> set s"
  by (auto simp: graphic_def)

lemma split_on_join:
  "split_on CHR '','' (join '', '' (x # xs)) =
     split_on CHR '','' x @ concat (map (\<lambda>y. split_on CHR '','' (CHR '' '' # y)) xs)"
proof (induction xs arbitrary: x)
  case (Cons y ys)
  have "split_on CHR '','' (x @ CHR '','' # CHR '' '' # join '', '' (y # ys)) =
      split_on CHR '','' x @ split_on CHR '','' (CHR '' '' # join '', '' (y # ys))"
    by (rule split_on_append)
  moreover have "CHR '' '' # join '', '' (y # ys) = join '', '' ((CHR '' '' # y) # ys)"
    by (cases ys) simp_all
  ultimately show ?case using Cons.IH [of "CHR '' '' # y"] by simp
qed simp

text \<open>What \<open>forwarded_chain\<close> reads from entries that were appended with \<open>, \<close>: the parts of
  each entry count, and a printed address is one part.\<close>

definition entry_ok :: "string \<Rightarrow> bool" where
  "entry_ok e \<longleftrightarrow> (\<forall>p \<in> set (split_on CHR '','' e). parse_ip (trim_space p) \<noteq> None)"

definition entry_ips :: "string \<Rightarrow> ip list" where
  "entry_ips e = map (\<lambda>p. the (parse_ip (trim_space p))) (split_on CHR '','' e)"

lemma split_on_blank:
  "split_on CHR '','' (CHR '' '' # y) = (CHR '' '' # hd (split_on CHR '','' y)) # tl (split_on CHR '','' y)"
  by (cases "split_on CHR '','' y") auto

lemma entry_ok_blank [simp]: "entry_ok (CHR '' '' # y) = entry_ok y"
  unfolding entry_ok_def split_on_blank by (cases "split_on CHR '','' y") auto

lemma entry_ips_blank [simp]: "entry_ips (CHR '' '' # y) = entry_ips y"
  unfolding entry_ips_def split_on_blank by (cases "split_on CHR '','' y") auto

lemma forwarded_chain_join:
  assumes "es \<noteq> []"
  shows "forwarded_chain (split_on CHR '','' (join '', '' es)) [] =
     (if \<forall>e \<in> set es. entry_ok e then Some (concat (map entry_ips es)) else None)"
proof -
  obtain x xs where es: "es = x # xs" using assms by (cases es) auto
  have "(\<forall>p \<in> set (split_on CHR '','' (join '', '' es)). parse_ip (trim_space p) \<noteq> None) \<longleftrightarrow>
      entry_ok x \<and> (\<forall>y \<in> set xs. entry_ok (CHR '' '' # y))"
    unfolding es split_on_join entry_ok_def by (simp add: ball_Un del: split_on.simps)
  then have ok: "(\<forall>p \<in> set (split_on CHR '','' (join '', '' es)). parse_ip (trim_space p) \<noteq> None) \<longleftrightarrow>
      (\<forall>e \<in> set es. entry_ok e)"
    by (simp add: es)
  moreover have "map (\<lambda>p. the (parse_ip (trim_space p))) (split_on CHR '','' (join '', '' es)) =
      concat (map entry_ips es)"
    using entry_ips_blank unfolding es split_on_join entry_ips_def
    by (simp add: map_concat comp_def del: split_on.simps)
  ultimately show ?thesis
    by (cases "forwarded_chain (split_on CHR '','' (join '', '' es)) []")
      (auto simp: forwarded_chain_None forwarded_chain_Some)
qed

lemma entry_ip [simp]:
  assumes "length ip = 16"
  shows "entry_ok (ip_string ip)" "entry_ips (ip_string ip) = [ip]"
  using assms split_on_nocomma [OF graphic_nocomma [OF graphic_ip_string], of ip]
  by (simp_all add: entry_ok_def entry_ips_def graphic_ip_string parse_ip_string)

lemma ip_string_not_Nil: "length ip = 16 \<Longrightarrow> ip_string ip \<noteq> ''''"
  using parse_ip_string [of ip] by (auto simp: parse_ip_def parse_addr_def)

section \<open>Reading the trusted networks\<close>

lemma length_cidr_mask [simp]: "length (cidr_mask n k) = k"
  by (induction n k rule: cidr_mask.induct) auto

lemma length_and_bytes [simp]: "length (and_bytes xs ys) = min (length xs) (length ys)"
  by (simp add: and_bytes_def)

lemma and_bytes_idem: "and_bytes (and_bytes xs m) m = and_bytes xs m"
  unfolding and_bytes_def
  by (induction xs m rule: list_induct2') (simp_all add: and.assoc)

text \<open>An IPv4 network contains the IPv4 addresses that agree with it under its mask, and no
  others.\<close>

lemma v4_network_contains:
  assumes "length b = 4" and "length ip = 16"
  shows "net_contains \<lparr>in_IP = and_bytes b (cidr_mask n 4), in_Mask = cidr_mask n 4\<rparr> ip \<longleftrightarrow>
    (\<exists>x. ip = v4_prefix @ x \<and> and_bytes b (cidr_mask n 4) = and_bytes x (cidr_mask n 4))"
proof (cases "take 12 ip = v4_prefix")
  case True
  then have ip: "ip = v4_prefix @ drop 12 ip" by (metis append_take_drop_id)
  then have "(\<exists>x. ip = v4_prefix @ x \<and> P x) \<longleftrightarrow> P (drop 12 ip)" for P by (metis same_append_eq)
  then show ?thesis
    using True assms by (simp add: net_contains_def network_number_def to4_def and_bytes_idem)
next
  case False
  then have "\<not> (\<exists>x. ip = v4_prefix @ x)" by (auto simp: v4_prefix_def)
  then show ?thesis
    using False assms by (auto simp: net_contains_def network_number_def to4_def)
qed

text \<open>The entries of the setting: blank ones are skipped, the others must be networks.\<close>

lemma add_networks_spec:
  "add_networks rs ns =
     (let es = filter (\<lambda>e. e \<noteq> '''') (map trim_space rs)
      in case find (\<lambda>e. parse_cidr e = None) es of
           Some e \<Rightarrow> Inl e
         | None \<Rightarrow> Inr (ns @ map (\<lambda>e. the (parse_cidr e)) es))"
  by (induction rs arbitrary: ns) (auto simp: Let_def split: option.splits)

section \<open>Which address stands for a client\<close>

lemma Resolve_untrusted:
  "parseRemoteIP (rq_RemoteAddr req) = Some peer \<Longrightarrow> \<not> isTrusted r peer \<Longrightarrow>
   Resolve r req = ip_string peer"
  by (simp add: Resolve_def)

lemma Resolve_chain:
  assumes "parseRemoteIP (rq_RemoteAddr req) = Some peer" and "isTrusted r peer"
    and "header_Get (rq_Header req) ''X-Forwarded-For'' = join '', '' es" and "join '', '' es \<noteq> ''''"
    and "es \<noteq> []"
  shows "Resolve r req =
     (if \<forall>e \<in> set es. entry_ok e then
        (case first_untrusted r (rev (concat (map entry_ips es))) of
           Some ip \<Rightarrow> ip_string ip
         | None \<Rightarrow> ip_string (hd (concat (map entry_ips es))))
      else ip_string peer)"
proof -
  have "entry_ips (hd es) \<noteq> []" by (simp add: entry_ips_def)
  then have "concat (map entry_ips es) \<noteq> []" using assms(5) by (cases es) auto
  then obtain a as where "concat (map entry_ips es) = a # as" by (meson neq_Nil_conv)
  with assms forwarded_chain_join [OF assms(5)] show ?thesis
    by (simp add: Resolve_def split: option.splits)
qed

lemma join_has_text: "x \<in> set xs \<Longrightarrow> x \<noteq> [] \<Longrightarrow> join sep xs \<noteq> []"
  by (induction sep xs rule: join.induct) auto

lemma concat_entry_ips:
  "\<forall>ip \<in> set ips. length ip = 16 \<Longrightarrow> concat (map entry_ips (map ip_string ips)) = ips"
  by (induction ips) auto

text \<open>C25: clients do not choose their address. What stands for a peer that is not a trusted proxy is
  the peer's own address, whatever the headers say. Behind a trusted peer and further trusted
  proxies, each of which appended the address that it saw to the forwarding header, it is the
  address of the client: whatever entries the client had put into the header before, well formed
  or not, the result is that address or, if one of those entries is no address, the peer's.\<close>

theorem client_cannot_choose:
  assumes "parseRemoteIP (rq_RemoteAddr req) = Some peer"
  shows "(\<not> isTrusted r peer \<longrightarrow> Resolve r req = ip_string peer) \<and>
     (\<forall>sent client hops.
        isTrusted r peer \<and> length client = 16 \<and> (\<forall>h \<in> set hops. length h = 16 \<and> isTrusted r h) \<and>
        \<not> isTrusted r client \<and>
        header_Get (rq_Header req) ''X-Forwarded-For'' = join '', '' (sent @ map ip_string (client # hops)) \<longrightarrow>
        Resolve r req =
          (if \<forall>e \<in> set sent. \<forall>p \<in> set (split_on CHR '','' e). parse_ip (trim_space p) \<noteq> None
           then ip_string client else ip_string peer))"
proof (intro conjI allI impI)
  assume "\<not> isTrusted r peer"
  then show "Resolve r req = ip_string peer" using assms by (rule Resolve_untrusted [rotated])
next
  fix sent client hops
  assume a: "isTrusted r peer \<and> length client = 16 \<and> (\<forall>h \<in> set hops. length h = 16 \<and> isTrusted r h) \<and>
    \<not> isTrusted r client \<and>
    header_Get (rq_Header req) ''X-Forwarded-For'' = join '', '' (sent @ map ip_string (client # hops))"
  let ?es = "sent @ map ip_string (client # hops)"
  have ips: "concat (map entry_ips ?es) = concat (map entry_ips sent) @ client # hops"
    using a concat_entry_ips [of "client # hops"] by simp
  have "first_untrusted r (rev hops) = None" using a by (simp add: first_untrusted_None)
  then have "first_untrusted r (rev (concat (map entry_ips ?es))) = Some client"
    using a by (simp only: ips) (simp add: first_untrusted_append)
  moreover have "(\<forall>e \<in> set ?es. entry_ok e) \<longleftrightarrow> (\<forall>e \<in> set sent. entry_ok e)" using a by auto
  moreover have "join '', '' ?es \<noteq> ''''"
    using a ip_string_not_Nil [of client] by (intro join_has_text [of "ip_string client"]) auto
  moreover have "Resolve r req = (if \<forall>e \<in> set ?es. entry_ok e then
        (case first_untrusted r (rev (concat (map entry_ips ?es))) of
           Some ip \<Rightarrow> ip_string ip
         | None \<Rightarrow> ip_string (hd (concat (map entry_ips ?es))))
      else ip_string peer)"
    using assms a calculation(3) by (intro Resolve_chain) auto
  ultimately have "Resolve r req = (if \<forall>e \<in> set sent. entry_ok e then ip_string client else ip_string peer)"
    by simp
  then show "Resolve r req =
      (if \<forall>e \<in> set sent. \<forall>p \<in> set (split_on CHR '','' e). parse_ip (trim_space p) \<noteq> None
       then ip_string client else ip_string peer)"
    unfolding entry_ok_def .
qed

definition sample_resolver :: client_ip_resolver where
  "sample_resolver = \<lparr>cr_trustedProxies = [\<lparr>in_IP = [10, 0, 0, 0], in_Mask = [255, 0, 0, 0]\<rparr>]\<rparr>"

definition forwarded_request :: "string \<Rightarrow> string list \<Rightarrow> request" where
  "forwarded_request addr vs =
     \<lparr>rq_Method = ''GET'', rq_URL_Scheme = '''', rq_URL_Host = '''', rq_URL_Path = ''/'',
      rq_URL_RawPath = '''', rq_Host = ''app.local'', rq_RequestURI = ''/'',
      rq_Header = [(''X-Forwarded-For'', vs)], rq_RemoteAddr = addr, rq_TLS = False,
      rq_ContentLength = 0, rq_Body = None, rq_GetBody = None, rq_Close = False,
      rq_TransferEncoding = [], rq_Trailer = []\<rparr>"

lemma length_v4_prefix [simp]: "length v4_prefix = 12"
  by (simp add: v4_prefix_def)

lemma ip_string_v4:
  "length b = 4 \<Longrightarrow> ip_string (v4_prefix @ b) = join ''.'' (map (\<lambda>x. show_nat (unat x)) b)"
  by (simp add: ip_string_def to4_def)

lemma digits [simp]:
  "digit 0 = CHR ''0''" "digit (Suc 0) = CHR ''1''" "digit 1 = CHR ''1''" "digit 2 = CHR ''2''"
  "digit 3 = CHR ''3''" "digit 4 = CHR ''4''" "digit 5 = CHR ''5''" "digit 6 = CHR ''6''"
  "digit 7 = CHR ''7''" "digit 8 = CHR ''8''" "digit 9 = CHR ''9''"
  by code_simp+

lemma sample_strings:
  "ip_string (v4_prefix @ [10, 0, 0, 2]) = ''10.0.0.2''"
  "ip_string (v4_prefix @ [198, 51, 100, 5]) = ''198.51.100.5''"
  "ip_string (v4_prefix @ [1, 2, 3, 4]) = ''1.2.3.4''"
  by (simp_all add: ip_string_v4 show_nat.simps)

lemma sample_addresses:
  "parse_ip ''10.0.0.2'' = Some (v4_prefix @ [10, 0, 0, 2])"
  "parse_ip ''198.51.100.5'' = Some (v4_prefix @ [198, 51, 100, 5])"
  "parse_ip ''1.2.3.4'' = Some (v4_prefix @ [1, 2, 3, 4])"
  unfolding sample_strings [symmetric] by (simp_all add: parse_ip_string)

lemma sample_trusted:
  "isTrusted sample_resolver (v4_prefix @ [10, 0, 0, 2])"
  "\<not> isTrusted sample_resolver (v4_prefix @ [198, 51, 100, 5])"
  by (simp_all add: isTrusted_def sample_resolver_def net_contains_def network_number_def to4_def
      and_bytes_def)

lemma sample_remote: "parseRemoteIP ''10.0.0.2:1234'' = Some (v4_prefix @ [10, 0, 0, 2])"
  using split_host_port_plain [of "''10.0.0.2''" "''1234''"]
  by (simp add: parseRemoteIP_def sample_addresses)

theorem client_cannot_choose_witness:
  "Resolve sample_resolver
     (forwarded_request ''10.0.0.2:1234'' [''1.2.3.4, 198.51.100.5, 10.0.0.2'']) = ''198.51.100.5''"
proof -
  let ?r = "forwarded_request ''10.0.0.2:1234'' [''1.2.3.4, 198.51.100.5, 10.0.0.2'']"
  have "parseRemoteIP (rq_RemoteAddr ?r) = Some (v4_prefix @ [10, 0, 0, 2])"
    by (simp add: forwarded_request_def sample_remote)
  from client_cannot_choose [OF this, of sample_resolver] sample_trusted(1)
  have "\<forall>sent client hops.
        length client = 16 \<and> (\<forall>h \<in> set hops. length h = 16 \<and> isTrusted sample_resolver h) \<and>
        \<not> isTrusted sample_resolver client \<and>
        header_Get (rq_Header ?r) ''X-Forwarded-For'' = join '', '' (sent @ map ip_string (client # hops)) \<longrightarrow>
        Resolve sample_resolver ?r =
          (if \<forall>e \<in> set sent. \<forall>p \<in> set (split_on CHR '','' e). parse_ip (trim_space p) \<noteq> None
           then ip_string client else ip_string (v4_prefix @ [10, 0, 0, 2]))"
    by blast
  note this [rule_format, of "v4_prefix @ [198, 51, 100, 5]" "[v4_prefix @ [10, 0, 0, 2]]" "[''1.2.3.4'']"]
  moreover have "header_Get (rq_Header ?r) ''X-Forwarded-For'' =
      join '', '' ([''1.2.3.4''] @ map ip_string ((v4_prefix @ [198, 51, 100, 5]) # [v4_prefix @ [10, 0, 0, 2]]))"
    unfolding list.map sample_strings by code_simp
  moreover have "graphic ''1.2.3.4''" by simp
  then have "\<forall>e \<in> set [''1.2.3.4'']. \<forall>p \<in> set (split_on CHR '','' e). parse_ip (trim_space p) \<noteq> None"
    using split_on_nocomma [of "CHR '',''" "''1.2.3.4''"] by (simp add: sample_addresses del: split_on.simps)
  ultimately show ?thesis using sample_trusted by (simp add: sample_strings)
qed

lemma Resolve_trusted_ip:
  assumes "parseRemoteIP (rq_RemoteAddr req) = Some peer" and "isTrusted r peer"
  shows "\<exists>ip. length ip = 16 \<and> Resolve r req = ip_string ip"
proof -
  have peer: "length peer = 16"
    using assms(1) by (auto simp: parseRemoteIP_def parse_ip_length split: option.splits)
  let ?ps = "split_on CHR '','' (header_Get (rq_Header req) ''X-Forwarded-For'')"
  show ?thesis
  proof (cases "forwarded_chain ?ps []")
    case (Some chain)
    then have len: "\<forall>ip \<in> set chain. length ip = 16"
      using parse_ip_length by (fastforce simp: forwarded_chain_Some)
    show ?thesis
    proof (cases "first_untrusted r (rev chain)")
      case None
      with assms Some len peer show ?thesis by (auto simp: Resolve_def Let_def split: list.splits)
    next
      case (Some ip)
      with assms \<open>forwarded_chain ?ps [] = Some chain\<close> len peer first_untrusted_Some [OF Some]
      show ?thesis by (auto simp: Resolve_def Let_def)
    qed
  qed (use assms peer in \<open>auto simp: Resolve_def Let_def\<close>)
qed

lemma resolved_same:
  "header_values (rq_Header (resolved_request r req)) ''X-Forwarded-For'' = [Resolve r req] \<and>
   Resolve r (resolved_request r req) = Resolve r req \<and>
   (Resolve r req = rq_RemoteAddr req \<or> (\<exists>ip. parse_ip (Resolve r req) = Some ip \<and> ip_string ip = Resolve r req))"
proof -
  let ?q = "resolved_request r req"
  have hv: "header_values (rq_Header ?q) ''X-Forwarded-For'' = [Resolve r req]"
    using header_Set_same [of "''X-Forwarded-For''" "Resolve r req" "rq_Header req"]
    by (simp add: resolved_request_def header_values_def)
  then have get: "header_Get (rq_Header ?q) ''X-Forwarded-For'' = Resolve r req"
    by (simp add: header_Get_def)
  have addr: "rq_RemoteAddr ?q = rq_RemoteAddr req" by (simp add: resolved_request_def)
  show ?thesis
  proof (cases "parseRemoteIP (rq_RemoteAddr req)")
    case None
    then show ?thesis using hv addr by (simp add: Resolve_def)
  next
    case (Some peer)
    then have peer: "length peer = 16"
      by (auto simp: parseRemoteIP_def parse_ip_length split: option.splits)
    show ?thesis
    proof (cases "isTrusted r peer")
      case False
      then show ?thesis
        using Some addr hv peer by (simp add: Resolve_untrusted parse_ip_string)
    next
      case True
      then obtain ip where ip: "length ip = 16" "Resolve r req = ip_string ip"
        using Resolve_trusted_ip [OF Some] by blast
      have "Resolve r ?q =
         (if \<forall>e \<in> set [ip_string ip]. entry_ok e then
            (case first_untrusted r (rev (concat (map entry_ips [ip_string ip]))) of
               Some ip \<Rightarrow> ip_string ip
             | None \<Rightarrow> ip_string (hd (concat (map entry_ips [ip_string ip]))))
          else ip_string peer)"
        using Some True ip get addr ip_string_not_Nil [OF ip(1)] by (intro Resolve_chain) auto
      then show ?thesis using hv ip parse_ip_string [OF ip(1)] by simp
    qed
  qed
qed

text \<open>One address per request. What the middleware writes into the forwarding header is the only
  value that handlers find there, and every later resolution of the same request, by the rate
  limiter or the next proxy code, comes to the same address. The address is the text of the whole
  remote address or the printed form of a parsed one, which determines it.\<close>

theorem resolved_once:
  "header_values (rq_Header (resolved_request r req)) ''X-Forwarded-For'' = [Resolve r req] \<and>
   Resolve r (resolved_request r req) = Resolve r req \<and>
   (Resolve r req = rq_RemoteAddr req \<or> (\<exists>ip. parse_ip (Resolve r req) = Some ip \<and> ip_string ip = Resolve r req))"
  by (rule resolved_same)

text \<open>The exception. A trusted proxy that adds a header line of its own instead of appending to the
  client's line leaves the first line to the client: \<open>Header.Get\<close> returns it and the address in
  it stands for the client.\<close>

theorem first_line_decides:
  assumes "parseRemoteIP (rq_RemoteAddr req) = Some peer" and "isTrusted r peer"
    and "header_values (rq_Header req) ''X-Forwarded-For'' = ip_string chosen # others"
    and "length chosen = 16" and "\<not> isTrusted r chosen"
  shows "Resolve r req = ip_string chosen"
  using Resolve_chain [OF assms(1,2), of "[ip_string chosen]"] assms ip_string_not_Nil [of chosen]
  by (simp add: header_Get_def)

lemma parse_v6_zone: "parse_v6 s = Some a \<Longrightarrow> CHR ''%'' \<in> set s \<Longrightarrow> addr_zone a \<noteq> ''''"
  by (cases "index_of CHR ''%'' s")
    (auto simp: parse_v6_def Let_def index_of_None split: option.splits if_splits)

text \<open>A peer with a link-local address has the port in its identity, another one for each of its
  connections: the zone is no part of an address that \<open>net.ParseIP\<close> reads.\<close>

lemma link_local_identity:
  "Resolve r (forwarded_request ''[fe80::1%eth0]:40001'' []) = ''[fe80::1%eth0]:40001''"
proof -
  have "split_host_port ''[fe80::1%eth0]:40001'' = Some (''fe80::1%eth0'', ''40001'')"
    using split_host_port_brackets [of "''fe80::1%eth0''" "''40001''"] by simp
  then have "parseRemoteIP ''[fe80::1%eth0]:40001'' = None"
    using parse_v6_zone [of "''fe80::1%eth0''"]
    by (auto simp: parseRemoteIP_def parse_ip_def parse_addr_def split: option.splits)
  then show ?thesis by (simp add: Resolve_def forwarded_request_def)
qed

end
