(* ===== verification/AdminAuth.thy ===== *)
theory AdminAuth
  imports ClientIP
begin

text \<open>
  The credentials of the control plane: the bearer check in front of the admin HTTP API
  (\<open>internal/admin/auth.go\<close>) and the interceptors of its gRPC connection
  (\<open>internal/admin/grpc_auth.go\<close>). Main facts: who passes, that what the client interceptor sends is
  what the server accepts, and that a token with white space shuts everybody out.
\<close>

section \<open>HTTP\<close>

text \<open>\<open>subtle.ConstantTimeCompare\<close>, whose result is 1 for equal byte strings.\<close>

definition ConstantTimeCompare :: "string \<Rightarrow> string \<Rightarrow> int" where
  "ConstantTimeCompare x y = (if x = y then 1 else 0)"

definition unauthorized_response :: "response_writer \<Rightarrow> response_writer" where
  "unauthorized_response w =
     http_Error ''Unauthorized'' 401
       (on_header (header_Set ''WWW-Authenticate'' (''Bearer realm='' @ [CHR 0x22] @ ''admin-api'' @ [CHR 0x22])) w)"

text \<open>\<open>upd\<close> applies a change of the response writer to the state of the handlers.\<close>

definition NewAuthMiddleware ::
  "((response_writer \<Rightarrow> response_writer) \<Rightarrow> 's \<Rightarrow> 's) \<Rightarrow> bool \<Rightarrow> string \<Rightarrow> 's http_middleware" where
  "NewAuthMiddleware upd enabled token nxt = (\<lambda>req s.
     if \<not> enabled then nxt req s
     else if token = '''' then Some (upd unauthorized_response s)
     else
       let parts = GoStrings.fields (header_Get (rq_Header req) ''Authorization'')
       in if length parts \<noteq> 2 \<or> \<not> equal_fold (parts ! 0) ''Bearer'' \<or> ConstantTimeCompare token (parts ! 1) = 0
          then Some (upd unauthorized_response s)
          else nxt req s)"

section \<open>gRPC\<close>

text \<open>The metadata of a call, with lower case keys; \<open>None\<close> is a context without metadata.\<close>

type_synonym metadata = "(string \<times> string list) list"

definition md_Get :: "metadata \<Rightarrow> string \<Rightarrow> string list" where
  "md_Get md k = (case map_of md k of None \<Rightarrow> [] | Some vs \<Rightarrow> vs)"

definition grpcAuthorizationHeader :: string where
  "grpcAuthorizationHeader = ''authorization''"

definition AppendToOutgoingContext :: "string \<Rightarrow> string \<Rightarrow> metadata option \<Rightarrow> metadata option" where
  "AppendToOutgoingContext k v ctx =
     (let md = (case ctx of None \<Rightarrow> [] | Some md \<Rightarrow> md)
      in Some (AList.update k (md_Get md k @ [v]) md))"

text \<open>The context that the client interceptor calls the invoker with.\<close>

definition client_context :: "string \<Rightarrow> metadata option \<Rightarrow> metadata option" where
  "client_context token ctx = AppendToOutgoingContext grpcAuthorizationHeader (''Bearer '' @ token) ctx"

definition validGRPCCredentials :: "metadata option \<Rightarrow> string \<Rightarrow> bool" where
  "validGRPCCredentials ctx expectedToken =
     (if expectedToken = '''' then False
      else
        case ctx of
          None \<Rightarrow> False
        | Some md \<Rightarrow>
            (let values = md_Get md grpcAuthorizationHeader
             in if length values \<noteq> 1 then False
                else
                  let parts = GoStrings.fields (values ! 0)
                  in length parts = 2 \<and> equal_fold (parts ! 0) ''Bearer'' \<and>
                     ConstantTimeCompare expectedToken (parts ! 1) = 1))"

text \<open>A gRPC status that is not OK: its code and message.\<close>

datatype grpc_code = Unauthenticated | InvalidArgument | NotFoundCode | OtherCode nat

record rpc_status =
  st_code :: grpc_code
  st_msg :: string

definition server_interceptor ::
  "string \<Rightarrow> ('q \<Rightarrow> 's \<Rightarrow> (rpc_status + 'r) \<times> 's) \<Rightarrow> metadata option \<Rightarrow> 'q \<Rightarrow> 's \<Rightarrow> (rpc_status + 'r) \<times> 's" where
  "server_interceptor token handler ctx req s =
     (if \<not> validGRPCCredentials ctx token
      then (Inl \<lparr>st_code = Unauthenticated, st_msg = ''invalid admin credentials''\<rparr>, s)
      else handler req s)"

section \<open>Facts\<close>

text \<open>The credentials that a header or metadata value presents.\<close>

definition presents :: "string \<Rightarrow> string \<Rightarrow> bool" where
  "presents cred token \<longleftrightarrow> (\<exists>scheme. GoStrings.fields cred = [scheme, token] \<and> equal_fold scheme ''Bearer'')"

lemma presents_parts:
  "presents cred token \<longleftrightarrow>
     (let parts = GoStrings.fields cred
      in length parts = 2 \<and> equal_fold (parts ! 0) ''Bearer'' \<and> token = parts ! 1)"
  by (auto simp: presents_def Let_def length_Suc_conv numeral_2_eq_2)

lemma auth_middleware_eq:
  "NewAuthMiddleware upd enabled token nxt req s =
     (if \<not> enabled \<or> (token \<noteq> '''' \<and> presents (header_Get (rq_Header req) ''Authorization'') token)
      then nxt req s else Some (upd unauthorized_response s))"
  by (simp add: NewAuthMiddleware_def presents_parts ConstantTimeCompare_def Let_def)

lemma valid_credentials_eq:
  "validGRPCCredentials ctx token \<longleftrightarrow>
     token \<noteq> '''' \<and> (\<exists>md cred. ctx = Some md \<and> md_Get md grpcAuthorizationHeader = [cred] \<and> presents cred token)"
  by (auto simp: validGRPCCredentials_def presents_parts ConstantTimeCompare_def Let_def length_Suc_conv
      split: option.splits)

lemma space_len_space [simp]: "space_len (CHR '' '' # s) = 1"
  by (simp add: space_len_def)

lemma fields_aux_word:
  assumes "\<forall>i < length w. space_len (drop i w @ s) = 0"
  shows "fields_aux acc (w @ s) = fields_aux (rev w @ acc) s"
  using assms
proof (induction w arbitrary: acc)
  case (Cons c w)
  have "space_len ((c # w) @ s) = 0" using Cons.prems by (metis drop0 length_greater_0_conv list.discI)
  moreover have "\<forall>i < length w. space_len (drop i w @ s) = 0" using Cons.prems by (metis Suc_less_eq drop_Suc_Cons length_Cons)
  ultimately show ?case using Cons.IH [of "c # acc"] by (simp add: fields_aux.simps [of acc])
qed simp

lemma space_len_letter: "(of_char c :: nat) < 128 \<Longrightarrow> 32 < (of_char c :: nat) \<Longrightarrow> space_len (c # s) = 0"
proof -
  assume c: "(of_char c :: nat) < 128" "32 < (of_char c :: nat)"
  have hd: "\<not> has_prefix (c # s) (x # xs)" if "(of_char x :: nat) \<ge> 128" for x xs
    using that c(1) by (auto simp: has_prefix_def)
  have high: "\<not> has_prefix (c # s) (CHR 0xC2 # xs)" "\<not> has_prefix (c # s) (CHR 0xE1 # xs)"
      "\<not> has_prefix (c # s) (CHR 0xE2 # xs)" "\<not> has_prefix (c # s) (CHR 0xE3 # xs)" for xs
    by (rule hd, simp)+
  have low: "c \<notin> {CHR 0x09, CHR 0x0A, CHR 0x0B, CHR 0x0C, CHR 0x0D, CHR 0x20}"
    using c(2) by auto
  show "space_len (c # s) = 0"
    unfolding space_len_def list.case using high low by (simp only: if_False simp_thms)
qed

lemma fields_bearer: "GoStrings.fields (''Bearer '' @ t) = ''Bearer'' # GoStrings.fields t"
proof -
  have w: "\<forall>i < length ''Bearer''. space_len (drop i ''Bearer'' @ CHR '' '' # t) = 0"
  proof (intro allI impI)
    fix i assume "i < length ''Bearer''"
    then have "i \<in> {0, 1, 2, 3, 4, 5}" by auto
    then show "space_len (drop i ''Bearer'' @ CHR '' '' # t) = 0"
      by (elim insertE emptyE) (simp_all add: space_len_letter)
  qed
  have "fields_aux [] (''Bearer'' @ CHR '' '' # t) = fields_aux (rev ''Bearer'') (CHR '' '' # t)"
    using fields_aux_word [OF w, of "[]"] by simp
  also have "\<dots> = ''Bearer'' # GoStrings.fields t"
    by (simp add: fields_aux.simps [of _ "CHR '' '' # t"] GoStrings.fields_def)
  finally show ?thesis by (simp add: GoStrings.fields_def)
qed

lemma presents_bearer: "presents (''Bearer '' @ t) token \<longleftrightarrow> GoStrings.fields t = [token]"
  unfolding presents_def fields_bearer by auto

text \<open>A field has no white space in it.\<close>

definition spaceless :: "string \<Rightarrow> bool" where
  "spaceless w \<longleftrightarrow> w \<noteq> '''' \<and> (\<forall>i < length w. space_len (drop i w) = 0)"

lemma has_prefix_mono: "has_prefix s p \<Longrightarrow> has_prefix (s @ t) p"
  unfolding has_prefix_prefix by (rule prefix_prefix)

lemma any_if: "((if a then 1 else if b then 2 else if d then 3 else 0 :: nat) \<noteq> 0) = (a \<or> b \<or> d)"
  by simp

lemma space_len_mono: "space_len s \<noteq> 0 \<Longrightarrow> space_len (s @ t) \<noteq> 0"
proof -
  assume s: "space_len s \<noteq> 0"
  then obtain c cs where cs: "s = c # cs" by (cases s) (auto simp: space_len_def)
  define P where "P u \<longleftrightarrow> c \<in> {CHR 0x09, CHR 0x0A, CHR 0x0B, CHR 0x0C, CHR 0x0D, CHR 0x20} \<or>
      (has_prefix u [CHR 0xC2, CHR 0x85] \<or> has_prefix u [CHR 0xC2, CHR 0xA0]) \<or>
      (has_prefix u [CHR 0xE1, CHR 0x9A, CHR 0x80] \<or> has_prefix u [CHR 0xE2, CHR 0x81, CHR 0x9F]
       \<or> has_prefix u [CHR 0xE3, CHR 0x80, CHR 0x80]
       \<or> (has_prefix u [CHR 0xE2, CHR 0x80] \<and> 3 \<le> length u \<and>
          (let b = of_char (u ! 2) :: nat in (128 \<le> b \<and> b \<le> 138) \<or> b \<in> {168, 169, 175})))" for u
  have e: "space_len (c # us) \<noteq> 0 \<longleftrightarrow> P (c # us)" for us
    unfolding space_len_def list.case P_def by (rule any_if)
  have "P s" using s e cs by simp
  then have "P (s @ t)"
    unfolding P_def by (elim disjE) (auto simp: Let_def nth_append intro: has_prefix_mono)
  then show "space_len (s @ t) \<noteq> 0" using e cs by simp
qed

lemma fields_aux_spaceless:
  assumes "\<forall>i < length acc. space_len (drop i (rev acc @ s)) = 0"
  shows "\<forall>w \<in> set (fields_aux acc s). spaceless w"
  using assms
proof (induction acc s rule: fields_aux.induct)
  case (1 cur s)
  have word: "spaceless (rev cur)" if "cur \<noteq> []"
    unfolding spaceless_def
  proof (intro conjI allI impI)
    fix i assume "i < length (rev cur)"
    then have "space_len (drop i (rev cur) @ s) = 0" using 1(3) by simp
    then show "space_len (drop i (rev cur)) = 0" using space_len_mono by metis
  qed (use that in simp)
  show ?case
  proof (cases s)
    case Nil
    then show ?thesis using word by (simp add: fields_aux.simps [of cur])
  next
    case (Cons c cs)
    show ?thesis
    proof (cases "space_len s = 0")
      case True
      have "\<forall>i < length (c # cur). space_len (drop i (rev (c # cur) @ cs)) = 0"
      proof (intro allI impI)
        fix i assume "i < length (c # cur)"
        then have "i < length cur \<or> i = length cur" by auto
        then show "space_len (drop i (rev (c # cur) @ cs)) = 0"
        proof
          assume "i < length cur"
          with 1(3) Cons show ?thesis by simp
        next
          assume "i = length cur"
          then show ?thesis using True Cons by simp
        qed
      qed
      from 1(1) [OF Cons True this] show ?thesis using True Cons by (simp add: fields_aux.simps [of cur])
    next
      case False
      from 1(2) [OF Cons False] have "\<forall>w \<in> set (fields_aux [] (drop (space_len s) s)). spaceless w" by simp
      with False Cons word show ?thesis by (simp add: fields_aux.simps [of cur])
    qed
  qed
qed

lemma fields_of_spaceless: "spaceless w \<Longrightarrow> GoStrings.fields w = [w]"
  using fields_aux_word [of w "[]" "[]"]
  by (simp add: spaceless_def GoStrings.fields_def fields_aux.simps [of "rev w" "[]"])

lemma presents_spaceless: "presents cred token \<Longrightarrow> GoStrings.fields token = [token]"
proof -
  assume "presents cred token"
  moreover have "\<forall>w \<in> set (fields_aux [] cred). spaceless w" by (rule fields_aux_spaceless) simp
  ultimately show "GoStrings.fields token = [token]"
    by (intro fields_of_spaceless) (auto simp: presents_def GoStrings.fields_def)
qed

text \<open>C33: what the admin API's client interceptor sends, the proxy's interceptor accepts: with the same
  token on both sides a call passes unless the caller's context already has an authorization entry,
  and with two different tokens it never does. White space around a token in the environment of the
  client does no harm; a token with white space inside is refused.\<close>

theorem grpc_credentials:
  "validGRPCCredentials (client_context token ctx) expected \<longleftrightarrow>
     expected \<noteq> '''' \<and> GoStrings.fields token = [expected] \<and>
     md_Get (case ctx of None \<Rightarrow> [] | Some md \<Rightarrow> md) ''authorization'' = []"
  by (auto simp: valid_credentials_eq client_context_def AppendToOutgoingContext_def Let_def md_Get_def
      grpcAuthorizationHeader_def update_conv presents_bearer [simplified])

text \<open>A token with white space in it cannot be presented: with such a token in
  \<open>ADMIN_API_TOKEN\<close> (or \<open>ADMIN_GRPC_TOKEN\<close>) the process starts, and refuses every
  request.\<close>

theorem token_with_space_refuses_all:
  assumes "GoStrings.fields token \<noteq> [token]"
  shows "NewAuthMiddleware upd True token nxt req s = Some (upd unauthorized_response s)"
    and "\<not> validGRPCCredentials ctx token"
  using assms presents_spaceless by (auto simp: auth_middleware_eq valid_credentials_eq)

end
