(* ===== verification/AdminServer.thy ===== *)
theory AdminServer
  imports AdminProto AdminAuth
begin

text \<open>
  The gRPC service of the control plane (\<open>internal/admin/grpc\<close>): one function for each method, on
  the runtime and the file system, with its guards in the order of the code; the events are the
  callbacks that the runtime makes. Main facts: a method either answers without touching the
  runtime, or runs the operation of the runtime that belongs to it and reports how that went; a call
  without credentials does nothing.
\<close>

section \<open>Methods that change the configuration\<close>

type_synonym admin_result = "basic_response \<times> runtime \<times> fs \<times> rt_event list"

definition refuse :: "string \<Rightarrow> runtime \<Rightarrow> fs \<Rightarrow> admin_result" where
  "refuse msg rt fs = (fail msg, rt, fs, [])"

definition run_update :: "string \<Rightarrow> rt_result \<Rightarrow> admin_result" where
  "run_update okmsg r =
     (case r of
        (Some e, rt, fs, evs) \<Rightarrow> (fail e, rt, fs, evs)
      | (None, rt, fs, evs) \<Rightarrow> (success okmsg, rt, fs, evs))"

definition ag_AddBackend :: "env \<Rightarrow> io \<Rightarrow> pb_backend \<Rightarrow> runtime \<Rightarrow> fs \<Rightarrow> admin_result" where
  "ag_AddBackend E io req rt fs =
     (if pb_Id req = '''' then refuse ''id cannot be empty'' rt fs
      else if pb_Url req = '''' then refuse ''url cannot be empty'' rt fs
      else if sint (pb_Weight req) \<le> 0 then refuse ''weight must be positive'' rt fs
      else run_update ''Backend added successfully''
             (rt_AddBackend E io \<lparr>bc_Id = pb_Id req, bc_URL = pb_Url req, bc_Weight = pb_Weight req,
                                   bc_Enabled = pb_Enabled req\<rparr> rt fs))"

definition ag_UpdateBackend :: "env \<Rightarrow> io \<Rightarrow> pb_backend \<Rightarrow> runtime \<Rightarrow> fs \<Rightarrow> admin_result" where
  "ag_UpdateBackend E io req rt fs =
     (if pb_Id req = '''' then refuse ''id cannot be empty'' rt fs
      else if sint (pb_Weight req) \<le> 0 then refuse ''weight must be positive'' rt fs
      else run_update ''Backend updated successfully''
             (rt_UpdateBackend E io (pb_Id req) (pb_Url req) (pb_Weight req) (pb_Enabled req) rt fs))"

definition ag_RemoveBackend :: "env \<Rightarrow> io \<Rightarrow> string \<Rightarrow> runtime \<Rightarrow> fs \<Rightarrow> admin_result" where
  "ag_RemoveBackend E io i rt fs =
     (if i = '''' then refuse ''id cannot be empty'' rt fs
      else run_update ''Backend removed successfully'' (rt_RemoveBackend E io i rt fs))"

definition ag_SetServerConfig :: "env \<Rightarrow> io \<Rightarrow> pb_server_config option \<Rightarrow> runtime \<Rightarrow> fs \<Rightarrow> admin_result" where
  "ag_SetServerConfig E io req rt fs =
     (case req of
        None \<Rightarrow> refuse ''server config is required'' rt fs
      | Some cfg \<Rightarrow>
          if psc_ProxyPort cfg \<noteq> 0 \<and> (sint (psc_ProxyPort cfg) < 1 \<or> sint (psc_ProxyPort cfg) > 65535)
          then refuse ''invalid proxy port'' rt fs
          else if psc_AdminGrpcPort cfg \<noteq> 0 \<and>
            (sint (psc_AdminGrpcPort cfg) < 1 \<or> sint (psc_AdminGrpcPort cfg) > 65535)
          then refuse ''invalid admin grpc port'' rt fs
          else run_update ''Server config updated''
                 (rt_UpdateServerConfig E io (psc_ProxyPort cfg) (psc_AdminGrpcPort cfg) rt fs))"

definition ag_SetLoadBalancer :: "env \<Rightarrow> io \<Rightarrow> string option \<Rightarrow> runtime \<Rightarrow> fs \<Rightarrow> admin_result" where
  "ag_SetLoadBalancer E io req rt fs =
     (case req of
        None \<Rightarrow> refuse ''load balancer strategy is required'' rt fs
      | Some strategy \<Rightarrow>
          if strategy = '''' then refuse ''load balancer strategy is required'' rt fs
          else run_update ''Load balancer config updated'' (rt_UpdateLoadBalancerConfig E io strategy rt fs))"

definition ag_AddVirtualHost :: "env \<Rightarrow> io \<Rightarrow> pb_virtual_host option \<Rightarrow> runtime \<Rightarrow> fs \<Rightarrow> admin_result" where
  "ag_AddVirtualHost E io vh rt fs =
     run_update ''Virtual host added'' (rt_AddVirtualHost E io (VhostFromPB vh) rt fs)"

definition ag_RemoveVirtualHost :: "env \<Rightarrow> io \<Rightarrow> string \<Rightarrow> runtime \<Rightarrow> fs \<Rightarrow> admin_result" where
  "ag_RemoveVirtualHost E io domain rt fs =
     run_update ''Virtual host removed'' (rt_RemoveVirtualHost E io domain rt fs)"

definition ag_UpdateVirtualHost ::
  "env \<Rightarrow> io \<Rightarrow> string \<Rightarrow> pb_virtual_host option \<Rightarrow> runtime \<Rightarrow> fs \<Rightarrow> admin_result" where
  "ag_UpdateVirtualHost E io domain vh rt fs =
     run_update ''Virtual host updated'' (rt_UpdateVirtualHost E io domain (VhostFromPB vh) rt fs)"

definition ag_SetVirtualHostSecurityPolicy ::
  "env \<Rightarrow> io \<Rightarrow> string \<Rightarrow> string \<Rightarrow> runtime \<Rightarrow> fs \<Rightarrow> admin_result" where
  "ag_SetVirtualHostSecurityPolicy E io domain policyId rt fs =
     (if domain = '''' \<or> policyId = '''' then refuse ''domain and policy_id are required'' rt fs
      else run_update ''virtual host security policy updated''
             (rt_SetVirtualHostSecurityPolicy E io domain policyId rt fs))"

definition ag_UpsertPolicy :: "env \<Rightarrow> io \<Rightarrow> pb_security_policy option \<Rightarrow> runtime \<Rightarrow> fs \<Rightarrow> admin_result" where
  "ag_UpsertPolicy E io p rt fs =
     (if p = None then refuse ''policy is required'' rt fs
      else run_update ''security policy saved'' (rt_UpsertPolicy E io (SecurityPolicyFromPB p) rt fs))"

section \<open>Methods that read\<close>

text \<open>The loops append to a nil slice.\<close>

definition ag_GetBackends :: "runtime \<Rightarrow> pb_backend_response list" where
  "ag_GetBackends rt = map backendToPB (rt_GetBackendsResponse rt)"

definition ag_GetBackend :: "string \<Rightarrow> runtime \<Rightarrow> rpc_status + pb_backend_response" where
  "ag_GetBackend i rt =
     (case rt_GetBackendResponse rt i of
        None \<Rightarrow> Inl \<lparr>st_code = InvalidArgument, st_msg = ''id does not exists''\<rparr>
      | Some b \<Rightarrow>
          Inr \<lparr>pbr_Id = br_Id b, pbr_Url = br_URL b, pbr_Weight = br_Weight b, pbr_Enabled = br_Enabled b,
               pbr_Active = br_Active b, pbr_ErrorCount = br_ErrorCount b, pbr_LastError = br_LastError b\<rparr>)"

definition ag_GetServerConfig :: "runtime \<Rightarrow> pb_server_config" where
  "ag_GetServerConfig rt = ServerConfigToPB (rt_GetServerConfig rt)"

definition ag_GetLoadBalancer :: "runtime \<Rightarrow> string" where
  "ag_GetLoadBalancer rt = LoadBalancerToPB (rt_GetLoadBalancerConfig rt)"

definition ag_GetVirtualHosts :: "runtime \<Rightarrow> pb_virtual_host list" where
  "ag_GetVirtualHosts rt = map VhostToPB (rt_GetVirtualHosts rt)"

definition ag_GetVirtualHost :: "string \<Rightarrow> runtime \<Rightarrow> rpc_status + pb_virtual_host" where
  "ag_GetVirtualHost domain rt =
     (case rt_GetVirtualHost rt domain of
        None \<Rightarrow> Inl \<lparr>st_code = NotFoundCode, st_msg = ''virtual host not found''\<rparr>
      | Some v \<Rightarrow> Inr (VhostToPB v))"

definition ag_GetVirtualHostSecurity :: "string \<Rightarrow> runtime \<Rightarrow> rpc_status + pb_virtual_host_security" where
  "ag_GetVirtualHostSecurity domain rt =
     (if domain = '''' then Inl \<lparr>st_code = InvalidArgument, st_msg = ''domain required''\<rparr>
      else
        case rt_GetVirtualHostSecurity rt domain of
          None \<Rightarrow> Inl \<lparr>st_code = NotFoundCode, st_msg = ''virtual host not found''\<rparr>
        | Some sec \<Rightarrow> Inr (VirtualHostSecurityToPB sec))"

definition ag_GetPolicies :: "runtime \<Rightarrow> pb_security_policy list" where
  "ag_GetPolicies rt = PoliciesToPB (rt_GetPolicies rt)"

section \<open>The service\<close>

text \<open>The calls of the generated client and server, and their replies.\<close>

datatype admin_call =
    C_GetBackends
  | C_GetBackend string
  | C_AddBackend pb_backend
  | C_RemoveBackend string
  | C_UpdateBackend pb_backend
  | C_GetVirtualHosts
  | C_GetVirtualHost string
  | C_GetVirtualHostSecurity string
  | C_SetVirtualHostSecurityPolicy string string
  | C_AddVirtualHost "pb_virtual_host option"
  | C_RemoveVirtualHost string
  | C_UpdateVirtualHost string "pb_virtual_host option"
  | C_GetServerConfig
  | C_SetServerConfig "pb_server_config option"
  | C_GetLoadBalancer
  | C_SetLoadBalancer "string option"
  | C_GetPolicies
  | C_UpsertPolicy "pb_security_policy option"

datatype admin_reply =
    R_Basic basic_response
  | R_Backends "pb_backend_response list"
  | R_Backend pb_backend_response
  | R_VirtualHosts "pb_virtual_host list"
  | R_VirtualHost pb_virtual_host
  | R_Security pb_virtual_host_security
  | R_ServerConfig pb_server_config
  | R_LoadBalancer string
  | R_Policies "pb_security_policy list"

text \<open>What a call works on: the runtime, the file system, and the callbacks made so far.\<close>

record control =
  ct_rt :: runtime
  ct_fs :: fs
  ct_events :: "rt_event list"

definition changed :: "admin_result \<Rightarrow> control \<Rightarrow> (rpc_status + admin_reply) \<times> control" where
  "changed r c =
     (case r of (resp, rt, fs, evs) \<Rightarrow>
        (Inr (R_Basic resp), \<lparr>ct_rt = rt, ct_fs = fs, ct_events = ct_events c @ evs\<rparr>))"

fun serve_call :: "env \<Rightarrow> io \<Rightarrow> admin_call \<Rightarrow> control \<Rightarrow> (rpc_status + admin_reply) \<times> control" where
  "serve_call E io C_GetBackends c = (Inr (R_Backends (ag_GetBackends (ct_rt c))), c)"
| "serve_call E io (C_GetBackend i) c = (map_sum id R_Backend (ag_GetBackend i (ct_rt c)), c)"
| "serve_call E io (C_AddBackend b) c = changed (ag_AddBackend E io b (ct_rt c) (ct_fs c)) c"
| "serve_call E io (C_RemoveBackend i) c = changed (ag_RemoveBackend E io i (ct_rt c) (ct_fs c)) c"
| "serve_call E io (C_UpdateBackend b) c = changed (ag_UpdateBackend E io b (ct_rt c) (ct_fs c)) c"
| "serve_call E io C_GetVirtualHosts c = (Inr (R_VirtualHosts (ag_GetVirtualHosts (ct_rt c))), c)"
| "serve_call E io (C_GetVirtualHost d) c = (map_sum id R_VirtualHost (ag_GetVirtualHost d (ct_rt c)), c)"
| "serve_call E io (C_GetVirtualHostSecurity d) c =
     (map_sum id R_Security (ag_GetVirtualHostSecurity d (ct_rt c)), c)"
| "serve_call E io (C_SetVirtualHostSecurityPolicy d p) c =
     changed (ag_SetVirtualHostSecurityPolicy E io d p (ct_rt c) (ct_fs c)) c"
| "serve_call E io (C_AddVirtualHost v) c = changed (ag_AddVirtualHost E io v (ct_rt c) (ct_fs c)) c"
| "serve_call E io (C_RemoveVirtualHost d) c = changed (ag_RemoveVirtualHost E io d (ct_rt c) (ct_fs c)) c"
| "serve_call E io (C_UpdateVirtualHost d v) c =
     changed (ag_UpdateVirtualHost E io d v (ct_rt c) (ct_fs c)) c"
| "serve_call E io C_GetServerConfig c = (Inr (R_ServerConfig (ag_GetServerConfig (ct_rt c))), c)"
| "serve_call E io (C_SetServerConfig s) c = changed (ag_SetServerConfig E io s (ct_rt c) (ct_fs c)) c"
| "serve_call E io C_GetLoadBalancer c = (Inr (R_LoadBalancer (ag_GetLoadBalancer (ct_rt c))), c)"
| "serve_call E io (C_SetLoadBalancer s) c = changed (ag_SetLoadBalancer E io s (ct_rt c) (ct_fs c)) c"
| "serve_call E io C_GetPolicies c = (Inr (R_Policies (ag_GetPolicies (ct_rt c))), c)"
| "serve_call E io (C_UpsertPolicy p) c = changed (ag_UpsertPolicy E io p (ct_rt c) (ct_fs c)) c"

text \<open>The server with its interceptor, as \<open>NewAdminGRPCServer\<close> builds it; it needs a token.\<close>

definition NewAdminGRPCServer ::
  "env \<Rightarrow> io \<Rightarrow> string \<Rightarrow> go_error + (metadata option \<Rightarrow> admin_call \<Rightarrow> control \<Rightarrow> (rpc_status + admin_reply) \<times> control)"
  where
  "NewAdminGRPCServer E io token =
     (if token = '''' then Inl ''ADMIN_GRPC_TOKEN is required''
      else Inr (server_interceptor token (serve_call E io)))"

section \<open>What a call does\<close>

text \<open>The operation of the runtime behind a call that changes something, the reason for which the
  server refuses it beforehand, and the message of its success.\<close>

fun call_op :: "admin_call \<Rightarrow> rt_op option" where
  "call_op (C_AddBackend b) = Some (RT_AddBackend
     \<lparr>bc_Id = pb_Id b, bc_URL = pb_Url b, bc_Weight = pb_Weight b, bc_Enabled = pb_Enabled b\<rparr>)"
| "call_op (C_RemoveBackend i) = Some (RT_RemoveBackend i)"
| "call_op (C_UpdateBackend b) = Some (RT_UpdateBackend (pb_Id b) (pb_Url b) (pb_Weight b) (pb_Enabled b))"
| "call_op (C_SetVirtualHostSecurityPolicy d p) = Some (RT_SetVirtualHostSecurityPolicy d p)"
| "call_op (C_AddVirtualHost v) = Some (RT_AddVirtualHost (VhostFromPB v))"
| "call_op (C_RemoveVirtualHost d) = Some (RT_RemoveVirtualHost d)"
| "call_op (C_UpdateVirtualHost d v) = Some (RT_UpdateVirtualHost d (VhostFromPB v))"
| "call_op (C_SetServerConfig s) = map_option (\<lambda>s. RT_UpdateServer (psc_ProxyPort s) (psc_AdminGrpcPort s)) s"
| "call_op (C_SetLoadBalancer s) = map_option RT_UpdateLoadBalancer s"
| "call_op (C_UpsertPolicy p) = map_option (\<lambda>p. RT_UpsertPolicy (SecurityPolicyFromPB (Some p))) p"
| "call_op _ = None"

fun reads_only :: "admin_call \<Rightarrow> bool" where
  "reads_only C_GetBackends = True"
| "reads_only (C_GetBackend _) = True"
| "reads_only C_GetVirtualHosts = True"
| "reads_only (C_GetVirtualHost _) = True"
| "reads_only (C_GetVirtualHostSecurity _) = True"
| "reads_only C_GetServerConfig = True"
| "reads_only C_GetLoadBalancer = True"
| "reads_only C_GetPolicies = True"
| "reads_only _ = False"

lemma changed_cases:
  assumes "changed (run_update okmsg (rt_exec E io op (ct_rt c) (ct_fs c))) c = (r, c')"
  obtains (ok) rt fs evs where "rt_exec E io op (ct_rt c) (ct_fs c) = (None, rt, fs, evs)"
      "r = Inr (R_Basic (success okmsg))" "c' = \<lparr>ct_rt = rt, ct_fs = fs, ct_events = ct_events c @ evs\<rparr>"
    | (failed) e rt fs evs where "rt_exec E io op (ct_rt c) (ct_fs c) = (Some e, rt, fs, evs)"
      "r = Inr (R_Basic (fail e))" "c' = \<lparr>ct_rt = rt, ct_fs = fs, ct_events = ct_events c @ evs\<rparr>"
proof -
  obtain x rt fs evs where x: "rt_exec E io op (ct_rt c) (ct_fs c) = (x, rt, fs, evs)" by (metis prod_cases4)
  show thesis
    by (cases x) (use assms x in \<open>auto simp: changed_def run_update_def intro: ok failed\<close>)
qed

lemma changed_refuse [simp]: "changed (refuse msg (ct_rt c) (ct_fs c)) c = (Inr (R_Basic (fail msg)), c)"
  by (simp add: changed_def refuse_def)

text \<open>A call that is not read-only is refused or runs its operation.\<close>

lemma mutating_shape:
  assumes "\<not> reads_only call"
  shows "(\<exists>msg. serve_call E io call c = (Inr (R_Basic (fail msg)), c)) \<or>
    (\<exists>op okmsg. call_op call = Some op \<and>
       serve_call E io call c = changed (run_update okmsg (rt_exec E io op (ct_rt c) (ct_fs c))) c)"
  using assms
  by (cases call)
    (auto simp: ag_AddBackend_def ag_UpdateBackend_def ag_RemoveBackend_def ag_SetServerConfig_def
      ag_SetLoadBalancer_def ag_AddVirtualHost_def ag_RemoveVirtualHost_def ag_UpdateVirtualHost_def
      ag_SetVirtualHostSecurityPolicy_def ag_UpsertPolicy_def split: option.splits)

lemma serve_call_cases:
  assumes "serve_call E io call c = (r, c')"
  obtains (kept) "c' = c" "reads_only call \<or> (\<exists>msg. r = Inr (R_Basic (fail msg)))"
    | (ok) op okmsg rt fs evs where "call_op call = Some op"
      "rt_exec E io op (ct_rt c) (ct_fs c) = (None, rt, fs, evs)"
      "r = Inr (R_Basic (success okmsg))" "c' = \<lparr>ct_rt = rt, ct_fs = fs, ct_events = ct_events c @ evs\<rparr>"
    | (failed) op e rt fs evs where "call_op call = Some op"
      "rt_exec E io op (ct_rt c) (ct_fs c) = (Some e, rt, fs, evs)"
      "r = Inr (R_Basic (fail e))" "c' = \<lparr>ct_rt = rt, ct_fs = fs, ct_events = ct_events c @ evs\<rparr>"
proof (cases "reads_only call")
  case True
  with assms have "c' = c" by (cases call) auto
  with True show thesis by (intro kept) simp_all
next
  case False
  from mutating_shape [OF False, of E io c] show thesis
  proof (elim disjE exE conjE)
    fix msg
    assume "serve_call E io call c = (Inr (R_Basic (fail msg)), c)"
    with assms show thesis by (intro kept) auto
  next
    fix op okmsg
    assume op: "call_op call = Some op"
      "serve_call E io call c = changed (run_update okmsg (rt_exec E io op (ct_rt c) (ct_fs c))) c"
    then have "changed (run_update okmsg (rt_exec E io op (ct_rt c) (ct_fs c))) c = (r, c')" using assms by simp
    then show thesis
      by (cases rule: changed_cases) (use op ok failed in blast)+
  qed
qed

section \<open>Properties\<close>

lemma success_fail [simp]: "success m \<noteq> fail e" "fail e \<noteq> success m"
  by (simp_all add: success_def fail_def)

lemma reads_no_success: "reads_only call \<Longrightarrow> fst (serve_call E io call c) \<noteq> Inr (R_Basic b)"
  by (cases call) (auto simp: map_sum_def split: sum.splits)

lemma call_effect:
  assumes "rt_reach E path (ct_rt c) (ct_fs c)" and "json_roundtrip E"
    and "server_interceptor token (serve_call E io) ctx call c = (r, c')"
  shows "rt_reach E path (ct_rt c') (ct_fs c') \<and>
    (if \<exists>msg. r = Inr (R_Basic (success msg)) then
       validGRPCCredentials ctx token \<and>
       (\<exists>op evs. call_op call = Some op \<and> ct_events c' = ct_events c @ evs \<and>
          rt_exec E io op (ct_rt c) (ct_fs c) = (None, ct_rt c', ct_fs c', evs))
     else ct_rt c' = ct_rt c \<and> ct_events c' = ct_events c \<and> ct_fs c' path = ct_fs c path)"
proof (cases "validGRPCCredentials ctx token")
  case True
  then have s: "serve_call E io call c = (r, c')" using assms(3) by (simp add: server_interceptor_def)
  then show ?thesis
  proof (cases rule: serve_call_cases)
    case kept
    have "\<nexists>msg. r = Inr (R_Basic (success msg))"
      using kept(2) reads_no_success [of call E io c] s by auto
    then show ?thesis using kept(1) assms(1) by simp
  next
    case (ok op okmsg rt fs evs)
    then show ?thesis using True rr_op [OF assms(1) ok(2)] by auto
  next
    case (failed op e rt fs evs)
    from failure_keeps [OF assms(1,2) failed(2)] show ?thesis
      using failed rr_op [OF assms(1) failed(2)] by auto
  qed
qed (use assms in \<open>auto simp: server_interceptor_def\<close>)

text \<open>C32: a call of the control plane takes effect exactly if its reply says so. With a reply of success
  the caller had the credentials and the operation of the runtime that belongs to the call ran and
  succeeded, callbacks included; with any other reply (a refusal, a failed operation, missing
  credentials, a read) the runtime, its configuration file and the callbacks are as before. So the
  control plane never leaves the reachable states of the runtime.\<close>

theorem control_plane_effect:
  assumes "rt_reach E path (ct_rt c) (ct_fs c)" and "json_roundtrip E"
    and "server_interceptor token (serve_call E io) ctx call c = (r, c')"
  shows "rt_reach E path (ct_rt c') (ct_fs c') \<and>
    (if \<exists>msg. r = Inr (R_Basic (success msg)) then
       validGRPCCredentials ctx token \<and>
       (\<exists>op evs. call_op call = Some op \<and> ct_events c' = ct_events c @ evs \<and>
          rt_exec E io op (ct_rt c) (ct_fs c) = (None, ct_rt c', ct_fs c', evs))
     else ct_rt c' = ct_rt c \<and> ct_events c' = ct_events c \<and> ct_fs c' path = ct_fs c path)"
  by (rule call_effect [OF assms])

definition sample_control :: control where
  "sample_control = \<lparr>ct_rt = sample_runtime, ct_fs = sample_fs, ct_events = []\<rparr>"

lemma secret_valid: "validGRPCCredentials (client_context ''secret'' None) ''secret''"
proof -
  have "GoStrings.fields ''secret'' = [''secret'']"
  proof (rule fields_of_spaceless, unfold spaceless_def, intro conjI allI impI)
    fix i assume "i < length ''secret''"
    then have "i \<in> {0, 1, 2, 3, 4, 5}" by auto
    then show "space_len (drop i ''secret'') = 0" by (elim insertE emptyE) (simp_all add: space_len_letter)
  qed simp
  then show ?thesis
    by (simp add: valid_credentials_eq client_context_def AppendToOutgoingContext_def md_Get_def
        grpcAuthorizationHeader_def presents_bearer [simplified])
qed

theorem control_plane_effect_witness:
  "\<exists>r c'. server_interceptor ''secret'' (serve_call sample_env io_ok)
       (client_context ''secret'' None) (C_RemoveBackend '''') sample_control = (r, c') \<and>
     ct_rt c' = sample_runtime"
proof -
  have s: "server_interceptor ''secret'' (serve_call sample_env io_ok)
       (client_context ''secret'' None) (C_RemoveBackend '''') sample_control =
       (Inr (R_Basic (fail ''id cannot be empty'')), sample_control)"
    using secret_valid by (simp add: server_interceptor_def ag_RemoveBackend_def)
  have "rt_reach sample_env sample_path (ct_rt sample_control) (ct_fs sample_control)"
    using sample_reach by (simp add: sample_control_def)
  from control_plane_effect [OF this sample_env_simps(1) s] s show ?thesis
    by (simp add: sample_control_def)
qed

text \<open>C35: nothing is lost in what the control plane reports of a reachable runtime: the ports of the
  server configuration, which are \<open>int\<close> in the configuration and \<open>int32\<close> in the protocol, arrive
  as they are and between 1 and 65535; every configured backend and virtual host is in its list once,
  in order; and each virtual host can be asked for by its domain.\<close>

theorem reports_exact:
  assumes "rt_reach E path rt fs" and "json_roundtrip E"
  shows "sint (psc_ProxyPort (ag_GetServerConfig rt)) = sint (sc_ProxyPort (rt_GetServerConfig rt)) \<and>
    sint (psc_AdminGrpcPort (ag_GetServerConfig rt)) = sint (sc_AdminGrpcPort (rt_GetServerConfig rt)) \<and>
    sint (psc_ProxyPort (ag_GetServerConfig rt)) \<in> {1 .. 65535} \<and>
    map pbr_Id (ag_GetBackends rt) = map bc_Id (non_nil (rt_GetBackends rt)) \<and>
    distinct (map pbr_Id (ag_GetBackends rt)) \<and>
    map (VhostFromPB \<circ> Some) (ag_GetVirtualHosts rt) = rt_GetVirtualHosts rt \<and>
    (\<forall>pv \<in> set (ag_GetVirtualHosts rt). ag_GetVirtualHost (pvh_Domain pv) rt = Inr pv)"
proof -
  note inv = rt_reach_inv [OF assms]
  note valid = inv_valid [OF ri_svc [OF inv]]
  have raw: "sn_Raw (rs_Snapshot (State rt)) = svc_current (rt_Config rt)"
    and sn: "rs_Snapshot (State rt) = build_snapshot (svc_current (rt_Config rt))"
    using ri_snapshot [OF inv] inv_snapshot [OF ri_svc [OF inv]] by (simp_all add: State_def build_snapshot_def)
  have ports: "sint (sc_ProxyPort (rt_GetServerConfig rt)) \<in> {1 .. 65535}"
      "sint (sc_AdminGrpcPort (rt_GetServerConfig rt)) \<in> {1 .. 65535}"
    using valid by (simp_all add: valid_config_def rt_GetServerConfig_def raw)
  have ids: "map pbr_Id (ag_GetBackends rt) = map bc_Id (backend_list (svc_current (rt_Config rt)))"
    by (simp add: ag_GetBackends_def rt_GetBackendsResponse_def state_Backends_def backendToPB_def raw
        backend_list_def backend_item_def Let_def comp_def split: option.splits)
  have "ag_GetVirtualHost (pvh_Domain (VhostToPB v)) rt = Inr (VhostToPB v)" if "v \<in> set (rt_GetVirtualHosts rt)" for v
  proof -
    have "sn_VHostsByDomain (build_snapshot (svc_current (rt_Config rt))) (vh_Domain v) = Some v"
      using that vc_domains [OF valid] by (simp add: rt_GetVirtualHosts_def raw snapshot_vhost_iff)
    then show ?thesis by (simp add: ag_GetVirtualHost_def rt_GetVirtualHost_def sn VhostToPB_def)
  qed
  then show ?thesis
    using port_cast [OF ports(1)] port_cast [OF ports(2)] ports ids vc_ids [OF valid]
    by (auto simp: ag_GetServerConfig_def ServerConfigToPB_def ag_GetVirtualHosts_def comp_def vhost_roundtrip
        rt_GetBackends_def raw backend_list_def)
qed

theorem reports_exact_witness:
  "sint (psc_ProxyPort (ag_GetServerConfig sample_runtime)) \<in> {1 .. 65535} \<and>
   distinct (map pbr_Id (ag_GetBackends sample_runtime))"
  using reports_exact [OF sample_reach sample_env_simps(1)] by blast

end
