(* ===== verification/HttpMux.thy ===== *)
theory HttpMux
  imports ClientIP "HOL-Library.List_Lexorder" "HOL-Library.Char_ord"
begin

text \<open>
  \<open>net/http\<close>'s \<open>ServeMux\<close>, which the public, the operational and the admin server dispatch
  with: how a URL path is escaped and cleaned, how a pattern with a method, literal segments and
  wildcards matches, which of several matching patterns is taken, and the answers the mux gives
  itself (400, 301, 404, 405). Main facts: cleaned paths, and the dispatch of a path with no
  special segments.
\<close>

section \<open>Escaped paths\<close>

definition hex_value :: "char \<Rightarrow> nat option" where
  "hex_value c =
     (let n = of_char c :: nat
      in if 48 \<le> n \<and> n \<le> 57 then Some (n - 48)
         else if 97 \<le> n \<and> n \<le> 102 then Some (n - 87)
         else if 65 \<le> n \<and> n \<le> 70 then Some (n - 55) else None)"

text \<open>\<open>url.PathUnescape\<close>; \<open>None\<close> is an error.\<close>

fun path_unescape :: "string \<Rightarrow> string option" where
  "path_unescape [] = Some []"
| "path_unescape (c # cs) =
     (if c = CHR ''%'' then
        (case cs of
           a # b # rest \<Rightarrow>
             (case (hex_value a, hex_value b) of
                (Some x, Some y) \<Rightarrow> map_option ((#) (char_of (16 * x + y))) (path_unescape rest)
              | _ \<Rightarrow> None)
         | _ \<Rightarrow> None)
      else map_option ((#) c) (path_unescape cs))"

definition hex_digit :: "nat \<Rightarrow> char" where
  "hex_digit n = char_of (if n < 10 then 48 + n else 55 + n)"

text \<open>The bytes that \<open>url.URL\<close> leaves alone in a path: letters, digits and these marks.\<close>

definition path_plain :: "char \<Rightarrow> bool" where
  "path_plain c =
     (let n = of_char c :: nat
      in (48 \<le> n \<and> n \<le> 57) \<or> (65 \<le> n \<and> n \<le> 90) \<or> (97 \<le> n \<and> n \<le> 122) \<or>
         c \<in> set ''-_.~$&+,/:;=@'')"

definition escape_path :: "string \<Rightarrow> string" where
  "escape_path s =
     concat (map (\<lambda>c. if path_plain c then [c]
       else (let n = of_char c :: nat in [CHR ''%'', hex_digit (n div 16), hex_digit (n mod 16)])) s)"

definition valid_encoded :: "string \<Rightarrow> bool" where
  "valid_encoded s \<longleftrightarrow>
     list_all (\<lambda>c. path_plain c \<or> c \<in> set ''!()*[]%'' \<or> c = CHR 0x27) s"

definition EscapedPath :: "request \<Rightarrow> string" where
  "EscapedPath req =
     (if rq_URL_RawPath req \<noteq> '''' \<and> valid_encoded (rq_URL_RawPath req)
         \<and> path_unescape (rq_URL_RawPath req) = Some (rq_URL_Path req)
      then rq_URL_RawPath req
      else if rq_URL_Path req = ''*'' then ''*''
      else escape_path (rq_URL_Path req))"

section \<open>Clean paths\<close>

text \<open>\<open>path.Clean\<close> of a rooted path: empty and \<open>.\<close> elements are dropped and \<open>..\<close> removes the
  element before it. \<open>clean_path\<close> keeps a trailing slash.\<close>

fun clean_elements :: "string list \<Rightarrow> string list \<Rightarrow> string list" where
  "clean_elements [] done = rev done"
| "clean_elements (w # ws) done =
     (if w = '''' \<or> w = ''.'' then clean_elements ws done
      else if w = ''..'' then clean_elements ws (tl done)
      else clean_elements ws (w # done))"

definition rooted :: "string list \<Rightarrow> string" where
  "rooted ws = (if ws = [] then ''/'' else concat (map ((#) (CHR ''/'')) ws))"

definition clean_path :: "string \<Rightarrow> string" where
  "clean_path s =
     (if s = '''' then ''/''
      else
        let p = (if hd s = CHR ''/'' then s else CHR ''/'' # s);
            np = rooted (clean_elements (split_on CHR ''/'' p) [])
        in if last p = CHR ''/'' \<and> np \<noteq> ''/'' then np @ ''/'' else np)"

section \<open>Patterns\<close>

text \<open>A pattern without a host: its method (empty for any) and its segments; \<open>Multi\<close> is the
  nameless rest that a trailing slash stands for.\<close>

datatype seg = Lit string | Wild string | Multi

record mux_pattern =
  mp_method :: string
  mp_segs :: "seg list"

text \<open>A handler gets the path values of its request.\<close>

type_synonym path_values = "(string \<times> string) list"
type_synonym 's mux_handler = "path_values \<Rightarrow> 's http_handler"
type_synonym 'h mux = "(mux_pattern \<times> 'h) list"

definition first_segment :: "string \<Rightarrow> string \<times> string" where
  "first_segment path =
     (if path = ''/'' then (''/'', '''')
      else
        let p = drop 1 path;
            w = takeWhile (\<lambda>c. c \<noteq> CHR ''/'') p
        in (case path_unescape w of None \<Rightarrow> w | Some u \<Rightarrow> u,
            dropWhile (\<lambda>c. c \<noteq> CHR ''/'') p))"

lemma first_segment_shorter: "path \<noteq> '''' \<Longrightarrow> length (snd (first_segment path)) < length path"
  using length_dropWhile_le [of "\<lambda>c. c \<noteq> CHR ''/''" "drop 1 path"]
  by (cases path) (auto simp: first_segment_def Let_def)

text \<open>A node of the routing tree: the patterns that agree on the segments passed, each with the
  segments still to match. The children of a node; a literal goes first, then a wildcard, which
  does not match a trailing slash, then the rest.\<close>

type_synonym 'x node = "(seg list \<times> 'x) list"

definition lit_child :: "string \<Rightarrow> 'x node \<Rightarrow> 'x node" where
  "lit_child w n = concat (map (\<lambda>(ss, x). case ss of Lit l # ss' \<Rightarrow> if l = w then [(ss', x)] else [] | _ \<Rightarrow> []) n)"

definition wild_child :: "'x node \<Rightarrow> 'x node" where
  "wild_child n = concat (map (\<lambda>(ss, x). case ss of Wild _ # ss' \<Rightarrow> [(ss', x)] | _ \<Rightarrow> []) n)"

definition leaf :: "seg list \<Rightarrow> 'x node \<Rightarrow> 'x option" where
  "leaf ss n = (case filter (\<lambda>e. fst e = ss) n of [] \<Rightarrow> None | e # _ \<Rightarrow> Some (snd e))"

function match_path :: "'x node \<Rightarrow> string \<Rightarrow> string list \<Rightarrow> ('x \<times> string list) option" where
  "match_path n path ms =
     (if n = [] then None
      else if path = '''' then map_option (\<lambda>x. (x, ms)) (leaf [] n)
      else
        case match_path (lit_child (fst (first_segment path)) n) (snd (first_segment path)) ms of
          Some r \<Rightarrow> Some r
        | None \<Rightarrow>
            (case (if fst (first_segment path) \<noteq> ''/''
                   then match_path (wild_child n) (snd (first_segment path)) (ms @ [fst (first_segment path)])
                   else None) of
               Some r \<Rightarrow> Some r
             | None \<Rightarrow> map_option (\<lambda>x. (x, ms)) (leaf [Multi] n)))"
  by pat_completeness auto
termination
  by (relation "measure (\<lambda>(n, path, ms). length path)") (auto simp: first_segment_shorter)

declare match_path.simps [simp del]

definition method_node :: "'h mux \<Rightarrow> string \<Rightarrow> (mux_pattern \<times> 'h) node" where
  "method_node m method = map (\<lambda>e. (mp_segs (fst e), e)) (filter (\<lambda>e. mp_method (fst e) = method) m)"

text \<open>A pattern for \<open>GET\<close> serves \<open>HEAD\<close> too; patterns without a method come last.\<close>

definition mux_match :: "'h mux \<Rightarrow> string \<Rightarrow> string \<Rightarrow> ((mux_pattern \<times> 'h) \<times> string list) option" where
  "mux_match m method path =
     (case match_path (method_node m method) path [] of
        Some r \<Rightarrow> Some r
      | None \<Rightarrow>
          (case (if method = ''HEAD'' then match_path (method_node m ''GET'') path [] else None) of
             Some r \<Rightarrow> Some r
           | None \<Rightarrow> match_path (method_node m '''') path []))"

definition ends_in_slash :: "string \<Rightarrow> bool" where
  "ends_in_slash path \<longleftrightarrow> path \<noteq> '''' \<and> last path = CHR ''/''"

definition exact_match :: "mux_pattern \<Rightarrow> string \<Rightarrow> bool" where
  "exact_match p path \<longleftrightarrow>
     (if mp_segs p = [] \<or> last (mp_segs p) \<noteq> Multi then True
      else ends_in_slash path \<and> length (mp_segs p) = length (filter (\<lambda>c. c = CHR ''/'') path))"

text \<open>Whether the mux redirects to the path with a slash: there is no exact match without one.\<close>

definition slash_redirect :: "'h mux \<Rightarrow> string \<Rightarrow> string \<Rightarrow> bool" where
  "slash_redirect m method path \<longleftrightarrow>
     (case mux_match m method path of None \<Rightarrow> True | Some (e, _) \<Rightarrow> \<not> exact_match (fst e) path) \<and>
     \<not> ends_in_slash path \<and> path \<noteq> '''' \<and>
     (case mux_match m method (path @ ''/'') of
        None \<Rightarrow> False | Some (e, _) \<Rightarrow> exact_match (fst e) (path @ ''/''))"

definition methods_at :: "'h mux \<Rightarrow> string \<Rightarrow> string list" where
  "methods_at m path =
     filter (\<lambda>method. method \<noteq> '''' \<and> match_path (method_node m method) path [] \<noteq> None)
       (map (\<lambda>e. mp_method (fst e)) m)"

definition matching_methods :: "'h mux \<Rightarrow> string \<Rightarrow> string list" where
  "matching_methods m path =
     (let ms = methods_at m path @ (if ends_in_slash path then [] else methods_at m (path @ ''/''));
          ms' = (if ''GET'' \<in> set ms then ''HEAD'' # ms else ms)
      in sort (remdups ms'))"

section \<open>Dispatch\<close>

datatype 'h dispatch =
    D_handler mux_pattern 'h path_values
  | D_redirect string
  | D_not_allowed "string list"
  | D_not_found
  | D_bad_request

definition wild_names :: "seg list \<Rightarrow> string list" where
  "wild_names ss = concat (map (\<lambda>s. case s of Wild x \<Rightarrow> [x] | _ \<Rightarrow> []) ss)"

definition found :: "'h mux \<Rightarrow> string \<Rightarrow> ((mux_pattern \<times> 'h) \<times> string list) option \<Rightarrow> 'h dispatch" where
  "found m path r =
     (case r of
        Some ((p, h), ms) \<Rightarrow> D_handler p h (zip (wild_names (mp_segs p)) ms)
      | None \<Rightarrow>
          (case matching_methods m path of [] \<Rightarrow> D_not_found | a # as \<Rightarrow> D_not_allowed (a # as)))"

definition find_handler :: "'h mux \<Rightarrow> request \<Rightarrow> 'h dispatch" where
  "find_handler m req =
     (if rq_RequestURI req = ''*'' then D_bad_request
      else
        let escaped = EscapedPath req; method = rq_Method req
        in if method = ''CONNECT'' then
             (if slash_redirect m method escaped then D_redirect (clean_path (rq_URL_Path req) @ ''/'')
              else found m escaped (mux_match m method escaped))
           else
             let path = clean_path escaped
             in if slash_redirect m method path then D_redirect (clean_path (rq_URL_Path req) @ ''/'')
                else if path \<noteq> escaped then D_redirect path
                else found m path (mux_match m method path))"

text \<open>What a mux answers itself. \<open>redirect\<close> stands for the response of \<open>http.Redirect\<close> with
  status 301 to a path; \<open>upd\<close> applies a change of the response writer to the state.\<close>

fun join_comma :: "string list \<Rightarrow> string" where
  "join_comma [] = ''''"
| "join_comma [w] = w"
| "join_comma (w # ws) = w @ '', '' @ join_comma ws"

definition not_allowed_response :: "string list \<Rightarrow> response_writer \<Rightarrow> response_writer" where
  "not_allowed_response ms w =
     http_Error ''Method Not Allowed'' 405 (on_header (header_Set ''Allow'' (join_comma ms)) w)"

definition not_found_response :: "response_writer \<Rightarrow> response_writer" where
  "not_found_response w = http_Error ''404 page not found'' 404 w"

definition bad_request_response :: "response_writer \<Rightarrow> response_writer" where
  "bad_request_response w = write_header 400 (on_header (header_Set ''Connection'' ''close'') w)"

definition serve_mux ::
  "((response_writer \<Rightarrow> response_writer) \<Rightarrow> 's \<Rightarrow> 's) \<Rightarrow>
   (string \<Rightarrow> request \<Rightarrow> response_writer \<Rightarrow> response_writer) \<Rightarrow> 's mux_handler mux \<Rightarrow> 's http_handler" where
  "serve_mux upd redirect m req s =
     (case find_handler m req of
        D_handler p h vs \<Rightarrow> h vs req s
      | D_redirect path \<Rightarrow> Some (upd (redirect path req) s)
      | D_not_allowed ms \<Rightarrow> Some (upd (not_allowed_response ms) s)
      | D_not_found \<Rightarrow> Some (upd not_found_response s)
      | D_bad_request \<Rightarrow> Some (upd bad_request_response s))"

section \<open>Facts\<close>

text \<open>A node without children matches what is left of a path if nothing is.\<close>

lemma match_path_Nil [simp]: "match_path [] path ms = None"
  by (simp add: match_path.simps)

lemma children_simps [simp]:
  "lit_child w [] = []"
  "lit_child w (([], x) # n) = lit_child w n"
  "lit_child w ((Lit l # ss, x) # n) = (if l = w then (ss, x) # lit_child w n else lit_child w n)"
  "lit_child w ((Wild v # ss, x) # n) = lit_child w n"
  "lit_child w ((Multi # ss, x) # n) = lit_child w n"
  "wild_child [] = []"
  "wild_child (([], x) # n) = wild_child n"
  "wild_child ((Lit l # ss, x) # n) = wild_child n"
  "wild_child ((Wild v # ss, x) # n) = (ss, x) # wild_child n"
  "wild_child ((Multi # ss, x) # n) = wild_child n"
  by (simp_all add: lit_child_def wild_child_def)

lemma leaf_simps [simp]:
  "leaf ss [] = None"
  "leaf ss ((ss', x) # n) = (if ss' = ss then Some x else leaf ss n)"
  by (simp_all add: leaf_def)

lemma match_path_leaf:
  "match_path [([], x)] path ms = (if path = '''' then Some (x, ms) else None)"
  by (simp add: match_path.simps [of "[([], x)]"])

lemma match_path_empty: "n \<noteq> [] \<Longrightarrow> match_path n '''' ms = map_option (\<lambda>x. (x, ms)) (leaf [] n)"
  by (simp add: match_path.simps [of n])

text \<open>One step of the search.\<close>

lemma match_path_step:
  assumes "n \<noteq> []" and "path \<noteq> ''''" and "first_segment path = (w, rest)"
  shows "match_path n path ms =
     (case match_path (lit_child w n) rest ms of
        Some r \<Rightarrow> Some r
      | None \<Rightarrow>
          (case (if w \<noteq> ''/'' then match_path (wild_child n) rest (ms @ [w]) else None) of
             Some r \<Rightarrow> Some r
           | None \<Rightarrow> map_option (\<lambda>x. (x, ms)) (leaf [Multi] n)))"
  using assms by (subst match_path.simps) (simp cong: option.case_cong)

lemma clean_path_not_Nil [simp]: "clean_path s \<noteq> ''''"
  by (simp add: clean_path_def rooted_def Let_def)

text \<open>A path that a mux matches as it is.\<close>

lemma find_handler_plain:
  assumes "rq_RequestURI req \<noteq> ''*''" and "rq_Method req \<noteq> ''CONNECT''"
    and "clean_path (EscapedPath req) = EscapedPath req"
    and "\<not> slash_redirect m (rq_Method req) (EscapedPath req)"
  shows "find_handler m req = found m (EscapedPath req) (mux_match m (rq_Method req) (EscapedPath req))"
  using assms by (simp add: find_handler_def Let_def)

text \<open>A clean path is left alone: a redirect to a clean path is not followed by another.\<close>

definition clean_word :: "string \<Rightarrow> bool" where
  "clean_word w \<longleftrightarrow> w \<notin> {'''', ''.'', ''..''} \<and> CHR ''/'' \<notin> set w"

lemma split_on_no_sep: "\<forall>w \<in> set (split_on sep s). sep \<notin> set w"
  by (induction s) (auto split: list.splits)

lemma split_on_plain: "sep \<notin> set w \<Longrightarrow> split_on sep w = [w]"
  by (induction w) auto

lemma split_on_word: "sep \<notin> set w \<Longrightarrow> split_on sep (w @ sep # s) = w # split_on sep s"
proof (induction w)
  case Nil
  then show ?case using split_on_not_Nil [of sep s] by (auto split: list.splits)
next
  case (Cons c w)
  then show ?case by auto
qed

lemma clean_elements_clean:
  assumes "\<forall>w \<in> set ws. CHR ''/'' \<notin> set w" and "\<forall>w \<in> set acc. clean_word w"
  shows "\<forall>w \<in> set (clean_elements ws acc). clean_word w"
  using assms
proof (induction ws arbitrary: acc)
  case (Cons w ws)
  show ?case
  proof (cases "w = '''' \<or> w = ''.'' \<or> w = ''..''")
    case True
    have "\<forall>v \<in> set (tl acc). clean_word v" using Cons.prems(2) by (cases acc) simp_all
    then have IH: "\<forall>v \<in> set (clean_elements ws acc). clean_word v"
        "\<forall>v \<in> set (clean_elements ws (tl acc)). clean_word v"
      using Cons.IH Cons.prems by simp_all
    show ?thesis using True by (elim disjE) (simp_all add: IH)
  next
    case False
    then have "clean_word w" using Cons.prems(1) by (simp add: clean_word_def)
    then have "\<forall>v \<in> set (clean_elements ws (w # acc)). clean_word v"
      using Cons.prems by (intro Cons.IH) simp_all
    then show ?thesis using False by simp
  qed
qed simp

lemma clean_elements_id:
  "\<forall>w \<in> set ws. clean_word w \<Longrightarrow> clean_elements ws acc = rev acc @ ws"
  by (induction ws arbitrary: acc) (auto simp: clean_word_def)

lemma rooted_Cons: "ws \<noteq> [] \<Longrightarrow> rooted (w # ws) = CHR ''/'' # w @ rooted ws"
  by (simp add: rooted_def)

lemma hd_rooted [simp]: "rooted ws \<noteq> ''''" "hd (rooted ws) = CHR ''/''"
  by (cases ws; simp add: rooted_def)+

lemma split_rooted:
  "\<forall>w \<in> set ws. clean_word w \<Longrightarrow> ws \<noteq> [] \<Longrightarrow> split_on CHR ''/'' (rooted ws) = [] # ws"
proof (induction ws)
  case (Cons w ws)
  have w: "CHR ''/'' \<notin> set w" using Cons.prems by (simp add: clean_word_def)
  have slash: "split_on CHR ''/'' (CHR ''/'' # s) = [] # split_on CHR ''/'' s" for s
    using split_on_word [of "CHR ''/''" "[]" s] by simp
  show ?case
  proof (cases "ws = []")
    case True
    then show ?thesis using split_on_plain [OF w] slash by (simp add: rooted_def)
  next
    case False
    then have "rooted ws = CHR ''/'' # tl (rooted ws)" using hd_rooted [of ws] by (metis list.collapse)
    moreover have "split_on CHR ''/'' (rooted ws) = [] # ws" using Cons False by simp
    ultimately have "split_on CHR ''/'' (tl (rooted ws)) = ws" using slash by (metis list.inject)
    then have "split_on CHR ''/'' (w @ rooted ws) = w # ws"
      using split_on_word [OF w] \<open>rooted ws = _\<close> by metis
    then show ?thesis by (simp only: rooted_Cons [OF False] slash)
  qed
qed simp

lemma split_on_snoc: "split_on sep (s @ [sep]) = split_on sep s @ [[]]"
  by (induction s) (auto split: list.splits)

lemma last_rooted:
  "\<forall>w \<in> set ws. clean_word w \<Longrightarrow> ws \<noteq> [] \<Longrightarrow> last (rooted ws) \<noteq> CHR ''/''"
proof (induction ws)
  case (Cons w ws)
  show ?case
  proof (cases "ws = []")
    case True
    moreover have "w \<noteq> ''''" "CHR ''/'' \<notin> set w" using Cons.prems by (simp_all add: clean_word_def)
    ultimately show ?thesis by (auto simp: rooted_def) (metis last_in_set)
  next
    case False
    then show ?thesis using Cons by (simp add: rooted_Cons)
  qed
qed simp

definition path_words :: "string \<Rightarrow> string list" where
  "path_words s = clean_elements (split_on CHR ''/'' (if s \<noteq> '''' \<and> hd s = CHR ''/'' then s else CHR ''/'' # s)) []"

lemma path_words_clean: "\<forall>w \<in> set (path_words s). clean_word w"
  unfolding path_words_def by (intro clean_elements_clean split_on_no_sep) simp

lemma rooted_root: "rooted ws = ''/'' \<longleftrightarrow> ws = [] \<or> ws = ['''']"
proof (cases ws)
  case (Cons w ws')
  then show ?thesis by (cases ws') (auto simp: rooted_def)
qed (simp add: rooted_def)

lemma clean_path_words:
  "clean_path s =
     (if path_words s \<noteq> [] \<and> ends_in_slash s then rooted (path_words s) @ ''/'' else rooted (path_words s))"
proof -
  have "path_words s \<noteq> ['''']"
  proof
    assume e: "path_words s = ['''']"
    from path_words_clean [of s] show False unfolding e by (simp add: clean_word_def)
  qed
  then have "rooted (path_words s) = ''/'' \<longleftrightarrow> path_words s = []"
    unfolding rooted_root by blast
  then show ?thesis
    by (cases "s = ''''") (simp_all add: clean_path_def path_words_def ends_in_slash_def Let_def)
qed

lemma path_words_rooted:
  assumes "\<forall>w \<in> set ws. clean_word w"
  shows "path_words (rooted ws) = ws" and "path_words (rooted ws @ ''/'') = ws"
proof -
  have hd: "hd (rooted ws @ ''/'') = CHR ''/''" by (simp add: hd_append)
  show "path_words (rooted ws) = ws"
  proof (cases "ws = []")
    case False
    then show ?thesis
      using split_rooted [OF assms False] clean_elements_id [OF assms] by (simp add: path_words_def)
  qed (simp add: path_words_def rooted_def)
  have drop: "clean_elements (us @ ['''']) acc = clean_elements us acc" for us acc
    by (induction us acc rule: clean_elements.induct) auto
  show "path_words (rooted ws @ ''/'') = ws"
  proof (cases "ws = []")
    case False
    then show ?thesis
      using split_rooted [OF assms False] clean_elements_id [OF assms, of "[]"] hd drop
      by (simp add: path_words_def split_on_snoc)
  qed (simp add: path_words_def rooted_def)
qed

lemma clean_path_idem: "clean_path (clean_path s) = clean_path s"
proof -
  note w = path_words_clean [of s]
  have "path_words (clean_path s) = path_words s"
    using path_words_rooted [OF w] by (simp add: clean_path_words [of s])
  moreover have "ends_in_slash (clean_path s) \<longleftrightarrow> ends_in_slash s" if "path_words s \<noteq> []"
    using last_rooted [OF w that] that by (auto simp: clean_path_words [of s] ends_in_slash_def)

  ultimately have "clean_path (clean_path s) =
     (if path_words s \<noteq> [] \<and> ends_in_slash s then rooted (path_words s) @ ''/'' else rooted (path_words s))"
    unfolding clean_path_words [of "clean_path s"] by (cases "path_words s = []") (simp_all only: simp_thms if_False if_True)
  then show ?thesis unfolding clean_path_words [of s] .
qed

text \<open>The search on the list of segments of a path. Wildcards aside, it is matching from left to right.\<close>

function segments :: "string \<Rightarrow> string list" where
  "segments path = (if path = '''' then [] else fst (first_segment path) # segments (snd (first_segment path)))"
  by pat_completeness auto
termination
  by (relation "measure length") (auto simp: first_segment_shorter)

declare segments.simps [simp del]

primrec match_segments :: "string list \<Rightarrow> 'x node \<Rightarrow> string list \<Rightarrow> ('x \<times> string list) option" where
  "match_segments [] n ms = map_option (\<lambda>x. (x, ms)) (leaf [] n)"
| "match_segments (w # ws) n ms =
     (case match_segments ws (lit_child w n) ms of
        Some r \<Rightarrow> Some r
      | None \<Rightarrow>
          (case (if w \<noteq> ''/'' then match_segments ws (wild_child n) (ms @ [w]) else None) of
             Some r \<Rightarrow> Some r
           | None \<Rightarrow> map_option (\<lambda>x. (x, ms)) (leaf [Multi] n)))"

lemma match_segments_Nil [simp]: "match_segments ws [] ms = None"
  by (induction ws arbitrary: ms) simp_all

lemma match_path_segments: "match_path n path ms = match_segments (segments path) n ms"
proof (induction n path ms rule: match_path.induct)
  case (1 n path ms)
  show ?case
  proof (cases "n = [] \<or> path = ''''")
    case True
    then show ?thesis
      by (auto simp: match_path.simps [of n] segments.simps [of path])
  next
    case False
    then show ?thesis
      using 1 by (subst match_path.simps, subst segments.simps) (simp cong: option.case_cong)
  qed
qed

text \<open>A match is an entry of the mux, for the method of the request, for any method, or for \<open>GET\<close> if
  the request is a \<open>HEAD\<close>.\<close>

lemma leaf_None: "leaf ss n = None \<longleftrightarrow> ss \<notin> fst ` set n"
  by (induction n) (auto split: if_splits)

lemma leaf_in: "leaf ss n = Some x \<Longrightarrow> x \<in> snd ` set n"
  by (force simp: leaf_def filter_eq_Cons_iff split: list.splits)

lemma match_segments_in: "match_segments ws n ms = Some (x, ms') \<Longrightarrow> x \<in> snd ` set n"
proof (induction ws arbitrary: n ms)
  case (Cons w ws)
  have "snd ` set (lit_child w n) \<subseteq> snd ` set n" "snd ` set (wild_child n) \<subseteq> snd ` set n"
    by (force simp: lit_child_def wild_child_def split: list.splits seg.splits if_splits)+
  with Cons show ?case
    by (auto dest: leaf_in split: option.splits if_splits)
qed (auto dest: leaf_in)

lemma mux_match_in:
  assumes "mux_match m method path = Some ((p, h), ms)"
  shows "(p, h) \<in> set m \<and> (mp_method p = method \<or> mp_method p = '''' \<or> (method = ''HEAD'' \<and> mp_method p = ''GET''))"
proof -
  have "(p, h) \<in> set m \<and> mp_method p = k" if "match_path (method_node m k) path [] = Some ((p, h), ms)" for k
    using match_segments_in [OF that [unfolded match_path_segments]] by (auto simp: method_node_def)
  then show ?thesis using assms by (auto simp: mux_match_def split: option.splits if_splits)
qed

lemma find_handler_in:
  assumes "find_handler m req = D_handler p h vs"
  shows "(p, h) \<in> set m \<and> (mp_method p = rq_Method req \<or> mp_method p = ''''
     \<or> (rq_Method req = ''HEAD'' \<and> mp_method p = ''GET''))"
proof -
  have "\<exists>path ms. mux_match m (rq_Method req) path = Some ((p, h), ms)"
    using assms by (auto simp: find_handler_def found_def Let_def split: if_splits option.splits list.splits)
  then show ?thesis using mux_match_in by metis
qed

text \<open>Without a pattern that ends in a slash there is no redirect for a missing slash.\<close>

lemma segments_not_Nil: "path \<noteq> '''' \<Longrightarrow> segments path \<noteq> []"
  by (subst segments.simps) simp

lemma last_segment_slash: "path \<noteq> '''' \<Longrightarrow> last (segments (path @ ''/'')) = ''/''"
proof (induction path rule: segments.induct)
  case (1 path)
  have r: "snd (first_segment (path @ ''/'')) = (let p = snd (first_segment path) in if p = '''' then ''/'' else p @ ''/'')"
    using 1 by (cases path) (auto simp: first_segment_def Let_def dropWhile_append dropWhile_eq_Nil_conv)
  show ?case
  proof (cases "snd (first_segment path) = ''''")
    case True
    then have "segments (path @ ''/'') = [fst (first_segment (path @ ''/'')), ''/'']"
      using r by (simp add: segments.simps [of "path @ ''/''"] segments.simps [of "''/''"])
        (simp add: first_segment_def segments.simps [of "''''"])
    then show ?thesis by simp
  next
    case False
    then have "segments (path @ ''/'') = fst (first_segment (path @ ''/'')) # segments (snd (first_segment path) @ ''/'')"
      using r by (subst segments.simps) (simp add: Let_def)
    then show ?thesis using 1(1) [OF 1(2) False] segments_not_Nil [of "snd (first_segment path) @ ''/''"] by simp
  qed
qed

lemma match_no_slash:
  assumes "\<forall>e \<in> set n. Multi \<notin> set (fst e) \<and> Lit ''/'' \<notin> set (fst e)" and "ws \<noteq> []" and "last ws = ''/''"
  shows "match_segments ws n ms = None"
  using assms
proof (induction ws arbitrary: n ms)
  case (Cons w ws)
  have l: "\<forall>e \<in> set (lit_child w n). Multi \<notin> set (fst e) \<and> Lit ''/'' \<notin> set (fst e)"
    and c: "\<forall>e \<in> set (wild_child n). Multi \<notin> set (fst e) \<and> Lit ''/'' \<notin> set (fst e)"
    using Cons.prems(1) by (force simp: lit_child_def wild_child_def split: list.splits seg.splits if_splits)+
  have leaf: "leaf [Multi] n = None" using Cons.prems(1) by (force simp: leaf_None)
  show ?case
  proof (cases "ws = []")
    case True
    with Cons.prems have w: "w = ''/''" by simp
    have "leaf [] (lit_child w n) = None"
      using Cons.prems(1) w by (force simp: leaf_None lit_child_def split: list.splits seg.splits if_splits)
    then show ?thesis using True w leaf by simp
  next
    case False
    then show ?thesis using Cons.IH [OF l False] Cons.IH [OF c False] Cons.prems leaf by simp
  qed
qed simp

lemma no_slash_mux:
  assumes "\<forall>e \<in> set m. Multi \<notin> set (mp_segs (fst e)) \<and> Lit ''/'' \<notin> set (mp_segs (fst e))" and "path \<noteq> ''''"
  shows "mux_match m method (path @ ''/'') = None" and "methods_at m (path @ ''/'') = []"
proof -
  have none: "match_path (method_node m k) (path @ ''/'') ms = None" for k ms
    unfolding match_path_segments using assms
    by (intro match_no_slash segments_not_Nil last_segment_slash) (auto simp: method_node_def)
  then show "mux_match m method (path @ ''/'') = None" by (simp add: mux_match_def)
  from none show "methods_at m (path @ ''/'') = []" by (simp add: methods_at_def filter_empty_conv)
qed

lemma no_slash_redirect:
  assumes "\<forall>e \<in> set m. Multi \<notin> set (mp_segs (fst e)) \<and> Lit ''/'' \<notin> set (mp_segs (fst e))"
  shows "\<not> slash_redirect m method path"
  using no_slash_mux(1) [OF assms, of path] by (auto simp: slash_redirect_def)

end
