(* ===== verification/AdminApi.thy ===== *)
theory AdminApi
  imports AdminServer HttpMux
begin

text \<open>
  The admin HTTP API: the handlers of \<open>internal/admin/handler\<close>, which turn requests into calls of the
  control plane, and \<open>cmd/admin-api/main.go\<close> with its start-up checks, its routes and its chain of
  middlewares. The JSON decoders and encoder, the text of a gRPC status and the state of the
  connection to the proxy are inputs. Main facts: without credentials nothing happens; which statuses
  are answered, and when a change took effect; which route a request takes.
\<close>

section \<open>Inputs\<close>

text \<open>The connection of one call: it works, the call does not arrive, or its reply is lost (the five
  seconds of the context included).\<close>

datatype link = Link_ok | Link_lost rpc_status | Link_cut rpc_status

text \<open>A JSON decoder gets the bytes that can be read and whether the reader fails behind them instead
  of ending, as that of \<open>http.MaxBytesHandler\<close> does.\<close>

type_synonym 'a decoder = "string \<Rightarrow> bool \<Rightarrow> string + 'a"

record api_env =
  ae_env :: env
  ae_io :: io
  ae_client_token :: string
  ae_server_token :: string
  ae_link :: link
  ae_body :: string
  ae_rpc_text :: "rpc_status \<Rightarrow> string"
  ae_json :: "admin_reply \<Rightarrow> string + string"
  ae_dec_backend :: "pb_backend decoder"
  ae_dec_add_vhost :: "pb_virtual_host option decoder"
  ae_dec_update_vhost :: "(string \<times> pb_virtual_host option) decoder"
  ae_dec_security :: "(string \<times> string) decoder"
  ae_dec_policy :: "pb_security_policy decoder"
  ae_dec_server :: "pb_server_config decoder"
  ae_dec_balancer :: "string decoder"
  ae_redirect :: "string \<Rightarrow> request \<Rightarrow> response_writer \<Rightarrow> response_writer"

record api_world =
  aw_control :: control
  aw_writer :: response_writer

definition on_api :: "(response_writer \<Rightarrow> response_writer) \<Rightarrow> api_world \<Rightarrow> api_world" where
  "on_api f s = s\<lparr>aw_writer := f (aw_writer s)\<rparr>"

definition body_limit :: nat where
  "body_limit = 2 ^ 20"

text \<open>The body behind \<open>http.MaxBytesHandler\<close>.\<close>

definition read_body :: "api_env \<Rightarrow> 'a decoder \<Rightarrow> string + 'a" where
  "read_body A decode = decode (take body_limit (ae_body A)) (body_limit < length (ae_body A))"

text \<open>A call through the client interceptor, the connection and the server interceptor.\<close>

definition api_call :: "api_env \<Rightarrow> admin_call \<Rightarrow> api_world \<Rightarrow> (rpc_status + admin_reply) \<times> api_world" where
  "api_call A call s =
     (case ae_link A of
        Link_lost e \<Rightarrow> (Inl e, s)
      | l \<Rightarrow>
          (case server_interceptor (ae_server_token A) (serve_call (ae_env A) (ae_io A))
                  (client_context (ae_client_token A) None) call (aw_control s) of
             (r, c) \<Rightarrow> (case l of Link_cut e \<Rightarrow> Inl e | _ \<Rightarrow> r, s\<lparr>aw_control := c\<rparr>)))"

section \<open>Helpers of the handlers\<close>

definition respondJSON :: "api_env \<Rightarrow> admin_reply \<Rightarrow> response_writer \<Rightarrow> response_writer" where
  "respondJSON A reply w =
     (let w' = on_header (header_Set ''Content-Type'' ''application/json'') w
      in case ae_json A reply of
           Inr text \<Rightarrow> write_body text w'
         | Inl _ \<Rightarrow> http_Error ''Internal server error'' 500 w')"

definition clientErrorStatus :: "string \<Rightarrow> goint" where
  "clientErrorStatus msg =
     (let lower = to_lower msg
      in if contains lower ''not found'' then 404
         else if contains lower ''already exists'' \<or> contains lower ''duplicate'' \<or> contains lower ''conflict'' then 409
         else 400)"

definition call_error :: "api_env \<Rightarrow> string \<Rightarrow> rpc_status \<Rightarrow> response_writer \<Rightarrow> response_writer" where
  "call_error A what e = http_Error (''Failed to '' @ what @ '': '' @ ae_rpc_text A e) 500"

text \<open>The end of a handler that reads, and of one that changes something. The generated client returns
  a basic response for a change; a reply of another kind would be a nil pointer there.\<close>

definition answer_read :: "api_env \<Rightarrow> string \<Rightarrow> admin_call \<Rightarrow> api_world \<Rightarrow> api_world option" where
  "answer_read A what call s =
     (case api_call A call s of
        (Inl e, s') \<Rightarrow> Some (on_api (call_error A what e) s')
      | (Inr reply, s') \<Rightarrow> Some (on_api (respondJSON A reply) s'))"

definition answer_update :: "api_env \<Rightarrow> string \<Rightarrow> admin_call \<Rightarrow> api_world \<Rightarrow> api_world option" where
  "answer_update A what call s =
     (case api_call A call s of
        (Inl e, s') \<Rightarrow> Some (on_api (call_error A what e) s')
      | (Inr (R_Basic resp), s') \<Rightarrow>
          if \<not> brs_Success resp
          then Some (on_api (http_Error (''Failed to '' @ what @ '': '' @ brs_Error resp)
                               (clientErrorStatus (brs_Error resp))) s')
          else Some (on_api (respondJSON A (R_Basic resp)) s')
      | _ \<Rightarrow> None)"

definition bad_body :: "string \<Rightarrow> api_world \<Rightarrow> api_world option" where
  "bad_body msg s = Some (on_api (http_Error (''Invalid request body: '' @ msg) 400) s)"

definition path_value :: "string \<Rightarrow> path_values \<Rightarrow> string" where
  "path_value name vs = (case map_of vs name of None \<Rightarrow> '''' | Some v \<Rightarrow> v)"

definition missing :: "string \<Rightarrow> api_world \<Rightarrow> api_world option" where
  "missing name s = Some (on_api (http_Error (''Missing '' @ name @ '' in path'') 400) s)"

type_synonym api_handler = "api_env \<Rightarrow> api_world mux_handler"

section \<open>Backends\<close>

definition HandleBackendsList :: api_handler where
  "HandleBackendsList A vs req s = answer_read A ''get backends'' C_GetBackends s"

definition HandleBackendGet :: api_handler where
  "HandleBackendGet A vs req s =
     (let i = path_value ''id'' vs
      in if i = '''' then missing ''id'' s else answer_read A ''get backend'' (C_GetBackend i) s)"

definition HandleBackendAdd :: api_handler where
  "HandleBackendAdd A vs req s =
     (case read_body A (ae_dec_backend A) of
        Inl msg \<Rightarrow> bad_body msg s
      | Inr b \<Rightarrow> answer_update A ''add backend'' (C_AddBackend b) s)"

definition HandleBackendUpdate :: api_handler where
  "HandleBackendUpdate A vs req s =
     (let i = path_value ''id'' vs
      in if i = '''' then missing ''id'' s
         else
           case read_body A (ae_dec_backend A) of
             Inl msg \<Rightarrow> bad_body msg s
           | Inr b \<Rightarrow> answer_update A ''update backend'' (C_UpdateBackend (b\<lparr>pb_Id := i\<rparr>)) s)"

definition HandleBackendDelete :: api_handler where
  "HandleBackendDelete A vs req s =
     (let i = path_value ''id'' vs
      in if i = '''' then missing ''id'' s else answer_update A ''remove backend'' (C_RemoveBackend i) s)"

section \<open>Virtual hosts and policies\<close>

definition HandleVhostsList :: api_handler where
  "HandleVhostsList A vs req s = answer_read A ''get virtual hosts'' C_GetVirtualHosts s"

definition HandleVhostGet :: api_handler where
  "HandleVhostGet A vs req s =
     (let d = path_value ''domain'' vs
      in if d = '''' then missing ''domain'' s else answer_read A ''get virtual host'' (C_GetVirtualHost d) s)"

definition HandleVhostAdd :: api_handler where
  "HandleVhostAdd A vs req s =
     (case read_body A (ae_dec_add_vhost A) of
        Inl msg \<Rightarrow> bad_body msg s
      | Inr v \<Rightarrow> answer_update A ''add virtual host'' (C_AddVirtualHost v) s)"

definition HandleVhostUpdate :: api_handler where
  "HandleVhostUpdate A vs req s =
     (let d = path_value ''domain'' vs
      in if d = '''' then missing ''domain'' s
         else
           case read_body A (ae_dec_update_vhost A) of
             Inl msg \<Rightarrow> bad_body msg s
           | Inr (_, v) \<Rightarrow> answer_update A ''update virtual host'' (C_UpdateVirtualHost d v) s)"

definition HandleVhostDelete :: api_handler where
  "HandleVhostDelete A vs req s =
     (let d = path_value ''domain'' vs
      in if d = '''' then missing ''domain'' s
         else answer_update A ''remove virtual host'' (C_RemoveVirtualHost d) s)"

definition HandleSecurityConfigGet :: api_handler where
  "HandleSecurityConfigGet A vs req s =
     (let d = path_value ''domain'' vs
      in if d = '''' then missing ''domain'' s
         else answer_read A ''get security config'' (C_GetVirtualHostSecurity d) s)"

definition HandleSecurityConfigUpdate :: api_handler where
  "HandleSecurityConfigUpdate A vs req s =
     (let d = path_value ''domain'' vs
      in if d = '''' then missing ''domain'' s
         else
           case read_body A (ae_dec_security A) of
             Inl msg \<Rightarrow> bad_body msg s
           | Inr (_, p) \<Rightarrow> answer_update A ''update security config'' (C_SetVirtualHostSecurityPolicy d p) s)"

definition HandlePoliciesList :: api_handler where
  "HandlePoliciesList A vs req s = answer_read A ''get policies'' C_GetPolicies s"

definition HandlePolicyUpsert :: api_handler where
  "HandlePolicyUpsert A vs req s =
     (case read_body A (ae_dec_policy A) of
        Inl msg \<Rightarrow> bad_body msg s
      | Inr p \<Rightarrow>
          (let i = path_value ''id'' vs;
               p' = (if i \<noteq> '''' then p\<lparr>psp_Id := i\<rparr> else p)
           in answer_update A ''upsert policy'' (C_UpsertPolicy (Some p')) s))"

section \<open>Proxy settings\<close>

definition method_refused :: "api_world \<Rightarrow> api_world option" where
  "method_refused s = Some (on_api (http_Error ''Method not allowed'' 405) s)"

definition HandleServerConfig :: api_handler where
  "HandleServerConfig A vs req s =
     (if rq_Method req = ''GET'' then answer_read A ''get server config'' C_GetServerConfig s
      else if rq_Method req = ''PUT'' then
        (case read_body A (ae_dec_server A) of
           Inl msg \<Rightarrow> bad_body msg s
         | Inr cfg \<Rightarrow> answer_update A ''set server config'' (C_SetServerConfig (Some cfg)) s)
      else method_refused s)"

definition HandleLoadBalancerConfig :: api_handler where
  "HandleLoadBalancerConfig A vs req s =
     (if rq_Method req = ''GET'' then answer_read A ''get load balancer config'' C_GetLoadBalancer s
      else if rq_Method req = ''PUT'' then
        (case read_body A (ae_dec_balancer A) of
           Inl msg \<Rightarrow> bad_body msg s
         | Inr cfg \<Rightarrow> answer_update A ''set load balancer config'' (C_SetLoadBalancer (Some cfg)) s)
      else method_refused s)"

section \<open>The server\<close>

definition api_at :: "string \<Rightarrow> seg list \<Rightarrow> mux_pattern" where
  "api_at method ss = \<lparr>mp_method = method, mp_segs = Lit ''api'' # ss\<rparr>"

definition admin_mux :: "api_env \<Rightarrow> api_world mux_handler mux" where
  "admin_mux A =
     [(api_at ''GET'' [Lit ''backend''], HandleBackendsList A),
      (api_at ''POST'' [Lit ''backend''], HandleBackendAdd A),
      (api_at ''GET'' [Lit ''backend'', Wild ''id''], HandleBackendGet A),
      (api_at ''PUT'' [Lit ''backend'', Wild ''id''], HandleBackendUpdate A),
      (api_at ''DELETE'' [Lit ''backend'', Wild ''id''], HandleBackendDelete A),
      (api_at ''GET'' [Lit ''vhost''], HandleVhostsList A),
      (api_at ''POST'' [Lit ''vhost''], HandleVhostAdd A),
      (api_at ''GET'' [Lit ''vhost'', Wild ''domain''], HandleVhostGet A),
      (api_at ''PUT'' [Lit ''vhost'', Wild ''domain''], HandleVhostUpdate A),
      (api_at ''DELETE'' [Lit ''vhost'', Wild ''domain''], HandleVhostDelete A),
      (api_at ''GET'' [Lit ''vhost'', Wild ''domain'', Lit ''security''], HandleSecurityConfigGet A),
      (api_at ''PUT'' [Lit ''vhost'', Wild ''domain'', Lit ''security''], HandleSecurityConfigUpdate A),
      (api_at ''GET'' [Lit ''security'', Lit ''policies''], HandlePoliciesList A),
      (api_at ''PUT'' [Lit ''security'', Lit ''policies'', Wild ''id''], HandlePolicyUpsert A),
      (api_at ''GET'' [Lit ''config'', Lit ''server''], HandleServerConfig A),
      (api_at ''PUT'' [Lit ''config'', Lit ''server''], HandleServerConfig A),
      (api_at ''GET'' [Lit ''config'', Lit ''lb''], HandleLoadBalancerConfig A),
      (api_at ''PUT'' [Lit ''config'', Lit ''lb''], HandleLoadBalancerConfig A)]"

definition cors_headers :: "string \<Rightarrow> header \<Rightarrow> header" where
  "cors_headers allowedOrigin h =
     header_Add ''Vary'' ''Origin''
       (header_Set ''X-Content-Type-Options'' ''nosniff''
         (header_Set ''Cache-Control'' ''no-store''
           (header_Set ''Access-Control-Allow-Headers'' ''Content-Type, Authorization''
             (header_Set ''Access-Control-Allow-Methods'' ''GET, POST, PUT, DELETE, OPTIONS''
               (header_Set ''Access-Control-Allow-Credentials'' ''true''
                 (header_Set ''Access-Control-Allow-Origin'' allowedOrigin h))))))"

text \<open>\<open>raw\<close> is the value of \<open>ADMIN_ALLOWED_ORIGIN\<close>.\<close>

definition corsMiddleware :: "string \<Rightarrow> api_world http_middleware" where
  "corsMiddleware raw nxt = (\<lambda>req s.
     let allowedOrigin = (if raw = '''' then ''http://localhost:3000'' else raw);
         s' = on_api (on_header (cors_headers allowedOrigin)) s
     in if rq_Method req = ''OPTIONS'' then Some (on_api (write_header 204) s') else nxt req s')"

definition serve_admin :: "api_env \<Rightarrow> string \<Rightarrow> bool \<Rightarrow> string \<Rightarrow> api_world http_handler" where
  "serve_admin A origin authEnabled adminToken =
     corsMiddleware origin
       (NewAuthMiddleware on_api authEnabled adminToken (serve_mux on_api (ae_redirect A) (admin_mux A)))"

text \<open>\<open>strconv.ParseBool\<close>, and the checks of \<open>main\<close> on its environment: the values of
  \<open>ADMIN_AUTH_ENABLED\<close>, \<open>ADMIN_API_TOKEN\<close> and \<open>ADMIN_GRPC_TOKEN\<close>.\<close>

definition parse_bool :: "string \<Rightarrow> bool option" where
  "parse_bool s =
     (if s \<in> {''1'', ''t'', ''T'', ''true'', ''TRUE'', ''True''} then Some True
      else if s \<in> {''0'', ''f'', ''F'', ''false'', ''FALSE'', ''False''} then Some False else None)"

definition admin_settings :: "string \<Rightarrow> string \<Rightarrow> string \<Rightarrow> string + bool" where
  "admin_settings raw adminToken grpcToken =
     (case (if raw = '''' then Some True else parse_bool raw) of
        None \<Rightarrow> Inl ''Invalid ADMIN_AUTH_ENABLED value''
      | Some authEnabled \<Rightarrow>
          if authEnabled \<and> adminToken = ''''
          then Inl ''ADMIN_API_TOKEN is required when admin authentication is enabled''
          else if grpcToken = '''' then Inl ''ADMIN_GRPC_TOKEN is required''
          else Inr authEnabled)"

section \<open>Routes\<close>

text \<open>The resources of the API and the methods that each has, as a table.\<close>

datatype api_resource =
    Res_Backends | Res_Backend string | Res_VHosts | Res_VHost string | Res_Security string
  | Res_Policies | Res_Policy string | Res_Server | Res_Balancer

definition resource :: "string list \<Rightarrow> api_resource option" where
  "resource ws =
     (if take 1 ws \<noteq> [''api''] then None
      else
        case tl ws of
          [a] \<Rightarrow> if a = ''backend'' then Some Res_Backends else if a = ''vhost'' then Some Res_VHosts else None
        | [a, b] \<Rightarrow>
            if a = ''backend'' \<and> b \<noteq> ''/'' then Some (Res_Backend b)
            else if a = ''vhost'' \<and> b \<noteq> ''/'' then Some (Res_VHost b)
            else if a = ''security'' \<and> b = ''policies'' then Some Res_Policies
            else if a = ''config'' \<and> b = ''server'' then Some Res_Server
            else if a = ''config'' \<and> b = ''lb'' then Some Res_Balancer else None
        | [a, b, c] \<Rightarrow>
            if a = ''vhost'' \<and> b \<noteq> ''/'' \<and> c = ''security'' then Some (Res_Security b)
            else if a = ''security'' \<and> b = ''policies'' \<and> c \<noteq> ''/'' then Some (Res_Policy c) else None
        | _ \<Rightarrow> None)"

fun resource_methods :: "api_resource \<Rightarrow> (string \<times> api_handler) list" where
  "resource_methods Res_Backends = [(''GET'', HandleBackendsList), (''POST'', HandleBackendAdd)]"
| "resource_methods (Res_Backend i) =
     [(''DELETE'', HandleBackendDelete), (''GET'', HandleBackendGet), (''PUT'', HandleBackendUpdate)]"
| "resource_methods Res_VHosts = [(''GET'', HandleVhostsList), (''POST'', HandleVhostAdd)]"
| "resource_methods (Res_VHost d) =
     [(''DELETE'', HandleVhostDelete), (''GET'', HandleVhostGet), (''PUT'', HandleVhostUpdate)]"
| "resource_methods (Res_Security d) = [(''GET'', HandleSecurityConfigGet), (''PUT'', HandleSecurityConfigUpdate)]"
| "resource_methods Res_Policies = [(''GET'', HandlePoliciesList)]"
| "resource_methods (Res_Policy i) = [(''PUT'', HandlePolicyUpsert)]"
| "resource_methods Res_Server = [(''GET'', HandleServerConfig), (''PUT'', HandleServerConfig)]"
| "resource_methods Res_Balancer = [(''GET'', HandleLoadBalancerConfig), (''PUT'', HandleLoadBalancerConfig)]"

fun resource_values :: "api_resource \<Rightarrow> path_values" where
  "resource_values (Res_Backend i) = [(''id'', i)]"
| "resource_values (Res_VHost d) = [(''domain'', d)]"
| "resource_values (Res_Security d) = [(''domain'', d)]"
| "resource_values (Res_Policy i) = [(''id'', i)]"
| "resource_values _ = []"

text \<open>The methods in the \<open>Allow\<close> header: those of the resource, with \<open>HEAD\<close> where there is
  \<open>GET\<close>, in order.\<close>

definition allowed_methods :: "api_resource \<Rightarrow> string list" where
  "allowed_methods r =
     filter (\<lambda>k. k \<in> fst ` set (resource_methods r) \<or> (k = ''HEAD'' \<and> ''GET'' \<in> fst ` set (resource_methods r)))
       [''DELETE'', ''GET'', ''HEAD'', ''POST'', ''PUT'']"

lemma admin_no_slash:
  "\<forall>e \<in> set (admin_mux A). Multi \<notin> set (mp_segs (fst e)) \<and> Lit ''/'' \<notin> set (mp_segs (fst e))"
  by (simp add: admin_mux_def api_at_def)

text \<open>The tree of a method.\<close>

lemma admin_nodes:
  "method_node (admin_mux A) ''GET'' = map (\<lambda>e. (mp_segs (fst e), e))
     [(api_at ''GET'' [Lit ''backend''], HandleBackendsList A),
      (api_at ''GET'' [Lit ''backend'', Wild ''id''], HandleBackendGet A),
      (api_at ''GET'' [Lit ''vhost''], HandleVhostsList A),
      (api_at ''GET'' [Lit ''vhost'', Wild ''domain''], HandleVhostGet A),
      (api_at ''GET'' [Lit ''vhost'', Wild ''domain'', Lit ''security''], HandleSecurityConfigGet A),
      (api_at ''GET'' [Lit ''security'', Lit ''policies''], HandlePoliciesList A),
      (api_at ''GET'' [Lit ''config'', Lit ''server''], HandleServerConfig A),
      (api_at ''GET'' [Lit ''config'', Lit ''lb''], HandleLoadBalancerConfig A)]"
  "method_node (admin_mux A) ''PUT'' = map (\<lambda>e. (mp_segs (fst e), e))
     [(api_at ''PUT'' [Lit ''backend'', Wild ''id''], HandleBackendUpdate A),
      (api_at ''PUT'' [Lit ''vhost'', Wild ''domain''], HandleVhostUpdate A),
      (api_at ''PUT'' [Lit ''vhost'', Wild ''domain'', Lit ''security''], HandleSecurityConfigUpdate A),
      (api_at ''PUT'' [Lit ''security'', Lit ''policies'', Wild ''id''], HandlePolicyUpsert A),
      (api_at ''PUT'' [Lit ''config'', Lit ''server''], HandleServerConfig A),
      (api_at ''PUT'' [Lit ''config'', Lit ''lb''], HandleLoadBalancerConfig A)]"
  "method_node (admin_mux A) ''POST'' = map (\<lambda>e. (mp_segs (fst e), e))
     [(api_at ''POST'' [Lit ''backend''], HandleBackendAdd A), (api_at ''POST'' [Lit ''vhost''], HandleVhostAdd A)]"
  "method_node (admin_mux A) ''DELETE'' = map (\<lambda>e. (mp_segs (fst e), e))
     [(api_at ''DELETE'' [Lit ''backend'', Wild ''id''], HandleBackendDelete A),
      (api_at ''DELETE'' [Lit ''vhost'', Wild ''domain''], HandleVhostDelete A)]"
  by (simp_all add: method_node_def admin_mux_def api_at_def)

lemma admin_node_other:
  assumes "method \<notin> {''GET'', ''PUT'', ''POST'', ''DELETE''}"
  shows "method_node (admin_mux A) method = []"
  using assms by (auto simp: method_node_def admin_mux_def api_at_def)

fun resource_segs :: "api_resource \<Rightarrow> seg list" where
  "resource_segs Res_Backends = [Lit ''backend'']"
| "resource_segs (Res_Backend i) = [Lit ''backend'', Wild ''id'']"
| "resource_segs Res_VHosts = [Lit ''vhost'']"
| "resource_segs (Res_VHost d) = [Lit ''vhost'', Wild ''domain'']"
| "resource_segs (Res_Security d) = [Lit ''vhost'', Wild ''domain'', Lit ''security'']"
| "resource_segs Res_Policies = [Lit ''security'', Lit ''policies'']"
| "resource_segs (Res_Policy i) = [Lit ''security'', Lit ''policies'', Wild ''id'']"
| "resource_segs Res_Server = [Lit ''config'', Lit ''server'']"
| "resource_segs Res_Balancer = [Lit ''config'', Lit ''lb'']"

definition route_of :: "api_env \<Rightarrow> string \<Rightarrow> string list \<Rightarrow> ((mux_pattern \<times> api_world mux_handler) \<times> string list) option" where
  "route_of A method ws =
     (case resource ws of
        None \<Rightarrow> None
      | Some r \<Rightarrow>
          map_option (\<lambda>h. ((api_at method (resource_segs r), h A), map snd (resource_values r)))
            (map_of (resource_methods r) method))"

lemma short_cases:
  obtains "ws = []" | a where "ws = [a]" | a b where "ws = [a, b]" | a b c where "ws = [a, b, c]"
    | a b c d rest where "ws = a # b # c # d # rest"
  by (metis list.exhaust)

lemma match_longer:
  assumes "\<forall>e \<in> set n. length (fst e) < length ws \<and> Multi \<notin> set (fst e)"
  shows "match_segments ws n ms = None"
  using assms
proof (induction ws arbitrary: n ms)
  case (Cons w ws)
  have "\<forall>e \<in> set (lit_child w n). length (fst e) < length ws \<and> Multi \<notin> set (fst e)"
    "\<forall>e \<in> set (wild_child n). length (fst e) < length ws \<and> Multi \<notin> set (fst e)"
    using Cons.prems by (fastforce simp: lit_child_def wild_child_def split: list.splits seg.splits if_splits)+
  moreover have "leaf [Multi] n = None" using Cons.prems by (force simp: leaf_None)
  ultimately show ?case using Cons.IH by simp
qed (force simp: leaf_None)

text \<open>The two first segments of a path select a small node for each method.\<close>

definition admin_node :: "api_env \<Rightarrow> string \<Rightarrow> string \<Rightarrow> (mux_pattern \<times> api_world mux_handler) node" where
  "admin_node A method b =
     (let e = (\<lambda>ss h. (drop 1 ss, (api_at method ss, h A)))
      in if b = ''backend'' then
           (if method = ''GET'' then [e [Lit ''backend''] HandleBackendsList, e [Lit ''backend'', Wild ''id''] HandleBackendGet]
            else if method = ''PUT'' then [e [Lit ''backend'', Wild ''id''] HandleBackendUpdate]
            else if method = ''POST'' then [e [Lit ''backend''] HandleBackendAdd]
            else [e [Lit ''backend'', Wild ''id''] HandleBackendDelete])
         else if b = ''vhost'' then
           (if method = ''GET'' then
              [e [Lit ''vhost''] HandleVhostsList, e [Lit ''vhost'', Wild ''domain''] HandleVhostGet,
               e [Lit ''vhost'', Wild ''domain'', Lit ''security''] HandleSecurityConfigGet]
            else if method = ''PUT'' then
              [e [Lit ''vhost'', Wild ''domain''] HandleVhostUpdate,
               e [Lit ''vhost'', Wild ''domain'', Lit ''security''] HandleSecurityConfigUpdate]
            else if method = ''POST'' then [e [Lit ''vhost''] HandleVhostAdd]
            else [e [Lit ''vhost'', Wild ''domain''] HandleVhostDelete])
         else if b = ''security'' then
           (if method = ''GET'' then [e [Lit ''security'', Lit ''policies''] HandlePoliciesList]
            else if method = ''PUT'' then [e [Lit ''security'', Lit ''policies'', Wild ''id''] HandlePolicyUpsert] else [])
         else if b = ''config'' then
           (if method \<in> {''GET'', ''PUT''} then
              [e [Lit ''config'', Lit ''server''] HandleServerConfig, e [Lit ''config'', Lit ''lb''] HandleLoadBalancerConfig]
            else [])
         else [])"

lemma admin_node_eq:
  assumes "method \<in> {''GET'', ''PUT'', ''POST'', ''DELETE''}"
  shows "lit_child b (lit_child ''api'' (method_node (admin_mux A) method)) = admin_node A method b"
  using assms
  by (elim insertE emptyE;
      cases "b = ''backend''"; cases "b = ''vhost''"; cases "b = ''security''"; cases "b = ''config''")
    (simp_all add: admin_nodes api_at_def admin_node_def)

lemma admin_step:
  assumes "method \<in> {''GET'', ''PUT'', ''POST'', ''DELETE''}"
  shows "match_segments (''api'' # b # ws) (method_node (admin_mux A) method) [] = match_segments ws (admin_node A method b) []"
proof -
  let ?n = "method_node (admin_mux A) method"
  have "wild_child ?n = []" "wild_child (lit_child ''api'' ?n) = []"
    and l: "leaf [Multi] ?n = None" "leaf [Multi] (lit_child ''api'' ?n) = None"
    using assms by (elim insertE emptyE; simp add: admin_nodes api_at_def)+
  then show ?thesis using admin_node_eq [OF assms] by (auto split: option.splits)
qed

text \<open>The same for the table.\<close>

lemma resource_cases:
  "resource (''api'' # ''backend'' # ws) = (case ws of [] \<Rightarrow> Some Res_Backends
     | [c] \<Rightarrow> if c \<noteq> ''/'' then Some (Res_Backend c) else None | _ \<Rightarrow> None)"
  "resource (''api'' # ''vhost'' # ws) = (case ws of [] \<Rightarrow> Some Res_VHosts
     | [c] \<Rightarrow> if c \<noteq> ''/'' then Some (Res_VHost c) else None
     | [c, d] \<Rightarrow> if c \<noteq> ''/'' \<and> d = ''security'' then Some (Res_Security c) else None | _ \<Rightarrow> None)"
  "resource (''api'' # ''security'' # ws) = (case ws of
       [c] \<Rightarrow> if c = ''policies'' then Some Res_Policies else None
     | [c, d] \<Rightarrow> if c = ''policies'' \<and> d \<noteq> ''/'' then Some (Res_Policy d) else None | _ \<Rightarrow> None)"
  "resource (''api'' # ''config'' # ws) = (case ws of
       [c] \<Rightarrow> if c = ''server'' then Some Res_Server else if c = ''lb'' then Some Res_Balancer else None | _ \<Rightarrow> None)"
  "b \<notin> {''backend'', ''vhost'', ''security'', ''config''} \<Longrightarrow> resource (''api'' # b # ws) = None"
  by (auto simp: resource_def split: list.splits)

lemma admin_node_cases:
  "admin_node A method ''backend'' =
     (if method = ''GET'' then [([], api_at ''GET'' [Lit ''backend''], HandleBackendsList A),
        ([Wild ''id''], api_at ''GET'' [Lit ''backend'', Wild ''id''], HandleBackendGet A)]
      else if method = ''PUT'' then [([Wild ''id''], api_at method [Lit ''backend'', Wild ''id''], HandleBackendUpdate A)]
      else if method = ''POST'' then [([], api_at method [Lit ''backend''], HandleBackendAdd A)]
      else [([Wild ''id''], api_at method [Lit ''backend'', Wild ''id''], HandleBackendDelete A)])"
  "admin_node A method ''vhost'' =
     (if method = ''GET'' then [([], api_at method [Lit ''vhost''], HandleVhostsList A),
        ([Wild ''domain''], api_at method [Lit ''vhost'', Wild ''domain''], HandleVhostGet A),
        ([Wild ''domain'', Lit ''security''], api_at method [Lit ''vhost'', Wild ''domain'', Lit ''security''],
           HandleSecurityConfigGet A)]
      else if method = ''PUT'' then
        [([Wild ''domain''], api_at method [Lit ''vhost'', Wild ''domain''], HandleVhostUpdate A),
         ([Wild ''domain'', Lit ''security''], api_at method [Lit ''vhost'', Wild ''domain'', Lit ''security''],
           HandleSecurityConfigUpdate A)]
      else if method = ''POST'' then [([], api_at method [Lit ''vhost''], HandleVhostAdd A)]
      else [([Wild ''domain''], api_at method [Lit ''vhost'', Wild ''domain''], HandleVhostDelete A)])"
  "admin_node A method ''security'' =
     (if method = ''GET'' then [([Lit ''policies''], api_at method [Lit ''security'', Lit ''policies''], HandlePoliciesList A)]
      else if method = ''PUT'' then [([Lit ''policies'', Wild ''id''],
        api_at method [Lit ''security'', Lit ''policies'', Wild ''id''], HandlePolicyUpsert A)] else [])"
  "admin_node A method ''config'' =
     (if method \<in> {''GET'', ''PUT''} then
        [([Lit ''server''], api_at method [Lit ''config'', Lit ''server''], HandleServerConfig A),
         ([Lit ''lb''], api_at method [Lit ''config'', Lit ''lb''], HandleLoadBalancerConfig A)] else [])"
  "b \<notin> {''backend'', ''vhost'', ''security'', ''config''} \<Longrightarrow> admin_node A method b = []"
  by (simp_all add: admin_node_def)

lemma admin_match_rest:
  assumes "method \<in> {''GET'', ''PUT'', ''POST'', ''DELETE''}" and "ws = [] \<or> ws = [c] \<or> ws = [c, d]"
  shows "match_segments ws (admin_node A method b) [] = route_of A method (''api'' # b # ws)"
proof -
  consider "b = ''backend''" | "b = ''vhost''" | "b = ''security''" | "b = ''config''"
    | "b \<notin> {''backend'', ''vhost'', ''security'', ''config''}" by blast
  then show ?thesis
  proof cases
    case 5
    then show ?thesis by (simp add: admin_node_cases(5) [OF 5] route_of_def resource_cases(5) [OF 5])
  next
    case 1
    show ?thesis using assms unfolding 1 route_of_def resource_cases admin_node_cases
      by (elim insertE emptyE disjE) simp_all
  next
    case 2
    show ?thesis using assms unfolding 2 route_of_def resource_cases admin_node_cases
      by (elim insertE emptyE disjE) simp_all
  next
    case 3
    show ?thesis using assms unfolding 3 route_of_def resource_cases admin_node_cases
      by (elim insertE emptyE disjE) simp_all
  next
    case 4
    show ?thesis using assms unfolding 4 route_of_def resource_cases admin_node_cases
      by (elim insertE emptyE disjE) simp_all
  qed
qed

lemma admin_node_short:
  "list_all (\<lambda>e. length (fst e) \<le> 2 \<and> Multi \<notin> set (fst e)) (admin_node A method b)"
  unfolding admin_node_def Let_def by (simp split: if_split)

lemma admin_match_method:
  assumes "method \<in> {''GET'', ''PUT'', ''POST'', ''DELETE''}"
  shows "match_segments ws (method_node (admin_mux A) method) [] = route_of A method ws"
proof -
  let ?n = "method_node (admin_mux A) method"
  consider "ws = []" | a where "ws = [a]" | a b rest where "ws = a # b # rest" "a \<noteq> ''api''"
    | b rest where "ws = ''api'' # b # rest"
    by (metis list.exhaust)
  then show ?thesis
  proof cases
    case 1
    have "leaf [] ?n = None" using assms by (elim insertE emptyE; simp add: admin_nodes api_at_def)
    then show ?thesis by (simp add: 1 route_of_def resource_def)
  next
    case (2 a)
    have "wild_child ?n = []" "leaf [Multi] ?n = None" "leaf [] (lit_child a ?n) = None"
      using assms by (elim insertE emptyE; simp add: admin_nodes api_at_def)+
    then show ?thesis by (simp add: 2 route_of_def resource_def)
  next
    case (3 a b rest)
    have "wild_child ?n = []" "leaf [Multi] ?n = None" "lit_child a ?n = []"
      using assms 3(2) by (elim insertE emptyE; simp add: admin_nodes api_at_def)+
    then show ?thesis by (simp add: 3 route_of_def resource_def)
  next
    case (4 b rest)
    consider c d where "rest = [] \<or> rest = [c] \<or> rest = [c, d]" | c d x rest' where "rest = c # d # x # rest'"
      by (metis list.exhaust)
    then show ?thesis
    proof cases
      case (1 c d)
      show ?thesis unfolding 4 admin_step [OF assms] by (rule admin_match_rest [OF assms 1])
    next
      case (2 c d x rest')
      have "match_segments rest (admin_node A method b) [] = None"
        using admin_node_short [of A] unfolding 2 by (intro match_longer) (force simp: list_all_iff)
      moreover have "resource ws = None" using 2 4 by (simp add: resource_def)
      ultimately show ?thesis unfolding 4 admin_step [OF assms] by (simp add: route_of_def)
    qed
  qed
qed

end
