(* ===== verification/HeaderFilter.thy ===== *)
theory HeaderFilter
  imports HttpTypes
begin

text \<open>
  \<open>internal/proxy/handler/headers.go\<close>: connection-specific headers, which a proxy must not
  forward. Main facts: what is left after filtering is exactly the entries that are neither
  hop-by-hop nor nominated by a \<open>Connection\<close> header, with values and order kept, and a
  request is an upgrade request exactly if it names a protocol in \<open>Upgrade\<close> or nominates
  \<open>upgrade\<close>. The names of header fields are ASCII, as the server and the transport of
  \<open>net/http\<close> enforce.
\<close>

definition hopByHopHeaderNames :: "string list" where
  "hopByHopHeaderNames =
     [''connection'', ''keep-alive'', ''proxy-authenticate'', ''proxy-authorization'',
      ''proxy-connection'', ''te'', ''trailer'', ''transfer-encoding'', ''upgrade'']"

text \<open>The tokens of one header value, and the nested loops over all of them.\<close>

definition value_tokens :: "string \<Rightarrow> string list" where
  "value_tokens v = filter (\<lambda>t. t \<noteq> '''') (map trim_space (split_on CHR '','' v))"

fun connectionHeaderTokens :: "header \<Rightarrow> string list" where
  "connectionHeaderTokens [] = []"
| "connectionHeaderTokens ((name, values) # h) =
     (if \<not> equal_fold name ''Connection'' then connectionHeaderTokens h
      else concat (map value_tokens values) @ connectionHeaderTokens h)"

text \<open>The first loop of \<open>isUpgradeRequest\<close>.\<close>

fun upgrade_header :: "header \<Rightarrow> bool" where
  "upgrade_header [] \<longleftrightarrow> False"
| "upgrade_header ((name, values) # h) \<longleftrightarrow>
     (if equal_fold name ''Upgrade'' \<and> (\<exists>v \<in> set values. trim_space v \<noteq> '''') then True
      else upgrade_header h)"

definition isUpgradeRequest :: "header \<Rightarrow> bool" where
  "isUpgradeRequest h \<longleftrightarrow>
     upgrade_header h \<or> (\<exists>t \<in> set (connectionHeaderTokens h). equal_fold t ''upgrade'')"

definition blocked_names :: "header \<Rightarrow> string list" where
  "blocked_names h = hopByHopHeaderNames @ map to_lower (connectionHeaderTokens h)"

definition removeHopByHopHeaders :: "header \<Rightarrow> header" where
  "removeHopByHopHeaders h =
     (let blocked = blocked_names h in filter (\<lambda>(name, _). to_lower name \<notin> set blocked) h)"

section \<open>Characterisation\<close>

text \<open>A token is nominated when some \<open>Connection\<close> value lists it.\<close>

definition nominated :: "header \<Rightarrow> string \<Rightarrow> bool" where
  "nominated h t \<longleftrightarrow>
     t \<noteq> '''' \<and>
     (\<exists>name values v part. (name, values) \<in> set h \<and> equal_fold name ''Connection'' \<and>
        v \<in> set values \<and> part \<in> set (split_on CHR '','' v) \<and> t = trim_space part)"

lemma in_value_tokens:
  "t \<in> set (value_tokens v) \<longleftrightarrow>
   t \<noteq> '''' \<and> (\<exists>part \<in> set (split_on CHR '','' v). t = trim_space part)"
  by (auto simp: value_tokens_def)

lemma in_connectionHeaderTokens: "t \<in> set (connectionHeaderTokens h) \<longleftrightarrow> nominated h t"
proof (induction h rule: connectionHeaderTokens.induct)
  case 1
  then show ?case by (simp add: nominated_def)
next
  case (2 name "values" h)
  have "nominated ((name, values) # h) t \<longleftrightarrow>
      (equal_fold name ''Connection'' \<and> (\<exists>v \<in> set values. t \<in> set (value_tokens v))) \<or> nominated h t"
    unfolding nominated_def in_value_tokens list.set insert_iff prod.inject by blast
  with 2 show ?case by (cases "equal_fold name ''Connection''") auto
qed

lemma upgrade_header_iff:
  "upgrade_header h \<longleftrightarrow>
     (\<exists>name values v. (name, values) \<in> set h \<and> equal_fold name ''Upgrade'' \<and>
        v \<in> set values \<and> trim_space v \<noteq> '''')"
proof (induction h rule: upgrade_header.induct)
  case (2 name "values" h)
  show ?case
  proof (cases "equal_fold name ''Upgrade'' \<and> (\<exists>v \<in> set values. trim_space v \<noteq> '''')")
    case True
    then show ?thesis by auto
  next
    case False
    with 2 show ?thesis by auto
  qed
qed simp

definition connection_specific :: "header \<Rightarrow> string \<Rightarrow> bool" where
  "connection_specific h name \<longleftrightarrow>
     to_lower name \<in> set hopByHopHeaderNames \<or> (\<exists>t. nominated h t \<and> to_lower name = to_lower t)"

lemma in_blocked_names: "to_lower name \<in> set (blocked_names h) \<longleftrightarrow> connection_specific h name"
  by (auto simp: blocked_names_def connection_specific_def in_connectionHeaderTokens [symmetric])

lemma removeHopByHopHeaders_filter:
  "removeHopByHopHeaders h = filter (\<lambda>(name, _). \<not> connection_specific h name) h"
  by (simp add: removeHopByHopHeaders_def Let_def in_blocked_names)

lemma map_of_filter_key:
  "map_of (filter (\<lambda>(n, _). P n) xs) k = (if P k then map_of xs k else None)"
  by (induction xs) auto

lemma map_of_removeHopByHop:
  "map_of (removeHopByHopHeaders h) n = (if connection_specific h n then None else map_of h n)"
  unfolding removeHopByHopHeaders_filter
  by (simp add: map_of_filter_key [where P = "\<lambda>n. \<not> connection_specific h n"])

lemma lower_connection: "map lower_char ''Connection'' = ''connection''"
  by code_simp

text \<open>Filtering twice is filtering once: nothing that is left nominates a header.\<close>

lemma no_connection_left: "(n, vs) \<in> set (removeHopByHopHeaders h) \<Longrightarrow> \<not> equal_fold n ''Connection''"
proof
  assume "(n, vs) \<in> set (removeHopByHopHeaders h)" and eq: "equal_fold n ''Connection''"
  then have not: "\<not> connection_specific h n" by (simp add: removeHopByHopHeaders_filter)
  have low: "map lower_char n = ''connection''"
    using eq unfolding equal_fold_def lower_connection .
  have "to_lower n = ''connection''"
  proof -
    have "\<forall>c \<in> set n. (of_char c :: nat) < 128"
    proof
      fix c assume "c \<in> set n"
      then have "lower_char c \<in> set ''connection''" using low by (metis image_eqI list.set_map)
      then have "(of_char (lower_char c) :: nat) < 128" by auto
      then show "(of_char c :: nat) < 128"
        by (auto simp: lower_char_def Let_def split: if_splits)
    qed
    with low show ?thesis by (simp add: to_lower_ascii)
  qed
  with not show False by (simp add: connection_specific_def hopByHopHeaderNames_def)
qed

lemma not_nominated_after: "\<not> nominated (removeHopByHopHeaders h) t"
  using no_connection_left by (auto simp: nominated_def)

lemma removeHopByHop_idem: "removeHopByHopHeaders (removeHopByHopHeaders h) = removeHopByHopHeaders h"
proof -
  have "\<not> connection_specific (removeHopByHopHeaders h) n" if "\<not> connection_specific h n" for n
    using that not_nominated_after by (auto simp: connection_specific_def)
  then show ?thesis
    unfolding removeHopByHopHeaders_filter [of "removeHopByHopHeaders h"]
    by (intro filter_True) (auto simp: removeHopByHopHeaders_filter [of h])
qed

text \<open>What is forwarded of a header map. Exactly the entries that are neither hop-by-hop nor
  nominated by a \<open>Connection\<close> value are kept, unchanged and in order; what is left nominates
  nothing, so filtering again changes nothing.\<close>

theorem hop_by_hop_filtering:
  "map_of (removeHopByHopHeaders h) n = (if connection_specific h n then None else map_of h n) \<and>
   subseq (removeHopByHopHeaders h) h \<and>
   \<not> nominated (removeHopByHopHeaders h) t \<and>
   removeHopByHopHeaders (removeHopByHopHeaders h) = removeHopByHopHeaders h"
  using map_of_removeHopByHop not_nominated_after removeHopByHop_idem
  by (simp add: removeHopByHopHeaders_def Let_def subseq_filter_left)

text \<open>A nomination in any spelling, among other tokens and white space, is honoured.\<close>

lemma hop_by_hop_example:
  "removeHopByHopHeaders
     [(''Accept'', [''x'']), (''Connection'', [''close, X-Secret ,'']), (''Te'', [''trailers'']),
      (''X-Secret'', [''1'']), (''X-Public'', [''2''])] =
   [(''Accept'', [''x'']), (''X-Public'', [''2''])]"
  by code_simp

end
