(* ===== verification/Routing.thy ===== *)
theory Routing
  imports RuntimeState
begin

text \<open>
  Route selection of \<open>internal/proxy/handler/proxy.go\<close>: the host without its port, the virtual
  host of that domain, the path route with the longest matching path, the backends it sends to,
  and the prefix that is stripped. Main facts: routes match whole path segments; the first of the
  longest matching routes is selected whatever the order; the backends are those of the selected
  route if it has any; a selected route without backends takes those of a shorter route or of
  the virtual host, as the order of the routes decides.
\<close>

section \<open>Paths\<close>

definition stripRoutePrefix :: "string \<Rightarrow> string \<Rightarrow> string" where
  "stripRoutePrefix requestPath routePrefix =
     (let stripped = trim_prefix requestPath routePrefix
      in if stripped = '''' then ''/''
         else if \<not> has_prefix stripped ''/'' then ''/'' @ stripped
         else stripped)"

definition pathRouteMatches :: "string \<Rightarrow> string \<Rightarrow> bool" where
  "pathRouteMatches requestPath routePath \<longleftrightarrow>
     (if routePath = ''/'' then has_prefix requestPath ''/''
      else requestPath = routePath \<or> has_prefix requestPath (routePath @ ''/''))"

lemma pathRouteMatches_iff:
  "pathRouteMatches p r \<longleftrightarrow>
     (if r = ''/'' then \<exists>rest. p = CHR ''/'' # rest
      else p = r \<or> (\<exists>rest. p = r @ CHR ''/'' # rest))"
  by (auto simp: pathRouteMatches_def has_prefix_prefix prefix_def)

lemma stripRoutePrefix_rooted: "\<exists>rest. stripRoutePrefix p r = CHR ''/'' # rest"
proof -
  define s where "s = trim_prefix p r"
  show ?thesis
    unfolding stripRoutePrefix_def Let_def s_def [symmetric]
    by (cases s) (auto simp: has_prefix_def)
qed

text \<open>Stripping a matched route leaves the rest of the path, and gives it back when the route is
  put in front again, except that nothing is written as a slash.\<close>

lemma stripRoutePrefix_matched:
  assumes "pathRouteMatches p r" and "r \<noteq> ''/''"
  shows "stripRoutePrefix p r = (if p = r then ''/'' else drop (length r) p) \<and>
         (p = r \<or> r @ stripRoutePrefix p r = p)"
  using assms by (auto simp: pathRouteMatches_iff stripRoutePrefix_def trim_prefix_def has_prefix_def)

section \<open>Selection\<close>

text \<open>The inner loop: its state is \<open>pathRoute\<close>, \<open>longestPathMatch\<close> and \<open>targetBackends\<close>.\<close>

fun route_loop ::
  "string \<Rightarrow> path_route list \<Rightarrow> path_route option \<times> int \<times> string list
   \<Rightarrow> path_route option \<times> int \<times> string list" where
  "route_loop path [] (pathRoute, longest, targets) = (pathRoute, longest, targets)"
| "route_loop path (pr # prs) (pathRoute, longest, targets) =
     (if pathRouteMatches path (pr_Path pr) \<and> int (length (pr_Path pr)) > longest
      then route_loop path prs
             (Some pr, int (length (pr_Path pr)),
              if pr_BackendIDs pr \<noteq> [] then pr_BackendIDs pr else targets)
      else route_loop path prs (pathRoute, longest, targets))"

text \<open>The outer loop: the first virtual host of the domain, its selected route and the backends.\<close>

fun find_route ::
  "string \<Rightarrow> string \<Rightarrow> virtual_host list
   \<Rightarrow> (virtual_host \<times> path_route option \<times> string list) option" where
  "find_route path host [] = None"
| "find_route path host (vh # vhs) =
     (if vh_Domain vh = host then
        (case route_loop path (vh_PathRoutes vh) (None, - 1, vh_BackendIDs vh) of
           (pathRoute, longest, targets) \<Rightarrow> Some (vh, pathRoute, targets))
      else find_route path host vhs)"

text \<open>The host of a request without its port.\<close>

definition request_host :: "string \<Rightarrow> string" where
  "request_host host = (if contains host '':'' then hd (split_on CHR '':'' host) else host)"

text \<open>The loop over the target backends: known, enabled and active ones.\<close>

fun active_backends ::
  "status_store \<Rightarrow> runtime_state \<Rightarrow> string list \<Rightarrow> backend_config list" where
  "active_backends S current [] = []"
| "active_backends S current (i # ids) =
     (case sn_BackendsById (rs_Snapshot current) i of
        None \<Rightarrow> active_backends S current ids
      | Some b \<Rightarrow>
          if \<not> bc_Enabled b then active_backends S current ids
          else
            (case state_BackendStatus current (bc_Id b) of
               None \<Rightarrow> active_backends S current ids
             | Some a \<Rightarrow>
                 if IsActive (st_mem S a) then b # active_backends S current ids
                 else active_backends S current ids))"

section \<open>What is selected\<close>

lemma request_host_cut: "request_host host = cut_port host"
proof -
  have cut: "cut_port host = takeWhile (\<lambda>c. c \<noteq> CHR '':'') host" by (induction host) auto
  show ?thesis
  proof (cases "contains host '':''")
    case True
    then show ?thesis by (simp add: request_host_def split_on_hd cut)
  next
    case False
    then have "CHR '':'' \<notin> set host" by (simp add: contains_char)
    then have "cut_port host = host" unfolding cut by (simp add: takeWhile_eq_all_conv) metis
    with False show ?thesis by (simp add: request_host_def)
  qed
qed

definition path_len :: "path_route \<Rightarrow> int" where
  "path_len r = int (length (pr_Path r))"

text \<open>The first of the longest matching routes.\<close>

definition first_longest :: "string \<Rightarrow> path_route \<Rightarrow> path_route list \<Rightarrow> bool" where
  "first_longest path r routes \<longleftrightarrow>
     pathRouteMatches path (pr_Path r) \<and>
     (\<exists>us vs. routes = us @ r # vs \<and>
        (\<forall>u \<in> set us. pathRouteMatches path (pr_Path u) \<longrightarrow> path_len u < path_len r) \<and>
        (\<forall>v \<in> set vs. pathRouteMatches path (pr_Path v) \<longrightarrow> path_len v \<le> path_len r))"

lemma route_loop_snoc:
  "route_loop path (rs @ [r]) st = route_loop path [r] (route_loop path rs st)"
  by (induction rs arbitrary: st) (case_tac st; simp)+

lemma route_loop_spec:
  "case route_loop path routes (None, - 1, targets) of
     (None, longest, ts) \<Rightarrow> longest = - 1 \<and> ts = targets \<and>
       (\<forall>r \<in> set routes. \<not> pathRouteMatches path (pr_Path r))
   | (Some r, longest, ts) \<Rightarrow> longest = path_len r \<and> first_longest path r routes \<and>
       (pr_BackendIDs r \<noteq> [] \<longrightarrow> ts = pr_BackendIDs r)"
proof (induction routes rule: rev_induct)
  case Nil
  then show ?case by simp
next
  case (snoc r routes)
  obtain pr n ts where l: "route_loop path routes (None, - 1, targets) = (pr, n, ts)"
    by (metis prod_cases3)
  have neg: "\<not> path_len r < 0" by (simp add: path_len_def)
  show ?case
  proof (cases pr)
    case None
    with snoc.IH l have old: "n = - 1" "ts = targets"
      "\<forall>r \<in> set routes. \<not> pathRouteMatches path (pr_Path r)" by auto
    show ?thesis
    proof (cases "pathRouteMatches path (pr_Path r)")
      case True
      have "first_longest path r (routes @ [r])"
        unfolding first_longest_def using True old(3)
        by (intro conjI exI [of _ routes] exI [of _ "[]"]) auto
      with True old neg show ?thesis
        unfolding route_loop_snoc l None by (simp add: path_len_def)
    next
      case False
      with old show ?thesis unfolding route_loop_snoc l None by auto
    qed
  next
    case (Some q)
    with snoc.IH l have old: "n = path_len q" "first_longest path q routes"
      "pr_BackendIDs q \<noteq> [] \<longrightarrow> ts = pr_BackendIDs q" by auto
    from old(2) obtain us vs where split: "pathRouteMatches path (pr_Path q)" "routes = us @ q # vs"
      "\<forall>u \<in> set us. pathRouteMatches path (pr_Path u) \<longrightarrow> path_len u < path_len q"
      "\<forall>v \<in> set vs. pathRouteMatches path (pr_Path v) \<longrightarrow> path_len v \<le> path_len q"
      unfolding first_longest_def by blast
    show ?thesis
    proof (cases "pathRouteMatches path (pr_Path r) \<and> path_len r > path_len q")
      case True
      have "first_longest path r (routes @ [r])"
        unfolding first_longest_def using True split
        by (intro conjI exI [of _ routes] exI [of _ "[]"]) auto
      with True old show ?thesis
        unfolding route_loop_snoc l Some by (simp add: path_len_def)
    next
      case False
      have "first_longest path q (routes @ [r])"
        unfolding first_longest_def using False split
        by (intro conjI exI [of _ us] exI [of _ "vs @ [r]"]) auto
      with False old show ?thesis
        unfolding route_loop_snoc l Some by (auto simp: path_len_def)
    qed
  qed
qed

text \<open>The routes that are selected one after another: each is longer than every matching route
  before it. The last is the one that stays, and the backends are those of the last that has any.\<close>

definition longest_so_far :: "string \<Rightarrow> path_route list \<Rightarrow> path_route list" where
  "longest_so_far path routes =
     [routes ! i. i \<leftarrow> [0..<length routes],
        pathRouteMatches path (pr_Path (routes ! i)) \<and>
        (\<forall>u \<in> set (take i routes). pathRouteMatches path (pr_Path u) \<longrightarrow>
           path_len u < path_len (routes ! i))]"

definition fallback_backends :: "string \<Rightarrow> virtual_host \<Rightarrow> string list" where
  "fallback_backends path v =
     last (vh_BackendIDs v #
       filter (\<lambda>ids. ids \<noteq> []) (map pr_BackendIDs (longest_so_far path (vh_PathRoutes v))))"

lemma longest_so_far_snoc:
  "longest_so_far path (rs @ [r]) = longest_so_far path rs @
     (if pathRouteMatches path (pr_Path r) \<and>
         (\<forall>u \<in> set rs. pathRouteMatches path (pr_Path u) \<longrightarrow> path_len u < path_len r)
      then [r] else [])"
proof -
  have "concat (map (\<lambda>i. if pathRouteMatches path (pr_Path ((rs @ [r]) ! i)) \<and>
        (\<forall>u \<in> set (take i (rs @ [r])). pathRouteMatches path (pr_Path u) \<longrightarrow>
           path_len u < path_len ((rs @ [r]) ! i)) then [(rs @ [r]) ! i] else []) [0..<length rs]) =
      longest_so_far path rs"
    unfolding longest_so_far_def
    by (intro arg_cong [where f = concat] map_cong refl) (simp add: nth_append)
  then show ?thesis by (simp add: longest_so_far_def)
qed

lemma route_loop_backends:
  "snd (snd (route_loop path routes (None, - 1, targets))) =
     last (targets # filter (\<lambda>ids. ids \<noteq> []) (map pr_BackendIDs (longest_so_far path routes)))"
proof (induction routes rule: rev_induct)
  case Nil
  then show ?case by (simp add: longest_so_far_def)
next
  case (snoc r routes)
  obtain pr n ts where l: "route_loop path routes (None, - 1, targets) = (pr, n, ts)"
    by (metis prod_cases3)
  have longer: "path_len r > n \<longleftrightarrow>
      (\<forall>u \<in> set routes. pathRouteMatches path (pr_Path u) \<longrightarrow> path_len u < path_len r)"
  proof (cases pr)
    case None
    with route_loop_spec [where path = path and routes = routes and targets = targets] l show ?thesis by (auto simp: path_len_def)
  next
    case (Some q)
    with route_loop_spec [where path = path and routes = routes and targets = targets] l
    have "n = path_len q" "first_longest path q routes" by auto
    then show ?thesis unfolding first_longest_def by (force dest: le_less_trans)
  qed
  show ?case
    using snoc.IH longer unfolding route_loop_snoc longest_so_far_snoc l
    by (auto simp: path_len_def)
qed

lemma find_route_vhost:
  "distinct (map vh_Domain vhs) \<Longrightarrow> v \<in> set vhs \<Longrightarrow> vh_Domain v = host \<Longrightarrow>
   find_route path host vhs =
     (case route_loop path (vh_PathRoutes v) (None, - 1, vh_BackendIDs v) of
        (pathRoute, longest, targets) \<Rightarrow> Some (v, pathRoute, targets))"
  by (induction vhs) auto

lemma find_route_None: "find_route path host vhs = None \<longleftrightarrow> host \<notin> vh_Domain ` set vhs"
  by (induction vhs) (auto split: prod.splits)

lemma find_route_first:
  "find_route path host vhs = Some (v, r, ts) \<Longrightarrow> find (\<lambda>v. vh_Domain v = host) vhs = Some v"
  by (induction vhs) (auto split: prod.splits if_splits)

lemma find_route_Some:
  "find_route path host vhs = Some (v, r, ts) \<Longrightarrow>
   v \<in> set vhs \<and> vh_Domain v = host \<and>
   (\<exists>n. route_loop path (vh_PathRoutes v) (None, - 1, vh_BackendIDs v) = (r, n, ts))"
  by (induction vhs) (auto split: prod.splits if_splits)

text \<open>The targets come from the selected virtual host: its own backends or those of a route.\<close>

lemma route_loop_targets:
  "route_loop path routes (r0, n0, ts0) = (r, n, ts) \<Longrightarrow>
   ts = ts0 \<or> (\<exists>q \<in> set routes. ts = pr_BackendIDs q)"
  by (induction routes arbitrary: r0 n0 ts0) (auto split: if_splits)

lemma in_active_backends:
  "b \<in> set (active_backends S current ids) \<longleftrightarrow>
   (\<exists>i \<in> set ids. sn_BackendsById (rs_Snapshot current) i = Some b \<and> bc_Enabled b \<and>
      (\<exists>a. state_BackendStatus current (bc_Id b) = Some a \<and> IsActive (st_mem S a)))"
  by (induction ids) (auto split: option.splits)

section \<open>Properties\<close>

text \<open>A route matches whole path segments only, \<open>/\<close> matches every rooted path, and stripping
  the prefix of a matched route leaves a rooted path that gives the request path back when the
  route is put in front. A request for the route itself is sent on as \<open>/\<close>; the route \<open>/\<close>
  leaves the path alone, except that it drops the first of two leading slashes.\<close>

theorem path_segments:
  "(pathRouteMatches p r \<longleftrightarrow>
      (if r = ''/'' then \<exists>rest. p = CHR ''/'' # rest
       else p = r \<or> (\<exists>rest. p = r @ CHR ''/'' # rest))) \<and>
   (\<exists>rest. stripRoutePrefix p r = CHR ''/'' # rest) \<and>
   (if pathRouteMatches p r
    then (if p = r then stripRoutePrefix p r = ''/''
          else if r = ''/'' then stripRoutePrefix p r \<in> {p, drop 1 p}
          else r @ stripRoutePrefix p r = p)
    else True)"
proof -
  have "stripRoutePrefix p ''/'' \<in> {p, drop 1 p}" if "pathRouteMatches p ''/''" "p \<noteq> ''/''"
  proof -
    from that obtain rest where p: "p = CHR ''/'' # rest" by (auto simp: pathRouteMatches_iff)
    with that show ?thesis
      by (cases rest) (auto simp: stripRoutePrefix_def trim_prefix_def has_prefix_def Let_def)
  qed
  moreover have "stripRoutePrefix p p = ''/''"
    by (simp add: stripRoutePrefix_def trim_prefix_def has_prefix_def)
  ultimately show ?thesis
    using stripRoutePrefix_matched [of p r] stripRoutePrefix_rooted pathRouteMatches_iff by auto
qed
text \<open>C19: routing. A request of which no virtual host has the host (its port cut off) finds none;
  otherwise the virtual host is the first of that domain, the path route the first of its longest
  matching ones, whatever their order, and the target backends are exactly the route's own if it
  has any, those of the virtual host if no route matches. A selected route without backends takes
  those of the last route with backends among the routes that were the longest match so far, and of
  the virtual host if there is none: never its own empty list, if the virtual host has backends.\<close>

theorem route_selection:
  "case find_route path (request_host host) vhs of
     None \<Rightarrow> cut_port host \<notin> vh_Domain ` set vhs
   | Some (v, r, ts) \<Rightarrow>
       find (\<lambda>v. vh_Domain v = cut_port host) vhs = Some v \<and>
       (case r of
          None \<Rightarrow> ts = vh_BackendIDs v \<and>
            filter (\<lambda>q. pathRouteMatches path (pr_Path q)) (vh_PathRoutes v) = []
        | Some q \<Rightarrow> first_longest path q (vh_PathRoutes v) \<and>
            ts = (if pr_BackendIDs q \<noteq> [] then pr_BackendIDs q else fallback_backends path v) \<and>
            (if vh_BackendIDs v = [] then True else ts \<noteq> []))"
proof (cases "find_route path (cut_port host) vhs")
  case None
  then show ?thesis
    using find_route_None [of path "cut_port host" vhs] by (simp add: request_host_cut)
next
  case (Some x)
  obtain v r ts where x: "x = (v, r, ts)" by (cases x) auto
  note first = find_route_first [OF Some [unfolded x]]
  from find_route_Some [OF Some [unfolded x]] obtain n where
    l: "route_loop path (vh_PathRoutes v) (None, - 1, vh_BackendIDs v) = (r, n, ts)" by blast
  have ts: "ts = fallback_backends path v"
    using route_loop_backends [of path "vh_PathRoutes v" "vh_BackendIDs v"]
    by (simp add: l fallback_backends_def)
  then have "if vh_BackendIDs v = [] then True else ts \<noteq> []"
    using last_in_set [of "filter (\<lambda>ids. ids \<noteq> []) (map pr_BackendIDs (longest_so_far path (vh_PathRoutes v)))"]
    by (auto simp: fallback_backends_def split: if_splits)
  then show ?thesis
    using route_loop_spec [where path = path and routes = "vh_PathRoutes v"
        and targets = "vh_BackendIDs v"] ts first
    by (auto simp: request_host_cut Some x l filter_empty_conv split: option.splits)
qed

text \<open>A virtual host with the default backend \<open>b1\<close>, a route \<open>/api\<close> to \<open>b2\<close> and a longer
  route without backends of its own.\<close>

definition api_route :: path_route where
  "api_route = \<lparr>pr_Path = ''/api'', pr_BackendIDs = [''b2''], pr_StripPrefix = False\<rparr>"

definition v1_route :: path_route where
  "v1_route = \<lparr>pr_Path = ''/api/v1'', pr_BackendIDs = [], pr_StripPrefix = True\<rparr>"

definition nested_vhost :: "path_route list \<Rightarrow> virtual_host" where
  "nested_vhost routes =
     \<lparr>vh_Domain = ''h'', vh_BackendIDs = [''b1''], vh_SecurityPolicyID = ''p'', vh_PathRoutes = routes\<rparr>"

text \<open>A route without backends does not reliably fall back to the backends of its virtual host.
  The two virtual hosts differ in the order of their routes only and both pass the validator; a
  request selects the same route in both, but with the shorter route first it inherits that
  route's backends and not the defaults.\<close>

theorem route_order_inherits:
  "valid_vhost {''b1'', ''b2''} {''p''} (nested_vhost [api_route, v1_route]) \<and>
   valid_vhost {''b1'', ''b2''} {''p''} (nested_vhost [v1_route, api_route]) \<and>
   find_route ''/api/v1/x'' ''h'' [nested_vhost [api_route, v1_route]] =
     Some (nested_vhost [api_route, v1_route], Some v1_route, [''b2'']) \<and>
   find_route ''/api/v1/x'' ''h'' [nested_vhost [v1_route, api_route]] =
     Some (nested_vhost [v1_route, api_route], Some v1_route, [''b1''])"
  by (simp add: valid_vhost_def valid_route_def nested_vhost_def api_route_def v1_route_def
      has_prefix_def pathRouteMatches_def)

end
