(* ===== verification/ProxyHandler.thy ===== *)
theory ProxyHandler
  imports HeaderFilter Routing LoadBalance
begin

text \<open>
  The request handler of \<open>internal/proxy/handler/proxy.go\<close>: from the request to the response
  and the changes of metrics and backend statuses on the way. The network, the clock and the random
  numbers are inputs (\<open>http_env\<close>); log output is left out. A handler is one function on the
  runtime: the metrics and statuses it changes are shared with other handlers, but every change is
  an atomic operation of those components. Main facts: at most two attempts on two different
  backends; what is sent to the backend; every request is answered; the metrics of each outcome.
\<close>

section \<open>The environment\<close>

text \<open>
  \<open>he_do\<close> is the transport of one attempt, \<open>he_copy\<close> what \<open>io.Copy\<close> could pass on to the
  client, \<open>he_conv\<close> the conversion of a float that does not fit \<open>uint64\<close>.
\<close>

record http_env =
  he_url_parse :: url_parser
  he_url_error :: "string \<Rightarrow> string"
  he_do :: "nat \<Rightarrow> http_client \<Rightarrow> request \<Rightarrow> net_error + response"
  he_copy :: "response \<Rightarrow> string \<times> net_error option"
  he_now :: "nat \<Rightarrow> go_time"
  he_ended :: int64
  he_duration_ns :: int64
  he_conv :: "f64 \<Rightarrow> uint64"
  he_exp :: "f64 \<Rightarrow> f64"
  he_rnd :: "nat \<Rightarrow> rand_source"
  he_newRequestID :: string

text \<open>The errors that \<open>executeProxyRequest\<close> returns.\<close>

datatype proxy_error = Err_Select go_error | Err_NilBackend | Err_Attempt net_error

definition on_metrics :: "(metrics \<Rightarrow> metrics) \<Rightarrow> runtime \<Rightarrow> runtime" where
  "on_metrics f rt = rt\<lparr>rt_Metrics := f (rt_Metrics rt)\<rparr>"

definition add_failed :: "metrics \<Rightarrow> metrics" where
  "add_failed m = m\<lparr>mt_FailedRequests := mt_FailedRequests m + 1\<rparr>"

section \<open>One attempt\<close>

definition ensureRequestID ::
  "http_env \<Rightarrow> request \<Rightarrow> response_writer \<Rightarrow> string \<times> request \<times> response_writer" where
  "ensureRequestID H r w =
     (let given = header_Get (rq_Header r) ''X-Request-ID'';
          requestID = (if given = '''' then he_newRequestID H else given);
          r' = (if given = '''' then r\<lparr>rq_Header := header_Set ''X-Request-ID'' requestID (rq_Header r)\<rparr>
                else r)
      in (requestID, r', on_header (header_Set ''X-Request-ID'' requestID) w))"

definition forwardedProto :: "request \<Rightarrow> string" where
  "forwardedProto r = (if rq_TLS r then ''https'' else ''http'')"

definition isRetryableRequest :: "request \<Rightarrow> bool" where
  "isRetryableRequest r \<longleftrightarrow>
     (if rq_Method r \<in> {''GET'', ''HEAD'', ''OPTIONS'', ''TRACE''} then True
      else rq_GetBody r \<noteq> None)"

text \<open>The body of the clone: a fresh one if the request has one that can be reopened.\<close>

definition attempt_body :: "nat \<Rightarrow> request \<Rightarrow> net_error + body_ref option" where
  "attempt_body attempt r =
     (case (rq_Body r, rq_GetBody r) of
        (Some _, Some getBody) \<Rightarrow>
          (case getBody attempt of Inl e \<Rightarrow> Inl e | Inr b \<Rightarrow> Inr (Some b))
      | _ \<Rightarrow> Inr (rq_Body r))"

text \<open>The headers that go to the backend.\<close>

definition outbound_header :: "string \<Rightarrow> string \<Rightarrow> request \<Rightarrow> header" where
  "outbound_header host requestID r =
     (let forwardedFor = header_Get (rq_Header r) ''X-Forwarded-For'';
          h1 = removeHopByHopHeaders (rq_Header r);
          h2 = header_Set ''X-Request-ID'' requestID h1;
          h3 = header_Set ''X-Forwarded-Host'' host h2;
          h4 = header_Set ''X-Forwarded-Proto'' (forwardedProto r) h3;
          forwardedFor' = (if forwardedFor = '''' then split_host (rq_RemoteAddr r) else forwardedFor)
      in header_Set ''X-Forwarded-For'' forwardedFor' h4)"

definition outbound_request ::
  "string \<times> string \<Rightarrow> path_route option \<Rightarrow> string \<Rightarrow> string \<Rightarrow> body_ref option \<Rightarrow> request \<Rightarrow> request" where
  "outbound_request targetURL pathRoute host requestID body r =
     (let req = r\<lparr>rq_Body := body, rq_Close := False, rq_TransferEncoding := [], rq_Trailer := [],
                  rq_URL_Scheme := fst targetURL, rq_URL_Host := snd targetURL,
                  rq_RequestURI := '''', rq_Host := snd targetURL,
                  rq_Header := outbound_header host requestID r\<rparr>
      in case pathRoute of
           Some pr \<Rightarrow>
             if pr_StripPrefix pr then
               (let path = stripRoutePrefix (rq_URL_Path req) (pr_Path pr)
                in req\<lparr>rq_URL_Path := path, rq_URL_RawPath := path\<rparr>)
             else req
         | None \<Rightarrow> req)"

definition recordPassiveHealth ::
  "runtime_state \<Rightarrow> backend_config \<Rightarrow> net_error + response \<Rightarrow> go_time \<Rightarrow> runtime \<Rightarrow> runtime" where
  "recordPassiveHealth current b res now rt =
     (let healthCfg = fc_HealthCheck (sn_Raw (rs_Snapshot current))
      in if \<not> hcc_Enabled healthCfg \<or> \<not> ph_Enabled (hcc_Passive healthCfg) then rt
         else
           let healthy = (case res of Inl _ \<Rightarrow> False | Inr resp \<Rightarrow> sint (rs_StatusCode resp) < 500);
               resultErr = (case res of
                   Inl e \<Rightarrow> Some (ne_msg e)
                 | Inr resp \<Rightarrow> if \<not> healthy
                     then Some (''backend returned status '' @ show_int (sint (rs_StatusCode resp)))
                     else None)
           in case state_BackendStatus current (bc_Id b) of
                None \<Rightarrow> rt
              | Some a \<Rightarrow>
                  rt\<lparr>rt_store := st_modify a
                       (\<lambda>s. snd (ApplyPassiveResult healthy resultErr (hcc_Thresholds healthCfg) now s))
                       (rt_store rt)\<rparr>)"

definition doProxyRequest ::
  "http_env \<Rightarrow> nat \<Rightarrow> runtime_state \<Rightarrow> request \<Rightarrow> path_route option \<Rightarrow> string \<Rightarrow> string
   \<Rightarrow> backend_config \<Rightarrow> runtime \<Rightarrow> runtime \<times> (net_error + response)" where
  "doProxyRequest H attempt current r pathRoute host requestID b rt =
     (case he_url_parse H (bc_URL b) of
        None \<Rightarrow> (rt, Inl \<lparr>ne_msg = he_url_error H (bc_URL b), ne_timeout = Some False\<rparr>)
      | Some targetURL \<Rightarrow>
          (let rt1 = on_metrics (IncrementActiveConnections (bc_URL b)) rt;
               release = on_metrics (DecrementActiveConnections (bc_URL b))
           in case attempt_body attempt r of
                Inl e \<Rightarrow> (release rt1, Inl e)
              | Inr body \<Rightarrow>
                  (let req = outbound_request targetURL pathRoute host requestID body r;
                       res = he_do H attempt (rs_HTTPClient current) req
                   in (release (recordPassiveHealth current b res (he_now H attempt) rt1), res))))"

section \<open>The attempts\<close>

definition filterOutBackend :: "backend_config list \<Rightarrow> string \<Rightarrow> backend_config list" where
  "filterOutBackend backends targetID = filter (\<lambda>b. bc_Id b \<noteq> targetID) backends"

definition lb_pick ::
  "http_env \<Rightarrow> nat \<Rightarrow> runtime_state \<Rightarrow> runtime \<Rightarrow> backend_config list
   \<Rightarrow> go_error + backend_config option" where
  "lb_pick H attempt current rt candidates =
     map_sum id Some (lb_Next (he_exp H) (he_rnd H attempt) (rs_LoadBalancer current)
       (mt_Backends (rt_Metrics rt)) candidates)"

text \<open>The loop. Its result has the response, the last backend, the error, and, for the
  statements below, the backends that were tried: those that \<open>doProxyRequest\<close> was called for, also
  where it returned before it reached the transport.\<close>

type_synonym attempt_result =
  "runtime \<times> response option \<times> backend_config option \<times> proxy_error option \<times> backend_config list"

function execute_loop ::
  "http_env \<Rightarrow> runtime_state \<Rightarrow> request \<Rightarrow> path_route option \<Rightarrow> string \<Rightarrow> string \<Rightarrow> nat
   \<Rightarrow> backend_config list \<Rightarrow> backend_config option \<Rightarrow> proxy_error option \<Rightarrow> backend_config list
   \<Rightarrow> runtime \<Rightarrow> attempt_result" where
  "execute_loop H current r pathRoute host requestID attempt candidates lastBackend lastErr tried rt =
     (if candidates = [] then (rt, None, lastBackend, lastErr, tried)
      else
        case lb_pick H attempt current rt candidates of
          Inl e \<Rightarrow> (rt, None, lastBackend, Some (Err_Select e), tried)
        | Inr None \<Rightarrow> (rt, None, lastBackend, Some Err_NilBackend, tried)
        | Inr (Some b) \<Rightarrow>
            (case doProxyRequest H attempt current r pathRoute host requestID b rt of
               (rt', Inr resp) \<Rightarrow> (rt', Some resp, Some b, None, tried @ [b])
             | (rt', Inl e) \<Rightarrow>
                 if \<not> isRetryableRequest r \<or> attempt > 0
                 then (rt', None, Some b, Some (Err_Attempt e), tried @ [b])
                 else execute_loop H current r pathRoute host requestID (Suc attempt)
                        (filterOutBackend candidates (bc_Id b)) (Some b) (Some (Err_Attempt e))
                        (tried @ [b]) rt'))"
  by pat_completeness auto
termination
  by (relation "measure (\<lambda>(H, c, r, p, h, i, attempt, _). 2 - attempt)") auto

declare execute_loop.simps [simp del]

definition executeProxyRequest ::
  "http_env \<Rightarrow> runtime_state \<Rightarrow> request \<Rightarrow> path_route option \<Rightarrow> string \<Rightarrow> string
   \<Rightarrow> backend_config list \<Rightarrow> runtime \<Rightarrow> attempt_result" where
  "executeProxyRequest H current r pathRoute host requestID backends rt =
     execute_loop H current r pathRoute host requestID 0 backends None None [] rt"

section \<open>The handler\<close>

definition logAndReturn :: "goint \<Rightarrow> string \<Rightarrow> runtime \<times> response_writer \<Rightarrow> runtime \<times> response_writer" where
  "logAndReturn statusCode responseMsg st =
     (case st of (rt, w) \<Rightarrow>
        (on_metrics (\<lambda>m. let m' = RecordStatusCode statusCode m
                         in if sint statusCode \<ge> 400 then add_failed m' else m') rt,
         http_Error responseMsg statusCode w))"

definition latency_ms :: "http_env \<Rightarrow> f64" where
  "latency_ms H = f64_div (f64_of_int (sint (he_duration_ns H))) (Fin 1000000)"

definition record_end :: "http_env \<Rightarrow> string \<Rightarrow> bool \<Rightarrow> goint \<Rightarrow> metrics \<Rightarrow> metrics" where
  "record_end H url isError code =
     RecordRequestEnd (he_conv H) url (latency_ms H) isError (ucast code) (he_ended H)"

text \<open>The error branch after the attempts.\<close>

definition no_backend_error :: "proxy_error \<Rightarrow> bool" where
  "no_backend_error err \<longleftrightarrow> err = Err_Select ErrNoAvailableBackend"

definition error_status :: "proxy_error \<Rightarrow> goint" where
  "error_status err = (if no_backend_error err then 503 else 502)"

definition error_message :: "proxy_error \<Rightarrow> string" where
  "error_message err = (if no_backend_error err then ''No available backend'' else ''Backend error'')"

definition is_timeout :: "proxy_error \<Rightarrow> bool" where
  "is_timeout err \<longleftrightarrow> (case err of Err_Attempt e \<Rightarrow> ne_timeout e = Some True | _ \<Rightarrow> False)"

definition finish_error ::
  "http_env \<Rightarrow> proxy_error \<Rightarrow> backend_config option \<Rightarrow> runtime \<times> response_writer
   \<Rightarrow> runtime \<times> response_writer" where
  "finish_error H err backend st =
     (case st of (rt, w) \<Rightarrow>
        let rt1 = (case backend of
                     None \<Rightarrow> rt
                   | Some b \<Rightarrow>
                       (let rt0 = (if is_timeout err then on_metrics (RecordTimeout (bc_URL b)) rt else rt)
                        in on_metrics (record_end H (bc_URL b) True (error_status err)) rt0))
        in logAndReturn (error_status err) (error_message err) (rt1, w))"

text \<open>Copying the response.\<close>

definition add_values :: "header \<Rightarrow> header \<Rightarrow> header" where
  "add_values from h = fold (\<lambda>(k, vs) h. fold (header_Add k) vs h) from h"

definition finish_response ::
  "http_env \<Rightarrow> response \<Rightarrow> backend_config \<Rightarrow> runtime \<times> response_writer \<Rightarrow> runtime \<times> response_writer" where
  "finish_response H resp b st =
     (case st of (rt, w) \<Rightarrow>
        let code = rs_StatusCode resp;
            rt1 = on_metrics (RecordStatusCode code) rt;
            w1 = write_header code (on_header (add_values (removeHopByHopHeaders (rs_Header resp))) w);
            (sent, err) = he_copy H resp;
            w2 = write_body sent w1
        in case err of
             Some _ \<Rightarrow>
               (on_metrics (\<lambda>m. add_failed (record_end H (bc_URL b) True code m)) rt1, w2)
           | None \<Rightarrow>
               (on_metrics (\<lambda>m. RecordResponseSize (of_nat (length sent))
                                  (record_end H (bc_URL b) False code m)) rt1, w2))"

text \<open>\<open>None\<close> stands for the nil dereference that a missing response would be.\<close>

definition ProxyHandler ::
  "http_env \<Rightarrow> runtime \<Rightarrow> request \<Rightarrow> response_writer \<Rightarrow> (runtime \<times> response_writer) option" where
  "ProxyHandler H rt0 r0 w0 =
     (let rt = on_metrics (RecordMethod (rq_Method r0)) rt0;
          current = State rt;
          snap = rs_Snapshot current;
          (requestID, r, w) = ensureRequestID H r0 w0;
          host = request_host (rq_Host r)
      in if isUpgradeRequest (rq_Header r)
         then Some (logAndReturn 501 ''HTTP protocol upgrades are not supported'' (rt, w))
         else
           case find_route (rq_URL_Path r) host (fc_VirtualHosts (sn_Raw snap)) of
             None \<Rightarrow> Some (logAndReturn 403 ''Unknown host'' (rt, w))
           | Some (vhost, pathRoute, targetBackends) \<Rightarrow>
               if targetBackends = [] then Some (logAndReturn 403 ''Unknown host'' (rt, w))
               else
                 let backends = active_backends (rt_store rt) current targetBackends
                 in if backends = []
                    then Some (logAndReturn 503 ''No active backends available'' (rt, w))
                    else
                      let rt1 = (if sint (rq_ContentLength r) > 0
                                 then on_metrics (RecordRequestSize (rq_ContentLength r)) rt else rt);
                          (rt2, resp, backend, err, _) =
                            executeProxyRequest H current r pathRoute host requestID backends rt1
                      in case err of
                           Some e \<Rightarrow> Some (finish_error H e backend (rt2, w))
                         | None \<Rightarrow>
                             (case (resp, backend) of
                                (Some resp, Some b) \<Rightarrow> Some (finish_response H resp b (rt2, w))
                              | _ \<Rightarrow> None))"

end
