(* ===== verification/ProxyProps.thy ===== *)
theory ProxyProps
  imports ProxyHandler RuntimeProps
begin

text \<open>
  What the request handler guarantees: the request it sends and to whom, the attempts it makes, its
  answer and what it counts in every case, and the effect on connections and statuses.
\<close>

section \<open>What is sent\<close>

lemma outbound_header_lookup:
  "map_of (outbound_header host rid r) n =
     (if n = ''X-Forwarded-For'' then
        Some [if header_Get (rq_Header r) ''X-Forwarded-For'' = '''' then split_host (rq_RemoteAddr r)
              else header_Get (rq_Header r) ''X-Forwarded-For'']
      else if n = ''X-Forwarded-Proto'' then Some [forwardedProto r]
      else if n = ''X-Forwarded-Host'' then Some [host]
      else if n = ''X-Request-Id'' then Some [rid]
      else if connection_specific (rq_Header r) n then None
      else map_of (rq_Header r) n)"
  by (simp add: outbound_header_def Let_def header_Set_def update_conv' map_of_removeHopByHop)

lemma outbound_request_fields:
  "rq_Header (outbound_request u pr host rid body r) = outbound_header host rid r"
  "rq_Method (outbound_request u pr host rid body r) = rq_Method r"
  "rq_URL_Scheme (outbound_request u pr host rid body r) = fst u"
  "rq_URL_Host (outbound_request u pr host rid body r) = snd u"
  "rq_Host (outbound_request u pr host rid body r) = snd u"
  "rq_RequestURI (outbound_request u pr host rid body r) = ''''"
  "rq_Close (outbound_request u pr host rid body r) = False"
  "rq_TransferEncoding (outbound_request u pr host rid body r) = []"
  "rq_Trailer (outbound_request u pr host rid body r) = []"
  "rq_Body (outbound_request u pr host rid body r) = body"
  "rq_URL_Path (outbound_request u pr host rid body r) =
     (case pr of None \<Rightarrow> rq_URL_Path r
      | Some q \<Rightarrow> if pr_StripPrefix q then stripRoutePrefix (rq_URL_Path r) (pr_Path q) else rq_URL_Path r)"
  by (simp_all add: outbound_request_def Let_def split: option.splits)

text \<open>C16: what is sent to a backend. The request goes to the backend's scheme and host with the
  client's method, the body of the attempt and no connection framing; it has exactly the proxy's
  request id, forwarded host, scheme and client address, and of the client's headers those that are
  neither hop-by-hop nor nominated by \<open>Connection\<close>, unchanged.\<close>

theorem outbound_request_sound:
  "let req = outbound_request u pr host rid body r in
   rq_URL_Scheme req = fst u \<and> rq_URL_Host req = snd u \<and> rq_Host req = snd u \<and>
   rq_Method req = rq_Method r \<and> rq_Body req = body \<and>
   \<not> rq_Close req \<and> rq_TransferEncoding req = [] \<and> rq_Trailer req = [] \<and>
   map_of (rq_Header req) n =
     (if n = ''X-Forwarded-For'' then
        Some [if header_Get (rq_Header r) ''X-Forwarded-For'' = '''' then split_host (rq_RemoteAddr r)
              else header_Get (rq_Header r) ''X-Forwarded-For'']
      else if n = ''X-Forwarded-Proto'' then Some [if rq_TLS r then ''https'' else ''http'']
      else if n = ''X-Forwarded-Host'' then Some [host]
      else if n = ''X-Request-Id'' then Some [rid]
      else if connection_specific (rq_Header r) n then None
      else map_of (rq_Header r) n)"
  by (simp add: Let_def outbound_request_fields outbound_header_lookup forwardedProto_def)

section \<open>Attempts\<close>

lemma lb_pick_cases:
  obtains (err) "lb_pick H n current rt cs = Inl ErrNoAvailableBackend"
    | (ok) b where "lb_pick H n current rt cs = Inr (Some b)" "b \<in> set cs" "bc_Enabled b"
proof (cases "lb_Next (he_exp H) (he_rnd H n) (rs_LoadBalancer current) (mt_Backends (rt_Metrics rt)) cs")
  case (Inl e)
  with any.only_error [OF Inl] err show thesis by (simp add: lb_pick_def)
next
  case (Inr b)
  with any.sound [OF Inr] ok show thesis by (simp add: lb_pick_def)
qed

text \<open>The second round of the loop is the last.\<close>

lemma execute_last:
  "case execute_loop H current r pr host rid (Suc n) cs lastB lastE tried rt of
     (rt', resp, backend, err, tried') \<Rightarrow>
       (tried' = tried \<or> (\<exists>b. tried' = tried @ [b] \<and> b \<in> set cs \<and> bc_Enabled b)) \<and>
       (if resp = None then tried' = tried \<and> backend = lastB \<or> backend = Some (last tried')
        else err = None \<and> backend = Some (last tried')) \<and>
       (resp = None \<longrightarrow> (cs = [] \<and> err = lastE) \<or> err \<noteq> None)"
proof (cases "cs = []")
  case True
  then show ?thesis by (simp add: execute_loop.simps [of _ _ _ _ _ _ _ "[]"])
next
  case False
  show ?thesis
  proof (cases rule: lb_pick_cases [of H "Suc n" current rt cs])
    case err
    with False show ?thesis by (simp add: execute_loop.simps [of _ _ _ _ _ _ _ cs])
  next
    case (ok b)
    obtain rt' res where "doProxyRequest H (Suc n) current r pr host rid b rt = (rt', res)" by fastforce
    with ok False show ?thesis
      by (cases res) (simp_all add: execute_loop.simps [of _ _ _ _ _ _ _ cs])
  qed
qed

definition attempts_ok :: "request \<Rightarrow> backend_config list \<Rightarrow> attempt_result \<Rightarrow> bool" where
  "attempts_ok r cs res \<longleftrightarrow>
     (case res of (rt', resp, backend, err, tried) \<Rightarrow>
        length tried \<le> (if isRetryableRequest r then 2 else 1) \<and>
        set tried \<subseteq> set cs \<and> list_all bc_Enabled tried \<and> distinct (map bc_Id tried) \<and>
        backend = (if tried = [] then None else Some (last tried)) \<and>
        (resp = None \<or> backend \<noteq> None) \<and>
        (cs = [] \<or> (resp = None \<longleftrightarrow> err \<noteq> None)))"

lemma execute_attempts_ok: "attempts_ok r cs (executeProxyRequest H current r pr host rid cs rt)"
proof (cases "cs = []")
  case True
  then show ?thesis
    by (simp add: attempts_ok_def executeProxyRequest_def execute_loop.simps [of _ _ _ _ _ _ _ "[]"])
next
  case False
  show ?thesis
  proof (cases rule: lb_pick_cases [of H 0 current rt cs])
    case err
    with False show ?thesis
      by (simp add: attempts_ok_def executeProxyRequest_def execute_loop.simps [of _ _ _ _ _ _ _ cs])
  next
    case (ok b)
    obtain rt1 res where d: "doProxyRequest H 0 current r pr host rid b rt = (rt1, res)" by fastforce
    show ?thesis
    proof (cases "\<exists>e. res = Inl e \<and> isRetryableRequest r")
      case False
      with ok d \<open>cs \<noteq> []\<close> show ?thesis
        by (cases res)
          (simp_all add: attempts_ok_def executeProxyRequest_def execute_loop.simps [of _ _ _ _ _ _ _ cs])
    next
      case True
      then obtain e where e: "res = Inl e" "isRetryableRequest r" by blast
      let ?cs = "filterOutBackend cs (bc_Id b)"
      let ?out = "execute_loop H current r pr host rid (Suc 0) ?cs (Some b) (Some (Err_Attempt e)) [b] rt1"
      have out: "executeProxyRequest H current r pr host rid cs rt = ?out"
        using ok d e \<open>cs \<noteq> []\<close>
        by (simp add: executeProxyRequest_def execute_loop.simps [of _ _ _ _ _ _ _ cs])
      obtain rt' resp backend err tried where o: "?out = (rt', resp, backend, err, tried)"
        by (metis prod_cases5)
      have sub: "set ?cs \<subseteq> set cs - {c. bc_Id c = bc_Id b}" by (auto simp: filterOutBackend_def)
      from execute_last [where H = H and current = current and r = r and pr = pr and host = host and
          rid = rid and n = 0 and cs = ?cs and lastB = "Some b" and lastE = "Some (Err_Attempt e)" and
          tried = "[b]" and rt = rt1] o
      have l: "tried = [b] \<or> (\<exists>c. tried = [b, c] \<and> c \<in> set ?cs \<and> bc_Enabled c)"
        "if resp = None then tried = [b] \<and> backend = Some b \<or> backend = Some (last tried)
         else err = None \<and> backend = Some (last tried)"
        "resp = None \<longrightarrow> err \<noteq> None"
        by auto
      have "backend = Some (last tried)" using l(1,2) by (auto split: if_splits)
      moreover have "resp = None \<longleftrightarrow> err \<noteq> None" using l(2,3) by (auto split: if_splits)
      moreover have "tried \<noteq> [] \<and> length tried \<le> 2 \<and> set tried \<subseteq> set cs \<and> list_all bc_Enabled tried \<and>
          distinct (map bc_Id tried)"
        using l(1) sub ok(2,3) by auto
      ultimately show ?thesis using e(2) unfolding out o by (simp add: attempts_ok_def)
    qed
  qed
qed

text \<open>C15: the attempts. Whatever the network does, a request is tried on at most two backends, on at
  most one if it must not be repeated; they are different enabled candidates; the reported backend
  is the last one tried; and there is a response exactly if there is no error.\<close>

theorem attempts_bounded:
  "case executeProxyRequest H current r pr host rid cs rt of
     (rt', resp, backend, err, tried) \<Rightarrow>
       length tried \<le> (if isRetryableRequest r then 2 else 1) \<and>
       set tried \<subseteq> set cs \<and> list_all bc_Enabled tried \<and> distinct (map bc_Id tried) \<and>
       backend = (if tried = [] then None else Some (last tried)) \<and>
       (cs = [] \<or> (resp = None \<longleftrightarrow> err \<noteq> None))"
proof (cases "executeProxyRequest H current r pr host rid cs rt")
  case (fields rt' resp backend err tried)
  with execute_attempts_ok [of r cs H current pr host rid rt] show ?thesis
    by (simp only: attempts_ok_def prod.case)
qed

section \<open>What a request changes\<close>

text \<open>What every attempt keeps, the loop keeps.\<close>

lemma execute_loop_inv:
  assumes step: "\<And>n b rt rt' res. I rt \<Longrightarrow> b \<in> set cs \<Longrightarrow>
    doProxyRequest H n current r pr host rid b rt = (rt', res) \<Longrightarrow> I rt'"
    and "I rt"
  shows "I (fst (execute_loop H current r pr host rid n cs lastB lastE tried rt))"
  using assms
proof (induction H current r pr host rid n cs lastB lastE tried rt rule: execute_loop.induct)
  case (1 H current r pr host rid n cs lastB lastE tried rt)
  show ?case
  proof (cases "cs = []")
    case True
    with "1.prems"(2) show ?thesis by (simp add: execute_loop.simps [of _ _ _ _ _ _ _ "[]"])
  next
    case False
    show ?thesis
    proof (cases rule: lb_pick_cases [of H n current rt cs])
      case err
      with False "1.prems"(2) show ?thesis by (simp add: execute_loop.simps [of _ _ _ _ _ _ _ cs])
    next
      case (ok b)
      obtain rt1 res where d: "doProxyRequest H n current r pr host rid b rt = (rt1, res)" by fastforce
      from "1.prems"(1) [OF "1.prems"(2) ok(2) d] have I1: "I rt1" .
      show ?thesis
      proof (cases "\<exists>e. res = Inl e \<and> \<not> (\<not> isRetryableRequest r \<or> n > 0)")
        case True
        then obtain e where e: "res = Inl e" "\<not> (\<not> isRetryableRequest r \<or> n > 0)" by blast
        have sub: "set (filterOutBackend cs (bc_Id b)) \<subseteq> set cs" by (auto simp: filterOutBackend_def)
        have "I (fst (execute_loop H current r pr host rid (Suc n) (filterOutBackend cs (bc_Id b))
                (Some b) (Some (Err_Attempt e)) (tried @ [b]) rt1))"
          using "1.IH" [OF False ok(1) refl d [symmetric] e(1) e(2) _ I1] "1.prems"(1) sub by blast
        then show ?thesis
          using e d ok(1) False by (simp add: execute_loop.simps [of _ _ _ _ _ _ _ cs])
      next
        case stop: False
        then show ?thesis
          using d ok(1) False I1 by (cases res) (auto simp: execute_loop.simps [of _ _ _ _ _ _ _ cs])
      qed
    qed
  qed
qed

lemma execute_inv:
  assumes "\<And>n b rt rt' res. I rt \<Longrightarrow> b \<in> set cs \<Longrightarrow>
    doProxyRequest H n current r pr host rid b rt = (rt', res) \<Longrightarrow> I rt'"
    and "I rt" and "executeProxyRequest H current r pr host rid cs rt = (rt', out)"
  shows "I rt'"
  using execute_loop_inv [of I cs H current r pr host rid rt 0 None None "[]"] assms
  by (simp add: executeProxyRequest_def)

text \<open>The connection counter of a URL.\<close>

definition conn_count :: "metrics \<Rightarrow> string \<Rightarrow> uint64 option" where
  "conn_count m u = map_option bm_ActiveConnections (mt_Backends m u)"

lemma on_metrics_sel [simp]:
  "rt_Metrics (on_metrics f rt) = f (rt_Metrics rt)"
  "rt_store (on_metrics f rt) = rt_store rt" "rt_state (on_metrics f rt) = rt_state rt"
  "rt_Config (on_metrics f rt) = rt_Config rt" "State (on_metrics f rt) = State rt"
  by (simp_all add: on_metrics_def State_def)

lemma recordPassiveHealth_sel [simp]:
  "rt_Metrics (recordPassiveHealth current b res now rt) = rt_Metrics rt"
  "rt_state (recordPassiveHealth current b res now rt) = rt_state rt"
  by (simp_all add: recordPassiveHealth_def Let_def split: option.splits)

lemma conn_count_release:
  assumes "conn_count m u \<noteq> Some (- 1)"
  shows "conn_count (DecrementActiveConnections v (IncrementActiveConnections v m)) u = conn_count m u"
proof (cases "u = v")
  case True
  show ?thesis
  proof (cases "mt_Backends m v")
    case None
    with True show ?thesis
      by (simp add: conn_count_def DecrementActiveConnections_def IncrementActiveConnections_def)
  next
    case (Some b)
    with assms True have "bm_ActiveConnections b \<noteq> - 1" by (auto simp: conn_count_def)
    then have "bm_ActiveConnections b + 1 \<noteq> 0" by (simp add: add_eq_0_iff2)
    with True Some show ?thesis
      by (simp add: conn_count_def DecrementActiveConnections_def IncrementActiveConnections_def dec_step_def)
  qed
next
  case False
  then show ?thesis
    by (simp add: conn_count_def DecrementActiveConnections_def IncrementActiveConnections_def)
qed

text \<open>The metrics and the state after one attempt.\<close>

lemma doProxyRequest_frame:
  assumes "doProxyRequest H n current r pr host rid b rt = (rt', res)"
  shows "rt_Metrics rt' = rt_Metrics rt \<or>
           rt_Metrics rt' = DecrementActiveConnections (bc_URL b)
             (IncrementActiveConnections (bc_URL b) (rt_Metrics rt))"
    and "rt_state rt' = rt_state rt"
  using assms by (auto simp: doProxyRequest_def Let_def split: option.splits sum.splits)

definition same_totals :: "metrics \<Rightarrow> metrics \<Rightarrow> bool" where
  "same_totals m m' \<longleftrightarrow>
     mt_TotalRequests m' = mt_TotalRequests m \<and> mt_FailedRequests m' = mt_FailedRequests m \<and>
     mt_HTTP m' = mt_HTTP m \<and> mt_Security m' = mt_Security m \<and>
     dom (mt_Backends m') = dom (mt_Backends m) \<and>
     (\<forall>u. conn_count m u \<noteq> Some (- 1) \<longrightarrow> conn_count m' u = conn_count m u)"

lemma same_totals_attempt:
  "same_totals m m1 \<Longrightarrow>
   same_totals m (DecrementActiveConnections u (IncrementActiveConnections u m1))"
  using conn_count_release [of m1]
  by (auto simp: same_totals_def DecrementActiveConnections_def IncrementActiveConnections_def)

lemma execute_totals:
  assumes "executeProxyRequest H current r pr host rid cs rt = (rt', out)"
  shows "same_totals (rt_Metrics rt) (rt_Metrics rt') \<and> rt_state rt' = rt_state rt"
proof (rule execute_inv [OF _ _ assms])
  fix n b rt1 rt2 res
  assume "same_totals (rt_Metrics rt) (rt_Metrics rt1) \<and> rt_state rt1 = rt_state rt"
    and "doProxyRequest H n current r pr host rid b rt1 = (rt2, res)"
  then show "same_totals (rt_Metrics rt) (rt_Metrics rt2) \<and> rt_state rt2 = rt_state rt"
    using doProxyRequest_frame [of H n current r pr host rid b rt1 rt2 res] same_totals_attempt by auto
qed (simp add: same_totals_def)

section \<open>The outcomes of a request\<close>

definition entered :: "runtime \<Rightarrow> request \<Rightarrow> runtime" where
  "entered rt r = on_metrics (RecordMethod (rq_Method r)) rt"

definition sized :: "runtime \<Rightarrow> request \<Rightarrow> runtime" where
  "sized rt r =
     (if sint (rq_ContentLength r) > 0
      then on_metrics (RecordRequestSize (rq_ContentLength r)) (entered rt r) else entered rt r)"

lemma ensureRequestID_sel:
  assumes "ensureRequestID H r w = (rid, r', w')"
  shows "wr_Sent w' = wr_Sent w" "wr_Body w' = wr_Body w" "rq_ContentLength r' = rq_ContentLength r"
    "header_Get (rq_Header r') ''X-Request-ID'' = rid" "rq_Method r' = rq_Method r"
    "header_Get (wr_Header w') ''X-Request-ID'' = rid"
  using assms
  by (auto simp: ensureRequestID_def Let_def on_header_def header_Get_Set)

text \<open>Every request is refused, fails upstream, or gets the backend's response.\<close>

lemma ProxyHandler_cases:
  obtains (refused) code msg w where "code = 501 \<or> code = 403 \<or> code = 503"
      "wr_Sent w = wr_Sent w0"
      "ProxyHandler H rt r0 w0 = Some (logAndReturn code msg (entered rt r0, w))"
    | (failed) r pr host rid targets backends rt' resp backend e tried w where
      "executeProxyRequest H (State rt) r pr host rid backends (sized rt r0) =
         (rt', resp, backend, Some e, tried)"
      "backends = active_backends (rt_store rt) (State rt) targets"
      "backends \<noteq> []" "wr_Sent w = wr_Sent w0"
      "ProxyHandler H rt r0 w0 = Some (finish_error H e backend (rt', w))"
    | (served) r pr host rid targets backends rt' resp b tried w where
      "executeProxyRequest H (State rt) r pr host rid backends (sized rt r0) =
         (rt', Some resp, Some b, None, tried)"
      "backends = active_backends (rt_store rt) (State rt) targets"
      "backends \<noteq> []" "wr_Sent w = wr_Sent w0"
      "ProxyHandler H rt r0 w0 = Some (finish_response H resp b (rt', w))"
proof -
  let ?rt = "entered rt r0"
  obtain rid r w where id: "ensureRequestID H r0 w0 = (rid, r, w)" by (metis prod_cases3)
  note sel = ensureRequestID_sel [OF id]
  let ?host = "request_host (rq_Host r)"
  let ?found = "find_route (rq_URL_Path r) ?host (fc_VirtualHosts (sn_Raw (rs_Snapshot (State rt))))"
  have st: "State ?rt = State rt" "rt_store ?rt = rt_store rt" by (simp_all add: entered_def)
  note unfolded = ProxyHandler_def Let_def id prod.case entered_def [symmetric] st
  show thesis
  proof (cases "isUpgradeRequest (rq_Header r)")
    case True
    then show thesis
      by (intro refused [of 501 w "''HTTP protocol upgrades are not supported''"])
        (simp_all add: sel unfolded)
  next
    case up: False
    show thesis
    proof (cases ?found)
      case None
      with up show thesis
        by (intro refused [of 403 w "''Unknown host''"]) (simp_all add: sel unfolded)
    next
      case (Some x)
      obtain vh pr targets where x: "x = (vh, pr, targets)" by (metis prod_cases3)
      let ?bs = "active_backends (rt_store rt) (State rt) targets"
      show thesis
      proof (cases "targets = []")
        case True
        with up Some x show thesis
          by (intro refused [of 403 w "''Unknown host''"]) (simp_all add: sel unfolded)
      next
        case t: False
        show thesis
        proof (cases "?bs = []")
          case True
          with up Some x t show thesis
            by (intro refused [of 503 w "''No active backends available''"])
              (simp_all add: sel unfolded)
        next
          case bs: False
          obtain rt' resp backend err tried where
            ex: "executeProxyRequest H (State rt) r pr ?host rid ?bs (sized rt r0) =
              (rt', resp, backend, err, tried)" by (metis prod_cases5)
          have h: "ProxyHandler H rt r0 w0 =
              (case err of
                 Some e \<Rightarrow> Some (finish_error H e backend (rt', w))
               | None \<Rightarrow> (case (resp, backend) of
                    (Some resp, Some b) \<Rightarrow> Some (finish_response H resp b (rt', w)) | _ \<Rightarrow> None))"
            using up Some x t bs ex
            by (cases "sint (rq_ContentLength r0) > 0") (simp_all add: unfolded sized_def sel)
          show thesis
          proof (cases err)
            case (Some e)
            with h show thesis by (intro failed [OF ex [unfolded Some] refl bs sel(1)]) simp
          next
            case None
            with execute_attempts_ok [of r ?bs H "State rt" pr ?host rid "sized rt r0"] ex bs
            obtain resp' b where rb: "resp = Some resp'" "backend = Some b"
              by (auto simp: attempts_ok_def split: if_splits)
            from ex None rb show thesis
              by (intro served [OF _ refl bs sel(1)]) (simp_all add: h)
          qed
        qed
      qed
    qed
  qed
qed

lemma record_totals [simp]:
  "mt_TotalRequests (RecordStatusCode c m) = mt_TotalRequests m"
  "mt_FailedRequests (RecordStatusCode c m) = mt_FailedRequests m"
  "mt_TotalRequests (RecordMethod s m) = mt_TotalRequests m"
  "mt_FailedRequests (RecordMethod s m) = mt_FailedRequests m"
  "mt_TotalRequests (RecordRequestSize n m) = mt_TotalRequests m"
  "mt_FailedRequests (RecordRequestSize n m) = mt_FailedRequests m"
  "mt_TotalRequests (RecordResponseSize n m) = mt_TotalRequests m"
  "mt_FailedRequests (RecordResponseSize n m) = mt_FailedRequests m"
  "mt_TotalRequests (RecordTimeout u m) = mt_TotalRequests m"
  "mt_FailedRequests (RecordTimeout u m) = mt_FailedRequests m"
  "mt_TotalRequests (add_failed m) = mt_TotalRequests m"
  "mt_FailedRequests (add_failed m) = mt_FailedRequests m + 1"
  "mt_TotalRequests (record_end H u e c m) = mt_TotalRequests m + 1"
  "mt_FailedRequests (record_end H u e c m) = mt_FailedRequests m + (if e then 1 else 0)"
  by (simp_all add: RecordStatusCode_def RecordMethod_def RecordRequestSize_def RecordResponseSize_def
      RecordTimeout_def add_failed_def record_end_def RecordRequestEnd_def Let_def)

lemma record_backends [simp]:
  "mt_Backends (RecordStatusCode c m) = mt_Backends m" "mt_Backends (RecordMethod s m) = mt_Backends m"
  "mt_Backends (RecordRequestSize n m) = mt_Backends m" "mt_Backends (add_failed m) = mt_Backends m"
  "mt_Backends (RecordResponseSize n m) = mt_Backends m"
  by (simp_all add: RecordStatusCode_def RecordMethod_def RecordRequestSize_def RecordResponseSize_def
      add_failed_def)

lemma record_conns [simp]:
  "conn_count (RecordTimeout u m) v = conn_count m v"
  "conn_count (record_end H u e c m) v = conn_count m v"
  by (cases "u = v"; simp add: conn_count_def RecordTimeout_def record_end_def RecordRequestEnd_def Let_def
      option.map_comp comp_def)+

lemma record_dom [simp]:
  "dom (mt_Backends (RecordTimeout u m)) = dom (mt_Backends m)"
  "dom (mt_Backends (record_end H u e c m)) = dom (mt_Backends m)"
  by (simp_all add: RecordTimeout_def record_end_def RecordRequestEnd_def Let_def)

definition failures :: "runtime \<Rightarrow> uint64" where
  "failures rt = mt_FailedRequests (rt_Metrics rt)"

definition totals :: "runtime \<Rightarrow> uint64" where
  "totals rt = mt_TotalRequests (rt_Metrics rt)"

lemma logAndReturn_sel:
  "rt_Metrics (fst (logAndReturn code msg (rt, w))) =
     (if sint code \<ge> 400 then add_failed (RecordStatusCode code (rt_Metrics rt))
      else RecordStatusCode code (rt_Metrics rt))"
  "rt_store (fst (logAndReturn code msg (rt, w))) = rt_store rt"
  "rt_state (fst (logAndReturn code msg (rt, w))) = rt_state rt"
  "snd (logAndReturn code msg (rt, w)) = http_Error msg code w"
  by (simp_all add: logAndReturn_def Let_def)

lemma codes_400: "sint (501 :: goint) \<ge> 400" "sint (403 :: goint) \<ge> 400" "sint (503 :: goint) \<ge> 400"
  "sint (502 :: goint) \<ge> 400"
  by simp_all

lemma error_status_400: "sint (error_status e) \<ge> 400"
  by (simp add: error_status_def)

lemma finish_error_sel:
  "rt_Metrics (fst (finish_error H e backend (rt, w))) =
     add_failed (RecordStatusCode (error_status e)
       (case backend of None \<Rightarrow> rt_Metrics rt
        | Some b \<Rightarrow> record_end H (bc_URL b) True (error_status e)
            (if is_timeout e then RecordTimeout (bc_URL b) (rt_Metrics rt) else rt_Metrics rt)))"
  "rt_store (fst (finish_error H e backend (rt, w))) = rt_store rt"
  "rt_state (fst (finish_error H e backend (rt, w))) = rt_state rt"
  "snd (finish_error H e backend (rt, w)) = http_Error (error_message e) (error_status e) w"
  using error_status_400 [of e]
  by (simp_all add: finish_error_def Let_def logAndReturn_sel split: option.splits)

lemma finish_response_sel:
  "rt_Metrics (fst (finish_response H resp b (rt, w))) =
     (let m = RecordStatusCode (rs_StatusCode resp) (rt_Metrics rt)
      in case snd (he_copy H resp) of
           Some _ \<Rightarrow> add_failed (record_end H (bc_URL b) True (rs_StatusCode resp) m)
         | None \<Rightarrow> RecordResponseSize (of_nat (length (fst (he_copy H resp))))
                    (record_end H (bc_URL b) False (rs_StatusCode resp) m))"
  "rt_store (fst (finish_response H resp b (rt, w))) = rt_store rt"
  "rt_state (fst (finish_response H resp b (rt, w))) = rt_state rt"
  "wr_Sent w = None \<Longrightarrow>
     wr_Sent (snd (finish_response H resp b (rt, w))) =
       Some (rs_StatusCode resp, add_values (removeHopByHopHeaders (rs_Header resp)) (wr_Header w)) \<and>
     wr_Body (snd (finish_response H resp b (rt, w))) = wr_Body w @ fst (he_copy H resp)"
  by (simp_all add: finish_response_def Let_def write_body_def write_header_def on_header_def
      split: option.splits prod.splits)

lemma sized_sel [simp]:
  "failures (sized rt r) = failures rt" "totals (sized rt r) = totals rt"
  "failures (entered rt r) = failures rt" "totals (entered rt r) = totals rt"
  "rt_store (sized rt r) = rt_store rt" "rt_state (sized rt r) = rt_state rt"
  "rt_store (entered rt r) = rt_store rt" "rt_state (entered rt r) = rt_state rt"
  "mt_Backends (rt_Metrics (sized rt r)) = mt_Backends (rt_Metrics rt)"
  "mt_Backends (rt_Metrics (entered rt r)) = mt_Backends (rt_Metrics rt)"
  by (simp_all add: sized_def entered_def failures_def totals_def)

lemma execute_failures:
  "executeProxyRequest H current r pr host rid cs rt = (rt', out) \<Longrightarrow>
   failures rt' = failures rt \<and> totals rt' = totals rt"
  using execute_totals [of H current r pr host rid cs rt rt' out]
  by (simp add: same_totals_def failures_def totals_def)

text \<open>The handler on the writer and request with a request id, in terms of the outcomes.\<close>

lemma ProxyHandler_run:
  assumes id: "ensureRequestID H r0 w0 = (rid, r, w)"
  shows "ProxyHandler H rt r0 w0 =
     (if isUpgradeRequest (rq_Header r)
      then Some (logAndReturn 501 ''HTTP protocol upgrades are not supported'' (entered rt r0, w))
      else
        case find_route (rq_URL_Path r) (request_host (rq_Host r))
               (fc_VirtualHosts (sn_Raw (rs_Snapshot (State rt)))) of
          None \<Rightarrow> Some (logAndReturn 403 ''Unknown host'' (entered rt r0, w))
        | Some (v, pr, targets) \<Rightarrow>
            if targets = [] then Some (logAndReturn 403 ''Unknown host'' (entered rt r0, w))
            else if active_backends (rt_store rt) (State rt) targets = []
            then Some (logAndReturn 503 ''No active backends available'' (entered rt r0, w))
            else
              (case executeProxyRequest H (State rt) r pr (request_host (rq_Host r)) rid
                      (active_backends (rt_store rt) (State rt) targets) (sized rt r0) of
                 (rt', resp, backend, err, tried) \<Rightarrow>
                   (case err of
                      Some e \<Rightarrow> Some (finish_error H e backend (rt', w))
                    | None \<Rightarrow>
                        (case (resp, backend) of
                           (Some resp, Some b) \<Rightarrow> Some (finish_response H resp b (rt', w))
                         | _ \<Rightarrow> None))))"
proof -
  have st: "State (entered rt r0) = State rt" "rt_store (entered rt r0) = rt_store rt"
    by (simp_all add: entered_def)
  show ?thesis
    using ensureRequestID_sel(3) [OF id]
    by (simp add: ProxyHandler_def Let_def id entered_def [symmetric] st sized_def split: option.split)
qed

text \<open>What a client and the counters see of a run: the status, and what was added to the number of
  requests and to the number of failed ones.\<close>

definition seen ::
  "runtime \<Rightarrow> (runtime \<times> response_writer) option \<Rightarrow> (goint \<times> uint64 \<times> uint64) option" where
  "seen rt run =
     (case run of
        None \<Rightarrow> None
      | Some (rt', w') \<Rightarrow>
          map_option (\<lambda>code. (code, totals rt' - totals rt, failures rt' - failures rt))
            (writer_status w'))"

lemma seen_refused:
  assumes "wr_Sent w = None" and "sint code \<ge> 400"
  shows "seen rt (Some (logAndReturn code msg (entered rt r, w))) = Some (code, 0, 1)"
  using http_Error_status [OF assms(1)] assms(2)
  by (auto simp: seen_def failures_def totals_def logAndReturn_def Let_def entered_def)

lemma seen_failed:
  assumes "wr_Sent w = None" and "failures rt' = failures rt" and "totals rt' = totals rt"
  shows "seen rt (Some (finish_error H e backend (rt', w))) =
     Some (error_status e, if backend = None then 0 else 1, if backend = None then 1 else 2)"
proof -
  obtain rt2 w2 where f: "finish_error H e backend (rt', w) = (rt2, w2)" by fastforce
  have "writer_status w2 = Some (error_status e)"
    using finish_error_sel(4) [of H e backend rt' w] http_Error_status [OF assms(1)] by (simp add: f)
  moreover have "failures rt2 = failures rt' + (if backend = None then 1 else 2)"
    "totals rt2 = totals rt' + (if backend = None then 0 else 1)"
    using finish_error_sel(1) [of H e backend rt' w]
    by (auto simp: f failures_def totals_def split: option.splits)
  ultimately show ?thesis using assms(2,3) by (simp add: seen_def f)
qed

lemma seen_served:
  assumes "wr_Sent w = None" and "failures rt' = failures rt" and "totals rt' = totals rt"
  shows "seen rt (Some (finish_response H resp b (rt', w))) =
     Some (rs_StatusCode resp, 1, if snd (he_copy H resp) = None then 0 else 2)"
proof -
  obtain rt2 w2 where f: "finish_response H resp b (rt', w) = (rt2, w2)" by fastforce
  have "writer_status w2 = Some (rs_StatusCode resp)"
    using finish_response_sel(4) [OF assms(1), of H resp b rt'] by (simp add: f writer_status_def)
  moreover have "failures rt2 = failures rt' + (if snd (he_copy H resp) = None then 0 else 2)"
    "totals rt2 = totals rt' + 1"
    using finish_response_sel(1) [of H resp b rt' w]
    by (auto simp: f failures_def totals_def Let_def split: option.splits)
  ultimately show ?thesis using assms(2,3) by (simp add: seen_def f)
qed

text \<open>C17: every request is answered and accounted for, outcome by outcome. The handler never runs
  into a missing response. An upgrade is refused with 501, a host that has no virtual host or no
  backends with 403, one without active backends with 503: each adds one failed request and no
  request. Otherwise the attempts decide. If no backend could be selected, the answer is 503 or 502
  and again one failure and no request are added; if the last attempt failed, 502 (503 if the
  selection failed after a first attempt), one request and two failures. A response is passed on
  with its status and adds one request: no failure if it was copied, two if copying broke off.\<close>

theorem request_accounting:
  "case ensureRequestID H r (new_writer h) of
     (rid, q, w) \<Rightarrow>
       seen rt (ProxyHandler H rt r (new_writer h)) =
         (if isUpgradeRequest (rq_Header q) then Some (501, 0, 1)
          else
            case find_route (rq_URL_Path q) (request_host (rq_Host q))
                   (fc_VirtualHosts (sn_Raw (rs_Snapshot (State rt)))) of
              None \<Rightarrow> Some (403, 0, 1)
            | Some (v, pr, targets) \<Rightarrow>
                if targets = [] then Some (403, 0, 1)
                else if active_backends (rt_store rt) (State rt) targets = [] then Some (503, 0, 1)
                else
                  (case snd (executeProxyRequest H (State rt) q pr (request_host (rq_Host q)) rid
                               (active_backends (rt_store rt) (State rt) targets) (sized rt r)) of
                     (resp, backend, err, tried) \<Rightarrow>
                       (case err of
                          Some e \<Rightarrow>
                            Some (if e = Err_Select ErrNoAvailableBackend then 503 else 502,
                                  if tried = [] then 0 else 1, if tried = [] then 1 else 2)
                        | None \<Rightarrow>
                            map_option (\<lambda>x. (rs_StatusCode x, 1, if snd (he_copy H x) = None then 0 else 2))
                              resp))) \<and>
          seen rt (ProxyHandler H rt r (new_writer h)) \<noteq> None"
proof -
  obtain rid q w where id: "ensureRequestID H r (new_writer h) = (rid, q, w)" by (metis prod_cases3)
  have sent: "wr_Sent w = None" using ensureRequestID_sel(1) [OF id] by (simp add: new_writer_def)
  note run = ProxyHandler_run [OF id, of rt]
  note refused = seen_refused [OF sent codes_400(1)] seen_refused [OF sent codes_400(2)]
    seen_refused [OF sent codes_400(3)]
  let ?found = "find_route (rq_URL_Path q) (request_host (rq_Host q))
      (fc_VirtualHosts (sn_Raw (rs_Snapshot (State rt))))"
  consider "isUpgradeRequest (rq_Header q) \<or> ?found = None"
    | v pr targets where "\<not> isUpgradeRequest (rq_Header q)" "?found = Some (v, pr, targets)"
    by (cases ?found) auto
  then show ?thesis
  proof cases
    case 1
    then show ?thesis by (auto simp: id run refused)
  next
    case (2 v pr targets)
    let ?cs = "active_backends (rt_store rt) (State rt) targets"
    show ?thesis
    proof (cases "targets = [] \<or> ?cs = []")
      case True
      with 2 show ?thesis by (auto simp: id run refused)
    next
      case False
      obtain rt' resp backend err tried where
        ex: "executeProxyRequest H (State rt) q pr (request_host (rq_Host q)) rid ?cs (sized rt r) =
          (rt', resp, backend, err, tried)" by (metis prod_cases5)
      have counts: "failures rt' = failures rt" "totals rt' = totals rt"
        using execute_failures [OF ex] by simp_all
      note ends = seen_failed [OF sent counts] seen_served [OF sent counts]
      have ok: "backend = (if tried = [] then None else Some (last tried))"
        "resp = None \<or> backend \<noteq> None" "resp = None \<longleftrightarrow> err \<noteq> None"
        using execute_attempts_ok [of q ?cs H "State rt" pr "request_host (rq_Host q)" rid "sized rt r"]
          False by (auto simp: attempts_ok_def ex)
      show ?thesis
      proof (cases err)
        case (Some e)
        with 2 False ex ok(1) show ?thesis
          by (simp add: id run ends error_status_def no_backend_error_def)
      next
        case None
        with ok obtain x b where "resp = Some x" "backend = Some b" by auto
        with None 2 False ex show ?thesis by (simp add: id run ends)
      qed
    qed
  qed
qed

text \<open>One failed upstream request is counted as two failed requests. \<open>RecordRequestEnd\<close> counts
  it and so does \<open>logAndReturn\<close>, so that the error rate derived from the counters can pass one.\<close>

theorem upstream_failure_counted_twice:
  "failures (fst (finish_error H e (Some b) (rt, w))) = failures rt + 2 \<and>
   totals (fst (finish_error H e (Some b) (rt, w))) = totals rt + 1"
  by (simp add: failures_def totals_def finish_error_sel)

section \<open>Connections, invariant and statuses\<close>

text \<open>What a handler leaves behind, from the cases above.\<close>

lemma handler_frame:
  assumes "ProxyHandler H rt r w = Some (rt', w')"
  shows "(\<forall>u. conn_count (rt_Metrics rt) u \<noteq> Some (- 1) \<longrightarrow>
            conn_count (rt_Metrics rt') u = conn_count (rt_Metrics rt) u) \<and>
         dom (mt_Backends (rt_Metrics rt')) = dom (mt_Backends (rt_Metrics rt)) \<and>
         rt_state rt' = rt_state rt"
proof (cases rule: ProxyHandler_cases [where H = H and rt = rt and ?r0.0 = r and ?w0.0 = w])
  case (refused code msg w1)
  from assms refused(3) have rt': "rt' = fst (logAndReturn code msg (entered rt r, w1))"
    by (metis fst_conv option.inject)
  show ?thesis
    unfolding rt' by (simp add: logAndReturn_sel conn_count_def)
next
  case (failed r' pr host rid targets backends rt1 resp backend e tried w1)
  from assms failed(5) have rt': "rt' = fst (finish_error H e backend (rt1, w1))"
    by (metis fst_conv option.inject)
  note ex = execute_totals [OF failed(1)]
  have conn: "conn_count (rt_Metrics rt') u = conn_count (rt_Metrics rt1) u" for u
  proof -
    have "conn_count (add_failed (RecordStatusCode c m)) u = conn_count m u" for c m
      by (simp add: conn_count_def)
    then show ?thesis unfolding rt' finish_error_sel by (simp split: option.split)
  qed
  have d: "dom (mt_Backends (rt_Metrics rt')) = dom (mt_Backends (rt_Metrics rt1))"
    unfolding rt' finish_error_sel by (simp split: option.split)
  have "rt_state rt' = rt_state rt1" unfolding rt' by (rule finish_error_sel(3))
  with conn d ex show ?thesis by (simp add: same_totals_def conn_count_def)
next
  case (served r' pr host rid targets backends rt1 resp b tried w1)
  from assms served(5) have rt': "rt' = fst (finish_response H resp b (rt1, w1))"
    by (metis fst_conv option.inject)
  note ex = execute_totals [OF served(1)]
  have conn: "conn_count (rt_Metrics rt') u = conn_count (rt_Metrics rt1) u" for u
  proof -
    have "conn_count (add_failed m) u = conn_count m u" "conn_count (RecordStatusCode c m) u = conn_count m u"
      "conn_count (RecordResponseSize n m) u = conn_count m u" for c n m
      by (simp_all add: conn_count_def)
    then show ?thesis unfolding rt' finish_response_sel Let_def by (simp split: option.split)
  qed
  have d: "dom (mt_Backends (rt_Metrics rt')) = dom (mt_Backends (rt_Metrics rt1))"
    unfolding rt' finish_response_sel Let_def by (simp split: option.split)
  have "rt_state rt' = rt_state rt1" unfolding rt' by (rule finish_response_sel(3))
  with conn d ex show ?thesis by (simp add: same_totals_def conn_count_def)
qed

lemma handler_total:
  obtains rt' w' where "ProxyHandler H rt r w = Some (rt', w')"
proof (cases rule: ProxyHandler_cases [where H = H and rt = rt and ?r0.0 = r and ?w0.0 = w])
  case (refused code msg w1)
  then show thesis using that by (metis surj_pair)
next
  case failed
  then show thesis using that by (metis surj_pair)
next
  case served
  then show thesis using that by (metis surj_pair)
qed

text \<open>C18: the connection count of every backend is what it was once a request is finished, on
  every path through the handler, retries and errors included (unless the counter was full).\<close>

theorem connections_released:
  assumes "ProxyHandler H rt r w = Some (rt', w')"
    and "conn_count (rt_Metrics rt) u \<noteq> Some (- 1)"
  shows "conn_count (rt_Metrics rt') u = conn_count (rt_Metrics rt) u"
  using handler_frame [OF assms(1)] assms(2) by simp

lemma recordPassiveHealth_writes:
  "recordPassiveHealth current b res now rt = rt \<or>
   (\<exists>a f. state_BackendStatus current (bc_Id b) = Some a \<and>
      hcc_Enabled (fc_HealthCheck (sn_Raw (rs_Snapshot current))) \<and>
      ph_Enabled (hcc_Passive (fc_HealthCheck (sn_Raw (rs_Snapshot current)))) \<and>
      recordPassiveHealth current b res now rt = rt\<lparr>rt_store := st_modify a f (rt_store rt)\<rparr>)"
  by (auto simp: recordPassiveHealth_def Let_def split: option.splits)

lemma doProxyRequest_shape:
  assumes "doProxyRequest H n current r pr host rid b rt = (rt', res)"
  obtains "\<exists>f. rt' = on_metrics f rt"
    | a f g where "state_BackendStatus current (bc_Id b) = Some a"
      "hcc_Enabled (fc_HealthCheck (sn_Raw (rs_Snapshot current)))"
      "ph_Enabled (hcc_Passive (fc_HealthCheck (sn_Raw (rs_Snapshot current))))"
      "rt' = (on_metrics g rt)\<lparr>rt_store := st_modify a f (rt_store rt)\<rparr>"
proof -
  have id: "rt = on_metrics (\<lambda>m. m) rt" by (simp add: on_metrics_def)
  have comp: "on_metrics f (on_metrics g rt) = on_metrics (\<lambda>m. f (g m)) rt" for f g rt
    by (simp add: on_metrics_def)
  let ?inc = "on_metrics (IncrementActiveConnections (bc_URL b)) rt"
  let ?dec = "on_metrics (DecrementActiveConnections (bc_URL b))"
  from assms consider "rt' = rt" | "rt' = ?dec ?inc"
    | res' where "rt' = ?dec (recordPassiveHealth current b res' (he_now H n) ?inc)"
    by (auto simp: doProxyRequest_def Let_def split: option.splits sum.splits)
  then show thesis
  proof cases
    case 1
    with id that(1) show thesis by blast
  next
    case 2
    with comp that(1) show thesis by blast
  next
    case (3 res')
    from recordPassiveHealth_writes [of current b res' "he_now H n" ?inc]
    consider "rt' = ?dec ?inc" | a f where "state_BackendStatus current (bc_Id b) = Some a"
      "hcc_Enabled (fc_HealthCheck (sn_Raw (rs_Snapshot current)))"
      "ph_Enabled (hcc_Passive (fc_HealthCheck (sn_Raw (rs_Snapshot current))))"
      "rt' = ?dec (?inc\<lparr>rt_store := st_modify a f (rt_store ?inc)\<rparr>)"
      using 3 by auto
    then show thesis
    proof cases
      case 1
      with comp that(1) show thesis by blast
    next
      case (2 a f)
      have "rt' = (on_metrics (\<lambda>m. DecrementActiveConnections (bc_URL b)
            (IncrementActiveConnections (bc_URL b) m)) rt)\<lparr>rt_store := st_modify a f (rt_store rt)\<rparr>"
        unfolding 2(4) by (simp add: on_metrics_def)
      with 2 that(2) show thesis by blast
    qed
  qed
qed

text \<open>Requests keep the runtime reachable, so everything that holds of reachable runtimes holds
  after any mix of requests and configuration changes.\<close>

lemma reach_on_metrics:
  "rt_reach E path rt fs \<Longrightarrow>
   dom (mt_Backends (f (rt_Metrics rt))) = dom (mt_Backends (rt_Metrics rt)) \<Longrightarrow>
   rt_reach E path (on_metrics f rt) fs"
  unfolding on_metrics_def by (rule rr_metrics)

text \<open>What holds of runtimes whatever the counters and the statuses are is kept by requests.\<close>

lemma attempt_keeps:
  assumes m: "\<And>rt f. I rt \<Longrightarrow> dom (mt_Backends (f (rt_Metrics rt))) = dom (mt_Backends (rt_Metrics rt)) \<Longrightarrow>
      I (on_metrics f rt)"
    and s: "\<And>rt a f. I rt \<Longrightarrow> I (rt\<lparr>rt_store := st_modify a f (rt_store rt)\<rparr>)"
    and "I rt" and d: "doProxyRequest H n current r pr host rid b rt = (rt', res)"
  shows "I rt'"
proof -
  have dom: "dom (mt_Backends (rt_Metrics rt')) = dom (mt_Backends (rt_Metrics rt))"
    using doProxyRequest_frame(1) [OF d]
    by (elim disjE) (simp_all add: DecrementActiveConnections_def IncrementActiveConnections_def)
  from d show ?thesis
  proof (cases rule: doProxyRequest_shape)
    case 1
    then obtain f where "rt' = on_metrics f rt" by blast
    with dom assms(3) show ?thesis by (auto intro: m)
  next
    case (2 a f g)
    have "I (on_metrics g rt)" using dom assms(3) 2(4) by (intro m) auto
    from s [OF this, of a f] show ?thesis unfolding 2(4) by simp
  qed
qed

lemma handler_keeps:
  assumes m: "\<And>rt f. I rt \<Longrightarrow> dom (mt_Backends (f (rt_Metrics rt))) = dom (mt_Backends (rt_Metrics rt)) \<Longrightarrow>
      I (on_metrics f rt)"
    and s: "\<And>rt a f. I rt \<Longrightarrow> I (rt\<lparr>rt_store := st_modify a f (rt_store rt)\<rparr>)"
    and "I rt" and h: "ProxyHandler H rt r w = Some (rt', w')"
  shows "I rt'"
proof -
  note attempt = attempt_keeps [of I, OF m s]
  have e: "I (entered rt r)" unfolding entered_def by (intro m assms(3)) simp
  then have s': "I (sized rt r)" unfolding sized_def by (auto intro: m)
  have log: "I (fst (logAndReturn code msg (rt1, w1)))" if "I rt1" for code msg rt1 w1
    unfolding logAndReturn_def prod.case fst_conv by (intro m that) (simp add: Let_def)
  show ?thesis
  proof (cases rule: ProxyHandler_cases [where H = H and rt = rt and ?r0.0 = r and ?w0.0 = w])
    case (refused code msg w1)
    with h log [OF e] show ?thesis by (metis fst_conv option.inject)
  next
    case (failed r' pr host rid targets backends rt1 resp backend err tried w1)
    have r1: "I rt1" by (rule execute_inv [where I = I, OF _ s' failed(1)]) (rule attempt)
    have "I (fst (finish_error H err backend (rt1, w1)))"
      unfolding finish_error_def prod.case Let_def
      by (rule log, cases backend; cases "is_timeout err") (simp_all add: m r1)
    with h failed(5) show ?thesis by (metis fst_conv option.inject)
  next
    case (served r' pr host rid targets backends rt1 resp b tried w1)
    have r1: "I rt1" by (rule execute_inv [where I = I, OF _ s' served(1)]) (rule attempt)
    have "I (fst (finish_response H resp b (rt1, w1)))"
      unfolding finish_response_def prod.case Let_def
      by (cases "he_copy H resp", cases "snd (he_copy H resp)") (simp_all add: m r1)
    with h served(5) show ?thesis by (metis fst_conv option.inject)
  qed
qed

lemma attempt_reach:
  assumes "rt_reach E path rt fs" and "doProxyRequest H n current r pr host rid b rt = (rt', res)"
  shows "rt_reach E path rt' fs"
  by (rule attempt_keeps [where I = "\<lambda>rt. rt_reach E path rt fs", OF reach_on_metrics rr_status assms])

lemma handler_reach:
  assumes "rt_reach E path rt fs" and "ProxyHandler H rt r w = Some (rt', w')"
  shows "rt_reach E path rt' fs"
  by (rule handler_keeps [where I = "\<lambda>rt. rt_reach E path rt fs", OF reach_on_metrics rr_status assms])

lemma handler_callback:
  assumes "ProxyHandler H rt r w = Some (rt', w')"
  shows "rt_onRateLimitUpdate rt' = rt_onRateLimitUpdate rt"
  by (rule handler_keeps [where I = "\<lambda>rt1. rt_onRateLimitUpdate rt1 = rt_onRateLimitUpdate rt", OF _ _ _ assms])
    (simp_all add: on_metrics_def)

lemma active_registered:
  assumes "rt_inv E path rt fs" and "b \<in> set (active_backends (rt_store rt) (State rt) targets)"
  shows "bc_Enabled b \<and> bmm_Get (bc_URL b) (mt_Backends (rt_Metrics rt)) \<noteq> None"
proof -
  from assms(2) obtain i where b: "sn_BackendsById (rs_Snapshot (State rt)) i = Some b" "bc_Enabled b"
    by (auto simp: in_active_backends)
  from assms(1) have "rs_Snapshot (State rt) = build_snapshot (svc_current (rt_Config rt))"
    by (simp add: State_def ri_snapshot svc_invD [OF ri_svc])
  with b(1) have "b \<in> set (backend_list (svc_current (rt_Config rt)))"
    using snapshot_backend_Some by simp
  then have "bc_URL b \<in> dom (mt_Backends (rt_Metrics rt))" using ri_urls [OF assms(1)] by blast
  with b(2) show ?thesis by (auto simp: bmm_Get_def)
qed

text \<open>What an attempt needs: every candidate is enabled, has its metrics, and a URL that parses.\<close>

definition ready :: "http_env \<Rightarrow> runtime \<Rightarrow> backend_config list \<Rightarrow> bool" where
  "ready H rt cs \<longleftrightarrow>
     (\<forall>b \<in> set cs. bc_Enabled b \<and> bmm_Get (bc_URL b) (mt_Backends (rt_Metrics rt)) \<noteq> None \<and>
        he_url_parse H (bc_URL b) \<noteq> None)"

lemma first_exchange:
  assumes "ready H rt cs" and "cs \<noteq> []" and "\<forall>n. attempt_body n r = Inr (body n)"
  shows "\<exists>b u rt'. b \<in> set cs \<and> he_url_parse H (bc_URL b) = Some u \<and>
     lb_pick H n current rt cs = Inr (Some b) \<and>
     doProxyRequest H n current r pr host rid b rt =
       (rt', he_do H n (rs_HTTPClient current) (outbound_request u pr host rid (body n) r)) \<and>
     ready H rt' cs"
proof -
  from assms(2) obtain c where c: "c \<in> set cs" by (meson last_in_set)
  with assms(1) have "bc_Enabled c" "bmm_Get (bc_URL c) (mt_Backends (rt_Metrics rt)) \<noteq> None"
    by (auto simp: ready_def)
  from any.complete [OF c this] obtain b where pick: "lb_pick H n current rt cs = Inr (Some b)"
    by (metis lb_pick_def map_sum.simps(2))
  then have b: "b \<in> set cs" by (cases rule: lb_pick_cases [of H n current rt cs]) auto
  with assms(1) obtain u where u: "he_url_parse H (bc_URL b) = Some u" by (auto simp: ready_def)
  obtain rt' res where d: "doProxyRequest H n current r pr host rid b rt = (rt', res)" by fastforce
  have "dom (mt_Backends (rt_Metrics rt')) = dom (mt_Backends (rt_Metrics rt))"
    using doProxyRequest_frame(1) [OF d]
    by (elim disjE) (simp_all add: DecrementActiveConnections_def IncrementActiveConnections_def)
  with assms(1) have "ready H rt' cs" by (auto simp: ready_def bmm_Get_def dom_def)
  moreover have "res = he_do H n (rs_HTTPClient current) (outbound_request u pr host rid (body n) r)"
    using d u assms(3) by (simp add: doProxyRequest_def Let_def)
  ultimately show ?thesis using pick b u d by blast
qed

lemma active_parses:
  assumes "rt_inv E path rt fs" and "he_url_parse H = env_url_parse E"
    and "b \<in> set (active_backends (rt_store rt) (State rt) targets)"
  shows "he_url_parse H (bc_URL b) \<noteq> None"
proof -
  from assms(3) obtain i where b: "sn_BackendsById (rs_Snapshot (State rt)) i = Some b"
    by (auto simp: in_active_backends)
  from assms(1) have "rs_Snapshot (State rt) = build_snapshot (svc_current (rt_Config rt))"
    by (simp add: State_def ri_snapshot svc_invD [OF ri_svc])
  with b have "b \<in> set (backend_list (svc_current (rt_Config rt)))"
    using snapshot_backend_Some by simp
  with inv_valid [OF ri_svc [OF assms(1)]] have "valid_backend (env_url_parse E) b"
    by (simp add: valid_config_def)
  with assms(2) show ?thesis by (auto simp: valid_backend_def)
qed

text \<open>An environment whose network answers nothing, for the witnesses.\<close>

definition dead_env :: http_env where
  "dead_env =
     \<lparr>he_url_parse = sample_url_parse, he_url_error = (\<lambda>u. u),
      he_do = (\<lambda>_ _ _. Inl \<lparr>ne_msg = ''connection refused'', ne_timeout = Some False\<rparr>),
      he_copy = (\<lambda>r. (rs_Body r, None)), he_now = int, he_ended = 0, he_duration_ns = 0,
      he_conv = (\<lambda>_. 0), he_exp = (\<lambda>_. Fin 1), he_rnd = (\<lambda>_. \<lparr>rnd_Float64 = Fin 0, rnd_seed = 0\<rparr>),
      he_newRequestID = ''id''\<rparr>"

definition get_request :: request where
  "get_request =
     \<lparr>rq_Method = ''GET'', rq_URL_Scheme = '''', rq_URL_Host = '''', rq_URL_Path = ''/'', rq_URL_RawPath = '''',
      rq_Host = ''app.example.local:8080'', rq_RequestURI = ''/'', rq_Header = [],
      rq_RemoteAddr = ''10.0.0.1:4711'', rq_TLS = False, rq_ContentLength = 0, rq_Body = Some 0,
      rq_GetBody = None, rq_Close = False, rq_TransferEncoding = [], rq_Trailer = []\<rparr>"

lemma NewRuntime_metrics:
  "NewRuntime E fs path = Inr rt \<Longrightarrow>
   rt_Metrics rt =
     on_manager (registerBackendMetrics (fc_Backends (sn_Raw (svc_Snapshot (rt_Config rt))))) NewMetrics"
  by (auto simp: NewRuntime_def Let_def split: sum.splits prod.splits)

lemma sample_runtime_raw [simp]: "rs_Snapshot (State sample_runtime) = build_snapshot sample_config"
  using ri_snapshot [OF rt_inv_new [OF sample_runtime_new]]
  by (simp add: State_def sample_service_def)

lemma sample_runtime_metrics:
  "rt_Metrics sample_runtime = on_manager (registerBackendMetrics (fc_Backends sample_config)) NewMetrics"
  using NewRuntime_metrics [OF sample_runtime_new] by (simp add: svc_Snapshot_def sample_service_def)

text \<open>The sample runtime once the first backend has been found healthy.\<close>

definition live_runtime :: runtime where
  "live_runtime = sample_runtime
     \<lparr>rt_store := st_modify (the (rt_statuses sample_runtime ''backend-1'')) MarkHealthy
                    (rt_store sample_runtime)\<rparr>"

lemma live_reach: "rt_reach sample_env sample_path live_runtime sample_fs"
  unfolding live_runtime_def by (rule rr_status [OF sample_reach])

lemma live_active: "active_backends (rt_store live_runtime) (State live_runtime) [''backend-1''] = [backend_1]"
proof -
  have st: "State live_runtime = State sample_runtime" by (simp add: live_runtime_def State_def)
  note inv = rt_inv_new [OF sample_runtime_new]
  have "''backend-1'' \<in> dom (rt_statuses sample_runtime)"
    using ri_dom [OF inv] by (simp add: sample_service_def)
  then obtain a where a: "rt_statuses sample_runtime ''backend-1'' = Some a" by blast
  then have s: "state_BackendStatus (State sample_runtime) ''backend-1'' = Some a"
    using ri_statuses [OF inv] by (simp add: state_BackendStatus_def State_def)
  have "IsActive (st_mem (rt_store live_runtime) a)"
    by (simp add: live_runtime_def a st_modify_def IsActive_def MarkHealthy_def)
  moreover have "sn_BackendsById (build_snapshot sample_config) ''backend-1'' = Some backend_1"
    by (simp add: build_snapshot_def sample_config_def backend_1_def backend_2_def)
  moreover have "bc_Enabled backend_1" "bc_Id backend_1 = ''backend-1''" by (simp_all add: backend_1_def)
  ultimately show ?thesis by (simp add: st s)
qed

theorem connections_released_witness:
  "\<exists>rt' w'. ProxyHandler dead_env live_runtime get_request (new_writer []) = Some (rt', w') \<and>
     conn_count (rt_Metrics rt') ''http://backend-a:3000'' = Some 0"
proof -
  obtain rt' w' where h: "ProxyHandler dead_env live_runtime get_request (new_writer []) = Some (rt', w')"
    by (rule handler_total)
  have m: "rt_Metrics live_runtime = rt_Metrics sample_runtime" by (simp add: live_runtime_def)
  have "conn_count (rt_Metrics live_runtime) ''http://backend-a:3000'' = Some 0"
    using sample_runtime_metrics by (simp add: m conn_count_def on_manager_def NewMetrics_def
        sample_config_def bmm_Register_def backend_1_def backend_2_def zero_backend_metrics_def)
  with connections_released [OF h, of "''http://backend-a:3000''"] h show ?thesis by auto
qed

text \<open>Requests do not break the runtime. From a reachable runtime a request leads to one that
  satisfies the runtime invariant, with the same published state, whatever the network does.\<close>

theorem requests_keep_invariant:
  assumes "json_roundtrip E" and "rt_reach E path rt fs" and "ProxyHandler H rt r w = Some (rt', w')"
  shows "rt_inv E path rt' fs \<and> State rt' = State rt"
  using rt_reach_inv [OF handler_reach [OF assms(2,3)] assms(1)] handler_frame [OF assms(3)]
  by (simp add: State_def)

theorem requests_keep_invariant_witness:
  "\<exists>rt' w'. ProxyHandler dead_env live_runtime get_request (new_writer []) = Some (rt', w') \<and>
     rt_inv sample_env sample_path rt' sample_fs \<and> State rt' = State live_runtime"
proof -
  obtain rt' w' where h: "ProxyHandler dead_env live_runtime get_request (new_writer []) = Some (rt', w')"
    by (rule handler_total)
  from requests_keep_invariant [OF sample_env_simps(1) live_reach h] h show ?thesis by blast
qed

text \<open>C14: in a reachable runtime a request with an active backend goes out on the wire. The load
  balancer does not come back empty-handed, since the metrics of every configured backend are
  registered, and the URL of a configured backend parses; so, unless the body cannot be reopened,
  the transport is given the outbound request for an active backend \<open>b\<close>, and what it answers
  decides: its response is the result, and after an error a repeatable request is sent once more, to
  another active backend, if there is one, whose answer is then the result.\<close>

theorem active_backend_is_sent_to:
  fixes body :: "nat \<Rightarrow> body_ref option"
  assumes "json_roundtrip E" and "rt_reach E path rt fs" and "he_url_parse H = env_url_parse E"
    and "\<forall>n. attempt_body n r = Inr (body n)"
    and "active_backends (rt_store rt) (State rt) targets \<noteq> []"
  shows "let cs = active_backends (rt_store rt) (State rt) targets;
             send = (\<lambda>n u. he_do H n (rs_HTTPClient (State rt)) (outbound_request u pr host rid (body n) r));
             result = snd (executeProxyRequest H (State rt) r pr host rid cs (sized rt r))
         in \<exists>b u. b \<in> set cs \<and> he_url_parse H (bc_URL b) = Some u \<and>
              (case send 0 u of
                 Inr resp \<Rightarrow> result = (Some resp, Some b, None, [b])
               | Inl e \<Rightarrow>
                   if isRetryableRequest r \<and> (\<exists>c. c \<in> set cs \<and> bc_Id c \<noteq> bc_Id b)
                   then \<exists>b' u'. b' \<in> set cs \<and> bc_Id b' \<noteq> bc_Id b \<and>
                          he_url_parse H (bc_URL b') = Some u' \<and>
                          (case send 1 u' of
                             Inr resp \<Rightarrow> result = (Some resp, Some b', None, [b, b'])
                           | Inl e' \<Rightarrow> result = (None, Some b', Some (Err_Attempt e'), [b, b']))
                   else result = (None, Some b, Some (Err_Attempt e), [b]))"
proof -
  note inv = rt_reach_inv [OF assms(2,1)]
  let ?cs = "active_backends (rt_store rt) (State rt) targets"
  let ?send = "\<lambda>n u. he_do H n (rs_HTTPClient (State rt)) (outbound_request u pr host rid (body n) r)"
  let ?res = "snd (executeProxyRequest H (State rt) r pr host rid ?cs (sized rt r))"
  have ready: "ready H (sized rt r) ?cs"
    using active_registered [OF inv] active_parses [OF inv assms(3)] by (auto simp: ready_def)
  from first_exchange [OF ready assms(5) assms(4), where current = "State rt" and pr = pr and host = host
      and rid = rid and n = 0]
  obtain b u rt1 where b: "b \<in> set ?cs" "he_url_parse H (bc_URL b) = Some u"
    "lb_pick H 0 (State rt) (sized rt r) ?cs = Inr (Some b)"
    "doProxyRequest H 0 (State rt) r pr host rid b (sized rt r) = (rt1, ?send 0 u)"
    "ready H rt1 ?cs" by blast
  note loop = executeProxyRequest_def execute_loop.simps [of _ _ _ _ _ _ _ ?cs]
  show ?thesis
  proof (cases "?send 0 u")
    case (Inr resp)
    with b assms(5) have "?res = (Some resp, Some b, None, [b])" by (simp add: loop)
    with b(1,2) Inr show ?thesis unfolding Let_def by (intro exI [of _ b] exI [of _ u]) simp
  next
    case (Inl e)
    let ?cs' = "filterOutBackend ?cs (bc_Id b)"
    have other: "(\<exists>c. c \<in> set ?cs \<and> bc_Id c \<noteq> bc_Id b) \<longleftrightarrow> ?cs' \<noteq> []"
      by (auto simp: filterOutBackend_def filter_empty_conv)
    show ?thesis
    proof (cases "isRetryableRequest r \<and> ?cs' \<noteq> []")
      case False
      with b assms(5) Inl have "?res = (None, Some b, Some (Err_Attempt e), [b])"
        by (auto simp: loop execute_loop.simps [of _ _ _ _ _ _ _ "[]"])
      moreover have "\<not> (isRetryableRequest r \<and> (\<exists>c. c \<in> set ?cs \<and> bc_Id c \<noteq> bc_Id b))"
        using False other by blast
      ultimately show ?thesis
        unfolding Let_def by (intro exI [of _ b] exI [of _ u] conjI b) (simp only: Inl sum.case if_False)
    next
      case True
      from b(5) have "ready H rt1 ?cs'" by (auto simp: ready_def filterOutBackend_def)
      from first_exchange [OF this conjunct2 [OF True] assms(4), where current = "State rt" and pr = pr
          and host = host and rid = rid and n = 1]
      obtain b' u' rt2 where b': "b' \<in> set ?cs'" "he_url_parse H (bc_URL b') = Some u'"
        "lb_pick H 1 (State rt) rt1 ?cs' = Inr (Some b')"
        "doProxyRequest H 1 (State rt) r pr host rid b' rt1 = (rt2, ?send 1 u')" by blast
      have "?res = snd (execute_loop H (State rt) r pr host rid 1 ?cs' (Some b) (Some (Err_Attempt e))
          [b] rt1)"
        using b assms(5) Inl True by (simp add: loop)
      also have "\<dots> = (case ?send 1 u' of
          Inr resp \<Rightarrow> (Some resp, Some b', None, [b, b'])
        | Inl e' \<Rightarrow> (None, Some b', Some (Err_Attempt e'), [b, b']))"
        using b' True by (simp add: execute_loop.simps [of _ _ _ _ _ _ _ ?cs'] split: sum.split)
      finally have res: "?res = \<dots>" .
      have sub: "b' \<in> set ?cs" "bc_Id b' \<noteq> bc_Id b" using b'(1) by (auto simp: filterOutBackend_def)
      have out: "case ?send 1 u' of Inr resp \<Rightarrow> ?res = (Some resp, Some b', None, [b, b'])
        | Inl e' \<Rightarrow> ?res = (None, Some b', Some (Err_Attempt e'), [b, b'])"
        unfolding res by (simp split: sum.split)
      have again: "isRetryableRequest r \<and> (\<exists>c. c \<in> set ?cs \<and> bc_Id c \<noteq> bc_Id b)"
        using True other by blast
      show ?thesis
        unfolding Let_def
        by (intro exI [of _ b] exI [of _ u] conjI b)
          (simp only: Inl sum.case if_P [OF again], intro exI [of _ b'] exI [of _ u'] conjI sub b'(2) out)
    qed
  qed
qed

text \<open>A transport that answers 200 with the host that the request was sent to.\<close>

definition echo_env :: http_env where
  "echo_env = dead_env
     \<lparr>he_do := (\<lambda>_ _ q. Inr \<lparr>rs_StatusCode = 200, rs_Header = [], rs_Body = rq_URL_Host q\<rparr>)\<rparr>"

theorem active_backend_is_sent_to_witness:
  "snd (executeProxyRequest dead_env (State live_runtime) get_request None ''h'' ''id'' [backend_1]
      (sized live_runtime get_request)) =
    (None, Some backend_1, Some (Err_Attempt \<lparr>ne_msg = ''connection refused'', ne_timeout = Some False\<rparr>),
     [backend_1]) \<and>
   snd (executeProxyRequest echo_env (State live_runtime) get_request None ''h'' ''id'' [backend_1]
      (sized live_runtime get_request)) =
    (Some \<lparr>rs_StatusCode = 200, rs_Header = [], rs_Body = ''backend-a:3000''\<rparr>, Some backend_1, None,
     [backend_1])"
proof -
  have body: "\<forall>n. attempt_body n get_request = Inr (Some 0)"
    by (simp add: attempt_body_def get_request_def)
  have net: "he_do dead_env n c q = Inl \<lparr>ne_msg = ''connection refused'', ne_timeout = Some False\<rparr>"
    "he_url_parse dead_env = env_url_parse sample_env"
    "he_do echo_env n c q = Inr \<lparr>rs_StatusCode = 200, rs_Header = [], rs_Body = rq_URL_Host q\<rparr>"
    "he_url_parse echo_env = env_url_parse sample_env" for n c q
    by (simp_all add: dead_env_def echo_env_def sample_env_simps)
  have url: "sample_url_parse ''http://backend-a:3000'' = Some (''http'', ''backend-a:3000'')"
    by (simp add: sample_url_parse_def has_prefix_def)
  have act: "active_backends (rt_store live_runtime) (State live_runtime) [''backend-1''] \<noteq> []"
    unfolding live_active by simp
  note sent = active_backend_is_sent_to [OF sample_env_simps(1) live_reach _ body act,
      where pr = None and host = "''h''" and rid = "''id''"]
  from sent [OF net(2)] have "snd (executeProxyRequest dead_env (State live_runtime) get_request None
      ''h'' ''id'' [backend_1] (sized live_runtime get_request)) =
    (None, Some backend_1, Some (Err_Attempt \<lparr>ne_msg = ''connection refused'', ne_timeout = Some False\<rparr>),
     [backend_1])"
    unfolding live_active Let_def net(1) by auto
  moreover from sent [OF net(4)] have "snd (executeProxyRequest echo_env (State live_runtime) get_request
      None ''h'' ''id'' [backend_1] (sized live_runtime get_request)) =
    (Some \<lparr>rs_StatusCode = 200, rs_Header = [], rs_Body = ''backend-a:3000''\<rparr>, Some backend_1, None,
     [backend_1])"
    unfolding live_active Let_def net(3,4) by (auto simp: url outbound_request_fields)
  ultimately show ?thesis ..
qed

text \<open>Passive health only judges backends that take traffic. A request changes no status when
  health checks or passive checks are off, and never one that is not active: it can take a backend
  out, but not bring one back.\<close>

theorem passive_health_scope:
  assumes "ProxyHandler H rt r w = Some (rt', w')"
    and "let cfg = fc_HealthCheck (sn_Raw (rs_Snapshot (State rt)))
         in \<not> hcc_Enabled cfg \<or> \<not> ph_Enabled (hcc_Passive cfg) \<or> \<not> IsActive (st_mem (rt_store rt) a)"
  shows "st_mem (rt_store rt') a = st_mem (rt_store rt) a"
proof -
  have step: "st_mem (rt_store rt2) a = st_mem (rt_store rt) a"
    if I: "st_mem (rt_store rt1) a = st_mem (rt_store rt) a"
      and b: "b \<in> set (active_backends (rt_store rt) (State rt) targets)"
      and d: "doProxyRequest H n (State rt) r' pr host rid b rt1 = (rt2, res)"
    for n b rt1 rt2 res targets r' pr host rid
    using d
  proof (cases rule: doProxyRequest_shape)
    case 1
    with I show ?thesis by auto
  next
    case (2 a' f g)
    from b obtain c where "state_BackendStatus (State rt) (bc_Id b) = Some c" "IsActive (st_mem (rt_store rt) c)"
      by (auto simp: in_active_backends)
    with 2(1-3) assms(2) have "a' \<noteq> a" by (auto simp: Let_def)
    with I show ?thesis unfolding 2(4) by (simp add: st_modify_def)
  qed
  show ?thesis
  proof (cases rule: ProxyHandler_cases [where H = H and rt = rt and ?r0.0 = r and ?w0.0 = w])
    case (refused code msg w1)
    with assms(1) have "rt' = fst (logAndReturn code msg (entered rt r, w1))" by (metis fst_conv option.inject)
    then show ?thesis by (simp add: logAndReturn_sel)
  next
    case (failed r' pr host rid targets backends rt1 resp backend e tried w1)
    have "st_mem (rt_store rt1) a = st_mem (rt_store rt) a"
      using failed(2)
      by (intro execute_inv [where I = "\<lambda>rt1. st_mem (rt_store rt1) a = st_mem (rt_store rt) a",
            OF step _ failed(1)]) auto
    moreover from assms(1) failed(5) have "rt' = fst (finish_error H e backend (rt1, w1))"
      by (metis fst_conv option.inject)
    ultimately show ?thesis by (simp add: finish_error_sel)
  next
    case (served r' pr host rid targets backends rt1 resp b tried w1)
    have "st_mem (rt_store rt1) a = st_mem (rt_store rt) a"
      using served(2)
      by (intro execute_inv [where I = "\<lambda>rt1. st_mem (rt_store rt1) a = st_mem (rt_store rt) a",
            OF step _ served(1)]) auto
    moreover from assms(1) served(5) have "rt' = fst (finish_response H resp b (rt1, w1))"
      by (metis fst_conv option.inject)
    ultimately show ?thesis by (simp add: finish_response_sel)
  qed
qed

theorem passive_health_scope_witness:
  "\<exists>rt' w'. ProxyHandler dead_env sample_runtime get_request (new_writer []) = Some (rt', w') \<and>
     st_mem (rt_store rt') 0 = st_mem (rt_store sample_runtime) 0"
proof -
  obtain rt' w' where h: "ProxyHandler dead_env sample_runtime get_request (new_writer []) = Some (rt', w')"
    by (rule handler_total)
  have "st_mem (rt_store rt') 0 = st_mem (rt_store sample_runtime) 0"
    by (rule passive_health_scope [OF h]) (simp add: sample_defs)
  with h show ?thesis by blast
qed

text \<open>A retry does not replay the body of a GET request. Requests with such a method count as
  repeatable, but without \<open>GetBody\<close>, as on every request of a server, each attempt is given the
  body that the attempt before has read and closed.\<close>

theorem retry_reuses_body:
  assumes "rq_Method r = ''GET''" and "rq_Body r = Some body" and "rq_GetBody r = None"
  shows "isRetryableRequest r \<and> attempt_body 0 r = Inr (Some body) \<and> attempt_body 1 r = Inr (Some body)"
  using assms by (simp add: isRetryableRequest_def attempt_body_def)

theorem retry_reuses_body_witness:
  "isRetryableRequest get_request \<and> attempt_body 0 get_request = Inr (Some 0) \<and>
   attempt_body 1 get_request = Inr (Some 0)"
  by (rule retry_reuses_body) (simp_all add: get_request_def)

end
