(* ===== verification/AdminProps.thy ===== *)
theory AdminProps
  imports AdminApi ProxyProps
begin

text \<open>
  Properties of the admin HTTP API: the routes against the table of resources, the credentials, when a
  change took effect, and the statuses.
\<close>

section \<open>Routes\<close>

lemma admin_match:
  assumes "method \<noteq> ''HEAD''"
  shows "match_path (method_node (admin_mux A) method) path [] = route_of A method (segments path)"
proof (cases "method \<in> {''GET'', ''PUT'', ''POST'', ''DELETE''}")
  case True
  show ?thesis unfolding match_path_segments by (rule admin_match_method [OF True])
next
  case False
  have "map_of (resource_methods r) method = None" for r
    using False by (cases r) (simp_all add: map_of_eq_None_iff)
  then show ?thesis
    by (simp add: admin_node_other [OF False] route_of_def split: option.splits)
qed

lemma admin_head: "match_path (method_node (admin_mux A) ''HEAD'') path [] = None"
  by (simp add: admin_node_other)

text \<open>The method whose handler a request gets.\<close>

definition handler_method :: "string \<Rightarrow> string" where
  "handler_method method = (if method = ''HEAD'' then ''GET'' else method)"

lemma admin_mux_match:
  "mux_match (admin_mux A) method path = route_of A (handler_method method) (segments path)"
proof -
  have "match_path (method_node (admin_mux A) '''') path [] = None"
    by (simp add: admin_node_other)
  then show ?thesis
    by (auto simp: mux_match_def handler_method_def admin_head admin_match split: option.splits)
qed

lemma has_method: "k \<in> fst ` set (resource_methods r) \<Longrightarrow> k \<in> {''GET'', ''PUT'', ''POST'', ''DELETE''}"
  by (cases r) auto

lemma has_entry: "(\<exists>z. map_of xs k = Some z) \<longleftrightarrow> k \<in> fst ` set xs"
  by (metis map_of_eq_None_iff not_None_eq)

lemma admin_methods_at:
  "set (methods_at (admin_mux A) path) =
     (case resource (segments path) of None \<Rightarrow> {} | Some r \<Rightarrow> fst ` set (resource_methods r))"
proof -
  define M where "M = {''GET'', ''PUT'', ''POST'', ''DELETE''}"
  have all: "set (map (\<lambda>e. mp_method (fst e)) (admin_mux A)) = M"
    by (auto simp: admin_mux_def api_at_def M_def)
  have some: "'''' \<notin> M" and sub: "fst ` set (resource_methods r) \<subseteq> M" for r
    using has_method by (auto simp: M_def)
  have "(match_path (method_node (admin_mux A) k) path [] \<noteq> None) \<longleftrightarrow>
      (\<exists>r. resource (segments path) = Some r \<and> k \<in> fst ` set (resource_methods r))"
    if "k \<in> M" for k
    unfolding match_path_segments admin_match_method [OF that [unfolded M_def]] route_of_def
    by (simp add: has_entry split: option.split)
  moreover have "set (methods_at (admin_mux A) path) =
      {k \<in> M. match_path (method_node (admin_mux A) k) path [] \<noteq> None}"
    unfolding methods_at_def set_filter all using some by (intro Collect_cong) metis
  ultimately have "set (methods_at (admin_mux A) path) =
      {k \<in> M. \<exists>r. resource (segments path) = Some r \<and> k \<in> fst ` set (resource_methods r)}"
    by blast
  also have "\<dots> = {k. \<exists>r. resource (segments path) = Some r \<and> k \<in> fst ` set (resource_methods r)}"
    using sub by blast
  also have "\<dots> = (case resource (segments path) of None \<Rightarrow> {} | Some r \<Rightarrow> fst ` set (resource_methods r))"
    by (simp split: option.split)
  finally show ?thesis .
qed

lemma sorted_same:
  fixes xs ys :: "string list"
  assumes "sorted xs" "distinct xs" "sorted ys" "distinct ys" "set xs = set ys"
  shows "xs = ys"
  using assms by (metis sorted_distinct_set_unique)

lemma allowed_sorted: "sorted (allowed_methods r)" "distinct (allowed_methods r)"
proof -
  have "sorted [''DELETE'', ''GET'', ''HEAD'', ''POST'', ''PUT'']" by code_simp
  then show "sorted (allowed_methods r)"
    unfolding allowed_methods_def by (intro sorted_filter [where f = id, simplified])
qed (simp add: allowed_methods_def)

lemma allowed_set:
  "set (allowed_methods r) =
     fst ` set (resource_methods r) \<union> (if ''GET'' \<in> fst ` set (resource_methods r) then {''HEAD''} else {})"
  by (cases r) (auto simp: allowed_methods_def)

lemma admin_matching_methods:
  "matching_methods (admin_mux A) path =
     (case resource (segments path) of None \<Rightarrow> [] | Some r \<Rightarrow> allowed_methods r)"
proof -
  let ?ms = "methods_at (admin_mux A) path"
  let ?ms' = "if ''GET'' \<in> set ?ms then ''HEAD'' # ?ms else ?ms"
  have "methods_at (admin_mux A) (path @ ''/'') = []"
  proof (cases "path = ''''")
    case True
    have "segments ''/'' = [''/'']"
      by (simp add: segments.simps [of "''/''"] segments.simps [of "''''"] first_segment_def)
    then show ?thesis using admin_methods_at [of A "''/''"] True by (simp add: resource_def)
  next
    case False
    show ?thesis by (rule no_slash_mux(2) [OF admin_no_slash False])
  qed
  then have eq: "matching_methods (admin_mux A) path = sort (remdups ?ms')"
    by (simp only: matching_methods_def Let_def if_cancel append_Nil2)
  show ?thesis
  proof (cases "resource (segments path)")
    case None
    then have "?ms = []" using admin_methods_at [of A path] by simp
    then show ?thesis using None eq by simp
  next
    case (Some r)
    then have "set ?ms' = set (allowed_methods r)"
      using admin_methods_at [of A path] by (simp add: allowed_set)
    then have "sort (remdups ?ms') = allowed_methods r"
      using allowed_sorted by (intro sorted_same) (simp_all del: set_remdups add: set_remdups)
    then show ?thesis using Some eq by simp
  qed
qed

lemma wild_names_values: "zip (wild_names (mp_segs (api_at m (resource_segs r)))) (map snd (resource_values r)) = resource_values r"
  by (cases r) (simp_all add: wild_names_def api_at_def)

lemma allowed_not_Nil: "allowed_methods r \<noteq> []"
  by (cases r) (simp_all add: allowed_methods_def)

lemma admin_dispatch:
  "found (admin_mux A) path (mux_match (admin_mux A) method path) =
     (case resource (segments path) of
        None \<Rightarrow> D_not_found
      | Some r \<Rightarrow>
          (case map_of (resource_methods r) (handler_method method) of
             None \<Rightarrow> D_not_allowed (allowed_methods r)
           | Some h \<Rightarrow> D_handler (api_at (handler_method method) (resource_segs r)) (h A) (resource_values r)))"
proof (cases "resource (segments path)")
  case (Some r)
  then show ?thesis
    using allowed_not_Nil [of r]
    by (auto simp: found_def admin_mux_match route_of_def wild_names_values
        admin_matching_methods split: option.splits list.splits)
qed (simp add: found_def admin_mux_match route_of_def admin_matching_methods)

text \<open>The response to a request for a clean path, by the table.\<close>

definition answer_by_table :: "api_env \<Rightarrow> api_world http_handler" where
  "answer_by_table A req s =
     (case resource (segments (EscapedPath req)) of
        None \<Rightarrow> Some (on_api not_found_response s)
      | Some r \<Rightarrow>
          (case map_of (resource_methods r) (handler_method (rq_Method req)) of
             None \<Rightarrow> Some (on_api (not_allowed_response (allowed_methods r)) s)
           | Some h \<Rightarrow> h A (resource_values r) req s))"

lemma admin_serve_mux:
  "serve_mux on_api redirect (admin_mux A) req s =
     (if rq_RequestURI req = ''*'' then Some (on_api bad_request_response s)
      else if rq_Method req = ''CONNECT'' \<or> clean_path (EscapedPath req) = EscapedPath req
      then answer_by_table A req s
      else Some (on_api (redirect (clean_path (EscapedPath req)) req) s))"
  using no_slash_redirect [OF admin_no_slash, of A]
  by (simp add: serve_mux_def find_handler_def Let_def admin_dispatch answer_by_table_def split: option.split)

lemma serve_admin_eq:
  "serve_admin A origin authEnabled token req s =
     (let s' = on_api (on_header (cors_headers
                  (if origin = '''' then ''http://localhost:3000'' else origin))) s
      in if rq_Method req = ''OPTIONS'' then Some (on_api (write_header 204) s')
         else if authEnabled \<and> \<not> (token \<noteq> '''' \<and> presents (header_Get (rq_Header req) ''Authorization'') token)
         then Some (on_api unauthorized_response s')
         else if rq_RequestURI req = ''*'' then Some (on_api bad_request_response s')
         else if rq_Method req = ''CONNECT'' \<or> clean_path (EscapedPath req) = EscapedPath req
         then answer_by_table A req s'
         else Some (on_api (ae_redirect A (clean_path (EscapedPath req)) req) s'))"
  by (simp add: serve_admin_def corsMiddleware_def auth_middleware_eq admin_serve_mux Let_def)

text \<open>C36: the admin API in one equation, whatever the request: a preflight is answered with 204 by the
  CORS middleware; everything else needs the bearer token if authentication is on, and is answered with
  401 otherwise; behind that the routes of \<open>main\<close> are the table of resources and methods, read from the
  segments of the path: 404 for what is not a resource, 405 with the methods of the resource for
  another method, and otherwise the handler of the resource, \<open>HEAD\<close> going to that for \<open>GET\<close>. A path
  that is not clean is redirected. Every response has the headers of the CORS middleware.\<close>

theorem admin_routes:
  "serve_admin A origin authEnabled token req s =
     (let s' = on_api (on_header (cors_headers
                  (if origin = '''' then ''http://localhost:3000'' else origin))) s
      in if rq_Method req = ''OPTIONS'' then Some (on_api (write_header 204) s')
         else if authEnabled \<and> \<not> (token \<noteq> '''' \<and> presents (header_Get (rq_Header req) ''Authorization'') token)
         then Some (on_api unauthorized_response s')
         else if rq_RequestURI req = ''*'' then Some (on_api bad_request_response s')
         else if rq_Method req = ''CONNECT'' \<or> clean_path (EscapedPath req) = EscapedPath req
         then answer_by_table A req s'
         else Some (on_api (ae_redirect A (clean_path (EscapedPath req)) req) s'))"
  by (rule serve_admin_eq)

section \<open>Effects\<close>

text \<open>The call of the control plane that a request asks for: by its method, its resource and, where it
  needs one, a body that can be decoded.\<close>

definition body_of :: "api_env \<Rightarrow> 'a decoder \<Rightarrow> 'a option" where
  "body_of A decode = (case read_body A decode of Inl _ \<Rightarrow> None | Inr x \<Rightarrow> Some x)"

fun resource_call :: "api_env \<Rightarrow> string \<Rightarrow> api_resource \<Rightarrow> admin_call option" where
  "resource_call A method Res_Backends =
     (if method = ''POST'' then map_option C_AddBackend (body_of A (ae_dec_backend A)) else None)"
| "resource_call A method (Res_Backend i) =
     (if method = ''PUT'' then map_option (\<lambda>b. C_UpdateBackend (b\<lparr>pb_Id := i\<rparr>)) (body_of A (ae_dec_backend A))
      else if method = ''DELETE'' then Some (C_RemoveBackend i) else None)"
| "resource_call A method Res_VHosts =
     (if method = ''POST'' then map_option C_AddVirtualHost (body_of A (ae_dec_add_vhost A)) else None)"
| "resource_call A method (Res_VHost d) =
     (if method = ''PUT'' then map_option (\<lambda>b. C_UpdateVirtualHost d (snd b)) (body_of A (ae_dec_update_vhost A))
      else if method = ''DELETE'' then Some (C_RemoveVirtualHost d) else None)"
| "resource_call A method (Res_Security d) =
     (if method = ''PUT''
      then map_option (\<lambda>b. C_SetVirtualHostSecurityPolicy d (snd b)) (body_of A (ae_dec_security A)) else None)"
| "resource_call A method Res_Policies = None"
| "resource_call A method (Res_Policy i) =
     (if method = ''PUT''
      then map_option (\<lambda>p. C_UpsertPolicy (Some (if i = '''' then p else p\<lparr>psp_Id := i\<rparr>)))
             (body_of A (ae_dec_policy A))
      else None)"
| "resource_call A method Res_Server =
     (if method = ''PUT'' then map_option (\<lambda>c. C_SetServerConfig (Some c)) (body_of A (ae_dec_server A)) else None)"
| "resource_call A method Res_Balancer =
     (if method = ''PUT'' then map_option (\<lambda>c. C_SetLoadBalancer (Some c)) (body_of A (ae_dec_balancer A)) else None)"

definition request_call :: "api_env \<Rightarrow> request \<Rightarrow> admin_call option" where
  "request_call A req =
     (case resource (segments (EscapedPath req)) of
        None \<Rightarrow> None | Some r \<Rightarrow> resource_call A (rq_Method req) r)"

text \<open>A call took effect: its operation of the runtime ran and succeeded. Or nothing happened: the
  runtime, its configuration file and the callbacks are as before.\<close>

definition took_effect :: "api_env \<Rightarrow> admin_call \<Rightarrow> control \<Rightarrow> control \<Rightarrow> bool" where
  "took_effect A call c c' \<longleftrightarrow>
     (\<exists>op evs. call_op call = Some op \<and>
        rt_exec (ae_env A) (ae_io A) op (ct_rt c) (ct_fs c) = (None, ct_rt c', ct_fs c', evs) \<and>
        ct_events c' = ct_events c @ evs)"

definition untouched :: "string \<Rightarrow> control \<Rightarrow> control \<Rightarrow> bool" where
  "untouched path c c' \<longleftrightarrow>
     ct_rt c' = ct_rt c \<and> ct_events c' = ct_events c \<and> ct_fs c' path = ct_fs c path"

lemma untouched_refl [simp]: "untouched path c c"
  by (simp add: untouched_def)

text \<open>What 200 stands for: for \<open>GET\<close> and \<open>HEAD\<close> that nothing changed, otherwise that the call took
  effect; without a call there is no 200.\<close>

definition expected :: "api_env \<Rightarrow> string \<Rightarrow> string \<Rightarrow> admin_call option \<Rightarrow> control \<Rightarrow> control \<Rightarrow> bool" where
  "expected A path method call =
     (if method \<in> {''GET'', ''HEAD''} then untouched path
      else case call of None \<Rightarrow> (\<lambda>_ _. False) | Some k \<Rightarrow> took_effect A k)"

text \<open>What a handler leaves: the status it answers with and what it did, \<open>good\<close> with 200 and nothing
  otherwise.\<close>

definition outcome ::
  "api_env \<Rightarrow> string \<Rightarrow> (control \<Rightarrow> control \<Rightarrow> bool) \<Rightarrow> goint set \<Rightarrow> api_world \<Rightarrow> api_world option \<Rightarrow> bool" where
  "outcome A path good codes s r \<longleftrightarrow>
     (\<exists>s' code. r = Some s' \<and> writer_status (aw_writer s') = Some code \<and> code \<in> codes \<and>
        rt_reach (ae_env A) path (ct_rt (aw_control s')) (ct_fs (aw_control s')) \<and>
        (if code = 200 then good (aw_control s) (aw_control s')
         else untouched path (aw_control s) (aw_control s')))"

lemma outcomeI:
  assumes "r = Some s'" and "writer_status (aw_writer s') = Some code" and "code \<in> codes"
    and "rt_reach (ae_env A) path (ct_rt (aw_control s')) (ct_fs (aw_control s'))"
    and "if code = 200 then good (aw_control s) (aw_control s')
         else untouched path (aw_control s) (aw_control s')"
  shows "outcome A path good codes s r"
  unfolding outcome_def using assms by blast

text \<open>What is assumed of a request: the runtime is reachable, the response has not started, a reply is
  not lost on the way back, replies can be encoded, and \<open>http.Redirect\<close> sends 301.\<close>

definition api_ready :: "api_env \<Rightarrow> string \<Rightarrow> api_world \<Rightarrow> bool" where
  "api_ready A path s \<longleftrightarrow>
     json_roundtrip (ae_env A) \<and> rt_reach (ae_env A) path (ct_rt (aw_control s)) (ct_fs (aw_control s)) \<and>
     wr_Sent (aw_writer s) = None \<and> (\<forall>e. ae_link A \<noteq> Link_cut e) \<and> (\<forall>r. \<exists>text. ae_json A r = Inr text) \<and>
     (\<forall>p req w. wr_Sent w = None \<longrightarrow> writer_status (ae_redirect A p req w) = Some 301)"

lemma api_readyD:
  assumes "api_ready A path s"
  shows "json_roundtrip (ae_env A)" "rt_reach (ae_env A) path (ct_rt (aw_control s)) (ct_fs (aw_control s))"
    "wr_Sent (aw_writer s) = None" "ae_link A \<noteq> Link_cut e" "\<exists>text. ae_json A r = Inr text"
    "wr_Sent w = None \<Longrightarrow> writer_status (ae_redirect A p req w) = Some 301"
  using assms unfolding api_ready_def by blast+

lemma on_api_sel [simp]: "aw_control (on_api f s) = aw_control s" "aw_writer (on_api f s) = f (aw_writer s)"
  by (simp_all add: on_api_def)

lemma ready_header [simp]: "api_ready A path (on_api (on_header f) s) = api_ready A path s"
  by (simp add: api_ready_def on_header_def)

text \<open>An answer of the handler itself.\<close>

lemma outcome_plain:
  assumes "api_ready A path s" and "writer_status (f (aw_writer s)) = Some code" and "code \<in> codes" and "code \<noteq> 200"
  shows "outcome A path good codes s (Some (on_api f s))"
  using assms api_readyD [OF assms(1)] by (intro outcomeI [OF refl, where code = code]) auto

lemma outcome_error:
  assumes "api_ready A path s" and "code \<in> codes" and "code \<noteq> 200"
  shows "outcome A path good codes s (Some (on_api (http_Error msg code) s))"
  using assms api_readyD(3) [OF assms(1)] http_Error_status
  by (intro outcome_plain [where code = code and path = path]) auto

lemma respondJSON_status:
  assumes "api_ready A path s" and "wr_Sent w = None"
  shows "writer_status (respondJSON A reply w) = Some 200"
proof -
  obtain t where "ae_json A reply = Inr t" using api_readyD(5) [OF assms(1)] by blast
  then show ?thesis
    using assms(2) by (simp add: respondJSON_def Let_def writer_status_def write_body_def write_header_def on_header_def)
qed

text \<open>A call of the API is a call of the control plane or none at all.\<close>

lemma api_call_effect:
  assumes "api_ready A path s" and "api_call A call s = (r, s')"
  shows "aw_writer s' = aw_writer s"
    and "rt_reach (ae_env A) path (ct_rt (aw_control s')) (ct_fs (aw_control s'))"
    and "if \<exists>msg. r = Inr (R_Basic (success msg)) then took_effect A call (aw_control s) (aw_control s')
         else untouched path (aw_control s) (aw_control s')"
proof -
  have "aw_writer s' = aw_writer s \<and>
    rt_reach (ae_env A) path (ct_rt (aw_control s')) (ct_fs (aw_control s')) \<and>
    (if \<exists>msg. r = Inr (R_Basic (success msg)) then took_effect A call (aw_control s) (aw_control s')
         else untouched path (aw_control s) (aw_control s'))"
  proof (cases "ae_link A")
    case Link_ok
    obtain c where c: "server_interceptor (ae_server_token A) (serve_call (ae_env A) (ae_io A))
        (client_context (ae_client_token A) None) call (aw_control s) = (r, c)" "s' = s\<lparr>aw_control := c\<rparr>"
      using assms(2) Link_ok by (auto simp: api_call_def split: prod.splits)
    from call_effect [OF api_readyD(2,1) [OF assms(1)] c(1)] show ?thesis
      unfolding c(2) by (auto simp: took_effect_def untouched_def split: if_splits)
  next
    case (Link_lost e)
    then show ?thesis using assms(2) api_readyD(2) [OF assms(1)] by (auto simp: api_call_def)
  next
    case (Link_cut e)
    then show ?thesis using api_readyD(4) [OF assms(1)] by blast
  qed
  then show "aw_writer s' = aw_writer s"
    and "rt_reach (ae_env A) path (ct_rt (aw_control s')) (ct_fs (aw_control s'))"
    and "if \<exists>msg. r = Inr (R_Basic (success msg)) then took_effect A call (aw_control s) (aw_control s')
         else untouched path (aw_control s) (aw_control s')"
    by blast+
qed

text \<open>The replies to reads and to changes.\<close>

lemma call_reply:
  assumes "api_ready A path s" and "api_call A call s = (Inr reply, s')"
  shows "if reads_only call then \<forall>b. reply \<noteq> R_Basic b else (\<exists>msg. reply = R_Basic (success msg) \<or> reply = R_Basic (fail msg))"
proof -
  obtain c where "serve_call (ae_env A) (ae_io A) call (aw_control s) = (Inr reply, c)"
    using assms api_readyD(4) [OF assms(1)]
    by (auto simp: api_call_def server_interceptor_def split: link.splits prod.splits if_splits)
  note c = this
  show ?thesis
  proof (cases "reads_only call")
    case True
    then show ?thesis using reads_no_success [of call "ae_env A" "ae_io A" "aw_control s"] c by auto
  next
    case False
    from c have "\<exists>msg. reply = R_Basic (success msg) \<or> reply = R_Basic (fail msg)"
      by (cases rule: serve_call_cases) (use False in auto)
    then show ?thesis using False by simp
  qed
qed

lemma outcome_read:
  assumes "api_ready A path s" and "reads_only call" and "{200, 500} \<subseteq> codes"
  shows "outcome A path (untouched path) codes s (answer_read A what call s)"
proof -
  obtain r s' where c: "api_call A call s = (r, s')" by fastforce
  note eff = api_call_effect [OF assms(1) c]
  have w: "wr_Sent (aw_writer s') = None" using eff(1) api_readyD(3) [OF assms(1)] by simp
  have "\<nexists>msg. r = Inr (R_Basic (success msg))"
    using call_reply [OF assms(1), of call _ s'] c assms(2) by auto
  then have keeps: "untouched path (aw_control s) (aw_control s')" using eff(3) by simp
  show ?thesis
  proof (cases r)
    case (Inl e)
    show ?thesis
      by (rule outcomeI [where s' = "on_api (call_error A what e) s'" and code = 500])
        (use Inl c w eff(2) keeps assms(3) http_Error_status in \<open>auto simp: answer_read_def call_error_def\<close>)
  next
    case (Inr reply)
    show ?thesis
      by (rule outcomeI [where s' = "on_api (respondJSON A reply) s'" and code = 200])
        (use Inr c w eff(2) keeps assms(3) respondJSON_status [OF assms(1)] in \<open>auto simp: answer_read_def\<close>)
  qed
qed

lemma clientErrorStatus_codes: "clientErrorStatus msg \<in> {400, 404, 409}"
  by (simp add: clientErrorStatus_def Let_def)

lemma outcome_update:
  assumes "api_ready A path s" and "\<not> reads_only call" and "{200, 400, 404, 409, 500} \<subseteq> codes"
  shows "outcome A path (took_effect A call) codes s (answer_update A what call s)"
proof -
  obtain r s' where c: "api_call A call s = (r, s')" by fastforce
  note eff = api_call_effect [OF assms(1) c]
  have w: "wr_Sent (aw_writer s') = None" using eff(1) api_readyD(3) [OF assms(1)] by simp
  consider (err) e where "r = Inl e" | (ok) msg where "r = Inr (R_Basic (success msg))"
    | (failed) msg where "r = Inr (R_Basic (fail msg))"
    using call_reply [OF assms(1), of call _ s'] c assms(2) by (cases r) auto
  then show ?thesis
  proof cases
    case (err e)
    show ?thesis
      by (rule outcomeI [where s' = "on_api (call_error A what e) s'" and code = 500])
        (use err c w eff(2,3) assms(3) http_Error_status in \<open>auto simp: answer_update_def call_error_def\<close>)
  next
    case (ok msg)
    show ?thesis
      by (rule outcomeI [where s' = "on_api (respondJSON A (R_Basic (success msg))) s'" and code = 200])
        (use ok c w eff(2,3) assms(3) respondJSON_status [OF assms(1)] in \<open>auto simp: answer_update_def success_def\<close>)
  next
    case (failed msg)
    let ?code = "clientErrorStatus msg"
    have code: "?code \<in> codes" "?code \<noteq> 200" using clientErrorStatus_codes [of msg] assms(3) by auto
    show ?thesis
      by (rule outcomeI [where s' = "on_api (http_Error (''Failed to '' @ what @ '': '' @ msg) ?code) s'" and code = ?code])
        (use failed c w eff(2,3) code http_Error_status in \<open>simp_all add: answer_update_def fail_def success_def\<close>)
  qed
qed

text \<open>Every status of the API.\<close>

definition api_statuses :: "goint set" where
  "api_statuses = {200, 204, 301, 400, 401, 404, 405, 409, 500}"

lemma outcome_refused [intro]:
  assumes "api_ready A path s"
  shows "outcome A path good api_statuses s (missing name s)"
    "outcome A path good api_statuses s (bad_body msg s)"
    "outcome A path good api_statuses s (method_refused s)"
  unfolding missing_def bad_body_def method_refused_def
  by (rule outcome_error [OF assms]; simp add: api_statuses_def)+

lemma outcome_answers [intro]:
  assumes "api_ready A path s"
  shows "reads_only call \<Longrightarrow> outcome A path (untouched path) api_statuses s (answer_read A what call s)"
    "\<not> reads_only call \<Longrightarrow> outcome A path (took_effect A call) api_statuses s (answer_update A what call s)"
  by (intro outcome_read outcome_update assms; simp add: api_statuses_def)+

lemmas handler_defs =
  HandleBackendsList_def HandleBackendGet_def HandleBackendAdd_def HandleBackendUpdate_def
  HandleBackendDelete_def HandleVhostsList_def HandleVhostGet_def HandleVhostAdd_def
  HandleVhostUpdate_def HandleVhostDelete_def HandleSecurityConfigGet_def
  HandleSecurityConfigUpdate_def HandlePoliciesList_def HandlePolicyUpsert_def
  HandleServerConfig_def HandleLoadBalancerConfig_def

lemma table_outcome:
  assumes "api_ready A path s" and "(k, h) \<in> set (resource_methods r)"
    and "handler_method (rq_Method req) = k"
  shows "outcome A path (expected A path (rq_Method req) (resource_call A (rq_Method req) r)) api_statuses s
    (h A (resource_values r) req s)"
proof -
  have "k \<in> fst ` set (resource_methods r)" using assms(2) by force
  then have "rq_Method req \<in> {k, ''HEAD''}" "k \<noteq> ''HEAD''" "k = ''GET'' \<or> rq_Method req = k"
    using has_method [of k r] assms(3) by (auto simp: handler_method_def split: if_splits)
  note m = this
  note o = outcome_refused [OF assms(1)] outcome_answers [OF assms(1)]
  show ?thesis
    by (cases r; insert assms(2) m; simp only: resource_methods.simps set_simps; elim insertE emptyE; simp;
        (elim conjE)?; (hypsubst)?;
        simp add: handler_defs Let_def o body_of_def path_value_def expected_def split: sum.split prod.split)
qed

lemma answer_by_table_outcome:
  assumes "api_ready A path s"
  shows "outcome A path (expected A path (rq_Method req) (request_call A req)) api_statuses s
    (answer_by_table A req s)"
proof (cases "resource (segments (EscapedPath req))")
  case None
  have "outcome A path good api_statuses s (Some (on_api not_found_response s))" for good
    unfolding not_found_response_def by (rule outcome_error [OF assms]) (simp_all add: api_statuses_def)
  then show ?thesis using None by (simp add: answer_by_table_def)
next
  case (Some r)
  show ?thesis
  proof (cases "map_of (resource_methods r) (handler_method (rq_Method req))")
    case None
    have "writer_status (not_allowed_response ms (aw_writer s)) = Some 405" for ms
      unfolding not_allowed_response_def using api_readyD(3) [OF assms]
      by (intro http_Error_status) (simp add: on_header_def)
    then have "outcome A path good api_statuses s (Some (on_api (not_allowed_response ms) s))" for good ms
      by (intro outcome_plain [OF assms, where code = 405]) (simp_all add: api_statuses_def)
    then show ?thesis using Some None by (simp add: answer_by_table_def)
  next
    case (Some h)
    show ?thesis
      using table_outcome [OF assms map_of_SomeD [OF Some] refl] \<open>resource _ = Some r\<close> Some
      by (simp add: answer_by_table_def request_call_def)
  qed
qed

lemma admin_outcome:
  assumes "api_ready A path s"
  shows "outcome A path (expected A path (rq_Method req) (request_call A req))
    (if authEnabled \<and> \<not> presents (header_Get (rq_Header req) ''Authorization'') token
     then api_statuses - {200} else api_statuses) s (serve_admin A origin authEnabled token req s)"
proof -
  define ch where "ch = expected A path (rq_Method req) (request_call A req)"
  define t where "t = on_api (on_header (cors_headers (if origin = '''' then ''http://localhost:3000'' else origin))) s"
  have ready: "api_ready A path t" using assms by (simp add: t_def)
  have none: "wr_Sent (aw_writer t) = None" using api_readyD(3) [OF ready] .
  have s: "outcome A path c codes t r = outcome A path c codes s r" for c codes r
    by (simp add: outcome_def t_def)
  have plain: "outcome A path ch codes s (Some (on_api f t))"
    if "writer_status (f (aw_writer t)) = Some code" "code \<in> api_statuses - {200}" "api_statuses - {200} \<subseteq> codes"
    for f code codes
    unfolding s [symmetric] using that by (intro outcome_plain [OF ready, where code = code]) auto
  have options: "writer_status (write_header 204 (aw_writer t)) = Some 204"
    using none by (simp add: writer_status_def write_header_def)
  have unauth: "writer_status (unauthorized_response (aw_writer t)) = Some 401"
    unfolding unauthorized_response_def using none by (intro http_Error_status) (simp add: on_header_def)
  have bad: "writer_status (bad_request_response (aw_writer t)) = Some 400"
    using none by (simp add: bad_request_response_def writer_status_def write_header_def on_header_def)
  have moved: "writer_status (ae_redirect A p req (aw_writer t)) = Some 301" for p
    by (rule api_readyD(6) [OF ready none])
  have table: "outcome A path ch api_statuses s (answer_by_table A req t)"
    unfolding s [symmetric] ch_def by (rule answer_by_table_outcome [OF ready])
  have answers: "outcome A path ch codes s (Some (on_api (write_header 204) t))"
    "outcome A path ch codes s (Some (on_api unauthorized_response t))"
    "outcome A path ch codes s (Some (on_api bad_request_response t))"
    "outcome A path ch codes s (Some (on_api (ae_redirect A p req) t))"
    if "api_statuses - {200} \<subseteq> codes" for codes p
    by (rule plain [where f = "write_header 204", OF options _ that], simp add: api_statuses_def)
      (rule plain [where f = unauthorized_response, OF unauth _ that], simp add: api_statuses_def,
       rule plain [where f = bad_request_response, OF bad _ that], simp add: api_statuses_def,
       rule plain [where f = "ae_redirect A p req", OF moved _ that], simp add: api_statuses_def)
  have sub: "api_statuses - {200} \<subseteq> api_statuses" by blast
  show ?thesis
    unfolding serve_admin_eq Let_def t_def [symmetric] ch_def [symmetric]
    using table answers [OF subset_refl] answers [OF sub] by simp
qed

text \<open>C37: what an answer of the admin API means. Every request is answered. If one that is neither
  \<open>GET\<close> nor \<open>HEAD\<close> is answered with 200, it had the credentials (if authentication is on), and exactly
  the change that it asks for, by its method, its resource and its body, was made: the operation of
  the runtime for it ran and succeeded, its configuration saved and its callbacks made. After any
  other answer, and after any \<open>GET\<close> or \<open>HEAD\<close>, the runtime, its configuration file and the callbacks
  are as before. (If the reply of the control plane is lost, the answer is 500 and the change may
  have happened; \<open>api_ready\<close> excludes that.)\<close>

theorem admin_effect:
  assumes "api_ready A path s"
  shows "\<exists>s' code. serve_admin A origin authEnabled token req s = Some s' \<and>
    writer_status (aw_writer s') = Some code \<and>
    rt_reach (ae_env A) path (ct_rt (aw_control s')) (ct_fs (aw_control s')) \<and>
    (if code = 200 \<and> rq_Method req \<notin> {''GET'', ''HEAD''}
     then (if authEnabled then presents (header_Get (rq_Header req) ''Authorization'') token else True) \<and>
       (\<exists>call op evs. request_call A req = Some call \<and> call_op call = Some op \<and>
          rt_exec (ae_env A) (ae_io A) op (ct_rt (aw_control s)) (ct_fs (aw_control s)) =
            (None, ct_rt (aw_control s'), ct_fs (aw_control s'), evs) \<and>
          ct_events (aw_control s') = ct_events (aw_control s) @ evs)
     else ct_rt (aw_control s') = ct_rt (aw_control s) \<and>
       ct_events (aw_control s') = ct_events (aw_control s) \<and>
       ct_fs (aw_control s') path = ct_fs (aw_control s) path)"
proof -
  let ?ok = "presents (header_Get (rq_Header req) ''Authorization'') token"
  obtain s' code where o: "serve_admin A origin authEnabled token req s = Some s'"
      "writer_status (aw_writer s') = Some code" "code \<in> (if authEnabled \<and> \<not> ?ok then api_statuses - {200} else api_statuses)"
      "rt_reach (ae_env A) path (ct_rt (aw_control s')) (ct_fs (aw_control s'))"
      "if code = 200 then expected A path (rq_Method req) (request_call A req) (aw_control s) (aw_control s')
       else untouched path (aw_control s) (aw_control s')"
    using admin_outcome [OF assms, of req authEnabled token origin] unfolding outcome_def by blast
  show ?thesis
  proof (cases "code = 200 \<and> rq_Method req \<notin> {''GET'', ''HEAD''}")
    case True
    with o(5) obtain call where "request_call A req = Some call" "took_effect A call (aw_control s) (aw_control s')"
      by (auto simp: expected_def split: option.splits)
    moreover have "if authEnabled then ?ok else True" using o(3) True by (simp split: if_splits)
    ultimately show ?thesis
      by (intro exI [of _ s'] exI [of _ code], unfold if_P [OF True] took_effect_def) (use o(1,2,4) in blast)
  next
    case False
    then have "untouched path (aw_control s) (aw_control s')"
      using o(5) by (auto simp: expected_def split: if_splits)
    with o(1,2,4) False show ?thesis unfolding untouched_def by (intro exI [of _ s'] exI [of _ code]) auto
  qed
qed

text \<open>Every status that the API answers with. A body that is too large gets 400 like any other that
  cannot be decoded, never 413, and what the control plane refuses gets 400, 404 or 409.\<close>

theorem admin_statuses:
  assumes "api_ready A path s" and "serve_admin A origin authEnabled token req s = Some s'"
  shows "\<exists>code. writer_status (aw_writer s') = Some code \<and> code \<in> {200, 204, 301, 400, 401, 404, 405, 409, 500}"
  using admin_outcome [OF assms(1), of req authEnabled token origin] assms(2)
  by (auto simp: outcome_def api_statuses_def split: if_splits)

text \<open>The message of the service about a missing backend is not one that \<open>clientErrorStatus\<close> takes for
  \<open>not found\<close>: the request gets 400.\<close>

theorem missing_backend_status:
  "clientErrorStatus (''backend does not exist in config: '' @ ''ghost'') = 400"
  "clientErrorStatus (''virtual host does not exist in config: '' @ ''ghost'') = 400"
  by code_simp+

definition sample_api :: api_env where
  "sample_api =
     \<lparr>ae_env = sample_env, ae_io = io_ok, ae_client_token = ''secret'', ae_server_token = ''secret'',
      ae_link = Link_ok, ae_body = '''', ae_rpc_text = st_msg, ae_json = (\<lambda>_. Inr ''{}''),
      ae_dec_backend = (\<lambda>_ _. Inl ''EOF''), ae_dec_add_vhost = (\<lambda>_ _. Inl ''EOF''),
      ae_dec_update_vhost = (\<lambda>_ _. Inl ''EOF''), ae_dec_security = (\<lambda>_ _. Inl ''EOF''),
      ae_dec_policy = (\<lambda>_ _. Inl ''EOF''), ae_dec_server = (\<lambda>_ _. Inl ''EOF''),
      ae_dec_balancer = (\<lambda>_ _. Inl ''EOF''),
      ae_redirect = (\<lambda>path req w. write_header 301 (on_header (header_Set ''Location'' path) w))\<rparr>"

definition sample_world :: api_world where
  "sample_world = \<lparr>aw_control = sample_control, aw_writer = new_writer []\<rparr>"

lemma sample_ready: "api_ready sample_api sample_path sample_world"
  by (simp add: api_ready_def sample_api_def sample_world_def sample_env_simps(1) sample_control_def
      sample_reach new_writer_def write_header_def on_header_def writer_status_def)

definition delete_request :: request where
  "delete_request = get_request\<lparr>rq_Method := ''DELETE'', rq_URL_Path := ''/api/backend/backend-1'',
     rq_RequestURI := ''/api/backend/backend-1''\<rparr>"

definition signed_request :: request where
  "signed_request = delete_request\<lparr>rq_Header := [(''Authorization'', [''Bearer secret''])]\<rparr>"

lemma delete_path:
  "clean_path (EscapedPath delete_request) = EscapedPath delete_request"
  "resource (segments (EscapedPath delete_request)) = Some (Res_Backend ''backend-1'')"
proof -
  have e: "EscapedPath delete_request = ''/api/backend/backend-1''"
    unfolding delete_request_def get_request_def by code_simp
  show "clean_path (EscapedPath delete_request) = EscapedPath delete_request" unfolding e by code_simp
  show "resource (segments (EscapedPath delete_request)) = Some (Res_Backend ''backend-1'')"
    unfolding e by code_simp
qed

lemma signed_sel:
  "EscapedPath signed_request = EscapedPath delete_request" "rq_Method signed_request = ''DELETE''"
  "rq_RequestURI signed_request = ''/api/backend/backend-1''"
  "presents (header_Get (rq_Header signed_request) ''Authorization'') ''secret''"
proof -
  have "header_Get (rq_Header signed_request) ''Authorization'' = ''Bearer secret''"
    unfolding signed_request_def by code_simp
  then show "presents (header_Get (rq_Header signed_request) ''Authorization'') ''secret''"
    unfolding presents_parts by code_simp
  show "EscapedPath signed_request = EscapedPath delete_request"
    by (simp add: EscapedPath_def signed_request_def)
qed (simp_all add: signed_request_def delete_request_def)

lemma signed_answer:
  "\<exists>s'. serve_admin sample_api '''' True ''secret'' signed_request sample_world = Some s' \<and>
     writer_status (aw_writer s') = Some 200"
proof -
  have remove: "ag_RemoveBackend sample_env io_ok ''backend-1'' sample_runtime sample_fs =
      run_update ''Backend removed successfully''
        (rt_exec sample_env io_ok (RT_RemoveBackend ''backend-1'') sample_runtime sample_fs)"
    by (simp add: ag_RemoveBackend_def)
  obtain c where c: "server_interceptor ''secret'' (serve_call sample_env io_ok)
      (client_context ''secret'' None) (C_RemoveBackend ''backend-1'') sample_control =
      (Inr (R_Basic (success ''Backend removed successfully'')), c)"
    using secret_valid sample_runtime_removed
    by (simp add: server_interceptor_def sample_control_def remove run_update_def changed_def)
  have h: "serve_admin sample_api '''' True ''secret'' signed_request sample_world =
      HandleBackendDelete sample_api [(''id'', ''backend-1'')] signed_request
        (on_api (on_header (cors_headers ''http://localhost:3000'')) sample_world)"
    by (simp add: serve_admin_eq Let_def signed_sel answer_by_table_def delete_path handler_method_def)
  show ?thesis
    unfolding h HandleBackendDelete_def
    using c respondJSON_status [OF sample_ready]
    by (simp add: path_value_def answer_update_def api_call_def sample_api_def sample_world_def success_def
        on_header_def new_writer_def)
qed

theorem admin_effect_witness:
  "(\<exists>s'. serve_admin sample_api '''' True ''secret'' delete_request sample_world = Some s' \<and>
     ct_rt (aw_control s') = sample_runtime) \<and>
   (\<exists>s'. serve_admin sample_api '''' True ''secret'' signed_request sample_world = Some s' \<and>
     writer_status (aw_writer s') = Some 200 \<and>
     ct_rt (aw_control s') = publish (sample_runtime\<lparr>rt_Config := sample_service_removed\<rparr>))"
proof
  have "\<not> presents (header_Get (rq_Header delete_request) ''Authorization'') ''secret''"
    unfolding presents_parts by code_simp
  with admin_effect [OF sample_ready, of "''''" True "''secret''" delete_request]
  show "\<exists>s'. serve_admin sample_api '''' True ''secret'' delete_request sample_world = Some s' \<and>
     ct_rt (aw_control s') = sample_runtime"
    by (auto simp: sample_world_def sample_control_def split: if_splits)
next
  obtain s' where s': "serve_admin sample_api '''' True ''secret'' signed_request sample_world = Some s'"
    "writer_status (aw_writer s') = Some 200" using signed_answer by blast
  have call: "request_call sample_api signed_request = Some (C_RemoveBackend ''backend-1'')"
    by (simp add: request_call_def signed_sel delete_path)
  have sel: "ae_env sample_api = sample_env" "ae_io sample_api = io_ok"
    "ct_rt (aw_control sample_world) = sample_runtime" "ct_fs (aw_control sample_world) = sample_fs"
    by (simp_all add: sample_api_def sample_world_def sample_control_def)
  from admin_effect [OF sample_ready, of "''''" True "''secret''" signed_request] s'
  have "ct_rt (aw_control s') = publish (sample_runtime\<lparr>rt_Config := sample_service_removed\<rparr>)"
    using sample_runtime_removed by (auto simp: signed_sel(2) call sel)
  with s' show "\<exists>s'. serve_admin sample_api '''' True ''secret'' signed_request sample_world = Some s' \<and>
     writer_status (aw_writer s') = Some 200 \<and>
     ct_rt (aw_control s') = publish (sample_runtime\<lparr>rt_Config := sample_service_removed\<rparr>)" by blast
qed

end
