(* ===== verification/LogWriter.thy ===== *)
theory LogWriter
  imports GoStrings
begin

text \<open>
  The outputs of the logger: a file (or \<open>io.Discard\<close>) whose writes may fail, and the \<open>bufio.Writer\<close>
  that the logging goroutine puts in front of it, with its error that never goes away. Main facts: the
  buffer never holds more than its size, and without a failure the bytes that were written are those
  in the file followed by those in the buffer.
\<close>

section \<open>Files\<close>

text \<open>The outcome of each call of \<open>Write\<close> on the file, in order: \<open>None\<close> if everything was
  written, otherwise how much and the error.\<close>

type_synonym write_outcomes = "nat \<Rightarrow> (nat \<times> string) option"

record sink =
  sk_Discard :: bool
  sk_Bytes :: string
  sk_Writes :: nat

definition file_write :: "write_outcomes \<Rightarrow> string \<Rightarrow> sink \<Rightarrow> string option \<times> nat \<times> sink" where
  "file_write W p k =
     (case W (sk_Writes k) of
        None \<Rightarrow> (None, length p, k\<lparr>sk_Bytes := sk_Bytes k @ p, sk_Writes := Suc (sk_Writes k)\<rparr>)
      | Some (n, e) \<Rightarrow>
          (Some e, min n (length p), k\<lparr>sk_Bytes := sk_Bytes k @ take n p, sk_Writes := Suc (sk_Writes k)\<rparr>))"

text \<open>The writer of the logger: the file, or \<open>io.Discard\<close>.\<close>

definition sink_write :: "write_outcomes \<Rightarrow> string \<Rightarrow> sink \<Rightarrow> string option \<times> nat \<times> sink" where
  "sink_write W p k = (if sk_Discard k then (None, length p, k) else file_write W p k)"

section \<open>Buffered writers\<close>

definition buf_size :: nat where
  "buf_size = 4096"

record bufio =
  bw_buf :: string
  bw_err :: "string option"

definition NewWriter :: bufio where
  "NewWriter = \<lparr>bw_buf = '''', bw_err = None\<rparr>"

definition bw_Flush :: "write_outcomes \<Rightarrow> bufio \<Rightarrow> sink \<Rightarrow> string option \<times> bufio \<times> sink" where
  "bw_Flush W b k =
     (case bw_err b of
        Some e \<Rightarrow> (Some e, b, k)
      | None \<Rightarrow>
          if bw_buf b = '''' then (None, b, k)
          else
            case sink_write W (bw_buf b) k of
              (None, _, k') \<Rightarrow> (None, b\<lparr>bw_buf := ''''\<rparr>, k')
            | (Some e, n, k') \<Rightarrow> (Some e, \<lparr>bw_buf = drop n (bw_buf b), bw_err = Some e\<rparr>, k'))"

text \<open>The loop of \<open>WriteString\<close> and \<open>Write\<close> while the text does not fit: a large text goes straight to the
  file if the buffer is empty, otherwise the buffer is filled and flushed. Both writers of the logger
  can be written to directly.\<close>

function write_loop :: "write_outcomes \<Rightarrow> string \<Rightarrow> bufio \<Rightarrow> sink \<Rightarrow> string \<times> bufio \<times> sink" where
  "write_loop W s b k =
     (if length s \<le> buf_size - length (bw_buf b) \<or> bw_err b \<noteq> None then (s, b, k)
      else if bw_buf b = '''' then
        (case sink_write W s k of (e, n, k') \<Rightarrow> write_loop W (drop n s) (b\<lparr>bw_err := e\<rparr>) k')
      else
        let n = buf_size - length (bw_buf b)
        in case bw_Flush W (b\<lparr>bw_buf := bw_buf b @ take n s\<rparr>) k of
             (_, b', k') \<Rightarrow> write_loop W (drop n s) b' k')"
  by pat_completeness auto

lemma sink_write_all:
  assumes "sink_write W p k = (None, n, k')"
  shows "n = length p"
  using assms by (auto simp: sink_write_def file_write_def split: if_splits option.splits prod.splits)

lemma bw_Flush_empties: "bw_Flush W b k = (e, b', k') \<Longrightarrow> bw_err b' = None \<longrightarrow> bw_buf b' = ''''"
  by (auto simp: bw_Flush_def split: option.splits prod.splits if_splits)

termination write_loop
  by (relation "measure (\<lambda>(W, s, b, k). if bw_err b \<noteq> None then 0 else Suc (length s + length (bw_buf b)))")
    (auto dest!: sink_write_all [OF sym] bw_Flush_empties [OF sym] simp flip: length_greater_0_conv)

declare write_loop.simps [simp del]

definition bw_WriteString :: "write_outcomes \<Rightarrow> string \<Rightarrow> bufio \<Rightarrow> sink \<Rightarrow> string option \<times> bufio \<times> sink" where
  "bw_WriteString W s b k =
     (case write_loop W s b k of
        (s', b', k') \<Rightarrow>
          case bw_err b' of
            Some e \<Rightarrow> (Some e, b', k')
          | None \<Rightarrow> (None, b'\<lparr>bw_buf := bw_buf b' @ s'\<rparr>, k'))"

definition bw_WriteByte :: "write_outcomes \<Rightarrow> char \<Rightarrow> bufio \<Rightarrow> sink \<Rightarrow> string option \<times> bufio \<times> sink" where
  "bw_WriteByte W c b k =
     (case bw_err b of
        Some e \<Rightarrow> (Some e, b, k)
      | None \<Rightarrow>
          (case (if buf_size \<le> length (bw_buf b) then bw_Flush W b k else (None, b, k)) of
             (Some e, b', k') \<Rightarrow> (Some e, b', k')
           | (None, b', k') \<Rightarrow> (None, b'\<lparr>bw_buf := bw_buf b' @ [c]\<rparr>, k')))"

section \<open>Facts\<close>

text \<open>What an operation of a buffered writer does. It keeps the buffer within its size and the kind of
  the sink, does nothing once there is an error, and, as long as no write fails, moves bytes but loses
  none.\<close>

definition no_failures :: "write_outcomes \<Rightarrow> bool" where
  "no_failures W \<longleftrightarrow> (\<forall>n. W n = None)"

definition stream :: "bufio \<Rightarrow> sink \<Rightarrow> string" where
  "stream b k = sk_Bytes k @ bw_buf b"

lemma stream_simps [simp]:
  "stream (b\<lparr>bw_buf := bw_buf b @ s\<rparr>) k = stream b k @ s"
  "stream (b\<lparr>bw_err := e\<rparr>) k = stream b k"
  by (simp_all add: stream_def)

definition flowing :: "write_outcomes \<Rightarrow> bufio \<Rightarrow> sink \<Rightarrow> string \<Rightarrow> bufio \<Rightarrow> sink \<Rightarrow> bool" where
  "flowing W b k s b' k' \<longleftrightarrow>
     length (bw_buf b') \<le> buf_size \<and> sk_Discard k' = sk_Discard k \<and>
     (bw_err b \<noteq> None \<longrightarrow> b' = b \<and> k' = k) \<and>
     (no_failures W \<and> bw_err b = None \<longrightarrow> bw_err b' = None \<and>
        (\<not> sk_Discard k \<longrightarrow> stream b' k' = stream b k @ s))"

lemma sink_write_sel:
  assumes "sink_write W p k = (e, n, k')"
  shows "sk_Discard k' = sk_Discard k" "n \<le> length p"
    "no_failures W \<Longrightarrow> e = None \<and> n = length p \<and> (\<not> sk_Discard k \<longrightarrow> sk_Bytes k' = sk_Bytes k @ p)"
  using assms by (auto simp: sink_write_def file_write_def no_failures_def split: if_splits option.splits)

lemma flowing_Flush:
  assumes "bw_Flush W b k = (e, b', k')" and "length (bw_buf b) \<le> buf_size"
  shows "flowing W b k '''' b' k'" "e = bw_err b'"
proof -
  obtain x n k1 where w: "sink_write W (bw_buf b) k = (x, n, k1)" by (metis prod_cases3)
  show "flowing W b k '''' b' k'" "e = bw_err b'"
    using assms w sink_write_sel [OF w]
    by (auto simp: bw_Flush_def flowing_def stream_def split: option.splits if_splits)
qed

lemma flowing_loop:
  assumes "length (bw_buf b) \<le> buf_size" and "write_loop W s b k = (s', b', k')"
  shows "(bw_err b' = None \<longrightarrow> length s' \<le> buf_size - length (bw_buf b')) \<and> length (bw_buf b') \<le> buf_size \<and>
    sk_Discard k' = sk_Discard k \<and> (bw_err b \<noteq> None \<longrightarrow> b' = b \<and> k' = k) \<and>
    (no_failures W \<and> bw_err b = None \<longrightarrow> bw_err b' = None \<and>
       (\<not> sk_Discard k \<longrightarrow> stream b' k' @ s' = stream b k @ s))"
  using assms
proof (induction W s b k rule: write_loop.induct)
  case (1 W s b k)
  show ?case
  proof (cases "length s \<le> buf_size - length (bw_buf b) \<or> bw_err b \<noteq> None")
    case True
    then show ?thesis using 1(3,4) by (auto simp: write_loop.simps)
  next
    case go: False
    show ?thesis
    proof (cases "bw_buf b = ''''")
      case True
      obtain e n k1 where w: "sink_write W s k = (e, n, k1)" by (metis prod_cases3)
      then have "write_loop W (drop n s) (b\<lparr>bw_err := e\<rparr>) k1 = (s', b', k')"
        using 1(4) go True by (simp add: write_loop.simps [of W s])
      with 1(1) [OF go True w [symmetric] refl] True go sink_write_sel [OF w]
      show ?thesis by (auto simp: write_loop.simps stream_def)
    next
      case False
      let ?n = "buf_size - length (bw_buf b)"
      let ?b = "b\<lparr>bw_buf := bw_buf b @ take ?n s\<rparr>"
      obtain e b1 k1 where w: "bw_Flush W ?b k = (e, b1, k1)" by (metis prod_cases3)
      have len: "length (bw_buf ?b) \<le> buf_size" using 1(3) by simp
      have "write_loop W (drop ?n s) b1 k1 = (s', b', k')"
        using 1(4) go False w by (simp add: write_loop.simps [of W s] Let_def)
      then show ?thesis
        using 1(2) [OF go False refl w [symmetric] refl] flowing_Flush(1) [OF w len] go
        by (auto simp: flowing_def)
    qed
  qed
qed

lemma flowing_WriteString:
  assumes "bw_WriteString W s b k = (e, b', k')" and "length (bw_buf b) \<le> buf_size"
  shows "flowing W b k s b' k'" "e = bw_err b'"
proof -
  obtain s1 b1 k1 where l: "write_loop W s b k = (s1, b1, k1)" by (metis prod_cases3)
  show "flowing W b k s b' k'" "e = bw_err b'"
    using assms(1) l flowing_loop [OF assms(2) l]
    by (auto simp: bw_WriteString_def flowing_def split: option.splits)
qed

lemma flowing_WriteByte:
  assumes "bw_WriteByte W c b k = (e, b', k')" and "length (bw_buf b) \<le> buf_size"
  shows "flowing W b k [c] b' k'" "e = bw_err b'"
proof -
  obtain e1 b1 k1 where f: "bw_Flush W b k = (e1, b1, k1)" by (metis prod_cases3)
  show "flowing W b k [c] b' k'" "e = bw_err b'"
    using assms f flowing_Flush [OF f assms(2)] bw_Flush_empties [OF f]
    by (auto simp: bw_WriteByte_def flowing_def buf_size_def stream_def split: option.splits if_splits)
qed

lemma flowing_trans:
  assumes "flowing W b k s b1 k1" and "flowing W b1 k1 t b2 k2"
  shows "flowing W b k (s @ t) b2 k2"
  using assms unfolding flowing_def by (cases "bw_err b") auto

end
