(* ===== verification/Logger.thy ===== *)
theory Logger
  imports LogWriter ConfigTypes "HOL-Library.AList"
begin

text \<open>
  The logger (\<open>internal/logger/logger.go\<close>): levels, formatting, the queue between the callers and the
  logging goroutine with its counter of dropped entries, and the shutdown. The clock is an input;
  formats of the standard library and the order in which a map is visited are parameters. Main facts:
  what was accepted is what the goroutine received followed by what is queued, nothing that it
  received is lost, which entries may be, and what a failed write does.
\<close>

section \<open>Levels and entries\<close>

type_synonym log_level = int

definition LevelDebug :: log_level where "LevelDebug = 0"
definition LevelInfo :: log_level where "LevelInfo = 1"
definition LevelWarn :: log_level where "LevelWarn = 2"
definition LevelError :: log_level where "LevelError = 3"

lemmas level_defs = LevelDebug_def LevelInfo_def LevelWarn_def LevelError_def

definition parseLevel :: "string \<Rightarrow> log_level" where
  "parseLevel level =
     (let l = to_lower level
      in if l = ''debug'' then LevelDebug
         else if l = ''info'' then LevelInfo
         else if l = ''warn'' then LevelWarn
         else if l = ''error'' then LevelError else LevelInfo)"

definition levelToString :: "log_level \<Rightarrow> string" where
  "levelToString level =
     (if level = LevelDebug then ''DEBUG''
      else if level = LevelInfo then ''INFO''
      else if level = LevelWarn then ''WARN''
      else if level = LevelError then ''ERROR'' else ''UNKNOWN'')"

text \<open>The fields of an entry with their values as \<open>%v\<close> prints them.\<close>

type_synonym log_fields = "(string \<times> string) list"

record log_entry =
  en_Time :: int
  en_Level :: log_level
  en_Message :: string
  en_Fields :: log_fields

text \<open>The formats: a time in the layout of the entries and in \<open>RFC3339Nano\<close>, \<open>%q\<close>, a duration in
  microseconds as \<open>%.2fms\<close> of its milliseconds; the order in which \<open>range\<close> visits the fields of an
  entry; and the outcomes of the writes to standard output.\<close>

record log_env =
  lv_time :: "int \<Rightarrow> string"
  lv_nano :: "int \<Rightarrow> string"
  lv_quote :: "string \<Rightarrow> string"
  lv_ms :: "int \<Rightarrow> string"
  lv_range :: "log_entry \<Rightarrow> log_fields"
  lv_writes :: write_outcomes

fun write_fields :: "log_fields \<Rightarrow> string" where
  "write_fields [] = ''''"
| "write_fields ((k, v) # fs) = '' '' @ k @ ''='' @ v @ write_fields fs"

definition formatEntry :: "log_env \<Rightarrow> log_entry \<Rightarrow> string" where
  "formatEntry E entry =
     lv_time E (en_Time entry) @ '' ['' @ levelToString (en_Level entry) @ ''] '' @ en_Message entry @ '' |''
       @ write_fields (lv_range E entry)"

definition newline :: char where
  "newline = CHR 0x0A"

section \<open>State\<close>

text \<open>\<open>lo_worker\<close> is the buffered writer of the logging goroutine while it runs, \<open>lo_errors\<close> what went to
  standard error.\<close>

record logger =
  lo_config :: logging_config
  lo_level :: log_level
  lo_sink :: sink
  lo_errors :: string
  lo_entryChan :: "log_entry list"
  lo_capacity :: nat
  lo_done :: bool
  lo_dropped :: uint64
  lo_errorReported :: bool
  lo_worker :: "bufio option"

definition shouldLog :: "log_level \<Rightarrow> logger \<Rightarrow> bool" where
  "shouldLog lvl l \<longleftrightarrow> (if \<not> lg_Enabled (lo_config l) then False else lo_level l \<le> lvl)"

text \<open>Only the first error is reported.\<close>

definition reportWriterError :: "log_env \<Rightarrow> int \<Rightarrow> string \<Rightarrow> string option \<Rightarrow> logger \<Rightarrow> logger" where
  "reportWriterError E now operation err l =
     (case err of
        None \<Rightarrow> l
      | Some e \<Rightarrow>
          if lo_errorReported l then l
          else l\<lparr>lo_errorReported := True,
                 lo_errors := lo_errors l @ lv_nano E now @ '' [ERROR] logger output failed operation=''
                   @ lv_quote E operation @ '' error='' @ lv_quote E e @ [newline]\<rparr>)"

definition writeEntry :: "log_env \<Rightarrow> int \<Rightarrow> log_entry \<Rightarrow> logger \<Rightarrow> logger" where
  "writeEntry E now entry l =
     (case sink_write (lv_writes E) (formatEntry E entry @ [newline]) (lo_sink l) of
        (err, _, k) \<Rightarrow> reportWriterError E now ''write log entry'' err (l\<lparr>lo_sink := k\<rparr>))"

definition logInternal :: "log_env \<Rightarrow> int \<Rightarrow> log_level \<Rightarrow> string \<Rightarrow> log_fields \<Rightarrow> logger \<Rightarrow> logger" where
  "logInternal E now lvl msg fs l =
     (if \<not> shouldLog lvl l then l
      else
        let entry = \<lparr>en_Time = now, en_Level = lvl, en_Message = msg, en_Fields = fs\<rparr>
        in if lg_Async (lo_config l) then
             (if length (lo_entryChan l) < lo_capacity l
              then l\<lparr>lo_entryChan := lo_entryChan l @ [entry]\<rparr>
              else l\<lparr>lo_dropped := lo_dropped l + 1\<rparr>)
           else writeEntry E now entry l)"

definition updateConfig :: "logging_config \<Rightarrow> logger \<Rightarrow> logger" where
  "updateConfig cfg l = l\<lparr>lo_config := cfg, lo_level := parseLevel (lg_Level cfg)\<rparr>"

text \<open>The first call of \<open>Init\<close>; \<open>make\<close> panics for a negative size, which the validator excludes.\<close>

definition new_logger :: "log_env \<Rightarrow> int \<Rightarrow> logging_config \<Rightarrow> logger" where
  "new_logger E now cfg =
     (let l = \<lparr>lo_config = cfg, lo_level = parseLevel (lg_Level cfg),
               lo_sink = \<lparr>sk_Discard = \<not> lg_Enabled cfg, sk_Bytes = '''', sk_Writes = 0\<rparr>, lo_errors = '''',
               lo_entryChan = [], lo_capacity = nat (sint (lg_BufferSize cfg)), lo_done = False, lo_dropped = 0,
               lo_errorReported = False, lo_worker = (if lg_Async cfg then Some NewWriter else None)\<rparr>
      in logInternal E now LevelInfo ''Logger initialized''
           [(''level'', lg_Level cfg), (''async'', if lg_Async cfg then ''true'' else ''false''),
            (''buffer'', show_int (sint (lg_BufferSize cfg)))] l)"

text \<open>\<open>instance\<close> is set once.\<close>

definition log_Init :: "log_env \<Rightarrow> int \<Rightarrow> logging_config \<Rightarrow> logger option \<Rightarrow> logger option" where
  "log_Init E now cfg inst = (case inst of None \<Rightarrow> Some (new_logger E now cfg) | Some l \<Rightarrow> Some l)"

section \<open>The logging goroutine\<close>

definition log_flush :: "log_env \<Rightarrow> int \<Rightarrow> string \<Rightarrow> bufio \<Rightarrow> logger \<Rightarrow> logger" where
  "log_flush E now operation b l =
     (case bw_Flush (lv_writes E) b (lo_sink l) of
        (err, b', k) \<Rightarrow> reportWriterError E now operation err (l\<lparr>lo_sink := k, lo_worker := Some b'\<rparr>))"

text \<open>The branches of the \<open>select\<close>: an entry, the ticker, and the end.\<close>

definition process_entry :: "log_env \<Rightarrow> int \<Rightarrow> log_entry \<Rightarrow> bufio \<Rightarrow> logger \<Rightarrow> logger" where
  "process_entry E now entry b l =
     (case bw_WriteString (lv_writes E) (formatEntry E entry) b (lo_sink l) of
        (Some e, b1, k1) \<Rightarrow>
          reportWriterError E now ''write log entry'' (Some e) (l\<lparr>lo_sink := k1, lo_worker := Some b1\<rparr>)
      | (None, b1, k1) \<Rightarrow>
          (case bw_WriteByte (lv_writes E) newline b1 k1 of
             (Some e, b2, k2) \<Rightarrow>
               reportWriterError E now ''write log entry separator'' (Some e)
                 (l\<lparr>lo_sink := k2, lo_worker := Some b2\<rparr>)
           | (None, b2, k2) \<Rightarrow>
               (let l' = l\<lparr>lo_sink := k2, lo_worker := Some b2\<rparr>
                in if 4096 < length (bw_buf b2) then log_flush E now ''flush full buffer'' b2 l' else l')))"

definition drop_warning :: "log_env \<Rightarrow> int \<Rightarrow> uint64 \<Rightarrow> string" where
  "drop_warning E now n =
     lv_nano E now @ '' [WARN] '' @ show_nat (unat n) @ '' log entries dropped (buffer full)'' @ [newline]"

definition process_tick :: "log_env \<Rightarrow> int \<Rightarrow> bufio \<Rightarrow> logger \<Rightarrow> logger" where
  "process_tick E now b l =
     (let l1 = log_flush E now ''periodic flush'' b l; n = lo_dropped l1; l2 = l1\<lparr>lo_dropped := 0\<rparr>
      in if lg_Enabled (lo_config l) \<and> 0 < n then
           (case bw_WriteString (lv_writes E) (drop_warning E now n) (the (lo_worker l1)) (lo_sink l1) of
              (err, b', k) \<Rightarrow>
                reportWriterError E now ''write dropped-entry warning'' err
                  (l2\<lparr>lo_sink := k, lo_worker := Some b'\<rparr>))
         else l2)"

definition process_exit :: "log_env \<Rightarrow> int \<Rightarrow> bufio \<Rightarrow> logger \<Rightarrow> logger" where
  "process_exit E now b l = (log_flush E now ''final flush'' b l)\<lparr>lo_worker := None\<rparr>"

section \<open>Calls\<close>

definition request_level :: "goint \<Rightarrow> log_level" where
  "request_level status =
     (if 500 \<le> sint status then LevelError else if 400 \<le> sint status then LevelWarn else LevelInfo)"

definition LogRequest ::
  "log_env \<Rightarrow> int \<Rightarrow> string \<Rightarrow> string \<Rightarrow> string \<Rightarrow> goint \<Rightarrow> string \<Rightarrow> int \<Rightarrow> string \<Rightarrow> log_fields \<Rightarrow> logger option \<Rightarrow> logger option"
  where
  "LogRequest E now clientIP method path status backend duration err fs inst =
     (case inst of
        None \<Rightarrow> None
      | Some l \<Rightarrow>
          if \<not> lg_Enabled (lo_config l) then Some l
          else
            let fs1 = AList.update ''duration'' (lv_ms E duration)
                        (AList.update ''backend'' backend
                          (AList.update ''status'' (show_int (sint status))
                            (AList.update ''path'' path
                              (AList.update ''method'' method (AList.update ''client_ip'' clientIP fs)))));
                fs2 = (if err \<noteq> '''' then AList.update ''error'' err fs1 else fs1)
            in Some (logInternal E now (request_level status) ''HTTP request'' fs2 l))"

definition log_at :: "log_level \<Rightarrow> log_env \<Rightarrow> int \<Rightarrow> string \<Rightarrow> log_fields \<Rightarrow> logger option \<Rightarrow> logger option" where
  "log_at lvl E now msg fs inst = map_option (logInternal E now lvl msg fs) inst"

definition log_Debug where "log_Debug = log_at LevelDebug"
definition log_Info where "log_Info = log_at LevelInfo"
definition log_Warn where "log_Warn = log_at LevelWarn"
definition log_Error where "log_Error = log_at LevelError"

definition log_UpdateConfig :: "logging_config \<Rightarrow> logger option \<Rightarrow> logger option" where
  "log_UpdateConfig cfg inst = map_option (updateConfig cfg) inst"

definition BackendHealth ::
  "log_env \<Rightarrow> int \<Rightarrow> string \<Rightarrow> bool \<Rightarrow> string \<Rightarrow> logger option \<Rightarrow> logger option" where
  "BackendHealth E now backend healthy err inst =
     (case inst of
        None \<Rightarrow> None
      | Some l \<Rightarrow>
          if \<not> lg_Enabled (lo_config l) then Some l
          else
            let fs = [(''backend'', backend), (''status'', if healthy then ''healthy'' else ''unhealthy'')];
                fs' = (if err \<noteq> '''' then AList.update ''error'' err fs else fs)
            in Some (logInternal E now (if healthy then LevelInfo else LevelError) ''Health check'' fs' l))"

text \<open>\<open>Stop\<close> up to the wait, which panics if \<open>done\<close> is closed already, and behind it.\<close>

definition stop_begin :: "log_env \<Rightarrow> int \<Rightarrow> logger \<Rightarrow> logger option" where
  "stop_begin E now l =
     (let l' = logInternal E now LevelInfo ''Logger shutting down'' [] l
      in if lo_done l' then None else Some (l'\<lparr>lo_done := True\<rparr>))"

definition stop_end :: "log_env \<Rightarrow> int \<Rightarrow> logger \<Rightarrow> logger" where
  "stop_end E now l =
     (case file_write (lv_writes E) (lv_nano E now @ '' [INFO] Logger stopped'' @ [newline]) (lo_sink l) of
        (err, _, k) \<Rightarrow> reportWriterError E now ''write shutdown confirmation'' err (l\<lparr>lo_sink := k\<rparr>))"

end
