(* ===== verification/LoggerProps.thy ===== *)
theory LoggerProps
  imports Logger
begin

text \<open>
  The logger as a transition system: callers that log from many goroutines, the logging goroutine and
  the shutdown, with a history of what was accepted, written and dropped. Main facts: the queue is in
  order, bounded and loses nothing; what the goroutine received is in the output once it has ended;
  what is still queued then is lost; after a failed write there is no output any more.
\<close>

section \<open>Steps\<close>

text \<open>A call that logs; a new configuration; the three branches of the goroutine; \<open>Stop\<close> up to the wait
  and behind it. The time is part of each. \<open>UpdateConfig\<close> does not switch between the synchronous and
  the asynchronous mode here: see \<open>late_async_is_silent\<close>.\<close>

datatype log_event =
    L_log int log_level string log_fields
  | L_update logging_config
  | L_take int
  | L_tick int
  | L_exit int
  | L_stop int
  | L_stopped int

fun log_step :: "log_env \<Rightarrow> log_event \<Rightarrow> logger \<Rightarrow> logger option" where
  "log_step E (L_log now lvl msg fs) l = Some (logInternal E now lvl msg fs l)"
| "log_step E (L_update cfg) l = (if lg_Async cfg = lg_Async (lo_config l) then Some (updateConfig cfg l) else None)"
| "log_step E (L_take now) l =
     (case (lo_worker l, lo_entryChan l) of
        (Some b, entry # rest) \<Rightarrow> Some (process_entry E now entry b (l\<lparr>lo_entryChan := rest\<rparr>))
      | _ \<Rightarrow> None)"
| "log_step E (L_tick now) l = map_option (\<lambda>b. process_tick E now b l) (lo_worker l)"
| "log_step E (L_exit now) l = (if lo_done l then map_option (\<lambda>b. process_exit E now b l) (lo_worker l) else None)"
| "log_step E (L_stop now) l = stop_begin E now l"
| "log_step E (L_stopped now) l = (if lo_done l \<and> lo_worker l = None then Some (stop_end E now l) else None)"

text \<open>The history: the entries that were accepted into the queue, the lines that were written, how many
  entries were dropped, and how many of those the ticker has taken out of the counter.\<close>

datatype log_line = Line_entry log_entry | Line_dropped int uint64 | Line_stopped int

record log_history =
  lh_accepted :: "log_entry list"
  lh_lines :: "log_line list"
  lh_dropped :: nat
  lh_taken :: nat

fun render :: "log_env \<Rightarrow> log_line \<Rightarrow> string" where
  "render E (Line_entry e) = formatEntry E e @ [newline]"
| "render E (Line_dropped now n) = drop_warning E now n"
| "render E (Line_stopped now) = lv_nano E now @ '' [INFO] Logger stopped'' @ [newline]"

definition received :: "log_history \<Rightarrow> log_entry list" where
  "received h = concat (map (\<lambda>x. case x of Line_entry e \<Rightarrow> [e] | _ \<Rightarrow> []) (lh_lines h))"

text \<open>What logging an entry does to the history.\<close>

definition offered :: "int \<Rightarrow> log_level \<Rightarrow> string \<Rightarrow> log_fields \<Rightarrow> logger \<Rightarrow> log_history \<Rightarrow> log_history" where
  "offered now lvl msg fs l h =
     (if shouldLog lvl l \<and> lg_Async (lo_config l) then
        (if length (lo_entryChan l) < lo_capacity l
         then h\<lparr>lh_accepted := lh_accepted h @ [\<lparr>en_Time = now, en_Level = lvl, en_Message = msg, en_Fields = fs\<rparr>]\<rparr>
         else h\<lparr>lh_dropped := Suc (lh_dropped h)\<rparr>)
      else if shouldLog lvl l
      then h\<lparr>lh_lines := lh_lines h @ [Line_entry \<lparr>en_Time = now, en_Level = lvl, en_Message = msg, en_Fields = fs\<rparr>]\<rparr>
      else h)"

fun observe :: "log_event \<Rightarrow> logger \<Rightarrow> log_history \<Rightarrow> log_history" where
  "observe (L_log now lvl msg fs) l h = offered now lvl msg fs l h"
| "observe (L_stop now) l h = offered now LevelInfo ''Logger shutting down'' [] l h"
| "observe (L_take now) l h = h\<lparr>lh_lines := lh_lines h @ map Line_entry (take 1 (lo_entryChan l))\<rparr>"
| "observe (L_tick now) l h =
     (let h' = h\<lparr>lh_taken := lh_taken h + unat (lo_dropped l)\<rparr>
      in if lg_Enabled (lo_config l) \<and> 0 < lo_dropped l
         then h'\<lparr>lh_lines := lh_lines h @ [Line_dropped now (lo_dropped l)]\<rparr> else h')"
| "observe (L_stopped now) l h = h\<lparr>lh_lines := lh_lines h @ [Line_stopped now]\<rparr>"
| "observe _ l h = h"

definition empty_history :: log_history where
  "empty_history = \<lparr>lh_accepted = [], lh_lines = [], lh_dropped = 0, lh_taken = 0\<rparr>"

text \<open>The logger before its first entry; the first event of \<open>Init\<close> is its message.\<close>

definition blank_logger :: "logging_config \<Rightarrow> logger" where
  "blank_logger cfg =
     \<lparr>lo_config = cfg, lo_level = parseLevel (lg_Level cfg),
      lo_sink = \<lparr>sk_Discard = \<not> lg_Enabled cfg, sk_Bytes = '''', sk_Writes = 0\<rparr>, lo_errors = '''',
      lo_entryChan = [], lo_capacity = nat (sint (lg_BufferSize cfg)), lo_done = False, lo_dropped = 0,
      lo_errorReported = False, lo_worker = (if lg_Async cfg then Some NewWriter else None)\<rparr>"

definition init_fields :: "logging_config \<Rightarrow> log_fields" where
  "init_fields cfg = [(''level'', lg_Level cfg), (''async'', if lg_Async cfg then ''true'' else ''false''),
     (''buffer'', show_int (sint (lg_BufferSize cfg)))]"

lemma new_logger_eq:
  "new_logger E now cfg = logInternal E now LevelInfo ''Logger initialized'' (init_fields cfg) (blank_logger cfg)"
  by (simp add: new_logger_def blank_logger_def init_fields_def Let_def)

inductive log_reach :: "log_env \<Rightarrow> logging_config \<Rightarrow> logger \<Rightarrow> log_history \<Rightarrow> bool" for E cfg where
  lr_init: "log_reach E cfg (new_logger E now cfg)
      (offered now LevelInfo ''Logger initialized'' (init_fields cfg) (blank_logger cfg) empty_history)"
| lr_step: "log_reach E cfg l h \<Longrightarrow> log_step E ev l = Some l' \<Longrightarrow> log_reach E cfg l' (observe ev l h)"

section \<open>The queue\<close>

lemma report_sel [simp]:
  "lo_config (reportWriterError E now op err l) = lo_config l"
  "lo_level (reportWriterError E now op err l) = lo_level l"
  "lo_sink (reportWriterError E now op err l) = lo_sink l"
  "lo_entryChan (reportWriterError E now op err l) = lo_entryChan l"
  "lo_capacity (reportWriterError E now op err l) = lo_capacity l"
  "lo_done (reportWriterError E now op err l) = lo_done l"
  "lo_dropped (reportWriterError E now op err l) = lo_dropped l"
  "lo_worker (reportWriterError E now op err l) = lo_worker l"
  by (simp_all add: reportWriterError_def split: option.splits)

lemma flush_sel [simp]:
  "lo_config (log_flush E now op b l) = lo_config l"
  "lo_entryChan (log_flush E now op b l) = lo_entryChan l"
  "lo_capacity (log_flush E now op b l) = lo_capacity l"
  "lo_done (log_flush E now op b l) = lo_done l"
  "lo_dropped (log_flush E now op b l) = lo_dropped l"
  by (simp_all add: log_flush_def split: prod.splits)

lemma process_sel [simp]:
  "lo_config (process_entry E now e b l) = lo_config l"
  "lo_entryChan (process_entry E now e b l) = lo_entryChan l"
  "lo_capacity (process_entry E now e b l) = lo_capacity l"
  "lo_dropped (process_entry E now e b l) = lo_dropped l"
  "lo_config (process_tick E now b l) = lo_config l"
  "lo_entryChan (process_tick E now b l) = lo_entryChan l"
  "lo_capacity (process_tick E now b l) = lo_capacity l"
  "lo_dropped (process_tick E now b l) = 0"
  "lo_config (process_exit E now b l) = lo_config l"
  "lo_entryChan (process_exit E now b l) = lo_entryChan l"
  "lo_capacity (process_exit E now b l) = lo_capacity l"
  "lo_dropped (process_exit E now b l) = lo_dropped l"
  by (simp_all add: process_entry_def process_tick_def process_exit_def Let_def split: prod.splits option.splits)

definition queue_ok :: "logger \<Rightarrow> log_history \<Rightarrow> bool" where
  "queue_ok l h \<longleftrightarrow>
     (lg_Async (lo_config l) \<longrightarrow> lh_accepted h = received h @ lo_entryChan l) \<and>
     length (lo_entryChan l) \<le> lo_capacity l \<and>
     of_nat (lh_dropped h) = of_nat (lh_taken h) + lo_dropped l"

lemma received_append [simp]:
  "received (h\<lparr>lh_lines := lh_lines h @ ls\<rparr>) =
     received h @ concat (map (\<lambda>x. case x of Line_entry e \<Rightarrow> [e] | _ \<Rightarrow> []) ls)"
  by (simp add: received_def)

lemma received_history [simp]:
  "received (h\<lparr>lh_accepted := a\<rparr>) = received h" "received (h\<lparr>lh_dropped := d\<rparr>) = received h"
  "received (h\<lparr>lh_taken := t\<rparr>) = received h" "received empty_history = []"
  by (simp_all add: received_def empty_history_def)

lemma writeEntry_sel [simp]:
  "lo_config (writeEntry E now e l) = lo_config l" "lo_entryChan (writeEntry E now e l) = lo_entryChan l"
  "lo_capacity (writeEntry E now e l) = lo_capacity l" "lo_dropped (writeEntry E now e l) = lo_dropped l"
  "lo_worker (writeEntry E now e l) = lo_worker l" "lo_done (writeEntry E now e l) = lo_done l"
  by (simp_all add: writeEntry_def split: prod.splits)

lemma logInternal_sel [simp]:
  "lo_config (logInternal E now lvl msg fs l) = lo_config l"
  "lo_capacity (logInternal E now lvl msg fs l) = lo_capacity l"
  "lo_worker (logInternal E now lvl msg fs l) = lo_worker l"
  "lo_done (logInternal E now lvl msg fs l) = lo_done l"
  by (simp_all add: logInternal_def Let_def)

lemma queue_ok_offered:
  assumes "queue_ok l h"
  shows "queue_ok (logInternal E now lvl msg fs l) (offered now lvl msg fs l h)"
  using assms by (auto simp: queue_ok_def logInternal_def offered_def Let_def algebra_simps)

lemma queue_ok_step:
  assumes "queue_ok l h" and "log_step E ev l = Some l'"
  shows "queue_ok l' (observe ev l h)"
proof (cases ev)
  case (L_log now lvl msg fs)
  then show ?thesis using assms queue_ok_offered by auto
next
  case (L_stop now)
  have keep: "queue_ok (l\<lparr>lo_done := d\<rparr>) h' = queue_ok l h'" for d l h' by (simp add: queue_ok_def)
  show ?thesis
    using assms(2) queue_ok_offered [OF assms(1)] L_stop
    by (auto simp: stop_begin_def Let_def keep split: if_splits)
next
  case (L_take now)
  then show ?thesis using assms by (auto simp: queue_ok_def split: option.splits list.splits)
next
  case (L_tick now)
  then show ?thesis using assms by (auto simp: queue_ok_def Let_def received_def)
qed (use assms in \<open>auto simp: queue_ok_def updateConfig_def stop_end_def split: if_splits prod.splits\<close>)

lemma log_reach_queue:
  assumes "log_reach E cfg l h"
  shows "queue_ok l h"
  using assms
proof induction
  case (lr_init now)
  have "queue_ok (blank_logger cfg) empty_history"
    by (simp add: queue_ok_def blank_logger_def empty_history_def received_def)
  then show ?case unfolding new_logger_eq by (rule queue_ok_offered)
qed (rule queue_ok_step)

text \<open>C38: the queue of the logger, in every interleaving of the callers, the logging goroutine and the
  shutdown: in asynchronous mode the entries that were accepted are those that the goroutine has
  received, in the same order, followed by those in the queue, which is never longer than its
  configured size; and every entry that was dropped is still in the counter or was taken out of it by
  the ticker (modulo 2 to the 64).\<close>

theorem logger_conserves:
  assumes "log_reach E cfg l h"
  shows "(lg_Async (lo_config l) \<longrightarrow> lh_accepted h = received h @ lo_entryChan l) \<and>
    length (lo_entryChan l) \<le> nat (sint (lg_BufferSize cfg)) \<and>
    lo_dropped l = of_nat (lh_dropped h) - of_nat (lh_taken h)"
proof -
  have "lo_capacity l = nat (sint (lg_BufferSize cfg))"
    using assms
  proof induction
    case (lr_step l h ev l')
    then show ?case
      by (cases ev) (auto simp: updateConfig_def stop_begin_def stop_end_def Let_def
          split: if_splits option.splits list.splits prod.splits)
  qed (simp add: new_logger_eq blank_logger_def)
  with log_reach_queue [OF assms] show ?thesis by (auto simp: queue_ok_def)
qed

section \<open>The output\<close>

definition output_ok :: "log_env \<Rightarrow> logger \<Rightarrow> log_history \<Rightarrow> bool" where
  "output_ok E l h \<longleftrightarrow>
     \<not> sk_Discard (lo_sink l) \<and> lg_Async (lo_config l) \<and>
     (case lo_worker l of
        None \<Rightarrow> sk_Bytes (lo_sink l) = concat (map (render E) (lh_lines h))
      | Some b \<Rightarrow> bw_err b = None \<and> length (bw_buf b) \<le> buf_size \<and>
          stream b (lo_sink l) = concat (map (render E) (lh_lines h)))"

lemma flowing_ok:
  assumes "flowing W b k s b' k'" and "no_failures W" and "bw_err b = None" and "\<not> sk_Discard k"
  shows "bw_err b' = None" "length (bw_buf b') \<le> buf_size" "\<not> sk_Discard k'" "stream b' k' = stream b k @ s"
  using assms by (auto simp: flowing_def)

lemma log_flush_ok:
  assumes "no_failures (lv_writes E)" and "bw_err b = None" and "length (bw_buf b) \<le> buf_size" and "\<not> sk_Discard (lo_sink l)"
  obtains b' where "lo_worker (log_flush E now op b l) = Some b'" "bw_err b' = None" "bw_buf b' = ''''"
    "\<not> sk_Discard (lo_sink (log_flush E now op b l))"
    "stream b' (lo_sink (log_flush E now op b l)) = stream b (lo_sink l)"
proof -
  obtain e b' k' where f: "bw_Flush (lv_writes E) b (lo_sink l) = (e, b', k')" by (metis prod_cases3)
  note fl = flowing_ok [OF flowing_Flush(1) [OF f assms(3)] assms(1,2,4)]
  show thesis
    by (rule that [of b']) (use f fl bw_Flush_empties [OF f] in \<open>simp_all add: log_flush_def\<close>)
qed

lemma process_entry_ok:
  assumes "no_failures (lv_writes E)" and "bw_err b = None" and "length (bw_buf b) \<le> buf_size" and "\<not> sk_Discard (lo_sink l)"
  obtains b' where "lo_worker (process_entry E now e b l) = Some b'" "bw_err b' = None" "length (bw_buf b') \<le> buf_size"
    "\<not> sk_Discard (lo_sink (process_entry E now e b l))"
    "stream b' (lo_sink (process_entry E now e b l)) = stream b (lo_sink l) @ formatEntry E e @ [newline]"
proof -
  obtain e1 b1 k1 where s: "bw_WriteString (lv_writes E) (formatEntry E e) b (lo_sink l) = (e1, b1, k1)"
    by (metis prod_cases3)
  note s1 = flowing_WriteString [OF s assms(3)]
  note s2 = flowing_ok [OF s1(1) assms(1,2,4)]
  obtain e2 b2 k2 where w: "bw_WriteByte (lv_writes E) newline b1 k1 = (e2, b2, k2)" by (metis prod_cases3)
  note w1 = flowing_WriteByte [OF w s2(2)]
  note w2 = flowing_ok [OF w1(1) assms(1) s2(1,3)]
  have "\<not> 4096 < length (bw_buf b2)" using w2(2) by (simp add: buf_size_def)
  then have "process_entry E now e b l = l\<lparr>lo_sink := k2, lo_worker := Some b2\<rparr>"
    using s w s1(2) s2(1) w1(2) w2(1) by (simp add: process_entry_def)
  then show thesis using that [of b2] w2 s2(4) by simp
qed

lemma process_tick_ok:
  assumes "no_failures (lv_writes E)" and "bw_err b = None" and "length (bw_buf b) \<le> buf_size" and "\<not> sk_Discard (lo_sink l)"
  obtains b' where "lo_worker (process_tick E now b l) = Some b'" "bw_err b' = None" "length (bw_buf b') \<le> buf_size"
    "\<not> sk_Discard (lo_sink (process_tick E now b l))"
    "stream b' (lo_sink (process_tick E now b l)) = stream b (lo_sink l) @
       (if lg_Enabled (lo_config l) \<and> 0 < lo_dropped l then drop_warning E now (lo_dropped l) else '''')"
proof -
  obtain b1 where f: "lo_worker (log_flush E now ''periodic flush'' b l) = Some b1" "bw_err b1 = None" "bw_buf b1 = ''''"
      "\<not> sk_Discard (lo_sink (log_flush E now ''periodic flush'' b l))"
      "stream b1 (lo_sink (log_flush E now ''periodic flush'' b l)) = stream b (lo_sink l)"
    by (rule log_flush_ok [OF assms])
  obtain e2 b2 k2 where s: "bw_WriteString (lv_writes E) (drop_warning E now (lo_dropped l)) b1
      (lo_sink (log_flush E now ''periodic flush'' b l)) = (e2, b2, k2)"
    by (metis prod_cases3)
  have len: "length (bw_buf b1) \<le> buf_size" using f(3) by simp
  note s1 = flowing_ok [OF flowing_WriteString(1) [OF s len] assms(1) f(2,4)]
  show thesis
  proof (cases "lg_Enabled (lo_config l) \<and> 0 < lo_dropped l")
    case True
    then show thesis using that [of b2] s s1 f by (simp add: process_tick_def Let_def)
  next
    case False
    then have eq: "process_tick E now b l = (log_flush E now ''periodic flush'' b l)\<lparr>lo_dropped := 0\<rparr>"
      by (auto simp: process_tick_def Let_def)
    show thesis by (rule that [of b1], unfold if_not_P [OF False]) (use f in \<open>simp_all add: eq\<close>)
  qed
qed

lemma output_ok_offered:
  assumes "output_ok E l h"
  shows "output_ok E (logInternal E now lvl msg fs l) (offered now lvl msg fs l h)"
  using assms by (auto simp: output_ok_def logInternal_def offered_def Let_def split: option.splits)

lemma output_ok_step:
  assumes "no_failures (lv_writes E)" and "output_ok E l h" and "log_step E ev l = Some l'"
  shows "output_ok E l' (observe ev l h)"
proof (cases ev)
  case (L_log now lvl msg fs)
  then show ?thesis using assms output_ok_offered by auto
next
  case (L_update cfg)
  then show ?thesis using assms by (auto simp: output_ok_def updateConfig_def split: if_splits option.splits)
next
  case (L_take now)
  with assms(3) obtain b e es where w: "lo_worker l = Some b" "lo_entryChan l = e # es"
      "l' = process_entry E now e b (l\<lparr>lo_entryChan := es\<rparr>)"
    by (auto split: option.splits list.splits)
  have b: "bw_err b = None" "length (bw_buf b) \<le> buf_size" "\<not> sk_Discard (lo_sink (l\<lparr>lo_entryChan := es\<rparr>))"
    using assms(2) w(1) by (simp_all add: output_ok_def)
  obtain b' where "lo_worker l' = Some b'" "bw_err b' = None" "length (bw_buf b') \<le> buf_size"
      "\<not> sk_Discard (lo_sink l')" "stream b' (lo_sink l') = stream b (lo_sink l) @ formatEntry E e @ [newline]"
    using process_entry_ok [OF assms(1) b, of now e] unfolding w(3) by auto
  moreover have "lo_config l' = lo_config l" by (simp add: w(3))
  ultimately show ?thesis using assms(2) w(1,2) L_take by (auto simp: output_ok_def)
next
  case (L_tick now)
  with assms(3) obtain b where w: "lo_worker l = Some b" "l' = process_tick E now b l" by auto
  have b: "bw_err b = None" "length (bw_buf b) \<le> buf_size" "\<not> sk_Discard (lo_sink l)"
    using assms(2) w(1) by (simp_all add: output_ok_def)
  obtain b' where "lo_worker (process_tick E now b l) = Some b'" "bw_err b' = None" "length (bw_buf b') \<le> buf_size"
    "\<not> sk_Discard (lo_sink (process_tick E now b l))"
    "stream b' (lo_sink (process_tick E now b l)) = stream b (lo_sink l) @
       (if lg_Enabled (lo_config l) \<and> 0 < lo_dropped l then drop_warning E now (lo_dropped l) else '''')"
    by (rule process_tick_ok [OF assms(1) b])
  then show ?thesis using assms(2) w L_tick by (auto simp: output_ok_def Let_def)
next
  case (L_exit now)
  with assms(3) obtain b where w: "lo_worker l = Some b" "l' = process_exit E now b l" by (auto split: if_splits)
  have b: "bw_err b = None" "length (bw_buf b) \<le> buf_size" "\<not> sk_Discard (lo_sink l)"
    using assms(2) w(1) by (simp_all add: output_ok_def)
  obtain b' where "lo_worker (log_flush E now ''final flush'' b l) = Some b'" "bw_buf b' = ''''"
      "\<not> sk_Discard (lo_sink (log_flush E now ''final flush'' b l))"
      "stream b' (lo_sink (log_flush E now ''final flush'' b l)) = stream b (lo_sink l)"
    by (rule log_flush_ok [OF assms(1) b])
  then show ?thesis using assms(2) w L_exit by (auto simp: output_ok_def process_exit_def stream_def)
next
  case (L_stop now)
  have keep: "output_ok E (l\<lparr>lo_done := d\<rparr>) h' = output_ok E l h'" for d l h'
    by (simp add: output_ok_def split: option.split)
  show ?thesis
    using assms(3) output_ok_offered [OF assms(2)] L_stop by (auto simp: stop_begin_def Let_def keep split: if_splits)
next
  case (L_stopped now)
  have "file_write (lv_writes E) p k = (None, length p, k\<lparr>sk_Bytes := sk_Bytes k @ p, sk_Writes := Suc (sk_Writes k)\<rparr>)" for p k
    using assms(1) by (simp add: file_write_def no_failures_def)
  then show ?thesis using assms(2,3) L_stopped by (auto simp: output_ok_def stop_end_def split: if_splits)
qed

text \<open>C39: no line gets lost on the way out: if writing to standard output never fails and logging is
  asynchronous and enabled at start-up, then at any time the output followed by the buffer of the
  goroutine is exactly the lines in the order of its steps: every entry that it received, the warnings
  about dropped entries, and the last line of \<open>Stop\<close>; and once it has ended all of that is in the
  output.\<close>

theorem logger_output:
  assumes "no_failures (lv_writes E)" and "log_reach E cfg l h" and "lg_Async cfg" and "lg_Enabled cfg"
  shows "sk_Bytes (lo_sink l) @ (case lo_worker l of None \<Rightarrow> '''' | Some b \<Rightarrow> bw_buf b) =
    concat (map (render E) (lh_lines h))"
proof -
  have "output_ok E l h"
    using assms(2)
  proof induction
    case (lr_init now)
    have "output_ok E (blank_logger cfg) empty_history"
      using assms(3,4) by (simp add: output_ok_def blank_logger_def empty_history_def NewWriter_def stream_def)
    then show ?case unfolding new_logger_eq by (rule output_ok_offered)
  qed (rule output_ok_step [OF assms(1)])
  then show ?thesis by (simp add: output_ok_def stream_def split: option.splits)
qed

definition sample_log_env :: log_env where
  "sample_log_env =
     \<lparr>lv_time = (\<lambda>_. ''T''), lv_nano = (\<lambda>_. ''T''), lv_quote = (\<lambda>s. s), lv_ms = (\<lambda>_. ''1.00ms''), lv_range = en_Fields,
      lv_writes = (\<lambda>_. None)\<rparr>"

definition sample_logging :: logging_config where
  "sample_logging = \<lparr>lg_Enabled = True, lg_Level = ''info'', lg_Async = True, lg_BufferSize = 8\<rparr>"

text \<open>A run in which the goroutine sees that \<open>done\<close> is closed before it looks at the queue: \<open>select\<close>
  chooses among the ready branches at random, and nothing empties the queue afterwards. The entries
  in it, the message of \<open>Stop\<close> itself among them, are lost.\<close>

lemma level_info: "parseLevel ''info'' = LevelInfo"
  by code_simp

lemma lossy_run:
  "\<exists>l h. log_reach sample_log_env sample_logging l h \<and> lo_worker l = None \<and> length (lh_accepted h) = 2 \<and>
     received h = [] \<and> sk_Bytes (lo_sink l) = ''T [INFO] Logger stopped'' @ [newline]"
proof -
  note defs = blank_logger_def sample_logging_def logInternal_def shouldLog_def level_info level_defs Let_def
  let ?E = sample_log_env and ?c = sample_logging
  let ?l0 = "new_logger ?E 0 ?c"
  let ?h0 = "offered 0 LevelInfo ''Logger initialized'' (init_fields ?c) (blank_logger ?c) empty_history"
  have r0: "log_reach ?E ?c ?l0 ?h0" by (rule lr_init)
  let ?e1 = "\<lparr>en_Time = 0, en_Level = LevelInfo, en_Message = ''Logger initialized'', en_Fields = init_fields ?c\<rparr>"
  let ?e2 = "\<lparr>en_Time = 1, en_Level = LevelInfo, en_Message = ''Logger shutting down'', en_Fields = []\<rparr>"
  have l0: "?l0 = blank_logger ?c\<lparr>lo_entryChan := [?e1]\<rparr>"
    unfolding new_logger_eq by (simp add: defs)
  have h0: "?h0 = empty_history\<lparr>lh_accepted := [?e1]\<rparr>"
    by (simp add: offered_def defs empty_history_def)
  let ?l1 = "blank_logger ?c\<lparr>lo_entryChan := [?e1, ?e2], lo_done := True\<rparr>"
  have s1: "log_step ?E (L_stop 1) ?l0 = Some ?l1"
    unfolding l0 by (simp add: stop_begin_def defs)
  have h1: "observe (L_stop 1) ?l0 ?h0 = empty_history\<lparr>lh_accepted := [?e1, ?e2]\<rparr>"
    unfolding h0 unfolding l0 by (simp add: offered_def defs empty_history_def)
  note r1 = lr_step [OF r0 s1, unfolded h1]
  have s2: "log_step ?E (L_exit 1) ?l1 = Some (?l1\<lparr>lo_worker := None\<rparr>)"
    by (simp add: process_exit_def log_flush_def bw_Flush_def NewWriter_def reportWriterError_def blank_logger_def
        sample_logging_def)
  note r2 = lr_step [OF r1 s2]
  let ?k = "\<lparr>sk_Discard = False, sk_Bytes = ''T [INFO] Logger stopped'' @ [newline], sk_Writes = 1\<rparr>"
  have s3: "log_step ?E (L_stopped 2) (?l1\<lparr>lo_worker := None\<rparr>) = Some (?l1\<lparr>lo_worker := None, lo_sink := ?k\<rparr>)"
    by (simp add: stop_end_def file_write_def sample_log_env_def reportWriterError_def blank_logger_def sample_logging_def)
  note r3 = lr_step [OF r2 s3]
  show ?thesis
    by (intro exI conjI, rule r3) (simp_all add: received_def empty_history_def)
qed

theorem logger_output_witness:
  "\<exists>l h. log_reach sample_log_env sample_logging l h \<and> lo_worker l = None \<and>
     sk_Bytes (lo_sink l) = concat (map (render sample_log_env) (lh_lines h)) \<and> lh_lines h \<noteq> []"
proof -
  obtain l h where r: "log_reach sample_log_env sample_logging l h" "lo_worker l = None"
      "sk_Bytes (lo_sink l) = ''T [INFO] Logger stopped'' @ [newline]"
    using lossy_run by blast
  have "no_failures (lv_writes sample_log_env)" by (simp add: no_failures_def sample_log_env_def)
  from logger_output [OF this r(1)] have "sk_Bytes (lo_sink l) = concat (map (render sample_log_env) (lh_lines h))"
    by (simp add: sample_logging_def r(2))
  moreover from this r(3) have "lh_lines h \<noteq> []" by auto
  ultimately show ?thesis using r by blast
qed

theorem logger_conserves_witness:
  "\<exists>l h. log_reach sample_log_env sample_logging l h \<and> lo_worker l = None \<and> length (lo_entryChan l) \<le> 8"
proof -
  obtain l h where r: "log_reach sample_log_env sample_logging l h" "lo_worker l = None"
    using lossy_run by blast
  from logger_conserves [OF r(1)] have "length (lo_entryChan l) \<le> 8" by (simp add: sample_logging_def)
  with r show ?thesis by blast
qed

theorem stop_loses_entries:
  "\<exists>l h. log_reach sample_log_env sample_logging l h \<and> lo_worker l = None \<and> length (lh_accepted h) = 2 \<and> received h = []"
  using lossy_run by blast

text \<open>After a failed write the buffered writer keeps its error: the goroutine goes on to take entries,
  but there is no output from then on, also if writing would work again.\<close>

theorem failed_writer_is_silent:
  assumes "lo_worker l = Some b" and "bw_err b = Some e" and "length (bw_buf b) \<le> buf_size"
  shows "lo_sink (process_entry E now entry b l) = lo_sink l" "lo_worker (process_entry E now entry b l) = Some b"
    "lo_sink (process_tick E now b l) = lo_sink l" "lo_worker (process_tick E now b l) = Some b"
    "lo_sink (process_exit E now b l) = lo_sink l"
proof -
  have w: "bw_WriteString W s b k = (Some e, b, k)" for W s k
    using assms(2) by (simp add: bw_WriteString_def write_loop.simps)
  have f: "bw_Flush W b k = (Some e, b, k)" for W k
    using assms(2) by (simp add: bw_Flush_def)
  show "lo_sink (process_entry E now entry b l) = lo_sink l" "lo_worker (process_entry E now entry b l) = Some b"
    "lo_sink (process_tick E now b l) = lo_sink l" "lo_worker (process_tick E now b l) = Some b"
    "lo_sink (process_exit E now b l) = lo_sink l"
    by (simp_all add: process_entry_def process_tick_def process_exit_def log_flush_def w f Let_def)
qed

text \<open>With an asynchronous configuration that comes after the start-up there is no goroutine for the
  queue: what is logged from then on is never written.\<close>

theorem late_async_is_silent:
  assumes "lo_worker l = None" and "lg_Async (lo_config l)"
  shows "log_step E (L_log now lvl msg fs) l = Some l' \<Longrightarrow> lo_sink l' = lo_sink l \<and> lo_worker l' = None"
    "log_step E (L_take now) l = None" "log_step E (L_tick now) l = None"
  using assms by (auto simp: logInternal_def Let_def)

text \<open>A server error is never filtered: whatever level is configured, a request with a status from 500 on
  is queued, counted as dropped or written as long as logging is enabled.\<close>

theorem server_errors_logged:
  assumes "lo_level l = parseLevel (lg_Level (lo_config l))" and "500 \<le> sint status" and "lg_Enabled (lo_config l)"
  shows "shouldLog (request_level status) l"
  using assms by (auto simp: shouldLog_def request_level_def parseLevel_def level_defs Let_def)

end
