(* ===== verification/FloatError.thy ===== *)
theory FloatError
  imports Float64
begin

text \<open>
  How far a rounded value is from the exact one: half a unit in the last place, a fraction
  \<open>2 ^ -53\<close> of a value that is not subnormal, and \<open>2 ^ -53\<close> of any bound of the value that is at
  least one. Used where the code accumulates floating point numbers.
\<close>

lemma round_even_half: "of_int (round_even x) \<le> x + 1 / 2" "x - 1 / 2 \<le> of_int (round_even x)"
proof -
  have f: "of_int \<lfloor>x\<rfloor> \<le> x" "x < of_int \<lfloor>x\<rfloor> + 1" by linarith+
  show "of_int (round_even x) \<le> x + 1 / 2" "x - 1 / 2 \<le> of_int (round_even x)"
    using f unfolding round_even_def Let_def by (simp_all only: split: if_splits) (simp_all, linarith+)
qed

lemma round64_half_ulp: "round64 x \<le> x + ulp x / 2" "x - ulp x / 2 \<le> round64 x"
proof -
  have u: "0 < ulp x" by simp
  then have "x / ulp x * ulp x = x" by (metis less_irrefl nonzero_eq_divide_eq)
  moreover have "of_int (round_even (x / ulp x)) * ulp x \<le> (x / ulp x + 1 / 2) * ulp x"
    by (intro mult_right_mono round_even_half(1) less_imp_le [OF u])
  moreover have "(x / ulp x - 1 / 2) * ulp x \<le> of_int (round_even (x / ulp x)) * ulp x"
    by (intro mult_right_mono round_even_half(2) less_imp_le [OF u])
  ultimately show "round64 x \<le> x + ulp x / 2" "x - ulp x / 2 \<le> round64 x"
    unfolding round64_def by (simp_all add: algebra_simps)
qed

lemma pow2_minus: "pow2 (k - 52) = pow2 k / 2 ^ 52"
  using pow2_add [of "k - 52" 52] by (simp add: pow2_def [of 52] field_simps)

lemma exponent_normal: "pow2 (- 1022) \<le> x \<Longrightarrow> - 1022 \<le> exponent x"
proof (rule ccontr)
  assume x: "pow2 (- 1022) \<le> x" and n: "\<not> - 1022 \<le> exponent x"
  have "0 < x" using x pow2_pos [of "- 1022"] by linarith
  moreover have "pow2 (exponent x + 1) \<le> pow2 (- 1022)" using n by (intro pow2_mono) linarith
  ultimately show False using exponent_bounds(2) [of x] x by linarith
qed

lemma ulp_normal: "pow2 (- 1022) \<le> x \<Longrightarrow> ulp x \<le> x / 2 ^ 52"
proof -
  assume x: "pow2 (- 1022) \<le> x"
  then have p: "0 < x" using pow2_pos [of "- 1022"] by linarith
  then have "ulp x = pow2 (exponent x) / 2 ^ 52"
    using exponent_normal [OF x] by (simp add: ulp_def max_def pow2_minus)
  then show ?thesis using exponent_bounds(1) [OF p] by (simp add: divide_right_mono)
qed

lemma round64_relative:
  "pow2 (- 1022) \<le> x \<Longrightarrow> round64 x \<le> x * (1 + 1 / 2 ^ 53)"
  using round64_half_ulp(1) [of x] ulp_normal [of x] by (simp add: field_simps)

lemma ulp_mono: "0 < x \<Longrightarrow> x \<le> y \<Longrightarrow> ulp x \<le> ulp y"
  using exponent_mono [of x y] by (auto simp: ulp_def intro!: pow2_mono)

lemma pow2_small: "k \<le> 0 \<Longrightarrow> pow2 k \<le> 1"
  using pow2_mono [of k 0] by simp

lemma round64_absolute:
  assumes "0 \<le> x" and "x \<le> c" and "1 \<le> c"
  shows "round64 x \<le> x + c / 2 ^ 53" and "x - c / 2 ^ 53 \<le> round64 x"
proof -
  have "ulp x \<le> c / 2 ^ 52" if "0 < x"
    using ulp_mono [OF that assms(2)] ulp_normal [of c] assms(3) pow2_small [of "- 1022"] by linarith
  then have "x = 0 \<or> ulp x / 2 \<le> c / 2 ^ 53" using assms(1) by (cases "x = 0") auto
  then show "round64 x \<le> x + c / 2 ^ 53" "x - c / 2 ^ 53 \<le> round64 x"
    using round64_half_ulp [of x] assms by auto
qed

lemma exponent_pow2: "exponent (pow2 k) = k"
  using exponent_unique [of k "pow2 k"] pow2_less [of k "k + 1"] by simp

lemma round64_pow2: "- 1022 \<le> k \<Longrightarrow> round64 (pow2 k) = pow2 k"
proof (rule round64_exact [of _ "2 ^ 52"])
  assume "- 1022 \<le> k"
  then have "ulp (pow2 k) = pow2 (k - 52)"
    by (simp add: ulp_def exponent_pow2 max_def abs_of_pos [OF pow2_pos])
  then show "pow2 k = of_int (2 ^ 52) * ulp (pow2 k)" by (simp add: pow2_minus)
qed

text \<open>A nonnegative result below a power of two is finite.\<close>

lemma mk64_nonneg:
  assumes "0 \<le> x" and "x \<le> 2 ^ 1000"
  shows "mk64 x = Fin (round64 x)" and "0 \<le> round64 x"
proof -
  have p: "(2 :: rat) ^ 1000 = pow2 1000" by (simp add: pow2_def)
  have "round64 x \<le> round64 (pow2 1000)" using assms(2) unfolding p by (rule round64_mono)
  also have "\<dots> = pow2 1000" by (rule round64_pow2) simp
  also have "\<dots> < pow2 1024" by (rule pow2_less) simp
  finally show "mk64 x = Fin (round64 x)"
    using round64_nonneg [OF assms(1)] pow2_pos [of 1024] by (intro mk64_Fin) simp
  show "0 \<le> round64 x" by (rule round64_nonneg [OF assms(1)])
qed

end
