(* ===== verification/RateLimit.thy ===== *)
theory RateLimit
  imports FloatError BackendStatus "HOL-Library.Signed_Division"
begin

text \<open>
  \<open>internal/ratelimit/ratelimit.go\<close>: a token bucket for each client, refilled lazily, and the
  cleanup that discards idle buckets. Tokens are IEEE doubles. A run is a list of the calls of
  \<open>Allow\<close> and the ticks of the cleanup, with the clock readings they make. Each operation on a
  bucket runs under the locks of the limiter and of the bucket and is one step. Main facts: how
  many requests a client gets through at most, and at least; a client is decided on by its own
  requests alone; when the cleanup changes no decision, and that it does otherwise.
\<close>

section \<open>Time\<close>

text \<open>\<open>Time.Sub\<close> saturates, \<open>Duration.Seconds\<close> divides with truncation.\<close>

definition time_Sub :: "go_time \<Rightarrow> go_time \<Rightarrow> int" where
  "time_Sub t u = max (- (2 ^ 63)) (min (2 ^ 63 - 1) (t - u))"

definition duration_Seconds :: "int \<Rightarrow> f64" where
  "duration_Seconds d =
     f64_add (f64_of_int (d sdiv 1000000000))
       (f64_div (f64_of_int (d smod 1000000000)) (Fin 1000000000))"

section \<open>The limiter\<close>

record token_bucket =
  tb_tokens :: f64
  tb_capacity :: f64
  tb_rate :: f64
  tb_lastCheck :: go_time

record rate_limiter =
  lim_limits :: "string \<rightharpoonup> token_bucket"
  lim_defaultRate :: f64
  lim_defaultCapacity :: f64
  lim_cleanupInterval :: int64
  lim_stopped :: bool

definition minute :: int64 where
  "minute = 60000000000"

text \<open>The loop that the constructor starts is \<open>cleanup_tick\<close>, once per tick until \<open>lim_stopped\<close>.\<close>

definition NewRateLimiter :: "f64 \<Rightarrow> f64 \<Rightarrow> int64 \<Rightarrow> rate_limiter" where
  "NewRateLimiter defaultRate defaultCapacity cleanupInterval =
     \<lparr>lim_limits = Map.empty, lim_defaultRate = defaultRate, lim_defaultCapacity = defaultCapacity,
      lim_cleanupInterval = (if sint cleanupInterval \<le> 0 then minute else cleanupInterval),
      lim_stopped = False\<rparr>"

definition limiter_Stop :: "rate_limiter \<Rightarrow> rate_limiter" where
  "limiter_Stop l = l\<lparr>lim_stopped := True\<rparr>"

definition idleTTL :: int where
  "idleTTL = 10 * 60 * 1000000000"

definition cleanup_tick :: "go_time \<Rightarrow> rate_limiter \<Rightarrow> rate_limiter" where
  "cleanup_tick now l =
     l\<lparr>lim_limits :=
         (\<lambda>key. case lim_limits l key of
                  None \<Rightarrow> None
                | Some b \<Rightarrow> if time_Sub now (tb_lastCheck b) > idleTTL then None else Some b)\<rparr>"

definition new_bucket :: "rate_limiter \<Rightarrow> go_time \<Rightarrow> token_bucket" where
  "new_bucket l now =
     \<lparr>tb_tokens = lim_defaultCapacity l, tb_capacity = lim_defaultCapacity l,
      tb_rate = lim_defaultRate l, tb_lastCheck = now\<rparr>"

definition getBucket :: "go_time \<Rightarrow> string \<Rightarrow> rate_limiter \<Rightarrow> token_bucket \<times> rate_limiter" where
  "getBucket now ip l =
     (case lim_limits l ip of
        Some b \<Rightarrow> (b, l)
      | None \<Rightarrow>
          (let b = new_bucket l now in (b, l\<lparr>lim_limits := (lim_limits l)(ip \<mapsto> b)\<rparr>)))"

text \<open>What \<open>Allow\<close> does with the bucket: refill it, then take a token if there is one.\<close>

definition bucket_refill :: "go_time \<Rightarrow> token_bucket \<Rightarrow> token_bucket" where
  "bucket_refill now b =
     (let elapsed = duration_Seconds (time_Sub now (tb_lastCheck b));
          t = f64_add (tb_tokens b) (f64_mul elapsed (tb_rate b))
      in b\<lparr>tb_lastCheck := now,
           tb_tokens := (if f64_less (tb_capacity b) t then tb_capacity b else t)\<rparr>)"

definition bucket_take :: "go_time \<Rightarrow> token_bucket \<Rightarrow> bool \<times> token_bucket" where
  "bucket_take now b =
     (let b' = bucket_refill now b
      in if f64_le (Fin 1) (tb_tokens b')
         then (True, b'\<lparr>tb_tokens := f64_sub (tb_tokens b') (Fin 1)\<rparr>)
         else (False, b'))"

text \<open>\<open>t0\<close> is the clock when a bucket is created, \<open>now\<close> the clock under the lock of the bucket.\<close>

definition Allow :: "go_time \<Rightarrow> go_time \<Rightarrow> string \<Rightarrow> rate_limiter \<Rightarrow> bool \<times> rate_limiter" where
  "Allow t0 now ip l =
     (let (b, l') = getBucket t0 ip l;
          (ok, b') = bucket_take now b
      in (ok, l'\<lparr>lim_limits := (lim_limits l')(ip \<mapsto> b')\<rparr>))"

definition SetLimit :: "go_time \<Rightarrow> string \<Rightarrow> f64 \<Rightarrow> f64 \<Rightarrow> rate_limiter \<Rightarrow> rate_limiter" where
  "SetLimit now ip rate capacity l =
     l\<lparr>lim_limits := (lim_limits l)
         (ip \<mapsto> \<lparr>tb_tokens = capacity, tb_capacity = capacity, tb_rate = rate, tb_lastCheck = now\<rparr>)\<rparr>"

section \<open>Runs\<close>

datatype lim_op =
    Lim_Allow string go_time go_time
  | Lim_Tick go_time

fun lim_run :: "lim_op list \<Rightarrow> rate_limiter \<Rightarrow> (string \<times> bool) list" where
  "lim_run [] l = []"
| "lim_run (Lim_Allow ip t0 now # ops) l =
     (let (ok, l') = Allow t0 now ip l in (ip, ok) # lim_run ops l')"
| "lim_run (Lim_Tick now # ops) l = lim_run ops (cleanup_tick now l)"

fun readings :: "lim_op \<Rightarrow> go_time list" where
  "readings (Lim_Allow ip t0 now) = [t0, now]"
| "readings (Lim_Tick now) = [now]"

definition clock_of :: "lim_op list \<Rightarrow> go_time list" where
  "clock_of ops = concat (map readings ops)"

text \<open>The decisions on one client, its requests, and the reference: one bucket that is never
  discarded.\<close>

definition decisions :: "string \<Rightarrow> (string \<times> bool) list \<Rightarrow> bool list" where
  "decisions ip ds = map snd (filter (\<lambda>d. fst d = ip) ds)"

fun requests_of :: "string \<Rightarrow> lim_op list \<Rightarrow> (go_time \<times> go_time) list" where
  "requests_of ip [] = []"
| "requests_of ip (Lim_Allow ip' t0 now # ops) =
     (if ip' = ip then (t0, now) # requests_of ip ops else requests_of ip ops)"
| "requests_of ip (Lim_Tick now # ops) = requests_of ip ops"

fun bucket_run :: "go_time list \<Rightarrow> token_bucket \<Rightarrow> bool list" where
  "bucket_run [] b = []"
| "bucket_run (now # ts) b = (let (ok, b') = bucket_take now b in ok # bucket_run ts b')"

definition reference_run :: "rate_limiter \<Rightarrow> (go_time \<times> go_time) list \<Rightarrow> bool list" where
  "reference_run l rs =
     (case rs of [] \<Rightarrow> [] | (t0, _) # _ \<Rightarrow> bucket_run (map snd rs) (new_bucket l t0))"

section \<open>Refilling in rational numbers\<close>

text \<open>A bucket of whole capacity \<open>C\<close> and rate \<open>R\<close>, as the settings of the source make them.\<close>

definition bucket_ok :: "int \<Rightarrow> int \<Rightarrow> token_bucket \<Rightarrow> bool" where
  "bucket_ok C R b \<longleftrightarrow>
     tb_capacity b = Fin (of_int C) \<and> tb_rate b = Fin (of_int R) \<and>
     1 \<le> C \<and> C \<le> 2 ^ 31 \<and> 0 \<le> R \<and> R \<le> 2 ^ 31 \<and>
     (\<exists>t. tb_tokens b = Fin t \<and> 0 \<le> t \<and> t \<le> of_int C)"

definition level :: "token_bucket \<Rightarrow> rat" where
  "level b = (case tb_tokens b of Fin t \<Rightarrow> t | _ \<Rightarrow> 0)"

text \<open>Zero or not subnormal.\<close>

definition normal0 :: "rat \<Rightarrow> bool" where
  "normal0 x \<longleftrightarrow> x = 0 \<or> pow2 (- 1022) \<le> x"

lemma normal0_nonneg: "normal0 x \<Longrightarrow> 0 \<le> x"
  using pow2_pos [of "- 1022"] unfolding normal0_def by linarith

lemma normal0_round:
  assumes "normal0 x"
  shows "normal0 (round64 x)" and "0 \<le> round64 x" and "round64 x \<le> x * (1 + 1 / 2 ^ 53)"
proof -
  show n: "normal0 (round64 x)"
    using assms round64_mono [of "pow2 (- 1022)" x] round64_pow2 [of "- 1022"]
    by (auto simp: normal0_def)
  show "0 \<le> round64 x" using n by (rule normal0_nonneg)
  show "round64 x \<le> x * (1 + 1 / 2 ^ 53)"
    using assms round64_relative [of x] by (auto simp: normal0_def)
qed

lemma normal0_add: "normal0 x \<Longrightarrow> normal0 y \<Longrightarrow> normal0 (x + y)"
  using normal0_nonneg [of x] normal0_nonneg [of y] by (auto simp: normal0_def)

lemma normal0_int: "0 \<le> i \<Longrightarrow> normal0 (of_int i)"
  using pow2_small [of "- 1022"] by (cases "i = 0") (auto simp: normal0_def)

lemma normal0_mult_int:
  assumes "normal0 x" and "0 \<le> i"
  shows "normal0 (x * of_int i)"
proof (cases "i = 0 \<or> x = 0")
  case False
  then have "pow2 (- 1022) \<le> x" "(1 :: rat) \<le> of_int i" using assms by (auto simp: normal0_def)
  then have "pow2 (- 1022) * 1 \<le> x * of_int i"
    using normal0_nonneg [OF assms(1)] by (intro mult_mono) auto
  then show ?thesis by (simp add: normal0_def)
qed (auto simp: normal0_def)

text \<open>A duration in seconds, and the tokens it brings, as the code computes them.\<close>

definition secs :: "int \<Rightarrow> rat" where
  "secs d = round64 (of_int (d div 1000000000) + round64 (of_int (d mod 1000000000) / 1000000000))"

definition gain :: "int \<Rightarrow> int \<Rightarrow> rat" where
  "gain R d = round64 (secs d * of_int R)"

lemma nanos_normal: "0 \<le> r \<Longrightarrow> normal0 (of_int r / 1000000000)"
proof (cases "r = 0")
  case False
  assume "0 \<le> r"
  with False have "(1 :: rat) \<le> of_int r" by simp
  moreover have "pow2 (- 1022) \<le> pow2 (- 30)" by (rule pow2_mono) simp
  moreover have "pow2 (- 30) \<le> 1 / 1000000000" by (simp add: pow2_def)
  ultimately have "pow2 (- 1022) \<le> of_int r / 1000000000" by linarith
  then show ?thesis by (simp add: normal0_def)
qed (simp add: normal0_def)

lemma secs_bounds:
  assumes "0 \<le> d"
  shows "normal0 (secs d)" and "secs d \<le> of_int d / 1000000000 * (1 + 1 / 2 ^ 53) ^ 2"
    and "k * 1000000000 \<le> d \<Longrightarrow> 0 \<le> k \<Longrightarrow> k \<le> 2 ^ 53 \<Longrightarrow> of_int k \<le> secs d"
proof -
  let ?q = "of_int (d div 1000000000) :: rat" and ?f = "of_int (d mod 1000000000) / 1000000000 :: rat"
  have q: "normal0 ?q" using assms by (intro normal0_int) (simp add: pos_imp_zdiv_nonneg_iff)
  have f: "normal0 ?f" by (intro nanos_normal) simp
  note rf = normal0_round [OF f]
  note s = normal0_round [OF normal0_add [OF q rf(1)]]
  show "normal0 (secs d)" unfolding secs_def by (rule s(1))
  have split: "of_int d / 1000000000 = ?q + ?f"
  proof -
    have "(of_int d :: rat) = of_int (d div 1000000000) * 1000000000 + of_int (d mod 1000000000)"
      by (metis div_mult_mod_eq of_int_add of_int_mult of_int_numeral)
    then show ?thesis by (simp add: add_divide_distrib)
  qed
  have "?q + round64 ?f \<le> (?q + ?f) * (1 + 1 / 2 ^ 53)"
    using rf(3) normal0_nonneg [OF q] by (simp add: field_simps)
  then have "(?q + round64 ?f) * (1 + 1 / 2 ^ 53) \<le> (?q + ?f) * (1 + 1 / 2 ^ 53) * (1 + 1 / 2 ^ 53)"
    by (rule mult_right_mono) simp
  then show "secs d \<le> of_int d / 1000000000 * (1 + 1 / 2 ^ 53) ^ 2"
    using s(3) unfolding secs_def split by (simp add: power2_eq_square mult.assoc)
  assume k: "k * 1000000000 \<le> d" "0 \<le> k" "k \<le> 2 ^ 53"
  then have "k \<le> d div 1000000000" by linarith
  then have "of_int k \<le> ?q + round64 ?f" using rf(2) by (simp add: add_increasing2)
  from round64_mono [OF this] show "of_int k \<le> secs d"
    unfolding secs_def using round64_int [of k] k by simp
qed

lemma gain_bounds:
  assumes "0 \<le> d" and "0 \<le> R" and "R \<le> 2 ^ 31"
  shows "0 \<le> gain R d" and "gain R d \<le> of_int R * (of_int d / 1000000000) * (1 + 1 / 2 ^ 51)"
    and "k * 1000000000 \<le> d \<Longrightarrow> 0 \<le> k \<Longrightarrow> k \<le> 2 ^ 20 \<Longrightarrow> of_int (k * R) \<le> gain R d"
proof -
  note sb = secs_bounds [OF assms(1)]
  note g = normal0_round [OF normal0_mult_int [OF sb(1) assms(2)]]
  show "0 \<le> gain R d" unfolding gain_def by (rule g(2))
  let ?e = "of_int d / 1000000000 :: rat"
  have "secs d * of_int R * (1 + 1 / 2 ^ 53) \<le> ?e * (1 + 1 / 2 ^ 53) ^ 2 * of_int R * (1 + 1 / 2 ^ 53)"
    using sb(2) assms(2) by (intro mult_right_mono) auto
  also have "\<dots> = (of_int R * ?e) * (1 + 1 / 2 ^ 53) ^ 3"
    by (simp add: power2_eq_square power3_eq_cube mult_ac)
  also have "\<dots> \<le> (of_int R * ?e) * (1 + 1 / 2 ^ 51)"
    using assms by (intro mult_left_mono) (simp_all add: power3_eq_cube)
  finally show "gain R d \<le> of_int R * ?e * (1 + 1 / 2 ^ 51)"
    using g(3) unfolding gain_def by linarith
  assume k: "k * 1000000000 \<le> d" "0 \<le> k" "k \<le> 2 ^ 20"
  then have "of_int k \<le> secs d" by (intro sb(3)) auto
  then have "of_int (k * R) \<le> secs d * of_int R"
    using assms(2) by (simp add: mult_right_mono)
  from round64_mono [OF this] show "of_int (k * R) \<le> gain R d"
    unfolding gain_def
    using round64_int [of "k * R"] k assms mult_mono [of k "2 ^ 20" R "2 ^ 31"] by simp
qed

lemma duration_Seconds_fin:
  assumes "0 \<le> d" and "d < 2 ^ 63"
  shows "duration_Seconds d = Fin (secs d)"
proof -
  let ?q = "d div 1000000000" and ?r = "d mod 1000000000"
  have q: "0 \<le> ?q" "?q \<le> 2 ^ 34" and r: "0 \<le> ?r" "?r < 1000000000"
    using assms by (auto simp: pos_imp_zdiv_nonneg_iff)
  have div: "d sdiv 1000000000 = ?q" "d smod 1000000000 = ?r"
    using assms by (simp_all add: signed_divide_int_def signed_modulo_int_def sgn_if minus_div_mult_eq_mod)
  have f: "(0 :: rat) \<le> of_int ?r / 1000000000" "(of_int ?r :: rat) / 1000000000 \<le> 1"
    using r by simp_all
  have rr: "f64_div (Fin (of_int ?r)) (Fin 1000000000) = Fin (round64 (of_int ?r / 1000000000))"
    using mk64_nonneg(1) [OF f(1)] f(2) by (simp add: order.trans [OF f(2)])
  have b: "0 \<le> round64 (of_int ?r / 1000000000)" "round64 (of_int ?r / 1000000000) \<le> 1"
    using round64_nonneg [OF f(1)] round64_mono [OF f(2)] round64_int [of 1] by simp_all
  have "0 \<le> of_int ?q + round64 (of_int ?r / 1000000000)" using q(1) b(1) by simp
  moreover have "of_int ?q + round64 (of_int ?r / 1000000000) \<le> 2 ^ 1000"
  proof -
    have "(of_int ?q :: rat) \<le> of_int (2 ^ 34)" using q(2) by (simp only: of_int_le_iff)
    then show ?thesis using b(2) by simp
  qed
  ultimately have m: "mk64 (of_int ?q + round64 (of_int ?r / 1000000000)) = Fin (secs d)"
    unfolding secs_def by (rule mk64_nonneg(1))
  have "f64_of_int ?q = Fin (of_int ?q)" "f64_of_int ?r = Fin (of_int ?r)"
    using q r by (intro f64_of_int_exact; simp)+
  then show ?thesis unfolding duration_Seconds_def div by (simp only: rr f64_add.simps m)
qed

text \<open>What a refill and a take do to a bucket.\<close>

lemma bucket_okD:
  assumes "bucket_ok C R b"
  shows "tb_tokens b = Fin (level b)" "0 \<le> level b" "level b \<le> of_int C" "1 \<le> C" "C \<le> 2 ^ 31"
    "0 \<le> R" "R \<le> 2 ^ 31" "tb_capacity b = Fin (of_int C)" "tb_rate b = Fin (of_int R)"
  using assms by (auto simp: bucket_ok_def level_def)

definition passed :: "go_time \<Rightarrow> token_bucket \<Rightarrow> int" where
  "passed now b = time_Sub now (tb_lastCheck b)"

lemma passed_bounds:
  "tb_lastCheck b \<le> now \<Longrightarrow> 0 \<le> passed now b \<and> passed now b < 2 ^ 63 \<and> passed now b \<le> now - tb_lastCheck b"
  by (auto simp: passed_def time_Sub_def)

lemma refill_level:
  assumes "bucket_ok C R b" and "tb_lastCheck b \<le> now"
  shows "bucket_refill now b =
     b\<lparr>tb_lastCheck := now,
       tb_tokens := Fin (min (of_int C) (round64 (level b + gain R (passed now b))))\<rparr>"
proof -
  note b = bucket_okD [OF assms(1)]
  note p = passed_bounds [OF assms(2)]
  note g = gain_bounds [of "passed now b" R]
  have "of_int (passed now b) \<le> (2 :: rat) ^ 63"
    using p by (metis of_int_le_iff of_int_numeral of_int_power less_imp_le)
  then have "of_int (passed now b) / 1000000000 \<le> (2 :: rat) ^ 63" by simp
  moreover have r: "(of_int R :: rat) \<le> 2 ^ 31" "(0 :: rat) \<le> of_int R"
    using b(6,7) by (metis of_int_le_iff of_int_numeral of_int_power, simp)
  ultimately have "of_int R * (of_int (passed now b) / 1000000000) \<le> (2 :: rat) ^ 31 * 2 ^ 63"
    using p by (intro mult_mono) auto
  then have "of_int R * (of_int (passed now b) / 1000000000) * (1 + 1 / 2 ^ 51) \<le> ((2 :: rat) ^ 31 * 2 ^ 63) * 2"
    using r p by (intro mult_mono) auto
  then have gt: "gain R (passed now b) \<le> 2 ^ 95"
    using g(2) p b(6,7) by simp
  have s: "normal0 (secs (passed now b))" using secs_bounds(1) p by blast
  have sr: "0 \<le> secs (passed now b) * of_int R"
    using normal0_nonneg [OF s] r by simp
  have "secs (passed now b) \<le> of_int (passed now b) / 1000000000 * (1 + 1 / 2 ^ 53) ^ 2"
    using secs_bounds(2) p by blast
  also have "\<dots> \<le> 2 ^ 63 * 2"
    using \<open>of_int (passed now b) / 1000000000 \<le> 2 ^ 63\<close> p by (intro mult_mono) (auto simp: power2_eq_square)
  finally have "secs (passed now b) * of_int R \<le> (2 ^ 63 * 2) * 2 ^ 31"
    using r normal0_nonneg [OF s] by (intro mult_mono) auto
  then have "secs (passed now b) * of_int R \<le> 2 ^ 1000" by simp
  from mk64_nonneg(1) [OF sr this]
  have mul: "f64_mul (duration_Seconds (passed now b)) (tb_rate b) = Fin (gain R (passed now b))"
    using p by (simp add: duration_Seconds_fin b gain_def)
  have "0 \<le> level b + gain R (passed now b)" using b(2) g(1) p b(6,7) by simp
  moreover have "level b \<le> 2 ^ 31"
    using b(3,5) by (metis of_int_le_iff of_int_numeral of_int_power order.trans)
  then have "level b + gain R (passed now b) \<le> 2 ^ 1000" using gt by simp
  ultimately have add: "f64_add (tb_tokens b) (Fin (gain R (passed now b))) =
      Fin (round64 (level b + gain R (passed now b)))"
    using mk64_nonneg(1) by (simp add: b(1))
  show ?thesis
    unfolding bucket_refill_def Let_def passed_def [symmetric] mul add
    by (simp add: b(8) min_def)
qed

lemma take_level:
  assumes "bucket_ok C R b" and "tb_lastCheck b \<le> now"
  defines "t \<equiv> min (of_int C) (round64 (level b + gain R (passed now b)))"
  shows "bucket_take now b =
     (1 \<le> t, b\<lparr>tb_lastCheck := now, tb_tokens := Fin (if 1 \<le> t then round64 (t - 1) else t)\<rparr>)"
proof -
  note b = bucket_okD [OF assms(1)]
  have "t \<le> of_int C" by (simp add: t_def)
  also have "\<dots> \<le> of_int (2 ^ 31)" using b(5) by (simp only: of_int_le_iff)
  finally have "1 \<le> t \<Longrightarrow> mk64 (t - 1) = Fin (round64 (t - 1))" by (intro mk64_small) simp
  then show ?thesis
    unfolding bucket_take_def refill_level [OF assms(1,2)] t_def [symmetric]
    by (auto simp: f64_le_def f64_sub_def Let_def)
qed

lemma take_ok:
  assumes "bucket_ok C R b" and "tb_lastCheck b \<le> now" and "bucket_take now b = (ok, b')"
  shows "bucket_ok C R b'" and "tb_lastCheck b' = now"
proof -
  let ?t = "min (of_int C) (round64 (level b + gain R (passed now b)))"
  note b = bucket_okD [OF assms(1)]
  have "0 \<le> level b + gain R (passed now b)"
    using b passed_bounds [OF assms(2)] gain_bounds(1) by (simp add: add_nonneg_nonneg)
  then have t: "0 \<le> ?t" "?t \<le> of_int C" using round64_nonneg b(4) by auto
  have "round64 (?t - 1) \<le> of_int C" if "1 \<le> ?t"
    using round64_mono [of "?t - 1" "of_int C"] t(2) round64_int [of C] b(4,5) by simp
  moreover have "0 \<le> round64 (?t - 1)" if "1 \<le> ?t" using round64_nonneg that by simp
  moreover have "b' = b\<lparr>tb_lastCheck := now, tb_tokens := Fin (if 1 \<le> ?t then round64 (?t - 1) else ?t)\<rparr>"
    using assms(3) unfolding take_level [OF assms(1,2)] prod.inject by blast
  ultimately show "bucket_ok C R b'" "tb_lastCheck b' = now"
    using assms(1) t unfolding bucket_ok_def by auto
qed

section \<open>How much a bucket lets through\<close>

definition admitted :: "bool list \<Rightarrow> nat" where
  "admitted ds = length (filter (\<lambda>d. d) ds)"

lemma admitted_simps [simp]: "admitted [] = 0" "admitted (d # ds) = of_bool d + admitted ds"
  by (simp_all add: admitted_def)

text \<open>A take spends no more than it finds, up to the rounding error.\<close>

lemma take_spends:
  assumes "bucket_ok C R b" and "tb_lastCheck b \<le> now" and "bucket_take now b = (ok, b')"
  shows "level b' + of_bool ok \<le> level b + gain R (passed now b) + of_int C / 2 ^ 52"
proof -
  let ?x = "level b + gain R (passed now b)"
  let ?t = "min (of_int C) (round64 ?x)"
  note b = bucket_okD [OF assms(1)]
  have C: "(1 :: rat) \<le> of_int C" using b(4) by simp
  have x: "0 \<le> ?x"
    using b passed_bounds [OF assms(2)] gain_bounds(1) by (simp add: add_nonneg_nonneg)
  have t: "?t \<le> ?x + of_int C / 2 ^ 53"
  proof (cases "?x \<le> of_int C")
    case True
    from round64_absolute(1) [OF x True C] show ?thesis by linarith
  next
    case False
    moreover have "0 \<le> (of_int C :: rat) / 2 ^ 53" using C by simp
    ultimately show ?thesis by linarith
  qed
  have ok: "ok \<longleftrightarrow> 1 \<le> ?t" "level b' = (if 1 \<le> ?t then round64 (?t - 1) else ?t)"
    using assms(3) unfolding take_level [OF assms(1,2)] prod.inject by (auto simp: level_def)
  have e: "(of_int C :: rat) / 2 ^ 53 + of_int C / 2 ^ 53 = of_int C / 2 ^ 52"
    "0 \<le> (of_int C :: rat) / 2 ^ 53" using C by simp_all
  show ?thesis
  proof (cases "1 \<le> ?t")
    case True
    then have "round64 (?t - 1) \<le> ?t - 1 + of_int C / 2 ^ 53"
      using round64_absolute(1) [of "?t - 1" "of_int C"] C by simp
    moreover have "(of_bool ok :: rat) = 1" "level b' = round64 (?t - 1)"
      using True by (simp_all only: ok if_True of_bool_eq)
    ultimately show ?thesis using t e by linarith
  next
    case False
    then have "(of_bool ok :: rat) = 0" "level b' = ?t" by (simp_all only: ok if_False of_bool_eq)
    then show ?thesis using t e by linarith
  qed
qed

lemma bucket_run_bound:
  assumes "bucket_ok C R b" and "sorted (tb_lastCheck b # ts)"
  shows "of_nat (admitted (bucket_run ts b)) \<le>
     level b + of_int R * (of_int (last (tb_lastCheck b # ts) - tb_lastCheck b) / 1000000000) * (1 + 1 / 2 ^ 51)
       + of_nat (length ts) * (of_int C / 2 ^ 52)"
  using assms
proof (induction ts arbitrary: b)
  case Nil
  then show ?case using bucket_okD(2) by simp
next
  case (Cons now ts)
  obtain ok b' where t: "bucket_take now b = (ok, b')" by fastforce
  have le: "tb_lastCheck b \<le> now" using Cons.prems(2) by simp
  note ok = take_ok [OF Cons.prems(1) le t]
  note b = bucket_okD [OF Cons.prems(1)]
  let ?k = "1 + 1 / 2 ^ 51 :: rat"
  have "gain R (passed now b) \<le> of_int R * (of_int (passed now b) / 1000000000) * ?k"
    using gain_bounds(2) passed_bounds [OF le] b by blast
  also have "\<dots> \<le> of_int R * (of_int (now - tb_lastCheck b) / 1000000000) * ?k"
    using passed_bounds [OF le] b(6)
    by (intro mult_right_mono mult_left_mono divide_right_mono) auto
  finally have g: "gain R (passed now b) \<le> of_int R * (of_int (now - tb_lastCheck b) / 1000000000) * ?k" .
  have "of_nat (admitted (bucket_run ts b')) \<le>
     level b' + of_int R * (of_int (last (now # ts) - now) / 1000000000) * ?k
       + of_nat (length ts) * (of_int C / 2 ^ 52)"
    using Cons.IH [OF ok(1)] ok(2) Cons.prems(2) by simp
  moreover have "last (tb_lastCheck b # now # ts) = last (now # ts)" by simp
  moreover have "of_int R * (of_int (last (now # ts) - now) / 1000000000) * ?k
      + of_int R * (of_int (now - tb_lastCheck b) / 1000000000) * ?k =
      of_int R * (of_int (last (now # ts) - tb_lastCheck b) / 1000000000) * ?k"
    by (simp add: field_simps)
  ultimately show ?case
    using take_spends [OF Cons.prems(1) le t] g by (simp add: t add_divide_distrib distrib_right)
qed

text \<open>A take from a bucket with \<open>m\<close> tokens succeeds and leaves \<open>m - 1\<close>.\<close>

lemma take_serves:
  assumes "bucket_ok C R b" and "tb_lastCheck b \<le> now" and "bucket_take now b = (ok, b')"
    and "1 \<le> m" and "m \<le> C"
    and "of_int m \<le> min (of_int C) (round64 (level b + gain R (passed now b)))"
  shows "ok" and "of_int (m - 1) \<le> level b'"
proof -
  let ?t = "min (of_int C) (round64 (level b + gain R (passed now b)))"
  have "(1 :: rat) \<le> of_int m" using assms(4) by (simp only: of_int_1_le_iff)
  then have t1: "1 \<le> ?t" using assms(6) by (rule order.trans)
  have "of_int (m - 1) \<le> ?t - 1" using assms(6) by simp
  from round64_mono [OF this] have "of_int (m - 1) \<le> round64 (?t - 1)"
    using round64_int [of "m - 1"] assms(4,5) bucket_okD(5) [OF assms(1)] by simp
  moreover show "ok" using assms(3) t1 unfolding take_level [OF assms(1,2)] prod.inject by auto
  moreover have "level b' = round64 (?t - 1)"
    using assms(3) t1 unfolding take_level [OF assms(1,2)] prod.inject by (auto simp: level_def)
  ultimately show "of_int (m - 1) \<le> level b'" by simp
qed

lemma level_kept:
  assumes "bucket_ok C R b" and "tb_lastCheck b \<le> now" and "1 \<le> m" and "of_int m \<le> level b"
  shows "m \<le> C" and "of_int m \<le> min (of_int C) (round64 (level b + gain R (passed now b)))"
proof -
  note b = bucket_okD [OF assms(1)]
  show m: "m \<le> C" using order.trans [OF assms(4) b(3)] by simp
  have "of_int m \<le> level b + gain R (passed now b)"
    using assms(4) gain_bounds(1) passed_bounds [OF assms(2)] b by (simp add: add_increasing2)
  from round64_mono [OF this] show "of_int m \<le> min (of_int C) (round64 (level b + gain R (passed now b)))"
    using round64_int [of m] assms(3) m b(5) by simp
qed

text \<open>A bucket that holds \<open>m\<close> tokens serves the next \<open>m\<close> requests.\<close>

lemma bucket_run_serves:
  assumes "bucket_ok C R b" and "sorted (tb_lastCheck b # ts)"
    and "of_int m \<le> level b" and "int (length ts) \<le> m"
  shows "\<forall>d \<in> set (bucket_run ts b). d"
  using assms
proof (induction ts arbitrary: b m)
  case (Cons now ts)
  obtain ok b' where t: "bucket_take now b = (ok, b')" by fastforce
  have le: "tb_lastCheck b \<le> now" using Cons.prems(2) by simp
  note ok = take_ok [OF Cons.prems(1) le t]
  have m: "1 \<le> m" using Cons.prems(4) by simp
  note k = level_kept [OF Cons.prems(1) le m Cons.prems(3)]
  show ?case
    using take_serves [OF Cons.prems(1) le t m k] Cons.IH [OF ok(1), of "m - 1"] ok(2) Cons.prems(2,4)
    by (simp add: t)
qed simp

text \<open>What a bucket holds, at least, after a pause.\<close>

lemma refill_after_pause:
  assumes "bucket_ok C R b" and "0 \<le> k" and "k \<le> 2 ^ 20" and "k * 1000000000 \<le> now - tb_lastCheck b"
  shows "of_int (min C (k * R)) \<le> min (of_int C) (round64 (level b + gain R (passed now b)))"
proof -
  note b = bucket_okD [OF assms(1)]
  have le: "tb_lastCheck b \<le> now" using assms(2,4) by linarith
  have "k * 1000000000 \<le> passed now b" using assms by (simp add: passed_def time_Sub_def)
  then have "of_int (k * R) \<le> gain R (passed now b)"
    using gain_bounds(3) passed_bounds [OF le] b assms(2,3) by blast
  then have "of_int (k * R) \<le> level b + gain R (passed now b)" using b(2) by linarith
  from round64_mono [OF this] have "of_int (k * R) \<le> round64 (level b + gain R (passed now b))"
    using round64_int [of "k * R"] assms(2,3) b(6,7) mult_mono [of k "2 ^ 20" R "2 ^ 31"] by simp
  then show ?thesis unfolding of_int_min by (intro min.mono order.refl)
qed

lemma take_after_pause:
  assumes "bucket_ok C R b" and "0 \<le> k" and "k \<le> 2 ^ 20" and "k * 1000000000 \<le> now - tb_lastCheck b"
    and "C \<le> k * R"
  shows "bucket_take now b =
     (True, \<lparr>tb_tokens = Fin (round64 (of_int C - 1)), tb_capacity = Fin (of_int C),
            tb_rate = Fin (of_int R), tb_lastCheck = now\<rparr>)"
proof -
  note b = bucket_okD [OF assms(1)]
  have le: "tb_lastCheck b \<le> now" using assms(2,4) by linarith
  have "min (of_int C) (round64 (level b + gain R (passed now b))) = of_int C"
    using refill_after_pause [OF assms(1-4)] assms(5) by (simp add: min_def split: if_splits)
  then show ?thesis
    unfolding take_level [OF assms(1) le] using b by (cases b) simp
qed

section \<open>The limiter and its reference\<close>

definition settings_ok :: "int \<Rightarrow> int \<Rightarrow> rate_limiter \<Rightarrow> bool" where
  "settings_ok C R l \<longleftrightarrow>
     lim_defaultCapacity l = Fin (of_int C) \<and> lim_defaultRate l = Fin (of_int R) \<and>
     1 \<le> C \<and> C \<le> 2 ^ 31 \<and> 0 \<le> R \<and> R \<le> 2 ^ 31"

lemma new_bucket_ok: "settings_ok C R l \<Longrightarrow> bucket_ok C R (new_bucket l t)"
  by (auto simp: settings_ok_def bucket_ok_def new_bucket_def)

lemma new_bucket_sel [simp]:
  "tb_lastCheck (new_bucket l t) = t"
  "level (new_bucket l t) = (case lim_defaultCapacity l of Fin c \<Rightarrow> c | _ \<Rightarrow> 0)"
  by (simp_all add: new_bucket_def level_def)

lemma Allow_sel:
  assumes "Allow t0 now ip l = (ok, l')"
  shows "lim_defaultCapacity l' = lim_defaultCapacity l" "lim_defaultRate l' = lim_defaultRate l"
    "ip' \<noteq> ip \<Longrightarrow> lim_limits l' ip' = lim_limits l ip'"
    "bucket_take now (case lim_limits l ip of None \<Rightarrow> new_bucket l t0 | Some b \<Rightarrow> b) =
       (ok, the (lim_limits l' ip))"
    "lim_limits l' ip \<noteq> None"
  using assms by (auto simp: Allow_def getBucket_def Let_def split: option.splits prod.splits)

lemma cleanup_sel [simp]:
  "lim_defaultCapacity (cleanup_tick now l) = lim_defaultCapacity l"
  "lim_defaultRate (cleanup_tick now l) = lim_defaultRate l"
  by (simp_all add: cleanup_tick_def)

lemma settings_ok_cong:
  "lim_defaultCapacity l' = lim_defaultCapacity l \<Longrightarrow> lim_defaultRate l' = lim_defaultRate l \<Longrightarrow>
   settings_ok C R l' = settings_ok C R l"
  by (simp add: settings_ok_def)

lemma new_bucket_cong:
  "lim_defaultCapacity l' = lim_defaultCapacity l \<Longrightarrow> lim_defaultRate l' = lim_defaultRate l \<Longrightarrow>
   new_bucket l' = new_bucket l"
  by (simp add: new_bucket_def fun_eq_iff)

text \<open>The bucket of a client in the limiter at time \<open>T\<close> and its bucket in the reference: the same,
  or discarded by the cleanup after it was idle.\<close>

fun tracks :: "go_time \<Rightarrow> token_bucket option \<Rightarrow> token_bucket option \<Rightarrow> bool" where
  "tracks T (Some b) (Some b') \<longleftrightarrow> b = b'"
| "tracks T None (Some b') \<longleftrightarrow> idleTTL < T - tb_lastCheck b'"
| "tracks T None None \<longleftrightarrow> True"
| "tracks T (Some b) None \<longleftrightarrow> False"

definition continue_run :: "rate_limiter \<Rightarrow> token_bucket option \<Rightarrow> (go_time \<times> go_time) list \<Rightarrow> bool list" where
  "continue_run l ref rs =
     (case ref of None \<Rightarrow> reference_run l rs | Some b \<Rightarrow> bucket_run (map snd rs) b)"

lemma continue_run_Cons:
  "continue_run l ref ((t0, now) # rs) =
     (let (ok, b) = bucket_take now (case ref of None \<Rightarrow> new_bucket l t0 | Some b \<Rightarrow> b)
      in ok # continue_run l (Some b) rs)"
  by (auto simp: continue_run_def reference_run_def split: option.splits prod.splits)

lemma continue_run_cong:
  assumes "lim_defaultCapacity l' = lim_defaultCapacity l" "lim_defaultRate l' = lim_defaultRate l"
  shows "continue_run l' ref rs = continue_run l ref rs"
  unfolding continue_run_def reference_run_def new_bucket_cong [OF assms] ..

lemma tracks_later: "tracks T x y \<Longrightarrow> T \<le> T' \<Longrightarrow> tracks T' x y"
  by (cases "(T, x, y)" rule: tracks.cases) auto

lemma ref_later:
  "\<forall>b. ref = Some b \<longrightarrow> bucket_ok C R b \<and> tb_lastCheck b \<le> T \<Longrightarrow> T \<le> T' \<Longrightarrow>
   \<forall>b. ref = Some b \<longrightarrow> bucket_ok C R b \<and> tb_lastCheck b \<le> T'"
  by fastforce

lemma cleanup_lookup:
  "lim_limits (cleanup_tick now l) ip =
     (case lim_limits l ip of
        None \<Rightarrow> None
      | Some b \<Rightarrow> if idleTTL < now - tb_lastCheck b then None else Some b)"
proof -
  have "idleTTL < time_Sub now u \<longleftrightarrow> idleTTL < now - u" for u
    unfolding time_Sub_def idleTTL_def max_def min_def by simp
  then show ?thesis by (simp add: cleanup_tick_def split: option.split)
qed

lemma tracks_cleanup:
  assumes "tracks T (lim_limits l ip) ref" and "T \<le> now"
  shows "tracks now (lim_limits (cleanup_tick now l) ip) ref"
  using tracks_later [OF assms] unfolding cleanup_lookup
  by (cases ref; cases "lim_limits l ip") simp_all

text \<open>A discarded bucket would have been full.\<close>

lemma tracked_take:
  assumes "settings_ok C R l" and "C \<le> 600 * R" and "T \<le> t0" and "t0 \<le> now"
    and "tracks T (lim_limits l ip) ref"
    and "\<forall>b. ref = Some b \<longrightarrow> bucket_ok C R b \<and> tb_lastCheck b \<le> T"
  shows "bucket_take now (case lim_limits l ip of None \<Rightarrow> new_bucket l t0 | Some b \<Rightarrow> b) =
     bucket_take now (case ref of None \<Rightarrow> new_bucket l t0 | Some b \<Rightarrow> b)"
proof (cases ref)
  case None
  then have "lim_limits l ip = None" using assms(5) by (cases "lim_limits l ip") auto
  with None show ?thesis by simp
next
  case (Some b)
  show ?thesis
  proof (cases "lim_limits l ip")
    case None
    with Some assms(5) have idle: "idleTTL < T - tb_lastCheck b" by simp
    have b: "bucket_ok C R b" using assms(6) Some by blast
    note n = new_bucket_ok [OF assms(1), of t0]
    have C: "1 \<le> C" "C \<le> 2 ^ 31" using assms(1) by (auto simp: settings_ok_def)
    have old: "bucket_take now b = (True, \<lparr>tb_tokens = Fin (round64 (of_int C - 1)),
        tb_capacity = Fin (of_int C), tb_rate = Fin (of_int R), tb_lastCheck = now\<rparr>)"
      using b idle assms(2-4) by (intro take_after_pause [of C R b 600]) (auto simp: idleTTL_def)
    have "of_int C \<le> level (new_bucket l t0) + gain R (passed now (new_bucket l t0))"
      using gain_bounds(1) [of "passed now (new_bucket l t0)" R] passed_bounds [of "new_bucket l t0" now]
        assms(1,4) by (auto simp: settings_ok_def)
    from round64_mono [OF this]
    have "min (of_int C) (round64 (level (new_bucket l t0) + gain R (passed now (new_bucket l t0)))) = of_int C"
      using round64_int [of C] C by (simp add: min_def)
    moreover have "tb_lastCheck (new_bucket l t0) \<le> now" using assms(4) by simp
    ultimately have "bucket_take now (new_bucket l t0) = bucket_take now b"
      using C n unfolding old take_level [OF n \<open>tb_lastCheck (new_bucket l t0) \<le> now\<close>]
      by (simp add: new_bucket_def bucket_ok_def)
    with None Some show ?thesis by simp
  next
    case (Some b')
    with \<open>ref = Some b\<close> assms(5) show ?thesis by simp
  qed
qed

lemma clock_of_Cons [simp]: "clock_of (op # ops) = readings op @ clock_of ops" "clock_of [] = []"
  by (simp_all add: clock_of_def)

lemma decisions_Cons [simp]:
  "decisions ip ((ip', ok) # ds) = (if ip' = ip then ok # decisions ip ds else decisions ip ds)"
  "decisions ip [] = []"
  by (simp_all add: decisions_def)

lemma lim_run_tracks:
  assumes "settings_ok C R l" and "C \<le> 600 * R" and "sorted (T # clock_of ops)"
    and "tracks T (lim_limits l ip) ref"
    and "\<forall>b. ref = Some b \<longrightarrow> bucket_ok C R b \<and> tb_lastCheck b \<le> T"
  shows "decisions ip (lim_run ops l) = continue_run l ref (requests_of ip ops)"
  using assms
proof (induction ops arbitrary: l T ref)
  case Nil
  then show ?case by (cases ref) (simp_all add: continue_run_def reference_run_def)
next
  case (Cons op ops)
  show ?case
  proof (cases op)
    case (Lim_Tick now)
    have "tracks now (lim_limits (cleanup_tick now l) ip) ref"
      using Cons.prems(3) Lim_Tick by (intro tracks_cleanup [OF Cons.prems(4)]) auto
    moreover have "settings_ok C R (cleanup_tick now l)"
      using Cons.prems(1) settings_ok_cong [of "cleanup_tick now l" l C R] by simp
    moreover have le: "sorted (now # clock_of ops)" "T \<le> now" using Cons.prems(3) Lim_Tick by auto
    moreover have "\<forall>b. ref = Some b \<longrightarrow> bucket_ok C R b \<and> tb_lastCheck b \<le> now"
      by (rule ref_later [OF Cons.prems(5) le(2)])
    ultimately have "decisions ip (lim_run ops (cleanup_tick now l)) =
        continue_run (cleanup_tick now l) ref (requests_of ip ops)"
      using Cons.prems(2) by (intro Cons.IH [of _ now])
    then show ?thesis
      using Lim_Tick continue_run_cong [of "cleanup_tick now l" l] by simp
  next
    case (Lim_Allow ip' t0 now)
    obtain ok l' where a: "Allow t0 now ip' l = (ok, l')" by fastforce
    note sel = Allow_sel [OF a]
    have so: "settings_ok C R l'" using Cons.prems(1) settings_ok_cong [OF sel(1,2)] by blast
    have le: "T \<le> t0" "t0 \<le> now" "sorted (now # clock_of ops)"
      using Cons.prems(3) Lim_Allow by auto
    show ?thesis
    proof (cases "ip' = ip")
      case False
      have "tracks now (lim_limits l' ip) ref"
        using tracks_later [OF Cons.prems(4) order.trans [OF le(1,2)]]
        unfolding sel(3) [OF False [symmetric]] .
      moreover have "\<forall>b. ref = Some b \<longrightarrow> bucket_ok C R b \<and> tb_lastCheck b \<le> now"
        by (rule ref_later [OF Cons.prems(5) order.trans [OF le(1,2)]])
      ultimately have "decisions ip (lim_run ops l') = continue_run l' ref (requests_of ip ops)"
        by (intro Cons.IH [OF so Cons.prems(2) le(3)])
      then show ?thesis
        using False continue_run_cong [OF sel(1,2)] unfolding Lim_Allow by (simp add: a)
    next
      case True
      let ?b = "case ref of None \<Rightarrow> new_bucket l t0 | Some b \<Rightarrow> b"
      obtain b' where b': "bucket_take now ?b = (ok, b')" "lim_limits l' ip = Some b'"
        using tracked_take [OF Cons.prems(1,2) le(1,2) Cons.prems(4,5)] sel(4,5) True by auto
      have b: "bucket_ok C R ?b" "tb_lastCheck ?b \<le> now"
        using Cons.prems(5) new_bucket_ok [OF Cons.prems(1)] le by (auto split: option.splits)
      have "decisions ip (lim_run ops l') = continue_run l' (Some b') (requests_of ip ops)"
        using b' take_ok [OF b b'(1)] by (intro Cons.IH [OF so Cons.prems(2) le(3)]) auto
      then show ?thesis
        using True b'(1) continue_run_cong [OF sel(1,2)] unfolding Lim_Allow
        by (simp add: a [unfolded True] continue_run_Cons)
    qed
  qed
qed

section \<open>What the limiter promises\<close>

text \<open>The limiter of a policy, as the middleware makes it from the settings.\<close>

definition policy_limiter :: "int32 \<Rightarrow> int32 \<Rightarrow> int64 \<Rightarrow> rate_limiter" where
  "policy_limiter rate burst window =
     NewRateLimiter (f64_of_int (sint rate)) (f64_of_int (sint burst)) window"

lemma int32_bound: "sint (x :: int32) \<le> 2 ^ 31"
  using sint_lt [of x] by simp

lemma policy_limiter_ok:
  assumes "0 < sint rate" and "0 < sint burst"
  shows "settings_ok (sint burst) (sint rate) (policy_limiter rate burst w)"
  using assms int32_bound [of rate] int32_bound [of burst]
  by (simp add: settings_ok_def policy_limiter_def NewRateLimiter_def f64_of_int_exact)

lemma policy_limiter_reference:
  assumes "0 < sint rate" and "0 < sint burst" and "sint burst \<le> 600 * sint rate"
    and "sorted (clock_of ops)"
  shows "decisions ip (lim_run ops (policy_limiter rate burst w)) =
     reference_run (policy_limiter rate burst w) (requests_of ip ops)"
proof -
  have "sorted (hd (clock_of ops) # clock_of ops)" using assms(4) by (cases "clock_of ops") auto
  then have "decisions ip (lim_run ops (policy_limiter rate burst w)) =
      continue_run (policy_limiter rate burst w) None (requests_of ip ops)"
    by (rule lim_run_tracks [OF policy_limiter_ok [OF assms(1,2)] assms(3)])
      (simp_all add: policy_limiter_def NewRateLimiter_def)
  then show ?thesis by (simp add: continue_run_def)
qed

text \<open>The readings of a client's requests are sorted if all are.\<close>

lemma request_readings:
  "(a, b) \<in> set (requests_of ip ops) \<Longrightarrow> a \<in> set (clock_of ops) \<and> b \<in> set (clock_of ops)"
  by (induction ip ops rule: requests_of.induct) (auto split: if_splits)

lemma requests_sorted:
  "sorted (clock_of ops) \<Longrightarrow> sorted (concat (map (\<lambda>(t0, now). [t0, now]) (requests_of ip ops)))"
proof (induction ip ops rule: requests_of.induct)
  case (2 ip ip' t0 now ops)
  then show ?case using request_readings [of _ _ ip ops] by (auto simp: sorted_append)
qed (auto simp: sorted_append)

lemma sorted_nows:
  "sorted (concat (map (\<lambda>(t0, now). [t0, now]) rs)) \<Longrightarrow> rs \<noteq> [] \<Longrightarrow> sorted (fst (hd rs) # map snd rs)"
proof (induction rs)
  case (Cons r rs)
  then show ?case by (cases r; cases rs) (auto simp: case_prod_beta)
qed simp

lemma requests_append: "requests_of ip (ops @ ops') = requests_of ip ops @ requests_of ip ops'"
  by (induction ip ops rule: requests_of.induct) auto

lemma policy_bucket:
  assumes "0 < sint rate" and "0 < sint burst"
  shows "bucket_ok (sint burst) (sint rate) (new_bucket (policy_limiter rate burst w) t)"
    and "level (new_bucket (policy_limiter rate burst w) t) = of_int (sint burst)"
  using new_bucket_ok [OF policy_limiter_ok [OF assms], of w t] policy_limiter_ok [OF assms, of w]
  by (simp_all add: settings_ok_def)

text \<open>C26: the cleanup and the other clients change nothing. For a valid policy whose burst refills
  within the ten minutes after which an idle bucket is discarded, the decisions on a client are
  those of one bucket of its own that is never discarded, whatever the other clients do and
  whenever the cleanup runs.\<close>

theorem limiter_reference:
  assumes "0 < sint rate" and "0 < sint burst" and "sint burst \<le> 600 * sint rate"
    and "sorted (clock_of ops)"
  shows "decisions ip (lim_run ops (policy_limiter rate burst w)) =
     reference_run (policy_limiter rate burst w) (requests_of ip ops)"
  using assms by (rule policy_limiter_reference)

text \<open>A client does not get more than its rate. Among any \<open>n\<close> requests of one client within
  \<open>E\<close> seconds, at most \<open>burst + rate * E\<close> are admitted, up to the rounding of the doubles: a
  relative error below \<open>2 ^ -51\<close> of the refill and \<open>2 ^ -52\<close> of the burst for each request.\<close>

lemma rate_limit_bound:
  assumes "0 < sint rate" and "0 < sint burst" and "sint burst \<le> 600 * sint rate"
    and "sorted (clock_of ops)" and "requests_of ip ops = (t0, t1) # rs"
  shows "of_nat (admitted (decisions ip (lim_run ops (policy_limiter rate burst w)))) \<le>
     of_int (sint burst)
     + of_int (sint rate) * (of_int (last (t1 # map snd rs) - t0) / 1000000000) * (1 + 1 / 2 ^ 51)
     + of_nat (Suc (length rs)) * (of_int (sint burst) / 2 ^ 52 :: rat)"
proof -
  let ?b = "new_bucket (policy_limiter rate burst w) t0"
  note b = policy_bucket [OF assms(1,2), of w t0]
  have "sorted (tb_lastCheck ?b # t1 # map snd rs)"
    using sorted_nows [OF requests_sorted [OF assms(4), of ip]] assms(5) by simp
  from bucket_run_bound [OF b(1) this] show ?thesis
    unfolding policy_limiter_reference [OF assms(1-4)] assms(5) reference_run_def
    by (simp only: list.case prod.case b(2) new_bucket_sel(1) length_Cons list.map last_ConsR
        list.distinct snd_conv length_map not_False_eq_True)
qed

text \<open>Running a bucket over two stretches of requests.\<close>

fun bucket_after :: "go_time list \<Rightarrow> token_bucket \<Rightarrow> token_bucket" where
  "bucket_after [] b = b"
| "bucket_after (now # ts) b = bucket_after ts (snd (bucket_take now b))"

lemma bucket_run_append: "bucket_run (ts @ us) b = bucket_run ts b @ bucket_run us (bucket_after ts b)"
  by (induction ts arbitrary: b) (auto split: prod.splits)

lemma length_bucket_run [simp]: "length (bucket_run ts b) = length ts"
  by (induction ts arbitrary: b) (auto split: prod.splits)

lemma bucket_after_ok:
  "bucket_ok C R b \<Longrightarrow> sorted (tb_lastCheck b # ts) \<Longrightarrow>
   bucket_ok C R (bucket_after ts b) \<and> tb_lastCheck (bucket_after ts b) = last (tb_lastCheck b # ts)"
proof (induction ts arbitrary: b)
  case (Cons now ts)
  then have "tb_lastCheck b \<le> now" by simp
  from take_ok [OF Cons.prems(1) this, of "fst (bucket_take now b)" "snd (bucket_take now b)"]
  show ?case using Cons.IH [of "snd (bucket_take now b)"] Cons.prems(2) by simp
qed simp

lemma bucket_run_after_pause:
  assumes "bucket_ok C R b" and "sorted (tb_lastCheck b # ts)"
    and "0 \<le> k" and "k \<le> 2 ^ 20" and "\<forall>t \<in> set ts. tb_lastCheck b + k * 1000000000 \<le> t"
    and "int (length ts) \<le> min C (k * R)"
  shows "\<forall>d \<in> set (bucket_run ts b). d"
proof (cases ts)
  case (Cons now us)
  obtain ok b' where t: "bucket_take now b = (ok, b')" by fastforce
  have le: "tb_lastCheck b \<le> now" using assms(2) Cons by simp
  let ?m = "int (length ts)"
  let ?t = "min (of_int C) (round64 (level b + gain R (passed now b)))"
  note ok = take_ok [OF assms(1) le t]
  have "k * 1000000000 \<le> now - tb_lastCheck b" using assms(5) Cons by simp
  from refill_after_pause [OF assms(1,3,4) this]
  have "of_int (min C (k * R)) \<le> ?t" .
  moreover have "(of_int ?m :: rat) \<le> of_int (min C (k * R))"
    using assms(6) by (simp only: of_int_le_iff)
  ultimately have mt: "of_int ?m \<le> ?t" by (rule order.trans [rotated])
  have m: "1 \<le> ?m" "?m \<le> C" using Cons assms(6) by simp_all
  from take_serves [OF assms(1) le t m mt] show ?thesis
    using bucket_run_serves [OF ok(1), of us "?m - 1"] ok(2) assms(2) Cons by (simp add: t)
qed simp

text \<open>A client that pauses is served again. If a client made no request for \<open>k\<close> seconds, its
  next requests are admitted, up to the smaller of the burst and \<open>k * rate\<close> of them, however fast
  they come and whatever it did before the pause. A client without earlier requests gets a whole
  burst.\<close>

theorem pause_restores:
  assumes "0 < sint rate" and "0 < sint burst" and "sint burst \<le> 600 * sint rate"
    and "sorted (clock_of (before @ after))" and "0 \<le> k" and "k \<le> 2 ^ 20"
    and "\<forall>r \<in> set (requests_of ip before). \<forall>r' \<in> set (requests_of ip after).
           snd r + k * 1000000000 \<le> snd r'"
    and "int (length (requests_of ip after)) \<le>
           (if requests_of ip before = [] then sint burst else min (sint burst) (k * sint rate))"
  shows "\<forall>d \<in> set (drop (length (requests_of ip before))
             (decisions ip (lim_run (before @ after) (policy_limiter rate burst w)))). d"
proof (cases "requests_of ip (before @ after)")
  case Nil
  then show ?thesis
    unfolding policy_limiter_reference [OF assms(1-4)] reference_run_def by simp
next
  case (Cons r rs)
  obtain t0 t1 where r: "r = (t0, t1)" by fastforce
  let ?rb = "requests_of ip before" and ?ra = "requests_of ip after"
  let ?b = "new_bucket (policy_limiter rate burst w) t0"
  note b = policy_bucket [OF assms(1,2), of w t0]
  have rs: "?rb @ ?ra = (t0, t1) # rs" using Cons r by (simp add: requests_append)
  have s: "sorted (tb_lastCheck ?b # map snd ?rb @ map snd ?ra)"
    using sorted_nows [OF requests_sorted [OF assms(4), of ip]] Cons r rs
    by (metis fst_conv list.distinct(1) list.sel(1) map_append new_bucket_sel(1) requests_append)
  have run: "drop (length ?rb) (decisions ip (lim_run (before @ after) (policy_limiter rate burst w))) =
      bucket_run (map snd ?ra) (bucket_after (map snd ?rb) ?b)"
  proof -
    have "map snd ((t0, t1) # rs) = map snd ?rb @ map snd ?ra" using rs by (metis map_append)
    then have "reference_run (policy_limiter rate burst w) (requests_of ip (before @ after)) =
        bucket_run (map snd ?rb @ map snd ?ra) ?b"
      unfolding reference_run_def Cons r by simp
    then show ?thesis
      unfolding policy_limiter_reference [OF assms(1-4)] by (simp add: bucket_run_append)
  qed
  show ?thesis
  proof (cases "?rb = []")
    case True
    have "\<forall>d \<in> set (bucket_run (map snd ?ra) ?b). d"
      using bucket_run_serves [OF b(1), of "map snd ?ra" "sint burst"] s b(2) assms(8) True by simp
    then show ?thesis unfolding run using True by simp
  next
    case False
    let ?b' = "bucket_after (map snd ?rb) ?b"
    have "sorted (tb_lastCheck ?b # map snd ?rb)" using s by (simp add: sorted_append)
    from bucket_after_ok [OF b(1) this] False
    have b': "bucket_ok (sint burst) (sint rate) ?b'" "tb_lastCheck ?b' = snd (last ?rb)"
      by (simp_all add: last_map)
    have "sorted (snd (last ?rb) # map snd ?ra)"
      using s False by (auto simp: sorted_append)
    then show ?thesis
      unfolding run
      using assms(5-8) b' False
      by (intro bucket_run_after_pause [OF b'(1), of "map snd ?ra" k]) auto
  qed
qed

section \<open>Examples\<close>

definition sample_run :: "lim_op list" where
  "sample_run =
     [Lim_Allow ''a'' 0 5, Lim_Allow ''b'' 10 12, Lim_Tick 20, Lim_Allow ''a'' 3000000000 3000000000]"

lemma sample_run_facts:
  "sorted (clock_of sample_run)" "requests_of ''a'' sample_run = [(0, 5), (3000000000, 3000000000)]"
  "sorted (clock_of (sample_run @ [Lim_Allow ''a'' 5000000000 5000000000]))"
  by (simp_all add: sample_run_def)

theorem limiter_reference_witness:
  "decisions ''a'' (lim_run sample_run (policy_limiter 10 20 60)) =
   reference_run (policy_limiter 10 20 60) [(0, 5), (3000000000, 3000000000)]"
  using limiter_reference [of "10 :: int32" "20 :: int32" sample_run "''a''" 60]
  by (simp add: sample_run_facts)

lemma length_decisions: "length (decisions ip (lim_run ops l)) = length (requests_of ip ops)"
  by (induction ops l rule: lim_run.induct) (auto split: prod.splits)

theorem pause_restores_witness:
  "last (decisions ''a'' (lim_run (sample_run @ [Lim_Allow ''a'' 5000000000 5000000000]) (policy_limiter 10 20 60)))"
proof -
  let ?ds = "decisions ''a'' (lim_run (sample_run @ [Lim_Allow ''a'' 5000000000 5000000000]) (policy_limiter 10 20 60))"
  have "\<forall>d \<in> set (drop (length (requests_of ''a'' sample_run)) ?ds). d"
    by (rule pause_restores [where k = 2]) (simp_all add: sample_run_facts)
  moreover have "length ?ds = 3"
    by (simp add: length_decisions requests_append sample_run_facts)
  then obtain x y z where "?ds = [x, y, z]" by (auto simp: numeral_eq_Suc length_Suc_conv)
  ultimately show ?thesis by (simp add: sample_run_facts)
qed

text \<open>
  With a larger burst the cleanup forgives debts: a client that spent its whole burst at once gets
  another one as soon as its idle bucket is discarded, after 601 seconds here, although only
  \<open>601 * rate\<close> tokens have been earned.
\<close>

fun lim_after :: "lim_op list \<Rightarrow> rate_limiter \<Rightarrow> rate_limiter" where
  "lim_after [] l = l"
| "lim_after (Lim_Allow ip t0 now # ops) l = lim_after ops (snd (Allow t0 now ip l))"
| "lim_after (Lim_Tick now # ops) l = lim_after ops (cleanup_tick now l)"

lemma lim_run_append: "lim_run (ops @ ops') l = lim_run ops l @ lim_run ops' (lim_after ops l)"
  by (induction ops l rule: lim_run.induct) (auto split: prod.splits)

lemma burst_at_once:
  assumes "settings_ok C R l" and "int n \<le> m"
    and "\<exists>b. (case lim_limits l ip of None \<Rightarrow> new_bucket l t | Some b \<Rightarrow> b) = b \<and>
          bucket_ok C R b \<and> tb_lastCheck b = t \<and> of_int m \<le> level b"
  shows "lim_run (replicate n (Lim_Allow ip t t)) l = replicate n (ip, True) \<and>
     settings_ok C R (lim_after (replicate n (Lim_Allow ip t t)) l) \<and>
     (0 < n \<longrightarrow> (\<exists>b. lim_limits (lim_after (replicate n (Lim_Allow ip t t)) l) ip = Some b \<and> tb_lastCheck b = t))"
  using assms
proof (induction n arbitrary: l m)
  case (Suc n)
  obtain ok l' where a: "Allow t t ip l = (ok, l')" by fastforce
  note sel = Allow_sel [OF a]
  obtain b where b: "(case lim_limits l ip of None \<Rightarrow> new_bucket l t | Some b \<Rightarrow> b) = b"
    "bucket_ok C R b" "tb_lastCheck b = t" "of_int m \<le> level b" using Suc.prems(3) by blast
  obtain b' where b': "lim_limits l' ip = Some b'" "bucket_take t b = (ok, b')"
    using sel(4,5) b(1) by auto
  have le: "tb_lastCheck b \<le> t" using b(3) by simp
  note ok = take_ok [OF b(2) le b'(2)]
  have m: "1 \<le> m" using Suc.prems(2) by simp
  note r = take_serves [OF b(2) le b'(2) m level_kept [OF b(2) le m b(4)]]
  have "lim_run (replicate n (Lim_Allow ip t t)) l' = replicate n (ip, True) \<and>
     settings_ok C R (lim_after (replicate n (Lim_Allow ip t t)) l') \<and>
     (0 < n \<longrightarrow> (\<exists>b. lim_limits (lim_after (replicate n (Lim_Allow ip t t)) l') ip = Some b \<and> tb_lastCheck b = t))"
    using settings_ok_cong [OF sel(1,2)] Suc.prems(1,2) b'(1) ok r
    by (intro Suc.IH [of l' "m - 1"]) auto
  then show ?case using a r(1) b'(1) ok(2) by (cases n) auto
qed auto

theorem cleanup_forgives:
  assumes "0 < sint rate" and "0 < sint burst" and "n = nat (sint burst)" and "idleTTL < t"
  shows "lim_run (replicate n (Lim_Allow ip 0 0) @ Lim_Tick t # replicate n (Lim_Allow ip t t))
           (policy_limiter rate burst w) = replicate (2 * n) (ip, True)"
proof -
  let ?l = "policy_limiter rate burst w" and ?ops = "replicate n (Lim_Allow ip 0 0)"
  let ?C = "sint burst" and ?R = "sint rate"
  note so = policy_limiter_ok [OF assms(1,2), of w]
  have n: "int n = ?C" "0 < n" using assms by simp_all
  have fresh: "\<exists>b. new_bucket l t = b \<and> bucket_ok ?C ?R b \<and> tb_lastCheck b = t \<and> of_int ?C \<le> level b"
    if "settings_ok ?C ?R l" for l t
    using new_bucket_ok [OF that, of t] that by (simp add: settings_ok_def)
  have none: "lim_limits ?l ip = None" by (simp add: policy_limiter_def NewRateLimiter_def)
  have first: "lim_run ?ops ?l = replicate n (ip, True)" "settings_ok ?C ?R (lim_after ?ops ?l)"
      "\<exists>b. lim_limits (lim_after ?ops ?l) ip = Some b \<and> tb_lastCheck b = 0"
    using burst_at_once [OF so, where n = n and m = ?C and ip = ip and t = 0] fresh [OF so, of 0] none n by auto
  let ?l2 = "cleanup_tick t (lim_after ?ops ?l)"
  have so2: "settings_ok ?C ?R ?l2" using first(2) settings_ok_cong [of ?l2 "lim_after ?ops ?l"] by simp
  have "lim_limits ?l2 ip = None" using first(3) assms(4) by (auto simp: cleanup_lookup)
  then have "lim_run (replicate n (Lim_Allow ip t t)) ?l2 = replicate n (ip, True)"
    using burst_at_once [OF so2, where n = n and m = ?C and ip = ip and t = t] fresh [OF so2, of t] n by auto
  then show ?thesis
    using first(1) by (simp add: lim_run_append mult_2 replicate_add)
qed

text \<open>The window of a policy is the interval of the cleanup and nothing else: it changes no
  decision. The rate is a number of requests per second.\<close>

lemma lim_run_interval:
  "lim_run ops (l\<lparr>lim_cleanupInterval := w\<rparr>) = lim_run ops l"
proof (induction ops arbitrary: l)
  case (Cons op ops)
  have "Allow t0 now ip (l\<lparr>lim_cleanupInterval := w\<rparr>) =
      (fst (Allow t0 now ip l), (snd (Allow t0 now ip l))\<lparr>lim_cleanupInterval := w\<rparr>)" for t0 now ip
    by (auto simp: Allow_def getBucket_def new_bucket_def Let_def split: option.splits prod.splits)
  moreover have "cleanup_tick now (l\<lparr>lim_cleanupInterval := w\<rparr>) = (cleanup_tick now l)\<lparr>lim_cleanupInterval := w\<rparr>"
    for now by (simp add: cleanup_tick_def)
  ultimately show ?case using Cons.IH by (cases op) (simp_all split: prod.splits)
qed simp

lemma window_unused: "lim_run ops (policy_limiter rate burst w) = lim_run ops (policy_limiter rate burst w')"
proof -
  let ?i = "lim_cleanupInterval (policy_limiter rate burst w)"
  have "policy_limiter rate burst w = (policy_limiter rate burst w')\<lparr>lim_cleanupInterval := ?i\<rparr>"
    by (simp add: policy_limiter_def NewRateLimiter_def)
  then show ?thesis by (metis lim_run_interval)
qed

end
