(* ===== verification/RateLimitMiddleware.thy ===== *)
theory RateLimitMiddleware
  imports RateLimit ClientIP ProxyProps
begin

text \<open>
  \<open>internal/middleware/ratelimit.go\<close> and its wiring in \<open>internal/proxy/proxy.go\<close>: a limiter for
  each host, made on the first request for it from the settings in effect, replaced when the
  runtime announces new settings. Limiters are shared objects: the map holds references into a
  store. Main facts: which requests pass and what the others get; a client of a host gets its burst
  and its rate at most; the limiters in the map are those whose cleanup runs; once the callbacks are
  made they have the settings in effect, as long as virtual hosts are not edited and changes of
  policies do not overlap; when they have not.
\<close>

section \<open>The middleware\<close>

type_synonym limiter_ref = nat

record rate_limit_middleware =
  rlm_rateLimiters :: "string \<rightharpoonup> limiter_ref"
  rlm_store :: "limiter_ref \<Rightarrow> rate_limiter"
  rlm_next :: limiter_ref
  rlm_clientIPs :: client_ip_resolver

text \<open>The runtime is no part of the record but an argument of the operations.\<close>

definition NewRateLimitMiddleware :: "client_ip_resolver option \<Rightarrow> rate_limit_middleware" where
  "NewRateLimitMiddleware clientIPs =
     \<lparr>rlm_rateLimiters = Map.empty, rlm_store = (\<lambda>_. NewRateLimiter (Fin 0) (Fin 0) 0), rlm_next = 0,
      rlm_clientIPs =
        (case clientIPs of
           Some r \<Rightarrow> r
         | None \<Rightarrow> (case NewClientIPResolver '''' of Inr r \<Rightarrow> r | Inl _ \<Rightarrow> \<lparr>cr_trustedProxies = []\<rparr>))\<rparr>"

definition on_limiter :: "limiter_ref \<Rightarrow> (rate_limiter \<Rightarrow> rate_limiter) \<Rightarrow> rate_limit_middleware \<Rightarrow> rate_limit_middleware" where
  "on_limiter i f m = m\<lparr>rlm_store := (rlm_store m)(i := f (rlm_store m i))\<rparr>"

text \<open>A new limiter under a host.\<close>

definition put_limiter :: "string \<Rightarrow> rate_limiter \<Rightarrow> rate_limit_middleware \<Rightarrow> rate_limit_middleware" where
  "put_limiter host l m =
     m\<lparr>rlm_rateLimiters := (rlm_rateLimiters m)(host \<mapsto> rlm_next m),
       rlm_store := (rlm_store m)(rlm_next m := l), rlm_next := Suc (rlm_next m)\<rparr>"

text \<open>\<open>time.Duration(n) * time.Second\<close>.\<close>

definition window_duration :: "goint \<Rightarrow> int64" where
  "window_duration n = n * 1000000000"

text \<open>The part under the write lock, which looks the host up again, and the whole.\<close>

definition getRateLimiter_locked ::
  "runtime \<Rightarrow> string \<Rightarrow> rate_limit_middleware \<Rightarrow> limiter_ref \<times> rate_limit_middleware" where
  "getRateLimiter_locked rt host m =
     (case rlm_rateLimiters m host of
        Some i \<Rightarrow> (i, m)
      | None \<Rightarrow>
          (let cfg = rt_GetSecurityConfigHost rt host;
               rate = f64_of_int (sint (rl_RatePerIP cfg));
               burst = f64_of_int (sint (rl_Burst cfg));
               window = window_duration (scast (rl_WindowSec cfg))
           in (rlm_next m, put_limiter host (NewRateLimiter rate burst window) m)))"

definition getRateLimiter ::
  "runtime \<Rightarrow> string \<Rightarrow> rate_limit_middleware \<Rightarrow> limiter_ref \<times> rate_limit_middleware" where
  "getRateLimiter rt host m =
     (case rlm_rateLimiters m host of
        Some i \<Rightarrow> (i, m)
      | None \<Rightarrow> getRateLimiter_locked rt host m)"

text \<open>What handlers work on.\<close>

record proxy_world =
  pw_rt :: runtime
  pw_limits :: rate_limit_middleware
  pw_writer :: response_writer

definition on_writer :: "(response_writer \<Rightarrow> response_writer) \<Rightarrow> proxy_world \<Rightarrow> proxy_world" where
  "on_writer f s = s\<lparr>pw_writer := f (pw_writer s)\<rparr>"

definition on_world_metrics :: "(metrics \<Rightarrow> metrics) \<Rightarrow> proxy_world \<Rightarrow> proxy_world" where
  "on_world_metrics f s = s\<lparr>pw_rt := on_metrics f (pw_rt s)\<rparr>"

text \<open>The answer to a request over the limit.\<close>

definition blocked_response :: "rate_limiting_config \<Rightarrow> response_writer \<Rightarrow> response_writer" where
  "blocked_response cfg w =
     http_Error ''Too many requests'' 429
       (on_header (header_Set ''X-RateLimit-Blocked'' ''true'')
         (on_header (header_Set ''X-RateLimit-Window'' (show_int (sint (rl_WindowSec cfg))))
           (on_header (header_Set ''X-RateLimit-Limit'' (show_int (sint (rl_RatePerIP cfg)))) w)))"

definition limiter_host :: "string \<Rightarrow> string" where
  "limiter_host host =
     (if contains host '':'' then hd (split_on CHR '':'' host) else host)"

text \<open>The middleware up to the call of the next handler: whether it makes that call, and the state
  then. \<open>t0\<close> and \<open>now\<close> are the clock readings of \<open>Allow\<close>.\<close>

definition ratelimit_gate :: "go_time \<Rightarrow> go_time \<Rightarrow> request \<Rightarrow> proxy_world \<Rightarrow> bool \<times> proxy_world" where
  "ratelimit_gate t0 now req s =
     (let cfg = rt_GetSecurityConfigHost (pw_rt s) (rq_Host req)
      in if \<not> rl_Enabled cfg then (True, s)
         else
           (let clientIP = Resolve (rlm_clientIPs (pw_limits s)) req;
                (i, m) = getRateLimiter (pw_rt s) (limiter_host (rq_Host req)) (pw_limits s);
                (ok, l) = Allow t0 now clientIP (rlm_store m i);
                s' = s\<lparr>pw_limits := on_limiter i (\<lambda>_. l) m\<rparr>
            in if \<not> ok then
                 (False, on_writer (blocked_response cfg) (on_world_metrics RecordRateLimitBlock s'))
               else (True, on_world_metrics RecordRateLimitAllow s')))"

definition ratelimit_Middleware :: "go_time \<Rightarrow> go_time \<Rightarrow> proxy_world http_middleware" where
  "ratelimit_Middleware t0 now nxt = (\<lambda>req s.
     case ratelimit_gate t0 now req s of
       (True, s') \<Rightarrow> nxt req s'
     | (False, s') \<Rightarrow> Some s')"

definition hasVirtualHost :: "runtime \<Rightarrow> string \<Rightarrow> bool" where
  "hasVirtualHost rt host \<longleftrightarrow>
     list_ex (\<lambda>v. vh_Domain v = host) (fc_VirtualHosts (sn_Raw (rt_SnapshotView rt)))"

text \<open>One tick of \<open>CleanupExpiredLimiters\<close>.\<close>

definition expire_limiters :: "runtime \<Rightarrow> rate_limit_middleware \<Rightarrow> rate_limit_middleware" where
  "expire_limiters rt m =
     m\<lparr>rlm_rateLimiters :=
         (\<lambda>host. if hasVirtualHost rt host then rlm_rateLimiters m host else None),
       rlm_store :=
         (\<lambda>i. if \<exists>host \<in> dom (rlm_rateLimiters m). rlm_rateLimiters m host = Some i \<and> \<not> hasVirtualHost rt host
              then limiter_Stop (rlm_store m i) else rlm_store m i)\<rparr>"

definition UpdateRateLimiter ::
  "string \<Rightarrow> goint \<Rightarrow> goint \<Rightarrow> goint \<Rightarrow> rate_limit_middleware \<Rightarrow> rate_limit_middleware" where
  "UpdateRateLimiter host ratePerIP burst windowSec m =
     (let m1 = (case rlm_rateLimiters m host of None \<Rightarrow> m | Some i \<Rightarrow> on_limiter i limiter_Stop m)
      in put_limiter host
           (NewRateLimiter (f64_of_int (sint ratePerIP)) (f64_of_int (sint burst)) (window_duration windowSec)) m1)"

section \<open>Wiring\<close>

text \<open>The callback that \<open>NewProxy\<close> sets, and the events of an operation of the runtime.\<close>

definition on_rate_limit_update :: "string \<Rightarrow> rate_limiting_config \<Rightarrow> rate_limit_middleware \<Rightarrow> rate_limit_middleware" where
  "on_rate_limit_update domain cfg m =
     UpdateRateLimiter domain (scast (rl_RatePerIP cfg)) (scast (rl_Burst cfg)) (scast (rl_WindowSec cfg)) m"

fun deliver :: "rt_event list \<Rightarrow> rate_limit_middleware \<Rightarrow> rate_limit_middleware" where
  "deliver [] m = m"
| "deliver (Ev_RateLimitUpdate d cfg # evs) m = deliver evs (on_rate_limit_update d cfg m)"
| "deliver (Ev_HealthCheckRequired b # evs) m = deliver evs m"

text \<open>The handler of the public port behind its middlewares, as \<open>publicHandler\<close> chains them.\<close>

definition proxy_handler :: "http_env \<Rightarrow> proxy_world http_handler" where
  "proxy_handler H req s =
     (case ProxyHandler H (pw_rt s) req (pw_writer s) of
        None \<Rightarrow> None
      | Some (rt, w) \<Rightarrow> Some (s\<lparr>pw_rt := rt, pw_writer := w\<rparr>))"

definition public_chain :: "go_time \<Rightarrow> go_time \<Rightarrow> client_ip_resolver \<Rightarrow> proxy_world middleware_chain" where
  "public_chain t0 now r =
     chain_Use (ratelimit_Middleware t0 now) (chain_Use (clientip_Middleware r) \<lparr>mc_middlewares = []\<rparr>)"

definition public_root :: "http_env \<Rightarrow> go_time \<Rightarrow> go_time \<Rightarrow> client_ip_resolver \<Rightarrow> proxy_world http_handler" where
  "public_root H t0 now r = chain_Apply (public_chain t0 now r) (proxy_handler H)"

lemma public_root_eq:
  "public_root H t0 now r req s = ratelimit_Middleware t0 now (proxy_handler H) (resolved_request r req) s"
  by (simp add: public_root_def public_chain_def chain_Use_def chain_Apply_Cons clientip_Middleware_def)

section \<open>Basic facts\<close>

lemma hd_split_cut_port: "hd (split_on CHR '':'' h) = cut_port h"
  unfolding split_on_hd by (induction h) auto

lemma limiter_host_cut: "limiter_host h = cut_port h"
proof (cases "contains h '':''")
  case False
  then have "CHR '':'' \<notin> set h" by (simp add: contains_char)
  with False show ?thesis by (simp add: limiter_host_def cut_port_no_colon)
qed (simp add: limiter_host_def hd_split_cut_port)

lemma no_colon_cut: "CHR '':'' \<notin> set (cut_port h)"
  by (induction h) auto

lemma GetSecurityConfigHost_cut: "rt_GetSecurityConfigHost rt (cut_port h) = rt_GetSecurityConfigHost rt h"
  unfolding rt_GetSecurityConfigHost_def cut_port_no_colon [OF no_colon_cut] ..

lemma GetSecurityConfigHost_state:
  "rt_state rt' = rt_state rt \<Longrightarrow> rt_GetSecurityConfigHost rt' h = rt_GetSecurityConfigHost rt h"
  by (simp add: rt_GetSecurityConfigHost_def State_def)

lemma on_limiter_sel [simp]:
  "rlm_rateLimiters (on_limiter i f m) = rlm_rateLimiters m"
  "rlm_store (on_limiter i f m) = (rlm_store m)(i := f (rlm_store m i))"
  "rlm_next (on_limiter i f m) = rlm_next m"
  "rlm_clientIPs (on_limiter i f m) = rlm_clientIPs m"
  by (simp_all add: on_limiter_def)

lemma put_limiter_sel [simp]:
  "rlm_rateLimiters (put_limiter h l m) = (rlm_rateLimiters m)(h \<mapsto> rlm_next m)"
  "rlm_store (put_limiter h l m) = (rlm_store m)(rlm_next m := l)"
  "rlm_next (put_limiter h l m) = Suc (rlm_next m)"
  "rlm_clientIPs (put_limiter h l m) = rlm_clientIPs m"
  by (simp_all add: put_limiter_def)

text \<open>The limiter that settings make, and what of it stays.\<close>

definition limiter_for :: "rate_limiting_config \<Rightarrow> rate_limiter" where
  "limiter_for cfg =
     NewRateLimiter (f64_of_int (sint (rl_RatePerIP cfg))) (f64_of_int (sint (rl_Burst cfg)))
       (window_duration (scast (rl_WindowSec cfg)))"

definition same_settings :: "rate_limiter \<Rightarrow> rate_limiter \<Rightarrow> bool" where
  "same_settings l l' \<longleftrightarrow>
     lim_defaultRate l = lim_defaultRate l' \<and> lim_defaultCapacity l = lim_defaultCapacity l' \<and>
     lim_cleanupInterval l = lim_cleanupInterval l'"

lemma same_settings_refl [simp]: "same_settings l l"
  by (simp add: same_settings_def)

lemma Allow_keeps:
  assumes "Allow t0 now ip l = (ok, l')"
  shows "lim_stopped l' = lim_stopped l" and "same_settings l' l"
  using assms
  by (auto simp: Allow_def getBucket_def same_settings_def Let_def split: option.splits prod.splits)

lemma sint_scast_int32: "sint (scast (x :: int32) :: goint) = sint x"
  by (simp add: sint_up_scast is_up)

lemma getRateLimiter_cases:
  obtains (cached) i where "rlm_rateLimiters m h = Some i" "getRateLimiter rt h m = (i, m)"
  | (created) "rlm_rateLimiters m h = None"
      "getRateLimiter rt h m = (rlm_next m, put_limiter h (limiter_for (rt_GetSecurityConfigHost rt h)) m)"
  by (cases "rlm_rateLimiters m h")
    (auto simp: getRateLimiter_def getRateLimiter_locked_def limiter_for_def Let_def)

lemma on_rate_limit_update_eq:
  "on_rate_limit_update d cfg m =
     put_limiter d (limiter_for cfg)
       (case rlm_rateLimiters m d of None \<Rightarrow> m | Some i \<Rightarrow> on_limiter i limiter_Stop m)"
  by (simp add: on_rate_limit_update_def UpdateRateLimiter_def limiter_for_def sint_scast_int32 Let_def)

text \<open>What the gate does to the runtime: only the counters move.\<close>

lemma gate_runtime:
  assumes "ratelimit_gate t0 now req s = (ok, s')"
  shows "pw_rt s' = pw_rt s \<or> pw_rt s' = on_metrics RecordRateLimitAllow (pw_rt s) \<or>
    pw_rt s' = on_metrics RecordRateLimitBlock (pw_rt s)"
  using assms unfolding ratelimit_gate_def Let_def
  by (auto simp: on_writer_def on_world_metrics_def split: if_splits prod.splits)

lemma gate_state:
  assumes "ratelimit_gate t0 now req s = (ok, s')"
  shows "rt_state (pw_rt s') = rt_state (pw_rt s)"
    and "rt_onRateLimitUpdate (pw_rt s') = rt_onRateLimitUpdate (pw_rt s)"
  using gate_runtime [OF assms] by (auto simp: on_metrics_def)

section \<open>The limiters that are alive\<close>

definition rlm_inv :: "rate_limit_middleware \<Rightarrow> bool" where
  "rlm_inv m \<longleftrightarrow>
     (\<forall>d i. rlm_rateLimiters m d = Some i \<longrightarrow> i < rlm_next m) \<and>
     (\<forall>d d' i. rlm_rateLimiters m d = Some i \<and> rlm_rateLimiters m d' = Some i \<longrightarrow> d = d') \<and>
     (\<forall>i < rlm_next m. lim_stopped (rlm_store m i) \<longleftrightarrow> (\<forall>d. rlm_rateLimiters m d \<noteq> Some i))"

lemma rlm_invD:
  assumes "rlm_inv m"
  shows "rlm_rateLimiters m d = Some i \<Longrightarrow> i < rlm_next m"
    and "rlm_rateLimiters m d = Some i \<Longrightarrow> rlm_rateLimiters m d' = Some i \<Longrightarrow> d = d'"
    and "i < rlm_next m \<Longrightarrow> lim_stopped (rlm_store m i) \<longleftrightarrow> (\<forall>d. rlm_rateLimiters m d \<noteq> Some i)"
  using assms unfolding rlm_inv_def by blast+

text \<open>Replacing the limiter of a host: the old one, if there is one, is stopped first.\<close>

lemma rlm_inv_replace:
  assumes inv: "rlm_inv m" and new: "\<not> lim_stopped l"
    and sel: "rlm_rateLimiters m1 = rlm_rateLimiters m" "rlm_next m1 = rlm_next m"
    and st: "\<forall>j. lim_stopped (rlm_store m1 j) \<longleftrightarrow>
        lim_stopped (rlm_store m j) \<or> rlm_rateLimiters m h = Some j"
  shows "rlm_inv (put_limiter h l m1)"
  unfolding rlm_inv_def put_limiter_sel sel
proof (intro conjI allI impI)
  fix d i assume "((rlm_rateLimiters m)(h \<mapsto> rlm_next m)) d = Some i"
  then show "i < Suc (rlm_next m)"
    using rlm_invD(1) [OF inv, of d i] by (auto split: if_splits)
next
  fix d d' i
  assume "((rlm_rateLimiters m)(h \<mapsto> rlm_next m)) d = Some i \<and>
    ((rlm_rateLimiters m)(h \<mapsto> rlm_next m)) d' = Some i"
  then show "d = d'"
    using rlm_invD(1) [OF inv, of d i] rlm_invD(1) [OF inv, of d' i] rlm_invD(2) [OF inv, of d i d']
    by (auto split: if_splits)
next
  fix i assume i: "i < Suc (rlm_next m)"
  show "lim_stopped (((rlm_store m1)(rlm_next m := l)) i) \<longleftrightarrow>
      (\<forall>d. ((rlm_rateLimiters m)(h \<mapsto> rlm_next m)) d \<noteq> Some i)"
  proof (cases "i = rlm_next m")
    case True
    with new show ?thesis by auto
  next
    case False
    with i have lt: "i < rlm_next m" by simp
    have "(\<forall>d. ((rlm_rateLimiters m)(h \<mapsto> rlm_next m)) d \<noteq> Some i) \<longleftrightarrow>
        (\<forall>d. d \<noteq> h \<longrightarrow> rlm_rateLimiters m d \<noteq> Some i)"
      using False by auto
    also have "\<dots> \<longleftrightarrow> (\<forall>d. rlm_rateLimiters m d \<noteq> Some i) \<or> rlm_rateLimiters m h = Some i"
      using rlm_invD(2) [OF inv, of h i]
      by (cases "rlm_rateLimiters m h = Some i") (metis, metis)
    finally show ?thesis
      using False st rlm_invD(3) [OF inv lt] by simp
  qed
qed

lemma rlm_inv_new: "rlm_inv (NewRateLimitMiddleware r)"
  by (simp add: rlm_inv_def NewRateLimitMiddleware_def)

lemma rlm_inv_put:
  "rlm_inv m \<Longrightarrow> rlm_rateLimiters m h = None \<Longrightarrow> \<not> lim_stopped l \<Longrightarrow> rlm_inv (put_limiter h l m)"
  using rlm_inv_replace [of m l m h] by simp

lemma rlm_inv_on:
  assumes "rlm_inv m" and "lim_stopped (f (rlm_store m i)) = lim_stopped (rlm_store m i)"
  shows "rlm_inv (on_limiter i f m)"
  using assms unfolding rlm_inv_def by auto

lemma not_stopped_for [simp]: "\<not> lim_stopped (limiter_for cfg)"
  by (simp add: limiter_for_def NewRateLimiter_def)

lemma rlm_inv_get: "rlm_inv m \<Longrightarrow> getRateLimiter rt h m = (i, m') \<Longrightarrow> rlm_inv m'"
  by (cases rule: getRateLimiter_cases [of m h rt]) (auto intro: rlm_inv_put)

lemma rlm_inv_update: "rlm_inv m \<Longrightarrow> rlm_inv (on_rate_limit_update d cfg m)"
  unfolding on_rate_limit_update_eq
  by (rule rlm_inv_replace [where m = m]) (auto simp: limiter_Stop_def split: option.splits)

lemma rlm_inv_gate:
  assumes "rlm_inv (pw_limits s)" and "ratelimit_gate t0 now req s = (ok, s')"
  shows "rlm_inv (pw_limits s') \<and> rlm_clientIPs (pw_limits s') = rlm_clientIPs (pw_limits s)"
proof -
  let ?h = "limiter_host (rq_Host req)"
  obtain i m where g: "getRateLimiter (pw_rt s) ?h (pw_limits s) = (i, m)" by fastforce
  obtain ok' l where a: "Allow t0 now (Resolve (rlm_clientIPs (pw_limits s)) req) (rlm_store m i) = (ok', l)"
    by fastforce
  have ips: "rlm_clientIPs m = rlm_clientIPs (pw_limits s)"
    using g by (cases rule: getRateLimiter_cases [of "pw_limits s" ?h "pw_rt s"]) auto
  have "rlm_inv (on_limiter i (\<lambda>_. l) m)"
    using rlm_inv_on [OF rlm_inv_get [OF assms(1) g]] Allow_keeps(1) [OF a] by simp
  then show ?thesis
    using assms ips unfolding ratelimit_gate_def Let_def g a
    by (auto simp: on_writer_def on_world_metrics_def a split: if_splits)
qed

lemma rlm_inv_expire:
  assumes "rlm_inv m"
  shows "rlm_inv (expire_limiters rt m)"
  using assms unfolding rlm_inv_def expire_limiters_def
  by (auto simp: limiter_Stop_def split: if_splits) (metis domI option.inject)+

lemma rlm_inv_deliver: "rlm_inv m \<Longrightarrow> rlm_inv (deliver evs m)"
  by (induction evs m rule: deliver.induct) (auto intro: rlm_inv_update)

section \<open>The proxy at work\<close>

text \<open>Requests, operations of the runtime (those that \<open>P\<close> allows) and the callbacks they cause,
  probe results, counters and samples, the ticks of the cleanup loops of the limiters, and ticks of
  \<open>CleanupExpiredLimiters\<close> if \<open>expiry\<close> says that it runs (the source starts no such loop). The lock
  of the runtime covers the update alone: once it is released, a successful change of policies reads
  the state that is current by then and makes its calls one by one, and between any two of these
  steps other things happen. The pending callbacks are a list of tasks. Changes of policies overlap
  only if \<open>overlap\<close> says so; otherwise one starts when the callbacks of the last are made, as
  operators do who wait for their answers.\<close>

datatype callback_task =
    Look rt_op
  | Calls "rt_event list"

text \<open>A tick of the cleanup loop of a limiter. \<open>select\<close> may take one more also after \<open>Stop\<close>.\<close>

definition limiter_tick :: "limiter_ref \<Rightarrow> go_time \<Rightarrow> rate_limit_middleware \<Rightarrow> rate_limit_middleware" where
  "limiter_tick i now m = on_limiter i (cleanup_tick now) m"

inductive sys_reach ::
  "bool \<Rightarrow> bool \<Rightarrow> (rt_op \<Rightarrow> bool) \<Rightarrow> env \<Rightarrow> string \<Rightarrow> runtime \<Rightarrow> rate_limit_middleware
   \<Rightarrow> callback_task list \<Rightarrow> fs \<Rightarrow> bool"
  for expiry overlap P E path where
  sys_new: "NewRuntime E fs path = Inr rt \<Longrightarrow>
    sys_reach expiry overlap P E path
      (rt_SetOnRateLimitUpdate True (rt_SetOnBackendHealthCheckRequired True rt))
      (NewRateLimitMiddleware r) [] fs"
| sys_request: "sys_reach expiry overlap P E path rt m ts fs \<Longrightarrow>
    public_root H t0 now (rlm_clientIPs m) req \<lparr>pw_rt = rt, pw_limits = m, pw_writer = w\<rparr> = Some s' \<Longrightarrow>
    sys_reach expiry overlap P E path (pw_rt s') (pw_limits s') ts fs"
| sys_op: "sys_reach expiry overlap P E path rt m ts fs \<Longrightarrow>
    rt_exec E io op rt fs = (r, rt', fs', evs) \<Longrightarrow> P op \<Longrightarrow>
    overlap \<or> \<not> policy_edit op \<or> ts = [] \<Longrightarrow>
    sys_reach expiry overlap P E path rt' m (if r = None \<and> policy_edit op then ts @ [Look op] else ts) fs'"
| sys_look: "sys_reach expiry overlap P E path rt m (us @ Look op # ws) fs \<Longrightarrow>
    sys_reach expiry overlap P E path rt m (us @ Calls (op_callbacks op rt) # ws) fs"
| sys_call: "sys_reach expiry overlap P E path rt m (us @ Calls (ev # evs) # ws) fs \<Longrightarrow>
    sys_reach expiry overlap P E path rt (deliver [ev] m) (us @ Calls evs # ws) fs"
| sys_return: "sys_reach expiry overlap P E path rt m (us @ Calls [] # ws) fs \<Longrightarrow>
    sys_reach expiry overlap P E path rt m (us @ ws) fs"
| sys_probe: "sys_reach expiry overlap P E path rt m ts fs \<Longrightarrow>
    sys_reach expiry overlap P E path (rt\<lparr>rt_store := st_modify a f (rt_store rt)\<rparr>) m ts fs"
| sys_metrics: "sys_reach expiry overlap P E path rt m ts fs \<Longrightarrow>
    dom (mt_Backends k) = dom (mt_Backends (rt_Metrics rt)) \<Longrightarrow>
    sys_reach expiry overlap P E path (rt\<lparr>rt_Metrics := k\<rparr>) m ts fs"
| sys_tick: "sys_reach expiry overlap P E path rt m ts fs \<Longrightarrow>
    sys_reach expiry overlap P E path rt (limiter_tick i now m) ts fs"
| sys_expire: "sys_reach expiry overlap P E path rt m ts fs \<Longrightarrow> expiry \<Longrightarrow>
    sys_reach expiry overlap P E path rt (expire_limiters rt m) ts fs"

text \<open>An operation whose callbacks nothing interrupts.\<close>

lemma deliver_Cons: "deliver (ev # evs) m = deliver evs (deliver [ev] m)"
  by (cases ev) simp_all

lemma deliver_quiet: "(\<And>d c. Ev_RateLimitUpdate d c \<notin> set evs) \<Longrightarrow> deliver evs m = m"
  by (induction evs m rule: deliver.induct) auto

lemma sys_calls:
  "sys_reach expiry overlap P E path rt m (Calls evs # ts) fs \<Longrightarrow>
   sys_reach expiry overlap P E path rt (deliver evs m) ts fs"
proof (induction evs arbitrary: m)
  case Nil
  then show ?case using sys_return [where us = "[]"] by simp
next
  case (Cons ev evs)
  from Cons.IH [OF sys_call [where us = "[]", simplified, OF Cons.prems]] show ?case
    by (subst deliver_Cons)
qed

lemma sys_op_delivered:
  assumes "sys_reach expiry overlap P E path rt m [] fs"
    and ex: "rt_exec E io op rt fs = (r, rt', fs', evs)" and "P op"
  shows "sys_reach expiry overlap P E path rt' (deliver evs m) [] fs'"
proof -
  note op = sys_op [OF assms(1) ex assms(3)]
  show ?thesis
  proof (cases "r = None \<and> policy_edit op")
    case True
    with op have "sys_reach expiry overlap P E path rt' m ([] @ Look op # []) fs'" by simp
    from sys_calls [OF sys_look [OF this, simplified]] exec_callbacks [of E io op rt fs rt' fs' evs] ex True
    show ?thesis by simp
  next
    case False
    have "deliver evs m = m" by (rule deliver_quiet) (rule exec_quiet [OF ex False])
    with op False show ?thesis by auto
  qed
qed

lemma reach_gate:
  assumes "rt_reach E path (pw_rt s) fs" and "ratelimit_gate t0 now req s = (ok, s')"
  shows "rt_reach E path (pw_rt s') fs"
  using gate_runtime [OF assms(2)] assms(1)
  by (elim disjE) (auto intro!: reach_on_metrics simp: RecordRateLimitAllow_def RecordRateLimitBlock_def)

text \<open>What a request does to runtime and limiters.\<close>

lemma public_root_cases:
  assumes "public_root H t0 now r req s = Some s'"
  obtains ok s1 where "ratelimit_gate t0 now (resolved_request r req) s = (ok, s1)"
    "pw_limits s' = pw_limits s1" "pw_rt s' = pw_rt s1 \<or>
      (\<exists>w w'. ProxyHandler H (pw_rt s1) (resolved_request r req) w = Some (pw_rt s', w'))"
proof -
  obtain ok s1 where g: "ratelimit_gate t0 now (resolved_request r req) s = (ok, s1)" by fastforce
  show thesis
  proof (rule that [OF g])
    show "pw_limits s' = pw_limits s1"
      using assms g by (cases ok)
        (auto simp: public_root_eq ratelimit_Middleware_def proxy_handler_def split: option.splits)
    show "pw_rt s' = pw_rt s1 \<or>
      (\<exists>w w'. ProxyHandler H (pw_rt s1) (resolved_request r req) w = Some (pw_rt s', w'))"
      using assms g by (cases ok)
        (auto simp: public_root_eq ratelimit_Middleware_def proxy_handler_def split: option.splits)
  qed
qed

lemma request_state:
  assumes "public_root H t0 now r req s = Some s'"
  shows "rt_state (pw_rt s') = rt_state (pw_rt s)"
  using assms
proof (rule public_root_cases)
  fix ok s1
  assume g: "ratelimit_gate t0 now (resolved_request r req) s = (ok, s1)"
    and h: "pw_rt s' = pw_rt s1 \<or>
      (\<exists>w w'. ProxyHandler H (pw_rt s1) (resolved_request r req) w = Some (pw_rt s', w'))"
  from h have "rt_state (pw_rt s') = rt_state (pw_rt s1)" using handler_frame by metis
  then show ?thesis using gate_state(1) [OF g] by simp
qed

lemma sys_reach_rt:
  assumes "sys_reach expiry overlap P E path rt m ts fs"
  shows "rt_reach E path rt fs"
  using assms
proof induction
  case (sys_new fs rt r)
  then show ?case by (intro rr_callbacks rr_new)
next
  case (sys_request rt m ts fs H t0 now req w s')
  from sys_request.hyps(2) show ?case
  proof (rule public_root_cases)
    fix ok s1
    assume g: "ratelimit_gate t0 now (resolved_request (rlm_clientIPs m) req)
        \<lparr>pw_rt = rt, pw_limits = m, pw_writer = w\<rparr> = (ok, s1)"
      and h: "pw_rt s' = pw_rt s1 \<or>
        (\<exists>w w'. ProxyHandler H (pw_rt s1) (resolved_request (rlm_clientIPs m) req) w = Some (pw_rt s', w'))"
    have "rt_reach E path (pw_rt s1) fs" using reach_gate [OF _ g] sys_request.IH by simp
    with h show ?thesis by (auto dest: handler_reach)
  qed
next
  case (sys_op rt m ts fs io op r rt' fs' evs)
  from sys_op.IH sys_op.hyps(2) show ?case by (rule rr_op)
next
  case (sys_probe rt m ts fs a f)
  from sys_probe.IH show ?case by (rule rr_status)
next
  case (sys_metrics rt m ts fs k)
  from sys_metrics.IH sys_metrics.hyps(2) show ?case by (rule rr_metrics)
qed simp

lemma rlm_inv_tick: "rlm_inv m \<Longrightarrow> rlm_inv (limiter_tick i now m)"
  unfolding limiter_tick_def by (auto intro: rlm_inv_on simp: cleanup_tick_def)

lemma sys_reach_rlm:
  assumes "sys_reach expiry overlap P E path rt m ts fs"
  shows "rlm_inv m"
  using assms
proof induction
  case (sys_request rt m ts fs H t0 now req w s')
  from sys_request.hyps(2) show ?case
  proof (rule public_root_cases)
    fix ok s1
    assume "ratelimit_gate t0 now (resolved_request (rlm_clientIPs m) req)
        \<lparr>pw_rt = rt, pw_limits = m, pw_writer = w\<rparr> = (ok, s1)"
      and l: "pw_limits s' = pw_limits s1"
    from rlm_inv_gate [OF _ this(1)] sys_request.IH l show ?thesis by simp
  qed
qed (simp_all add: rlm_inv_new rlm_inv_deliver rlm_inv_expire rlm_inv_tick)

section \<open>Limiters and the settings in effect\<close>

text \<open>The limiters have the settings that a table gives, except for the domains in \<open>X\<close>.\<close>

definition lims_current :: "string set \<Rightarrow> (string \<Rightarrow> rate_limiting_config) \<Rightarrow> rate_limit_middleware \<Rightarrow> bool" where
  "lims_current X cfg m \<longleftrightarrow>
     (\<forall>d i. rlm_rateLimiters m d = Some i \<and> CHR '':'' \<notin> set d \<and> d \<notin> X \<longrightarrow>
            same_settings (rlm_store m i) (limiter_for (cfg d)))"

lemma lims_current_gate:
  assumes inv: "rlm_inv (pw_limits s)"
    and cur: "lims_current X (rt_GetSecurityConfigHost (pw_rt s)) (pw_limits s)"
    and g: "ratelimit_gate t0 now req s = (ok, s')"
  shows "lims_current X (rt_GetSecurityConfigHost (pw_rt s)) (pw_limits s')"
proof -
  let ?h = "limiter_host (rq_Host req)" and ?cfg = "rt_GetSecurityConfigHost (pw_rt s)"
  obtain i m where gl: "getRateLimiter (pw_rt s) ?h (pw_limits s) = (i, m)" by fastforce
  obtain ok' l where a: "Allow t0 now (Resolve (rlm_clientIPs (pw_limits s)) req) (rlm_store m i) = (ok', l)"
    by fastforce
  have m: "lims_current X ?cfg m"
  proof (cases rule: getRateLimiter_cases [of "pw_limits s" ?h "pw_rt s"])
    case (cached j)
    with gl cur show ?thesis by simp
  next
    case created
    with gl have "m = put_limiter ?h (limiter_for (?cfg ?h)) (pw_limits s)" by simp
    with cur show ?thesis
      using rlm_invD(1) [OF inv] unfolding lims_current_def by auto
  qed
  have "lims_current X ?cfg (on_limiter i (\<lambda>_. l) m)"
    using m Allow_keeps(2) [OF a] unfolding lims_current_def
    by (auto simp: same_settings_def)
  then show ?thesis
    using g cur unfolding ratelimit_gate_def Let_def gl
    by (auto simp: on_writer_def on_world_metrics_def a split: if_splits)
qed

lemma lims_current_update:
  assumes inv: "rlm_inv m" and cur: "lims_current X cfg m" and c: "CHR '':'' \<notin> set d \<longrightarrow> c = cfg d"
  shows "lims_current (X - {d}) cfg (on_rate_limit_update d c m)"
  unfolding lims_current_def
proof (intro allI impI, elim conjE)
  let ?m = "on_rate_limit_update d c m"
  fix e i assume e: "rlm_rateLimiters ?m e = Some i" "CHR '':'' \<notin> set e" "e \<notin> X - {d}"
  show "same_settings (rlm_store ?m i) (limiter_for (cfg e))"
  proof (cases "e = d")
    case True
    with e c show ?thesis by (simp add: on_rate_limit_update_eq split: option.splits)
  next
    case False
    with e(1) have m: "rlm_rateLimiters m e = Some i"
      by (auto simp: on_rate_limit_update_eq split: option.splits)
    have "i \<noteq> rlm_next m" using rlm_invD(1) [OF inv m] by simp
    moreover have "rlm_rateLimiters m d \<noteq> Some i"
      using rlm_invD(2) [OF inv m, of d] False by blast
    ultimately have "rlm_store ?m i = rlm_store m i"
      by (cases "rlm_rateLimiters m d") (auto simp: on_rate_limit_update_eq)
    with cur m e False show ?thesis by (simp add: lims_current_def)
  qed
qed

text \<open>The domains that the pending callbacks still reach, and what holds of these callbacks if
  changes of policies do not overlap: there is one at most, and it will install what is in effect.\<close>

definition awaited :: "callback_task list \<Rightarrow> runtime \<Rightarrow> string set" where
  "awaited ts rt =
     {d. \<exists>op c. Look op \<in> set ts \<and> Ev_RateLimitUpdate d c \<in> set (op_callbacks op rt)} \<union>
     {d. \<exists>evs c. Calls evs \<in> set ts \<and> Ev_RateLimitUpdate d c \<in> set evs}"

definition calls_current :: "callback_task list \<Rightarrow> runtime \<Rightarrow> bool" where
  "calls_current ts rt \<longleftrightarrow> length ts \<le> 1 \<and>
     (\<forall>p. Look (RT_UpsertPolicy p) \<in> set ts \<longrightarrow> snd (policy_data rt) (sp_Id p) = Some p) \<and>
     (\<forall>evs d c. Calls evs \<in> set ts \<and> Ev_RateLimitUpdate d c \<in> set evs \<and> CHR '':'' \<notin> set d \<longrightarrow>
        c = rt_GetSecurityConfigHost rt d)"

definition settings_follow :: "callback_task list \<Rightarrow> runtime \<Rightarrow> rate_limit_middleware \<Rightarrow> bool" where
  "settings_follow ts rt m \<longleftrightarrow>
     calls_current ts rt \<and> lims_current (awaited ts rt) (rt_GetSecurityConfigHost rt) m"

lemma op_callbacks_state:
  "rt_state rt' = rt_state rt \<Longrightarrow> rt_onRateLimitUpdate rt' = rt_onRateLimitUpdate rt \<Longrightarrow>
   op_callbacks op rt' = op_callbacks op rt"
  by (cases op) (simp_all add: State_def GetSecurityConfigHost_state [of rt' rt])

lemma settings_follow_state:
  assumes "settings_follow ts rt m" and "rt_state rt' = rt_state rt"
    and "rt_onRateLimitUpdate rt' = rt_onRateLimitUpdate rt"
  shows "settings_follow ts rt' m"
proof -
  have limits: "rt_GetSecurityConfigHost rt' = rt_GetSecurityConfigHost rt"
    by (intro ext GetSecurityConfigHost_state assms(2))
  have "op_callbacks op rt' = op_callbacks op rt" for op by (rule op_callbacks_state [OF assms(2,3)])
  then have "awaited ts rt' = awaited ts rt" by (simp add: awaited_def)
  moreover have "calls_current ts rt' = calls_current ts rt"
    unfolding calls_current_def policy_data_state [OF assms(2)] limits ..
  ultimately show ?thesis using assms(1) unfolding settings_follow_def limits by simp
qed

lemma single_split:
  assumes "length (us @ t # ws) \<le> 1"
  shows "us = []" and "ws = []"
  using assms by auto

text \<open>What the callbacks announce is in effect, and they reach every domain whose settings change.\<close>

lemma settings_follow_look:
  assumes inv: "rt_inv E path rt fs" "rt_onRateLimitUpdate rt"
    and f: "settings_follow (us @ Look op # ws) rt m"
  shows "settings_follow (us @ Calls (op_callbacks op rt) # ws) rt m"
proof -
  have one: "us = []" "ws = []" using f single_split by (auto simp: settings_follow_def calls_current_def)
  have eff: "c = rt_GetSecurityConfigHost rt d"
    if ev: "Ev_RateLimitUpdate d c \<in> set (op_callbacks op rt)" and "CHR '':'' \<notin> set d" for d c
  proof (cases "\<exists>p. op = RT_UpsertPolicy p")
    case True
    then obtain p where op: "op = RT_UpsertPolicy p" by blast
    with f have p: "snd (policy_data rt) (sp_Id p) = Some p"
      by (simp add: settings_follow_def calls_current_def)
    from ev have "fst (policy_data rt) d = Some (sp_Id p)" "c = sp_RateLimiting p"
      unfolding op_callbacks_iff [OF inv] by (simp_all add: op)
    with p show ?thesis by (simp add: policy_data_limits cut_port_no_colon [OF that(2)])
  next
    case False
    with ev show ?thesis unfolding op_callbacks_iff [OF inv] by (cases op) auto
  qed
  have "awaited [Look op] rt = awaited [Calls (op_callbacks op rt)] rt" by (auto simp: awaited_def)
  with f eff show ?thesis by (auto simp: one settings_follow_def calls_current_def)
qed

lemma settings_follow_call:
  assumes "rlm_inv m" and f: "settings_follow (us @ Calls (ev # evs) # ws) rt m"
  shows "settings_follow (us @ Calls evs # ws) rt (deliver [ev] m)"
proof -
  have one: "us = []" "ws = []" using f single_split by (auto simp: settings_follow_def calls_current_def)
  have calls: "calls_current [Calls evs] rt"
    using f by (auto simp: one settings_follow_def calls_current_def)
  have cur: "lims_current (awaited [Calls (ev # evs)] rt) (rt_GetSecurityConfigHost rt) m"
    using f by (simp add: one settings_follow_def)
  show ?thesis
  proof (cases ev)
    case (Ev_RateLimitUpdate d c)
    have "CHR '':'' \<notin> set d \<longrightarrow> c = rt_GetSecurityConfigHost rt d"
      using f by (auto simp: one Ev_RateLimitUpdate settings_follow_def calls_current_def)
    from lims_current_update [OF assms(1) cur this]
    have "lims_current (awaited [Calls (ev # evs)] rt - {d}) (rt_GetSecurityConfigHost rt) (deliver [ev] m)"
      by (simp add: Ev_RateLimitUpdate)
    moreover have "awaited [Calls (ev # evs)] rt - {d} \<subseteq> awaited [Calls evs] rt"
      by (auto simp: awaited_def Ev_RateLimitUpdate)
    ultimately show ?thesis
      using calls by (auto simp: one settings_follow_def lims_current_def)
  next
    case (Ev_HealthCheckRequired b)
    have "awaited [Calls (ev # evs)] rt = awaited [Calls evs] rt"
      by (auto simp: awaited_def Ev_HealthCheckRequired)
    with cur calls show ?thesis by (simp add: one settings_follow_def Ev_HealthCheckRequired)
  qed
qed

lemma settings_follow_op:
  assumes reach: "rt_reach E path rt fs" "json_roundtrip E" "rt_onRateLimitUpdate rt" "rt_onRateLimitUpdate rt'"
    and ex: "rt_exec E io op rt fs = (r, rt', fs', evs)" and nv: "\<not> vhost_edit op"
    and alone: "\<not> policy_edit op \<or> ts = []" and f: "settings_follow ts rt m"
  shows "settings_follow (if r = None \<and> policy_edit op then ts @ [Look op] else ts) rt' m"
proof (cases "r = None \<and> policy_edit op")
  case True
  with alone have ts: "ts = []" by simp
  from True ex have ex: "rt_exec E io op rt fs = (None, rt', fs', evs)" by simp
  have "rt_GetSecurityConfigHost rt' d = rt_GetSecurityConfigHost rt d"
    if "CHR '':'' \<notin> set d" "d \<notin> awaited [Look op] rt'" for d
    using policy_change_announced [OF reach(1,2) ex _ reach(3) that(1)] exec_callbacks [OF ex] that(2) True
    by (auto simp: awaited_def)
  with f have "lims_current (awaited [Look op] rt') (rt_GetSecurityConfigHost rt') m"
    by (auto simp: ts settings_follow_def lims_current_def awaited_def)
  moreover have "calls_current [Look op] rt'"
    using upsert_policy_data [OF reach(1,2)] ex by (auto simp: calls_current_def)
  ultimately show ?thesis using True by (simp add: ts settings_follow_def)
next
  case False
  note inv = rt_reach_inv [OF reach(1,2)]
  note inv' = rt_reach_inv [OF rr_op [OF reach(1) ex] reach(2)]
  have data: "policy_data rt' = policy_data rt"
    using policy_data_unchanged [OF reach(1,2) ex] False nv by blast
  then have limits: "rt_GetSecurityConfigHost rt' = rt_GetSecurityConfigHost rt"
    by (intro ext) (simp only: policy_data_limits)
  have "Ev_RateLimitUpdate d c \<in> set (op_callbacks o' rt') \<longleftrightarrow> Ev_RateLimitUpdate d c \<in> set (op_callbacks o' rt)"
    for d c o' unfolding op_callbacks_iff [OF inv reach(3)] op_callbacks_iff [OF inv' reach(4)] data limits ..
  then have "awaited ts rt' = awaited ts rt" by (simp add: awaited_def)
  moreover have "calls_current ts rt' = calls_current ts rt"
    unfolding calls_current_def data limits ..
  ultimately show ?thesis using f unfolding if_not_P [OF False] settings_follow_def limits by simp
qed

lemma sys_reach_callback:
  assumes "sys_reach expiry overlap P E path rt m ts fs"
  shows "rt_onRateLimitUpdate rt"
  using assms
proof induction
  case (sys_request rt m ts fs H t0 now req w s')
  from sys_request.hyps(2) show ?case
  proof (rule public_root_cases)
    fix ok s1
    assume g: "ratelimit_gate t0 now (resolved_request (rlm_clientIPs m) req)
        \<lparr>pw_rt = rt, pw_limits = m, pw_writer = w\<rparr> = (ok, s1)"
      and h: "pw_rt s' = pw_rt s1 \<or>
        (\<exists>w w'. ProxyHandler H (pw_rt s1) (resolved_request (rlm_clientIPs m) req) w = Some (pw_rt s', w'))"
    have "rt_onRateLimitUpdate (pw_rt s1)" using gate_state(2) [OF g] sys_request.IH by simp
    with h show ?thesis by (auto dest: handler_callback)
  qed
next
  case (sys_op rt m ts fs io op r rt' fs' evs)
  from sys_op.hyps(2) sys_op.IH show ?case
    by (cases rule: rt_exec_cases) (auto simp: Let_def publish_simps)
qed (simp_all add: rt_SetOnRateLimitUpdate_def)

lemma settings_follow_request:
  assumes f: "settings_follow ts rt m" and inv: "rlm_inv m" and cb: "rt_onRateLimitUpdate rt"
    and p: "public_root H t0 now r req \<lparr>pw_rt = rt, pw_limits = m, pw_writer = w\<rparr> = Some s'"
    and cb': "rt_onRateLimitUpdate (pw_rt s')"
  shows "settings_follow ts (pw_rt s') (pw_limits s')"
  using p
proof (rule public_root_cases)
  fix ok s1
  assume g: "ratelimit_gate t0 now (resolved_request r req) \<lparr>pw_rt = rt, pw_limits = m, pw_writer = w\<rparr> = (ok, s1)"
    and l: "pw_limits s' = pw_limits s1"
  have "settings_follow ts rt (pw_limits s')"
    using lims_current_gate [OF _ _ g, of "awaited ts rt"] f inv l by (simp add: settings_follow_def)
  moreover have "rt_state (pw_rt s') = rt_state rt" using request_state [OF p] by simp
  ultimately show ?thesis by (rule settings_follow_state) (simp add: cb cb')
qed

lemma sys_reach_current:
  assumes "sys_reach expiry False P E path rt m ts fs" and "json_roundtrip E"
    and "\<forall>op. P op \<longrightarrow> \<not> vhost_edit op"
  shows "settings_follow ts rt m"
  using assms(1)
proof induction
  case (sys_new fs rt r)
  then show ?case
    by (simp add: settings_follow_def calls_current_def lims_current_def NewRateLimitMiddleware_def)
next
  case (sys_request rt m ts fs H t0 now req w s')
  from settings_follow_request [OF sys_request.IH sys_reach_rlm [OF sys_request.hyps(1)]
      sys_reach_callback [OF sys_request.hyps(1)] sys_request.hyps(2)]
    sys_reach_callback [OF sys_reach.sys_request [OF sys_request.hyps]]
  show ?case by simp
next
  case (sys_op rt m ts fs io op r rt' fs' evs)
  show ?case
    by (rule settings_follow_op [OF sys_reach_rt [OF sys_op.hyps(1)] assms(2) sys_reach_callback [OF sys_op.hyps(1)]
        sys_reach_callback [OF sys_reach.sys_op [OF sys_op.hyps]] sys_op.hyps(2)])
      (use sys_op.IH sys_op.hyps(3,4) assms(3) in auto)
next
  case (sys_look rt m us op ws fs)
  show ?case
    by (rule settings_follow_look [OF rt_reach_inv [OF sys_reach_rt [OF sys_look.hyps] assms(2)]
        sys_reach_callback [OF sys_look.hyps] sys_look.IH])
next
  case (sys_call rt m us ev evs ws fs)
  show ?case by (rule settings_follow_call [OF sys_reach_rlm [OF sys_call.hyps] sys_call.IH])
next
  case (sys_return rt m us ws fs)
  have one: "us = []" "ws = []"
    using sys_return.IH single_split by (auto simp: settings_follow_def calls_current_def)
  have "awaited [Calls []] rt = awaited [] rt" by (auto simp: awaited_def)
  with sys_return.IH show ?case by (simp add: one settings_follow_def calls_current_def)
next
  case (sys_probe rt m ts fs a f)
  from sys_probe.IH show ?case by (rule settings_follow_state) simp_all
next
  case (sys_metrics rt m ts fs k)
  from sys_metrics.IH show ?case by (rule settings_follow_state) simp_all
next
  case (sys_tick rt m ts fs i now)
  then show ?case
    unfolding settings_follow_def lims_current_def limiter_tick_def
    by (auto simp: cleanup_tick_def same_settings_def split: if_splits)
next
  case (sys_expire rt m ts fs)
  then show ?case
    unfolding settings_follow_def lims_current_def expire_limiters_def
    by (auto simp: limiter_Stop_def same_settings_def split: if_splits)
qed

section \<open>A sequence of requests\<close>

record visit =
  vs_t0 :: go_time
  vs_now :: go_time
  vs_env :: http_env
  vs_req :: request
  vs_writer :: response_writer

text \<open>The traffic of a running proxy: requests, and the ticks of the cleanup loop that the limiter of
  a host runs from its creation on.\<close>

datatype traffic =
    Visit visit
  | Cleanup string go_time

definition host_tick :: "string \<Rightarrow> go_time \<Rightarrow> rate_limit_middleware \<Rightarrow> rate_limit_middleware" where
  "host_tick d now m =
     (case rlm_rateLimiters m d of None \<Rightarrow> m | Some i \<Rightarrow> limiter_tick i now m)"

text \<open>For each request its host, what stands for the client, and whether it passes the limiter.\<close>

fun visits_run :: "traffic list \<Rightarrow> runtime \<Rightarrow> rate_limit_middleware \<Rightarrow> (string \<times> string \<times> bool) list" where
  "visits_run [] rt m = []"
| "visits_run (Visit v # vs) rt m =
     (let s = \<lparr>pw_rt = rt, pw_limits = m, pw_writer = vs_writer v\<rparr>;
          r = rlm_clientIPs m;
          passed = fst (ratelimit_gate (vs_t0 v) (vs_now v) (resolved_request r (vs_req v)) s)
      in case public_root (vs_env v) (vs_t0 v) (vs_now v) r (vs_req v) s of
           None \<Rightarrow> []
         | Some s' \<Rightarrow>
             (limiter_host (rq_Host (vs_req v)), Resolve r (vs_req v), passed) #
               visits_run vs (pw_rt s') (pw_limits s'))"
| "visits_run (Cleanup d now # vs) rt m = visits_run vs rt (host_tick d now m)"

text \<open>What the limiter of the host \<open>d\<close> gets to do.\<close>

fun visit_ops :: "client_ip_resolver \<Rightarrow> string \<Rightarrow> traffic list \<Rightarrow> lim_op list" where
  "visit_ops r d [] = []"
| "visit_ops r d (Visit v # vs) =
     (if limiter_host (rq_Host (vs_req v)) = d
      then Lim_Allow (Resolve r (vs_req v)) (vs_t0 v) (vs_now v) # visit_ops r d vs else visit_ops r d vs)"
| "visit_ops r d (Cleanup d' now # vs) =
     (if d' = d then Lim_Tick now # visit_ops r d vs else visit_ops r d vs)"

fun traffic_clock :: "traffic list \<Rightarrow> go_time list" where
  "traffic_clock [] = []"
| "traffic_clock (Visit v # vs) = vs_t0 v # vs_now v # traffic_clock vs"
| "traffic_clock (Cleanup d now # vs) = now # traffic_clock vs"

definition host_decisions :: "string \<Rightarrow> (string \<times> string \<times> bool) list \<Rightarrow> (string \<times> bool) list" where
  "host_decisions d ds = map snd (filter (\<lambda>x. fst x = d) ds)"

text \<open>The limiter that the next request for a host meets.\<close>

definition current_limiter :: "rate_limiting_config \<Rightarrow> string \<Rightarrow> rate_limit_middleware \<Rightarrow> rate_limiter" where
  "current_limiter cfg d m =
     (case rlm_rateLimiters m d of Some i \<Rightarrow> rlm_store m i | None \<Rightarrow> limiter_for cfg)"

lemma gate_step:
  assumes inv: "rlm_inv (pw_limits s)" and g: "ratelimit_gate t0 now req s = (ok, s')"
    and cfg: "rt_GetSecurityConfigHost (pw_rt s) d = cfg" and en: "rl_Enabled cfg"
  shows "limiter_host (rq_Host req) = d \<Longrightarrow>
      Allow t0 now (Resolve (rlm_clientIPs (pw_limits s)) req) (current_limiter cfg d (pw_limits s)) =
        (ok, current_limiter cfg d (pw_limits s'))"
    and "limiter_host (rq_Host req) \<noteq> d \<Longrightarrow>
      current_limiter cfg d (pw_limits s') = current_limiter cfg d (pw_limits s)"
proof -
  let ?h = "limiter_host (rq_Host req)" and ?m = "pw_limits s"
  let ?c = "rt_GetSecurityConfigHost (pw_rt s) (rq_Host req)"
  obtain i m where gl: "getRateLimiter (pw_rt s) ?h ?m = (i, m)" by fastforce
  obtain ok' l where a: "Allow t0 now (Resolve (rlm_clientIPs ?m) req) (rlm_store m i) = (ok', l)"
    by fastforce
  have on: "ok = ok'" "pw_limits s' = on_limiter i (\<lambda>_. l) m" if "rl_Enabled ?c"
    using g that unfolding ratelimit_gate_def Let_def gl
    by (auto simp: on_writer_def on_world_metrics_def a split: if_splits)
  have off: "pw_limits s' = ?m" if "\<not> rl_Enabled ?c"
    using g that unfolding ratelimit_gate_def Let_def by auto
  have c: "?c = rt_GetSecurityConfigHost (pw_rt s) ?h"
    by (simp add: limiter_host_cut GetSecurityConfigHost_cut)
  have at: "rlm_rateLimiters m ?h = Some i \<and> rlm_store m i = current_limiter (rt_GetSecurityConfigHost (pw_rt s) ?h) ?h ?m"
    by (cases rule: getRateLimiter_cases [of ?m ?h "pw_rt s"]) (use gl in \<open>auto simp: current_limiter_def\<close>)
  {
    assume h: "?h = d"
    then have "rl_Enabled ?c" using c cfg en by simp
    then show "Allow t0 now (Resolve (rlm_clientIPs ?m) req) (current_limiter cfg d ?m) =
        (ok, current_limiter cfg d (pw_limits s'))"
      using on a at h cfg by (simp add: current_limiter_def)
  next
    assume h: "?h \<noteq> d"
    show "current_limiter cfg d (pw_limits s') = current_limiter cfg d ?m"
    proof (cases "rl_Enabled ?c")
      case True
      have "rlm_rateLimiters m d = rlm_rateLimiters ?m d"
        by (cases rule: getRateLimiter_cases [of ?m ?h "pw_rt s"]) (use gl h in auto)
      moreover have "rlm_store m j = rlm_store ?m j" "j \<noteq> i" if "rlm_rateLimiters ?m d = Some j" for j
      proof -
        show "rlm_store m j = rlm_store ?m j"
          using rlm_invD(1) [OF inv that] gl
          by (cases rule: getRateLimiter_cases [of ?m ?h "pw_rt s"]) auto
        show "j \<noteq> i"
          using at h that calculation rlm_invD(2) [OF rlm_inv_get [OF inv gl], of d j ?h] by auto
      qed
      ultimately show ?thesis
        using on(2) [OF True] by (auto simp: current_limiter_def split: option.splits)
    qed (simp add: off)
  }
qed

lemma limiter_tick_sel [simp]:
  "rlm_rateLimiters (limiter_tick i now m) = rlm_rateLimiters m"
  "rlm_clientIPs (limiter_tick i now m) = rlm_clientIPs m"
  "rlm_store (limiter_tick i now m) = (rlm_store m)(i := cleanup_tick now (rlm_store m i))"
  by (simp_all add: limiter_tick_def)

lemma cleanup_fresh: "cleanup_tick now (limiter_for cfg) = limiter_for cfg"
  by (simp add: cleanup_tick_def limiter_for_def NewRateLimiter_def)

lemma host_tick_step:
  assumes "rlm_inv m"
  shows "current_limiter cfg d (host_tick d' now m) =
       (if d' = d then cleanup_tick now (current_limiter cfg d m) else current_limiter cfg d m)"
    and "rlm_inv (host_tick d' now m)" and "rlm_clientIPs (host_tick d' now m) = rlm_clientIPs m"
proof -
  have other: "i \<noteq> j" if "rlm_rateLimiters m d' = Some i" "rlm_rateLimiters m d = Some j" "d' \<noteq> d" for i j
    using rlm_invD(2) [OF assms that(1), of d] that by auto
  show "current_limiter cfg d (host_tick d' now m) =
       (if d' = d then cleanup_tick now (current_limiter cfg d m) else current_limiter cfg d m)"
    using other by (auto simp: current_limiter_def host_tick_def cleanup_fresh split: option.split)
  show "rlm_inv (host_tick d' now m)" "rlm_clientIPs (host_tick d' now m) = rlm_clientIPs m"
    using rlm_inv_tick [OF assms] assms by (auto simp: host_tick_def split: option.split)
qed

lemma visits_run_limiter:
  assumes "rlm_inv m" and "rt_GetSecurityConfigHost rt d = cfg" and "rl_Enabled cfg"
  shows "host_decisions d (visits_run vs rt m) =
     lim_run (visit_ops (rlm_clientIPs m) d vs) (current_limiter cfg d m)"
  using assms(1,2)
proof (induction vs rt m rule: visits_run.induct)
  case (1 rt m)
  then show ?case by (simp add: host_decisions_def)
next
  case (3 d' now vs rt m)
  note tick = host_tick_step [OF "3.prems"(1), where d' = d' and now = now]
  from "3.IH" [OF tick(2) "3.prems"(2)] show ?case by (simp add: tick)
next
  case (2 v vs rt m)
  let ?s = "\<lparr>pw_rt = rt, pw_limits = m, pw_writer = vs_writer v\<rparr>" and ?r = "rlm_clientIPs m"
  let ?req = "resolved_request ?r (vs_req v)"
  obtain ok s1 where g: "ratelimit_gate (vs_t0 v) (vs_now v) ?req ?s = (ok, s1)" by fastforce
  have host: "rq_Host ?req = rq_Host (vs_req v)" by (simp add: resolved_request_def)
  have ip: "Resolve ?r ?req = Resolve ?r (vs_req v)" using resolved_same by blast
  obtain s' where p: "public_root (vs_env v) (vs_t0 v) (vs_now v) ?r (vs_req v) ?s = Some s'"
    "pw_limits s' = pw_limits s1"
  proof (cases ok)
    case False
    with g that show thesis by (auto simp: public_root_eq ratelimit_Middleware_def)
  next
    case True
    obtain rt' w' where "ProxyHandler (vs_env v) (pw_rt s1) ?req (pw_writer s1) = Some (rt', w')"
      by (rule handler_total)
    with g that True show thesis
      by (auto simp: public_root_eq ratelimit_Middleware_def proxy_handler_def)
  qed
  have inv: "rlm_inv (pw_limits s')" "rlm_clientIPs (pw_limits s') = ?r"
    using rlm_inv_gate [OF _ g] "2.prems"(1) p(2) by auto
  have "rt_GetSecurityConfigHost (pw_rt s') d = cfg"
    using request_state [OF p(1)] GetSecurityConfigHost_state [of "pw_rt s'" rt] "2.prems"(2) by simp
  from "2.IH" [OF refl refl refl p(1) inv(1) this] inv(2)
  have IH: "host_decisions d (visits_run vs (pw_rt s') (pw_limits s')) =
      lim_run (visit_ops ?r d vs) (current_limiter cfg d (pw_limits s1))"
    by (simp add: p(2))
  note step = gate_step [OF _ g _ assms(3), of d]
  have run: "visits_run (Visit v # vs) rt m =
      (limiter_host (rq_Host (vs_req v)), Resolve ?r (vs_req v), ok) # visits_run vs (pw_rt s') (pw_limits s')"
    using p(1) g by (simp add: Let_def)
  show ?case
  proof (cases "limiter_host (rq_Host (vs_req v)) = d")
    case True
    have "Allow (vs_t0 v) (vs_now v) (Resolve ?r (vs_req v)) (current_limiter cfg d m) =
        (ok, current_limiter cfg d (pw_limits s1))"
      using step(1) "2.prems" True host ip by simp
    with IH True show ?thesis
      unfolding run by (simp add: host_decisions_def)
  next
    case False
    have "current_limiter cfg d (pw_limits s1) = current_limiter cfg d m"
      using step(2) "2.prems" False host by simp
    with IH False show ?thesis
      unfolding run by (simp add: host_decisions_def)
  qed
qed

section \<open>What clients get\<close>

lemma enabled_positive:
  assumes "rt_inv E path rt fs" and "rl_Enabled (rt_GetSecurityConfigHost rt h)"
  shows "0 < sint (rl_RatePerIP (rt_GetSecurityConfigHost rt h))"
    and "0 < sint (rl_Burst (rt_GetSecurityConfigHost rt h))"
proof -
  let ?c = "svc_current (rt_Config rt)"
  have valid: "\<And>p. p \<in> set (sec_Policies (fc_Security ?c)) \<Longrightarrow> valid_policy p"
    using vc_policy [OF inv_valid [OF ri_svc [OF assms(1)]]] .
  have off: "\<not> rl_Enabled zero_rate_limiting" by (simp add: zero_rate_limiting_def)
  obtain p where p: "p \<in> set (sec_Policies (fc_Security ?c))" "rt_GetSecurityConfigHost rt h = sp_RateLimiting p"
    using assms(2) off unfolding rt_GetSecurityConfigHost_def snapshot_rate_limiting_view rt_view [OF assms(1)]
    by (auto simp: config_view_def dest!: keyed_Some split: option.splits)
  with valid [OF p(1)] assms(2)
  show "0 < sint (rl_RatePerIP (rt_GetSecurityConfigHost rt h))"
    "0 < sint (rl_Burst (rt_GetSecurityConfigHost rt h))"
    by (simp_all add: valid_policy_def)
qed

lemma visit_ops_clock: "set (clock_of (visit_ops r d vs)) \<subseteq> set (traffic_clock vs)"
  by (induction r d vs rule: visit_ops.induct) (auto simp: clock_of_def)

lemma visit_ops_sorted: "sorted (traffic_clock vs) \<Longrightarrow> sorted (clock_of (visit_ops r d vs))"
proof (induction r d vs rule: visit_ops.induct)
  case (2 r d v vs)
  then show ?case using visit_ops_clock [of r d vs] by (auto simp: clock_of_def)
next
  case (3 r d d' now vs)
  then show ?case using visit_ops_clock [of r d vs] by (auto simp: clock_of_def)
qed (simp add: clock_of_def)

definition client_visits :: "client_ip_resolver \<Rightarrow> string \<Rightarrow> string \<Rightarrow> traffic list \<Rightarrow> visit list" where
  "client_visits r d ip vs =
     [v. Visit v \<leftarrow> vs, limiter_host (rq_Host (vs_req v)) = d \<and> Resolve r (vs_req v) = ip]"

lemma requests_of_visits:
  "requests_of ip (visit_ops r d vs) = map (\<lambda>v. (vs_t0 v, vs_now v)) (client_visits r d ip vs)"
  by (induction r d vs rule: visit_ops.induct) (auto simp: client_visits_def)

lemma admitted_visits:
  "admitted (decisions ip (host_decisions d ds)) = length (filter (\<lambda>x. fst x = d \<and> fst (snd x) = ip \<and> snd (snd x)) ds)"
  by (induction ds) (auto simp: host_decisions_def decisions_def)

lemma limiter_for_policy:
  "limiter_for cfg = policy_limiter (rl_RatePerIP cfg) (rl_Burst cfg) (window_duration (scast (rl_WindowSec cfg)))"
  by (simp add: limiter_for_def policy_limiter_def)

text \<open>C27: the rate limit holds end to end. In a running proxy, let a host have rate limiting on, with
  a burst that refills within ten minutes, and no limiter yet (as after the start). As long as
  nothing is reconfigured, whatever requests arrive, for any hosts from any clients, through trusted proxies or not, and whenever the
  cleanup loops of the limiters discard idle buckets: of the requests that one client sends to the
  host within \<open>E\<close> seconds, at most \<open>burst + rate * E\<close> pass the limiter, up to the rounding error of
  the doubles.\<close>

theorem host_rate_limited:
  assumes reach: "sys_reach expiry overlap P E path rt m ts fs" and "json_roundtrip E"
    and cfg: "rt_GetSecurityConfigHost rt d = cfg" and en: "rl_Enabled cfg"
    and burst: "sint (rl_Burst cfg) \<le> 600 * sint (rl_RatePerIP cfg)"
    and fresh: "rlm_rateLimiters m d = None"
    and sorted: "sorted (traffic_clock vs)"
    and visits: "client_visits (rlm_clientIPs m) d ip vs = v # us"
  shows "of_nat (length (filter (\<lambda>(host, client, passed). host = d \<and> client = ip \<and> passed) (visits_run vs rt m)))
     \<le> of_int (sint (rl_Burst cfg))
       + of_int (sint (rl_RatePerIP cfg)) * (of_int (vs_now (last (v # us)) - vs_t0 v) / 1000000000) * (1 + 1 / 2 ^ 51)
       + of_nat (length (v # us)) * (of_int (sint (rl_Burst cfg)) / 2 ^ 52 :: rat)"
proof -
  have inv: "rt_inv E path rt fs" using rt_reach_inv [OF sys_reach_rt [OF reach] assms(2)] .
  note pos = enabled_positive [OF inv, of d, unfolded cfg, OF en]
  have run: "host_decisions d (visits_run vs rt m) =
      lim_run (visit_ops (rlm_clientIPs m) d vs) (limiter_for cfg)"
    using visits_run_limiter [OF sys_reach_rlm [OF reach] cfg en] fresh by (simp add: current_limiter_def)
  have req: "requests_of ip (visit_ops (rlm_clientIPs m) d vs) =
      (vs_t0 v, vs_now v) # map (\<lambda>v. (vs_t0 v, vs_now v)) us"
    unfolding requests_of_visits visits by simp
  have last: "last (vs_now v # map snd (map (\<lambda>v. (vs_t0 v, vs_now v)) us)) = vs_now (last (v # us))"
    by (cases us rule: rev_cases) auto
  have "length (filter (\<lambda>(host, client, passed). host = d \<and> client = ip \<and> passed) (visits_run vs rt m)) =
      admitted (decisions ip (host_decisions d (visits_run vs rt m)))"
    unfolding admitted_visits by (rule arg_cong [of _ _ length], rule filter_cong) auto
  also have "\<dots> = admitted (decisions ip (lim_run (visit_ops (rlm_clientIPs m) d vs)
      (policy_limiter (rl_RatePerIP cfg) (rl_Burst cfg) (window_duration (scast (rl_WindowSec cfg))))))"
    unfolding run limiter_for_policy ..
  finally have n: "length (filter (\<lambda>(host, client, passed). host = d \<and> client = ip \<and> passed) (visits_run vs rt m)) =
      admitted (decisions ip (lim_run (visit_ops (rlm_clientIPs m) d vs)
      (policy_limiter (rl_RatePerIP cfg) (rl_Burst cfg) (window_duration (scast (rl_WindowSec cfg))))))" .
  show ?thesis
    using rate_limit_bound [OF pos burst visit_ops_sorted [OF sorted] req] unfolding n last by simp
qed

text \<open>What a request gets from the limiter. Where rate limiting is off it goes to the proxy
  handler and nothing is counted; if it is on and the request is admitted, one allowed request is
  counted; if it is not admitted, the proxy handler never sees it, one blocked request is counted and
  the client gets status 429 with the limit and the window of the policy in its headers.\<close>

theorem rate_limit_outcomes:
  fixes rt m h req
  defines "s \<equiv> \<lparr>pw_rt = rt, pw_limits = m, pw_writer = new_writer h\<rparr>"
    and "cfg \<equiv> rt_GetSecurityConfigHost rt (rq_Host req)"
  shows "case ratelimit_gate t0 now (resolved_request r req) s of
      (True, s1) \<Rightarrow>
        public_root H t0 now r req s = proxy_handler H (resolved_request r req) s1 \<and>
        pw_writer s1 = new_writer h \<and>
        pw_rt s1 = (if rl_Enabled cfg then on_metrics RecordRateLimitAllow rt else rt)
    | (False, s1) \<Rightarrow>
        public_root H t0 now r req s = Some s1 \<and> rl_Enabled cfg \<and>
        pw_rt s1 = on_metrics RecordRateLimitBlock rt \<and>
        wr_Body (pw_writer s1) = ''Too many requests'' @ [CHR 0x0A] \<and>
        (\<exists>h'. wr_Sent (pw_writer s1) = Some (429, h') \<and>
           header_Get h' ''X-RateLimit-Limit'' = show_int (sint (rl_RatePerIP cfg)) \<and>
           header_Get h' ''X-RateLimit-Window'' = show_int (sint (rl_WindowSec cfg)))"
proof -
  let ?req = "resolved_request r req"
  have host: "rq_Host ?req = rq_Host req" by (simp add: resolved_request_def)
  obtain i m' where gl: "getRateLimiter rt (limiter_host (rq_Host req)) m = (i, m')" by fastforce
  obtain ok l where a: "Allow t0 now (Resolve (rlm_clientIPs m) ?req) (rlm_store m' i) = (ok, l)"
    by fastforce
  have keys: "canonical_key ''X-RateLimit-Limit'' = ''X-Ratelimit-Limit''"
    "canonical_key ''X-RateLimit-Window'' = ''X-Ratelimit-Window''"
    "canonical_key ''X-RateLimit-Blocked'' = ''X-Ratelimit-Blocked''"
    "canonical_key ''X-Content-Type-Options'' = ''X-Content-Type-Options''"
    "canonical_key ''Content-Type'' = ''Content-Type''"
    "canonical_key ''Content-Length'' = ''Content-Length''"
    by code_simp+
  have del: "header_Get (header_Del k hh) k' = header_Get hh k'" if "canonical_key k \<noteq> canonical_key k'" for k k' hh
    using that by (simp add: header_Get_def header_values_def header_Del_def delete_conv')
  have blocked: "wr_Body (blocked_response cfg (new_writer h)) = ''Too many requests'' @ [CHR 0x0A] \<and>
      (\<exists>h'. wr_Sent (blocked_response cfg (new_writer h)) = Some (429, h') \<and>
         header_Get h' ''X-RateLimit-Limit'' = show_int (sint (rl_RatePerIP cfg)) \<and>
         header_Get h' ''X-RateLimit-Window'' = show_int (sint (rl_WindowSec cfg)))"
    by (simp add: blocked_response_def http_Error_def write_body_def write_header_def on_header_def
        new_writer_def Let_def header_Get_Set del keys)
  have gate: "ratelimit_gate t0 now ?req s =
      (if \<not> rl_Enabled cfg then (True, s)
       else (let s' = s\<lparr>pw_limits := on_limiter i (\<lambda>_. l) m'\<rparr>
             in if \<not> ok then (False, on_writer (blocked_response cfg) (on_world_metrics RecordRateLimitBlock s'))
                else (True, on_world_metrics RecordRateLimitAllow s')))"
    using gl a by (simp add: ratelimit_gate_def s_def host Let_def flip: cfg_def)
  show ?thesis
    unfolding public_root_eq ratelimit_Middleware_def gate
    using blocked by (simp add: Let_def on_writer_def on_world_metrics_def s_def)
qed

text \<open>C28: the limiters that run are those in use. In a running proxy, also while callbacks are still
  to be made and changes of policies overlap, the cleanup loop of a limiter runs exactly if some host
  has the limiter, and no two hosts share one: every replaced or expired limiter was stopped, no
  limiter in use was.\<close>

theorem limiters_alive:
  assumes "sys_reach expiry overlap P E path rt m ts fs"
  shows "{i. i < rlm_next m \<and> \<not> lim_stopped (rlm_store m i)} = ran (rlm_rateLimiters m) \<and>
    inj_on (rlm_rateLimiters m) (dom (rlm_rateLimiters m))"
proof
  note inv = sys_reach_rlm [OF assms]
  show "{i. i < rlm_next m \<and> \<not> lim_stopped (rlm_store m i)} = ran (rlm_rateLimiters m)"
  proof (intro set_eqI iffI)
    fix i assume "i \<in> {i. i < rlm_next m \<and> \<not> lim_stopped (rlm_store m i)}"
    then show "i \<in> ran (rlm_rateLimiters m)" using rlm_invD(3) [OF inv, of i] by (auto simp: ran_def)
  next
    fix i assume "i \<in> ran (rlm_rateLimiters m)"
    then obtain d where d: "rlm_rateLimiters m d = Some i" by (auto simp: ran_def)
    with rlm_invD(1) [OF inv d] rlm_invD(3) [OF inv, of i]
    show "i \<in> {i. i < rlm_next m \<and> \<not> lim_stopped (rlm_store m i)}" by auto
  qed
  show "inj_on (rlm_rateLimiters m) (dom (rlm_rateLimiters m))"
  proof (rule inj_onI)
    fix d d' assume "d \<in> dom (rlm_rateLimiters m)" and e: "rlm_rateLimiters m d = rlm_rateLimiters m d'"
    then obtain i where i: "rlm_rateLimiters m d = Some i" by blast
    from rlm_invD(2) [OF inv i, of d'] i e show "d = d'" by simp
  qed
qed

text \<open>C29: policy changes take effect. As long as no virtual host is added, changed or removed and no
  change of policies starts before the callbacks of the last one are made (backends, policies, their
  assignment to virtual hosts, server and balancer settings may change at any time, successfully or
  not, and requests come also between an update and its callbacks): whenever no callback is pending,
  the limiter of every host that has one has the rate and the burst of the policy in effect for the
  host.\<close>

theorem limits_in_effect:
  assumes "sys_reach expiry False (\<lambda>op. \<not> vhost_edit op) E path rt m [] fs" and "json_roundtrip E"
    and "rlm_rateLimiters m d = Some i" and "CHR '':'' \<notin> set d"
  shows "lim_defaultRate (rlm_store m i) = f64_of_int (sint (rl_RatePerIP (rt_GetSecurityConfigHost rt d))) \<and>
    lim_defaultCapacity (rlm_store m i) = f64_of_int (sint (rl_Burst (rt_GetSecurityConfigHost rt d)))"
  using sys_reach_current [OF assms(1,2)] assms(3,4)
  by (auto simp: settings_follow_def awaited_def lims_current_def same_settings_def limiter_for_def
      NewRateLimiter_def)

section \<open>A sample proxy\<close>

lemma table_system:
  assumes "c \<in> set cs" "valid_config sample_url_parse c" "defaults_applied c"
  shows "\<exists>fs rt. sys_reach expiry overlap P (table_env cs) sample_path rt (NewRateLimitMiddleware (Some r)) [] fs \<and>
    svc_current (rt_Config rt) = c"
proof -
  from table_new [OF assms] obtain d where
    new: "NewService (table_env cs) [sample_path \<mapsto> d] sample_path =
     Inr \<lparr>svc_path = sample_path, svc_current = c, svc_snapshot = build_snapshot c\<rparr>" by blast
  then obtain rt where rt: "NewRuntime (table_env cs) [sample_path \<mapsto> d] sample_path = Inr rt"
    by (auto simp: NewRuntime_def Let_def split_def)
  have "svc_current (rt_Config rt) = c"
    using NewRuntime_Config [OF rt] unfolding new by (metis Inr_inject service.select_convs(2))
  with sys_new [OF rt] show ?thesis
    by (fastforce simp: rt_SetOnRateLimitUpdate_def rt_SetOnBackendHealthCheckRequired_def)
qed

lemma limited_settings:
  assumes "sys_reach expiry overlap P (table_env sample_table) sample_path rt m ts fs"
    and "svc_current (rt_Config rt) = sample_limited"
  shows "rt_GetSecurityConfigHost rt ''app.example.local'' = strict_limits"
proof -
  note inv = rt_reach_inv [OF sys_reach_rt [OF assms(1)] table_env_roundtrip]
  show ?thesis
    unfolding rt_GetSecurityConfigHost_def snapshot_rate_limiting_view rt_view [OF inv] assms(2)
    by (simp add: config_view_def sample_limited_def)
qed

lemma limited_system:
  obtains fs rt where
    "sys_reach expiry overlap P (table_env sample_table) sample_path rt (NewRateLimitMiddleware (Some r)) [] fs"
    "rt_GetSecurityConfigHost rt ''app.example.local'' = strict_limits"
proof -
  obtain fs rt where rt: "sys_reach expiry overlap P (table_env sample_table) sample_path rt (NewRateLimitMiddleware (Some r)) [] fs"
    "svc_current (rt_Config rt) = sample_limited"
    using table_system [of sample_limited sample_table expiry overlap P r] sample_table_mem
      sample_variants_valid sample_variants_defaults by blast
  from limited_settings [OF this] rt(1) that show thesis by blast
qed

text \<open>Changing the default policy of the sample: an update with the settings it has, and one with
  strict limits.\<close>

definition strict_policy :: security_policy where
  "strict_policy = \<lparr>sp_Id = ''default'', sp_RateLimiting = strict_limits\<rparr>"

lemma default_upsert:
  assumes "svc_current (rt_Config rt) = sample_config"
    and "(p, c) = (sample_policy, sample_config) \<or> (p, c) = (strict_policy, sample_limited)"
  obtains rt' fs' evs where
    "rt_exec (table_env sample_table) io_ok (RT_UpsertPolicy p) rt fs = (None, rt', fs', evs)"
    "svc_current (rt_Config rt') = c"
proof -
  have c: "c \<in> set sample_table" "valid_config sample_url_parse c" "defaults_applied c"
    using assms(2) by auto
  have id: "sample_config\<lparr>fc_Security := \<lparr>sec_Policies = [sample_policy]\<rparr>\<rparr> = sample_config"
    by (simp add: sample_config_def)
  have m: "upsert_policy p sample_config = Inr c"
    using assms(2)
  proof (elim disjE)
    assume "(p, c) = (sample_policy, sample_config)"
    then show ?thesis by (simp add: upsert_policy_def id)
  next
    assume "(p, c) = (strict_policy, sample_limited)"
    then show ?thesis by (simp add: upsert_policy_def sample_limited_def strict_policy_def)
  qed
  have svc: "svc_exec (table_env sample_table) io_ok (svc_of (RT_UpsertPolicy p)) (rt_Config rt) fs =
      svc_update (table_env sample_table) io_ok (upsert_policy p) (rt_Config rt) fs"
    using assms(2) by (auto simp: svc_UpsertPolicy_def strict_policy_def)
  from table_step [OF assms(1) sample_table_mem(1) c svc m] that show thesis by blast
qed

lemma default_callbacks:
  assumes "sys_reach expiry overlap P (table_env sample_table) sample_path rt m ts fs"
    and "svc_current (rt_Config rt) = sample_config \<or> svc_current (rt_Config rt) = sample_limited"
    and "sp_Id p = ''default''"
  shows "op_callbacks (RT_UpsertPolicy p) rt = [Ev_RateLimitUpdate ''app.example.local'' (sp_RateLimiting p)]"
proof -
  note inv = rt_reach_inv [OF sys_reach_rt [OF assms(1)] table_env_roundtrip]
  have "sn_Raw (rs_Snapshot (State rt)) = svc_current (rt_Config rt)"
    using ri_snapshot [OF inv] inv_snapshot [OF ri_svc [OF inv]] by (simp add: State_def)
  then have "fc_VirtualHosts (sn_Raw (rs_Snapshot (State rt))) = [sample_vhost]"
    using assms(2) by (auto simp: sample_limited_def)
  then show ?thesis using sys_reach_callback [OF assms(1)] assms(3) by simp
qed

text \<open>Two changes of a policy that overlap can leave the older settings in place. The first one is
  published, the second one is published and makes its call, and only then the first one gets to
  its own, with the settings that it was called with: 100 requests per second and a burst of 50
  where the policy allows 5 and 10. No later request corrects this.\<close>

lemma overlapping_run:
  obtains fs rt m where
    "sys_reach False True policy_edit (table_env sample_table) sample_path rt m [] fs"
    "m = on_rate_limit_update ''app.example.local'' (sp_RateLimiting sample_policy)
       (on_rate_limit_update ''app.example.local'' strict_limits
         (NewRateLimitMiddleware (Some \<lparr>cr_trustedProxies = []\<rparr>)))"
    "rt_GetSecurityConfigHost rt ''app.example.local'' = strict_limits"
proof -
  let ?d = "''app.example.local''" and ?E = "table_env sample_table"
  let ?m0 = "NewRateLimitMiddleware (Some \<lparr>cr_trustedProxies = []\<rparr>)"
  let ?R = "sys_reach False True policy_edit ?E sample_path"
  let ?old = "RT_UpsertPolicy sample_policy" and ?new = "RT_UpsertPolicy strict_policy"
  let ?m1 = "on_rate_limit_update ?d strict_limits ?m0"
  obtain fs rt where r0: "?R rt ?m0 [] fs" "svc_current (rt_Config rt) = sample_config"
    using table_system [of sample_config sample_table False True policy_edit] sample_table_mem(1)
      sample_config_valid sample_defaults by blast
  obtain rt1 fs1 evs1 where e1: "rt_exec ?E io_ok ?old rt fs = (None, rt1, fs1, evs1)"
    "svc_current (rt_Config rt1) = sample_config"
    using default_upsert [OF r0(2), of sample_policy sample_config] by blast
  have r1: "?R rt1 ?m0 [Look ?old] fs1" using sys_op [OF r0(1) e1(1)] by simp
  obtain rt2 fs2 evs2 where e2: "rt_exec ?E io_ok ?new rt1 fs1 = (None, rt2, fs2, evs2)"
    "svc_current (rt_Config rt2) = sample_limited"
    using default_upsert [OF e1(2), of strict_policy sample_limited] by blast
  have "?R rt2 ?m0 ([Look ?old] @ Look ?new # []) fs2" using sys_op [OF r1 e2(1)] by simp
  from sys_look [OF this] default_callbacks [OF this, of strict_policy] e2(2)
  have "?R rt2 ?m0 ([Look ?old] @ Calls [Ev_RateLimitUpdate ?d strict_limits] # []) fs2"
    by (simp add: strict_policy_def)
  from sys_return [OF sys_call [OF this]]
  have r2: "?R rt2 ?m1 ([] @ Look ?old # []) fs2" by simp
  from sys_look [OF r2] default_callbacks [OF r2, of sample_policy] e2(2)
  have "?R rt2 ?m1 (Calls [Ev_RateLimitUpdate ?d (sp_RateLimiting sample_policy)] # []) fs2" by simp
  from sys_calls [OF this]
  have r3: "?R rt2 (on_rate_limit_update ?d (sp_RateLimiting sample_policy) ?m1) [] fs2" by simp
  from that [OF r3 refl limited_settings [OF r3 e2(2)]] show thesis .
qed

lemma replaced_twice:
  assumes "m = on_rate_limit_update d c (on_rate_limit_update d c' (NewRateLimitMiddleware r))"
  shows "rlm_rateLimiters m = [d \<mapsto> 1]" and "rlm_next m = 2" and "rlm_store m 1 = limiter_for c"
    and "lim_stopped (rlm_store m 0)"
  using assms by (simp_all add: on_rate_limit_update_eq NewRateLimitMiddleware_def limiter_Stop_def)

theorem overlapping_updates_stale:
  "\<exists>fs rt m i. sys_reach False True policy_edit (table_env sample_table) sample_path rt m [] fs \<and>
     rlm_rateLimiters m ''app.example.local'' = Some i \<and>
     lim_defaultRate (rlm_store m i) = f64_of_int 100 \<and> lim_defaultCapacity (rlm_store m i) = f64_of_int 50 \<and>
     rl_RatePerIP (rt_GetSecurityConfigHost rt ''app.example.local'') = 5 \<and>
     rl_Burst (rt_GetSecurityConfigHost rt ''app.example.local'') = 10"
proof -
  obtain fs rt m where run: "sys_reach False True policy_edit (table_env sample_table) sample_path rt m [] fs"
    and m: "m = on_rate_limit_update ''app.example.local'' (sp_RateLimiting sample_policy)
       (on_rate_limit_update ''app.example.local'' strict_limits
         (NewRateLimitMiddleware (Some \<lparr>cr_trustedProxies = []\<rparr>)))"
    and now: "rt_GetSecurityConfigHost rt ''app.example.local'' = strict_limits"
    by (rule overlapping_run)
  have "rlm_rateLimiters m ''app.example.local'' = Some 1"
    "lim_defaultRate (rlm_store m 1) = f64_of_int 100" "lim_defaultCapacity (rlm_store m 1) = f64_of_int 50"
    unfolding replaced_twice(1,3) [OF m] by (simp_all add: limiter_for_def NewRateLimiter_def sample_policy_def)
  moreover have "rl_RatePerIP strict_limits = 5" "rl_Burst strict_limits = 10" by (simp_all add: strict_limits_def)
  ultimately show ?thesis using run now by metis
qed

definition sample_visit :: "go_time \<Rightarrow> visit" where
  "sample_visit t = \<lparr>vs_t0 = t, vs_now = t, vs_env = dead_env, vs_req = get_request, vs_writer = new_writer []\<rparr>"

lemma sample_visit_host: "limiter_host (rq_Host get_request) = ''app.example.local''"
  by (simp add: limiter_host_cut get_request_def)

lemma sample_client: "Resolve sample_resolver get_request = ''10.0.0.1''"
proof -
  have "split_host_port ''10.0.0.1:4711'' = Some (''10.0.0.1'', ''4711'')"
    using split_host_port_plain [of "''10.0.0.1''" "''4711''"] by simp
  moreover have s: "ip_string (v4_prefix @ [10, 0, 0, 1]) = ''10.0.0.1''"
    by (simp add: ip_string_v4 show_nat.simps)
  then have "parse_ip ''10.0.0.1'' = Some (v4_prefix @ [10, 0, 0, 1])"
    using parse_ip_string [of "v4_prefix @ [10, 0, 0, 1]"] by simp
  ultimately have remote: "parseRemoteIP (rq_RemoteAddr get_request) = Some (v4_prefix @ [10, 0, 0, 1])"
    by (simp add: parseRemoteIP_def get_request_def)
  have "header_Get (rq_Header get_request) ''X-Forwarded-For'' = []"
    by (simp add: get_request_def header_Get_def header_values_def)
  with remote show ?thesis
    using s by (simp add: Resolve_def)
qed

text \<open>Twenty requests at once, with a tick of the cleanup in between: ten of them pass at most.\<close>

definition sample_traffic :: "traffic list" where
  "sample_traffic = replicate 10 (Visit (sample_visit 0)) @ Cleanup ''app.example.local'' 0 #
     replicate 10 (Visit (sample_visit 0))"

lemma sample_traffic_facts:
  "sorted (traffic_clock sample_traffic)"
  "client_visits sample_resolver ''app.example.local'' ''10.0.0.1'' sample_traffic =
     sample_visit 0 # replicate 19 (sample_visit 0)"
proof -
  have v: "vs_req (sample_visit t) = get_request" "vs_now (sample_visit t) = t" "vs_t0 (sample_visit t) = t" for t
    by (simp_all add: sample_visit_def)
  show "sorted (traffic_clock sample_traffic)"
    by (simp add: sample_traffic_def numeral_eq_Suc v)
  have "client_visits sample_resolver ''app.example.local'' ''10.0.0.1'' (replicate n (Visit (sample_visit 0)) @ vs) =
      replicate n (sample_visit 0) @ client_visits sample_resolver ''app.example.local'' ''10.0.0.1'' vs" for n vs
    by (induction n) (simp_all add: client_visits_def v sample_visit_host sample_client)
  from this [of 10] this [of 10 "[]"]
  have "client_visits sample_resolver ''app.example.local'' ''10.0.0.1'' sample_traffic =
      replicate 10 (sample_visit 0) @ replicate 10 (sample_visit 0)"
    unfolding sample_traffic_def by (simp add: client_visits_def)
  also have "\<dots> = sample_visit 0 # replicate 19 (sample_visit 0)"
    by (simp add: numeral_eq_Suc)
  finally show "client_visits sample_resolver ''app.example.local'' ''10.0.0.1'' sample_traffic = \<dots>" .
qed

theorem host_rate_limited_witness:
  "\<exists>fs rt. sys_reach False True (\<lambda>_. True) (table_env sample_table) sample_path rt
       (NewRateLimitMiddleware (Some sample_resolver)) [] fs \<and>
     length (filter (\<lambda>(host, client, passed). host = ''app.example.local'' \<and> client = ''10.0.0.1'' \<and> passed)
       (visits_run sample_traffic rt (NewRateLimitMiddleware (Some sample_resolver)))) \<le> 10"
proof -
  obtain fs rt where rt: "sys_reach False True (\<lambda>_. True) (table_env sample_table) sample_path rt
      (NewRateLimitMiddleware (Some sample_resolver)) [] fs"
    and cfg: "rt_GetSecurityConfigHost rt ''app.example.local'' = strict_limits"
    by (rule limited_system)
  let ?n = "length (filter (\<lambda>(host, client, passed). host = ''app.example.local'' \<and> client = ''10.0.0.1'' \<and> passed)
       (visits_run sample_traffic rt (NewRateLimitMiddleware (Some sample_resolver))))"
  have r: "rlm_clientIPs (NewRateLimitMiddleware (Some sample_resolver)) = sample_resolver"
    "rlm_rateLimiters (NewRateLimitMiddleware (Some sample_resolver)) ''app.example.local'' = None"
    by (simp_all add: NewRateLimitMiddleware_def)
  have visits: "client_visits (rlm_clientIPs (NewRateLimitMiddleware (Some sample_resolver))) ''app.example.local''
      ''10.0.0.1'' sample_traffic = sample_visit 0 # replicate 19 (sample_visit 0)"
    unfolding r(1) by (rule sample_traffic_facts(2))
  have last: "last (sample_visit 0 # replicate 19 (sample_visit 0)) = sample_visit 0" by (simp add: numeral_eq_Suc)
  have sel: "vs_now (sample_visit 0) = 0" "vs_t0 (sample_visit 0) = 0" by (simp_all add: sample_visit_def)
  have "of_nat ?n \<le> (of_int (sint (10 :: int32)) :: rat) + of_int (sint (5 :: int32)) * (of_int (0 - 0) / 1000000000) * (1 + 1 / 2 ^ 51)
      + of_nat 20 * (of_int (sint (10 :: int32)) / 2 ^ 52)"
    using host_rate_limited [OF rt table_env_roundtrip cfg _ _ r(2) sample_traffic_facts(1) visits]
    unfolding last sel by (simp add: strict_limits_def)
  then have "of_nat ?n < (11 :: rat)" by (rule order.strict_trans1) simp
  then have "?n < 11" by (metis of_nat_less_iff of_nat_numeral)
  then have "?n \<le> 10" by linarith
  with rt show ?thesis by blast
qed

theorem limiters_alive_witness:
  "\<exists>fs rt m. sys_reach False True policy_edit (table_env sample_table) sample_path rt m [] fs \<and>
     rlm_next m = 2 \<and> {i. i < rlm_next m \<and> \<not> lim_stopped (rlm_store m i)} = {1}"
proof -
  obtain fs rt m where run: "sys_reach False True policy_edit (table_env sample_table) sample_path rt m [] fs"
    and m: "m = on_rate_limit_update ''app.example.local'' (sp_RateLimiting sample_policy)
       (on_rate_limit_update ''app.example.local'' strict_limits
         (NewRateLimitMiddleware (Some \<lparr>cr_trustedProxies = []\<rparr>)))"
    by (rule overlapping_run)
  from limiters_alive [OF run] have "{i. i < rlm_next m \<and> \<not> lim_stopped (rlm_store m i)} = {1}"
    unfolding replaced_twice(1) [OF m] by simp
  with run replaced_twice(2) [OF m] show ?thesis by blast
qed

theorem limits_in_effect_witness:
  "\<exists>fs rt m i. sys_reach False False (\<lambda>op. \<not> vhost_edit op) (table_env sample_table) sample_path rt m [] fs \<and>
     rlm_rateLimiters m ''app.example.local'' = Some i \<and>
     lim_defaultRate (rlm_store m i) = f64_of_int 5 \<and> lim_defaultCapacity (rlm_store m i) = f64_of_int 10"
proof -
  let ?R = "sys_reach False False (\<lambda>op. \<not> vhost_edit op) (table_env sample_table) sample_path"
  let ?m0 = "NewRateLimitMiddleware (Some sample_resolver)" and ?d = "''app.example.local''"
  let ?m1 = "on_rate_limit_update ?d (sp_RateLimiting sample_policy) ?m0"
  let ?m2 = "on_rate_limit_update ?d strict_limits ?m1"
  obtain fs rt where r0: "?R rt ?m0 [] fs" "svc_current (rt_Config rt) = sample_config"
    using table_system [of sample_config sample_table False False "\<lambda>op. \<not> vhost_edit op"] sample_table_mem(1)
      sample_config_valid sample_defaults by blast
  obtain rt1 fs1 evs1 where e1: "rt_exec (table_env sample_table) io_ok (RT_UpsertPolicy sample_policy) rt fs =
      (None, rt1, fs1, evs1)" "svc_current (rt_Config rt1) = sample_config"
    using default_upsert [OF r0(2), of sample_policy sample_config] by blast
  have "?R rt1 (deliver evs1 ?m0) [] fs1" by (rule sys_op_delivered [OF r0(1) e1(1)]) simp
  moreover from this have "evs1 = [Ev_RateLimitUpdate ?d (sp_RateLimiting sample_policy)]"
    using exec_callbacks [OF e1(1)] default_callbacks [of _ _ _ rt1 _ _ _ sample_policy] e1(2) by simp
  ultimately have r1: "?R rt1 ?m1 [] fs1" by simp
  obtain rt2 fs2 evs2 where e2: "rt_exec (table_env sample_table) io_ok (RT_UpsertPolicy strict_policy) rt1 fs1 =
      (None, rt2, fs2, evs2)" "svc_current (rt_Config rt2) = sample_limited"
    using default_upsert [OF e1(2), of strict_policy sample_limited] by blast
  have "?R rt2 (deliver evs2 ?m1) [] fs2" by (rule sys_op_delivered [OF r1 e2(1)]) simp
  moreover from this have "evs2 = [Ev_RateLimitUpdate ?d strict_limits]"
    using exec_callbacks [OF e2(1)] default_callbacks [of _ _ _ rt2 _ _ _ strict_policy] e2(2)
    by (simp add: strict_policy_def)
  ultimately have r2: "?R rt2 ?m2 [] fs2" by simp
  have i: "rlm_rateLimiters ?m2 ?d = Some 1" using replaced_twice(1) [OF refl] by simp
  have "sint (rl_RatePerIP strict_limits) = 5" "sint (rl_Burst strict_limits) = 10" by (simp_all add: strict_limits_def)
  with limits_in_effect [OF r2 table_env_roundtrip i] r2 i limited_settings [OF r2 e2(2)]
  show ?thesis by fastforce
qed

end
