(* ===== verification/Collectors.thy ===== *)
theory Collectors
  imports Metrics NetIP RateLimit
begin

text \<open>
  The resource collectors (\<open>internal/metrics/collectors.go\<close>): processor and memory use of the proxy from
  the files under \<open>/proc\<close>, and the use that the backends report, fetched with \<open>FetchMetrics\<close> of
  \<open>internal/metrics/backend.go\<close>. The contents of the files, the HTTP client and the JSON decoder are
  parameters; the tickers are left out. The uptime of \<open>internal/metrics/metrics.go\<close> is here too. Main facts: processor use is a percentage whatever the file
  says, memory use is one unless more is available than there is.
\<close>

section \<open>Numbers\<close>

text \<open>The value of \<open>strconv.ParseUint(s, 10, 64)\<close> if its error is ignored: 0 for what is not a number, the
  largest value from where the number is out of range.\<close>

fun parse_uint_loop :: "nat \<Rightarrow> string \<Rightarrow> nat" where
  "parse_uint_loop n [] = n"
| "parse_uint_loop n (c # cs) =
     (case digit_of c of
        None \<Rightarrow> 0
      | Some d \<Rightarrow>
          if (2 ^ 64 - 1) div 10 + 1 \<le> n \<or> 2 ^ 64 - 1 < n * 10 + d then 2 ^ 64 - 1
          else parse_uint_loop (n * 10 + d) cs)"

definition parse_uint64 :: "string \<Rightarrow> uint64" where
  "parse_uint64 s = (if s = '''' then 0 else of_nat (parse_uint_loop 0 s))"

text \<open>A conversion to \<open>float32\<close>; its value is a \<open>float64\<close> too.\<close>

definition ulp32 :: "rat \<Rightarrow> rat" where
  "ulp32 x = (if x = 0 then pow2 (- 149) else pow2 (max (exponent \<bar>x\<bar>) (- 126) - 23))"

definition round32 :: "rat \<Rightarrow> rat" where
  "round32 x = of_int (round_even (x / ulp32 x)) * ulp32 x"

fun to_f32 :: "f64 \<Rightarrow> f64" where
  "to_f32 (Fin x) =
     (let r = round32 x
      in if r \<ge> pow2 128 then PInf else if r \<le> - pow2 128 then NInf else Fin r)"
| "to_f32 x = x"

section \<open>The proxy\<close>

record proxy_resources =
  prs_GoroutineCount :: uint64
  prs_MemoryPercent :: f64
  prs_CPUPercent :: f64

text \<open>The loop over the first eight numbers of the first line of \<open>/proc/stat\<close>, from the \<open>i\<close>-th on.\<close>

fun cpu_loop :: "nat \<Rightarrow> string list \<Rightarrow> uint64 \<times> uint64 \<Rightarrow> uint64 \<times> uint64" where
  "cpu_loop i [] (idle, tot) = (idle, tot)"
| "cpu_loop i (f # fs) (idle, tot) =
     (if i \<le> 8
      then let val = parse_uint64 f in cpu_loop (Suc i) fs (if i = 4 then val else idle, tot + val)
      else (idle, tot))"

text \<open>\<open>None\<close> is a file that cannot be read.\<close>

definition readCPU :: "string option \<Rightarrow> uint64 \<times> uint64" where
  "readCPU file =
     (case file of
        None \<Rightarrow> (0, 0)
      | Some data \<Rightarrow>
          (let lines = split_on (CHR 0x0A) data
           in if lines = [] then (0, 0)
              else
                let fs = GoStrings.fields (lines ! 0)
                in if length fs < 5 then (0, 0) else cpu_loop 1 (drop 1 fs) (0, 0)))"

text \<open>The file is read twice, half a second apart.\<close>

definition cpuPercent :: "string option \<Rightarrow> string option \<Rightarrow> f64" where
  "cpuPercent file1 file2 =
     (let (idle1, total1) = readCPU file1
      in if total1 = 0 then Fin 0
         else
           let (idle2, total2) = readCPU file2
           in if total2 = total1 then Fin 0
              else
                let idleDelta = f64_of_int (uint (idle2 - idle1));
                    totalDelta = f64_of_int (uint (total2 - total1))
                in if f64_eq totalDelta (Fin 0) then Fin 0
                   else
                     let usage = f64_mul (f64_sub (Fin 1) (f64_div idleDelta totalDelta)) (Fin 100)
                     in if f64_less usage (Fin 0) then Fin 0
                        else if f64_less (Fin 100) usage then Fin 100 else to_f32 usage)"

record mem_info =
  mi_total :: uint64
  mi_available :: uint64
  mi_free :: uint64
  mi_buffers :: uint64
  mi_cached :: uint64

definition mem_line :: "string \<Rightarrow> mem_info \<Rightarrow> mem_info" where
  "mem_line line m =
     (let fs = GoStrings.fields line
      in if length fs < 2 then m
         else
           let val = parse_uint64 (fs ! 1); name = fs ! 0
           in if name = ''MemTotal:'' then m\<lparr>mi_total := val\<rparr>
              else if name = ''MemAvailable:'' then m\<lparr>mi_available := val\<rparr>
              else if name = ''MemFree:'' then m\<lparr>mi_free := val\<rparr>
              else if name = ''Buffers:'' then m\<lparr>mi_buffers := val\<rparr>
              else if name = ''Cached:'' then m\<lparr>mi_cached := val\<rparr> else m)"

definition read_memory :: "string \<Rightarrow> mem_info" where
  "read_memory data =
     fold mem_line (split_on (CHR 0x0A) data)
       \<lparr>mi_total = 0, mi_available = 0, mi_free = 0, mi_buffers = 0, mi_cached = 0\<rparr>"

definition available :: "mem_info \<Rightarrow> uint64" where
  "available m = (if mi_available m = 0 then mi_free m + mi_buffers m + mi_cached m else mi_available m)"

definition memory_usage :: "mem_info \<Rightarrow> f64" where
  "memory_usage m =
     (let used = mi_total m - available m
      in f64_mul (f64_div (f64_of_int (uint used)) (f64_of_int (uint (mi_total m)))) (Fin 100))"

definition MemoryPercent :: "string option \<Rightarrow> f64" where
  "MemoryPercent file =
     (case file of
        None \<Rightarrow> Fin 0
      | Some data \<Rightarrow>
          (let m = read_memory data in if mi_total m = 0 then Fin 0 else to_f32 (memory_usage m)))"

definition prc_collect :: "nat \<Rightarrow> string option \<Rightarrow> string option \<Rightarrow> string option \<Rightarrow> proxy_resources" where
  "prc_collect goroutines stat1 stat2 meminfo =
     \<lparr>prs_GoroutineCount = of_nat goroutines, prs_MemoryPercent = MemoryPercent meminfo,
      prs_CPUPercent = cpuPercent stat1 stat2\<rparr>"

section \<open>The backends\<close>

record remote_system_metrics =
  rsm_CpuPercent :: f64
  rsm_MemoryPercent :: f64
  rsm_Goroutines :: uint64

text \<open>What a \<open>GET\<close> of a URL gives: an error, or a status and the body or the error of reading it.\<close>

type_synonym http_get = "string \<Rightarrow> string + (goint \<times> (string + string))"

definition FetchMetrics ::
  "http_get \<Rightarrow> (string \<Rightarrow> string + remote_system_metrics) \<Rightarrow> string \<Rightarrow> string + remote_system_metrics" where
  "FetchMetrics get decode url =
     (case get url of
        Inl e \<Rightarrow> Inl e
      | Inr (code, body) \<Rightarrow>
          if code \<noteq> 200 then Inl (''status code '' @ show_int (sint code))
          else
            case body of
              Inl e \<Rightarrow> Inl e
            | Inr text \<Rightarrow> decode text)"

definition store_remote :: "remote_system_metrics \<Rightarrow> backend_metrics \<Rightarrow> backend_metrics" where
  "store_remote r bm = bm\<lparr>bm_CpuPercent := rsm_CpuPercent r, bm_MemoryPercent := rsm_MemoryPercent r\<rparr>"

text \<open>One goroutine for each registered URL; they touch different backends, so their order does not
  matter.\<close>

definition collectAll ::
  "http_get \<Rightarrow> (string \<Rightarrow> string + remote_system_metrics) \<Rightarrow> string list \<Rightarrow> metrics \<Rightarrow> metrics" where
  "collectAll get decode urls m =
     fold (\<lambda>url m.
       case FetchMetrics get decode (url @ ''/admin/metrics'') of
         Inl _ \<Rightarrow> m
       | Inr r \<Rightarrow> on_backend url (store_remote r) m) urls m"

section \<open>Bounds\<close>

lemma round64_of_pow2: "- 1022 \<le> k \<Longrightarrow> round64 (pow2 k) = pow2 k"
proof -
  assume k: "- 1022 \<le> k"
  have "exponent (pow2 k) = k" using pow2_less [of k "k + 1"] by (intro exponent_unique) simp_all
  then have u: "ulp (pow2 k) = pow2 (k - 52)" using k pow2_pos [of k] by (simp add: ulp_def del: pow2_pos)
  have "pow2 k = pow2 52 * pow2 (k - 52)" using pow2_add [of 52 "k - 52"] by simp
  also have "pow2 52 = of_int (2 ^ 52)" by (simp add: pow2_def)
  finally have "pow2 k = of_int (2 ^ 52) * ulp (pow2 k)" unfolding u .
  then show ?thesis by (rule round64_exact)
qed

lemma mk64_upto:
  assumes "\<bar>x\<bar> \<le> pow2 k" and "0 \<le> k" and "k < 1024"
  shows "mk64 x = Fin (round64 x)" and "\<bar>round64 x\<bar> \<le> pow2 k"
proof -
  have "round64 x \<le> pow2 k"
    using round64_mono [of x "pow2 k"] round64_of_pow2 [of k] assms by simp
  moreover have "- pow2 k \<le> round64 x"
    using round64_mono [of "- pow2 k" x] round64_of_pow2 [of k] assms by simp
  ultimately show b: "\<bar>round64 x\<bar> \<le> pow2 k" by simp
  have "pow2 k < pow2 1024" using assms(3) by (rule pow2_less)
  with b show "mk64 x = Fin (round64 x)" by (intro mk64_Fin) simp
qed

lemma uint64_float:
  fixes w :: uint64
  obtains r where "f64_of_int (uint w) = Fin r" "0 \<le> r" "r \<le> pow2 64" "w \<noteq> 0 \<Longrightarrow> 1 \<le> r"
    "r = round64 (of_int (uint w))"
proof -
  let ?x = "of_int (uint w) :: rat"
  have ge: "0 \<le> ?x" by (simp only: of_int_0_le_iff uint_ge_0)
  have "uint w \<le> 2 ^ 64" using uint_lt2p [of w] by simp
  then have "?x \<le> of_int (2 ^ 64)" by (simp only: of_int_le_iff)
  then have "?x \<le> pow2 64" by (simp add: pow2_def)
  then have le: "\<bar>?x\<bar> \<le> pow2 64" using ge by (simp only: abs_of_nonneg)
  note m = mk64_upto [OF le]
  have "1 \<le> round64 ?x" if "w \<noteq> 0"
  proof -
    have "uint w \<noteq> 0" using that by (simp only: uint_0_iff not_False_eq_True)
    then have "1 \<le> uint w" using uint_ge_0 [of w] by linarith
    then have "(of_int 1 :: rat) \<le> ?x" by (simp only: of_int_le_iff)
    then show ?thesis using round64_mono [of "of_int 1" ?x] round64_int [of 1] by simp
  qed
  moreover have "0 \<le> round64 ?x" by (rule round64_nonneg [OF ge])
  moreover have "round64 ?x \<le> pow2 64" using m(2) by (simp only: abs_le_iff)
  moreover have "f64_of_int (uint w) = Fin (round64 ?x)" using m(1) by (simp only: f64_of_int_def)
  ultimately show thesis using that by blast
qed

text \<open>A conversion to \<open>float32\<close> does not leave the percentages: 100 is a multiple of the unit there.\<close>

lemma to_f32_percent:
  assumes "0 \<le> x" and "x \<le> 100"
  obtains r where "to_f32 (Fin x) = Fin r" "0 \<le> r" "r \<le> 100"
proof -
  define u where "u = ulp32 x"
  have u: "0 < u" by (simp add: u_def ulp32_def)
  have "\<exists>n::int. 100 / u = of_int n"
  proof (cases "x = 0")
    case True
    then have "100 / u = of_int (100 * 2 ^ 149)" by (simp add: u_def ulp32_def pow2_def)
    then show ?thesis by blast
  next
    case False
    define k where "k = max (exponent x) (- 126) - 23"
    have "exponent x \<le> exponent 100" using assms False by (intro exponent_mono) simp_all
    also have "exponent 100 = 6" by (rule exponent_unique) (simp_all add: pow2_def)
    finally have "k \<le> 0" by (simp add: k_def)
    then have "100 / pow2 k = of_int (100 * 2 ^ nat (- k))" by (simp add: pow2_def)
    moreover have "u = pow2 k" using assms(1) False by (simp add: u_def ulp32_def k_def)
    ultimately show ?thesis by metis
  qed
  then obtain n :: int where n: "100 / u = of_int n" by blast
  have "x / u \<le> of_int n" using assms(2) u n by (simp add: divide_right_mono flip: n)
  then have hi: "round_even (x / u) \<le> n" using round_even_mono [of "x / u" "of_int n"] by simp
  have "of_int 0 \<le> x / u" using assms(1) u by simp
  then have "round_even (of_int 0) \<le> round_even (x / u)" by (rule round_even_mono)
  then have lo: "0 \<le> round_even (x / u)" by (simp only: round_even_of_int)
  have "round32 x = of_int (round_even (x / u)) * u" by (simp add: round32_def u_def)
  moreover have "of_int (round_even (x / u)) * u \<le> of_int n * u" using hi u by (simp add: mult_right_mono)
  moreover have "of_int n * u = 100" using n u by (simp add: field_simps)
  ultimately have r: "round32 x \<le> 100" "0 \<le> round32 x" using lo u by simp_all
  have "(100 :: rat) < pow2 128" by (simp add: pow2_def)
  moreover have "0 < pow2 128" by simp
  ultimately have "to_f32 (Fin x) = Fin (round32 x)" using r by (simp add: Let_def)
  then show thesis using that r by blast
qed

definition percentage :: "f64 \<Rightarrow> bool" where
  "percentage p \<longleftrightarrow> (\<exists>r. p = Fin r \<and> 0 \<le> r \<and> r \<le> 100)"

lemma percentage_simps [simp]: "percentage (Fin 0)" "percentage (Fin 100)"
  by (simp_all add: percentage_def)

lemma cpu_percentage: "percentage (cpuPercent file1 file2)"
proof -
  obtain idle1 total1 where c1: "readCPU file1 = (idle1, total1)" by fastforce
  obtain idle2 total2 where c2: "readCPU file2 = (idle2, total2)" by fastforce
  show ?thesis
  proof (cases "total1 = 0 \<or> total2 = total1")
    case True
    then show ?thesis by (auto simp: cpuPercent_def c1 c2)
  next
    case False
    obtain a where a: "f64_of_int (uint (idle2 - idle1)) = Fin a" "0 \<le> a" "a \<le> pow2 64"
      by (rule uint64_float)
    obtain b where b: "f64_of_int (uint (total2 - total1)) = Fin b" "1 \<le> b"
      using uint64_float [of "total2 - total1"] False by (metis eq_iff_diff_eq_0)
    have "a / b \<le> a / 1" using a(2) b(2) by (intro divide_left_mono) simp_all
    then have "\<bar>a / b\<bar> \<le> pow2 64" using a b by simp
    note q = mk64_upto [OF this]
    have "\<bar>1 + - round64 (a / b)\<bar> \<le> 1 + pow2 64" using q(2) by simp
    also have "\<dots> \<le> pow2 65" by (simp add: pow2_def)
    finally have "\<bar>1 + - round64 (a / b)\<bar> \<le> pow2 65" .
    note d = mk64_upto [OF this]
    have "\<bar>round64 (1 + - round64 (a / b)) * 100\<bar> \<le> pow2 65 * 100" using d(2) by (simp add: abs_mult)
    also have "\<dots> \<le> pow2 72" by (simp add: pow2_def)
    finally have "\<bar>round64 (1 + - round64 (a / b)) * 100\<bar> \<le> pow2 72" .
    note m = mk64_upto [OF this]
    define u where "u = round64 (round64 (1 + - round64 (a / b)) * 100)"
    have usage: "f64_mul (f64_sub (Fin 1) (mk64 (a / b))) (Fin 100) = Fin u"
      using q(1) d(1) m(1) by (simp add: f64_sub_def u_def)
    have val: "cpuPercent file1 file2 = (if u < 0 then Fin 0 else if 100 < u then Fin 100 else to_f32 (Fin u))"
      using False b(2) by (simp add: cpuPercent_def c1 c2 Let_def a(1) b(1) usage del: to_f32.simps)
    show ?thesis
    proof (cases "u < 0 \<or> 100 < u")
      case False
      then show ?thesis unfolding val using to_f32_percent [of u] by (auto simp: percentage_def simp del: to_f32.simps)
    qed (auto simp: val simp del: to_f32.simps)
  qed
qed

lemma memory_percentage:
  assumes "\<forall>data. meminfo = Some data \<longrightarrow> available (read_memory data) \<le> mi_total (read_memory data)"
  shows "percentage (MemoryPercent meminfo)"
proof (cases meminfo)
  case (Some data)
  define m where "m = read_memory data"
  show ?thesis
  proof (cases "mi_total m = 0")
    case False
    let ?used = "mi_total m - available m"
    have le: "available m \<le> mi_total m" using assms Some by (simp add: m_def)
    have "uint ?used \<le> uint (mi_total m)"
      using le by (metis uint_minus_simple_alt diff_ge_0_iff_ge uint_ge_0 word_le_def diff_le_eq le_add_same_cancel1)
    then have "of_int (uint ?used) \<le> (of_int (uint (mi_total m)) :: rat)" by (simp only: of_int_le_iff)
    note mono = round64_mono [OF this]
    obtain a where a: "f64_of_int (uint ?used) = Fin a" "0 \<le> a" "a = round64 (of_int (uint ?used))"
      by (rule uint64_float)
    obtain b where b: "f64_of_int (uint (mi_total m)) = Fin b" "1 \<le> b" "b = round64 (of_int (uint (mi_total m)))"
      using uint64_float [of "mi_total m"] False by metis
    have ab: "a \<le> b" using mono a(3) b(3) by (simp only:)
    have q: "of_int 0 \<le> a / b" "a / b \<le> of_int 1" using a(2) b(2) ab by (simp_all add: divide_le_eq)
    obtain q where q: "mk64 (a / b) = Fin q" "0 \<le> q" "q \<le> 1"
      by (rule mk64_bounds [OF q]) simp_all
    have "of_int 0 \<le> q * 100" "q * 100 \<le> of_int 100" using q by simp_all
    then obtain u where u: "mk64 (q * 100) = Fin u" "0 \<le> u" "u \<le> 100"
      by (rule mk64_bounds) simp_all
    have "MemoryPercent meminfo = to_f32 (Fin u)"
      using Some False b(2) q(1) u(1) by (simp add: MemoryPercent_def m_def [symmetric] memory_usage_def a(1) b(1) Let_def)
    then show ?thesis using to_f32_percent [OF u(2,3)] by (auto simp: percentage_def simp del: to_f32.simps)
  qed (simp add: MemoryPercent_def Some m_def)
qed (simp add: MemoryPercent_def)

text \<open>C40: the resource metrics are percentages. Whatever the two samples of \<open>/proc/stat\<close> say (numbers
  that go backwards, that overflow, or none at all), the processor use is between 0 and 100 and never
  infinite or not a number; and so is the memory use unless \<open>/proc/meminfo\<close> has more memory available
  than there is.\<close>

theorem resource_percentages:
  "percentage (cpuPercent stat1 stat2) \<and>
   ((\<forall>data. meminfo = Some data \<longrightarrow> available (read_memory data) \<le> mi_total (read_memory data)) \<longrightarrow>
    percentage (MemoryPercent meminfo))"
  using cpu_percentage memory_percentage by blast

lemma sample_meminfo: "read_memory ''MemTotal: 8 kB'' =
    \<lparr>mi_total = 8, mi_available = 0, mi_free = 0, mi_buffers = 0, mi_cached = 0\<rparr>"
proof -
  have "GoStrings.fields ''MemTotal: 8 kB'' = [''MemTotal:'', ''8'', ''kB'']" by code_simp
  moreover have "split_on (CHR 0x0A) ''MemTotal: 8 kB'' = [''MemTotal: 8 kB'']" by code_simp
  moreover have "digit_of (CHR ''8'') = Some 8" by code_simp
  ultimately show ?thesis by (simp add: read_memory_def mem_line_def parse_uint64_def)
qed

theorem resource_percentages_witness:
  "percentage (MemoryPercent (Some ''MemTotal: 8 kB''))"
  using resource_percentages [of None None "Some ''MemTotal: 8 kB''"]
  by (simp add: sample_meminfo available_def)

text \<open>More memory available than there is: the subtraction of unsigned numbers wraps around.\<close>

theorem memory_wraps:
  "\<exists>r. memory_usage \<lparr>mi_total = 1, mi_available = 2, mi_free = 0, mi_buffers = 0, mi_cached = 0\<rparr> = Fin r \<and>
     2 ^ 53 \<le> r"
proof -
  have "uint (1 - 2 :: uint64) = 2 ^ 64 - 1" by (simp add: unsigned_minus_1_eq_mask mask_eq_exp_minus_1)
  moreover obtain a where a: "f64_of_int (uint (1 - 2 :: uint64)) = Fin a" "a = round64 (of_int (uint (1 - 2 :: uint64)))"
      "0 \<le> a" "a \<le> pow2 64"
    by (rule uint64_float)
  moreover have "round64 (of_int (2 ^ 53)) \<le> round64 (of_int (2 ^ 64 - 1))" by (rule round64_mono) simp
  moreover have "round64 (of_int (2 ^ 53)) = 2 ^ 53" using round64_int [of "2 ^ 53"] by simp
  ultimately have big: "2 ^ 53 \<le> a" by simp
  have "\<bar>a\<bar> \<le> pow2 64" using a by simp
  note q = mk64_upto [OF this]
  have q1: "2 ^ 53 \<le> round64 a"
    using round64_mono [OF big] round64_int [of "2 ^ 53"] by simp
  have "\<bar>round64 a * 100\<bar> \<le> pow2 71" using q(2) q1 by (simp add: pow2_def abs_mult)
  note u = mk64_upto [OF this]
  have "2 ^ 53 \<le> round64 a * 100" using q1 by simp
  then have "2 ^ 53 \<le> round64 (round64 a * 100)"
    using round64_mono [of "2 ^ 53" "round64 a * 100"] round64_int [of "2 ^ 53"] by simp
  moreover have "f64_of_int (uint (1 :: uint64)) = Fin 1" using f64_of_int_exact [of 1] by simp
  ultimately show ?thesis
    using a(1) q(1) u(1) by (simp add: memory_usage_def available_def Let_def)
qed

section \<open>Uptime\<close>

text \<open>The uptime in whole seconds, from the duration \<open>since\<close> the metrics were made, in nanoseconds
  (\<open>time.Since\<close> reads the monotonic clock).\<close>

definition GetUptime :: "int \<Rightarrow> uint64" where
  "GetUptime since = (case f64_to_uint64 (duration_Seconds since) of None \<Rightarrow> 0 | Some n \<Rightarrow> n)"

text \<open>It is the number of whole seconds, or one more: the sum of \<open>Seconds\<close> rounds up when the rest is
  close to a second.\<close>

theorem uptime_seconds:
  assumes "0 \<le> since" and "since < 2 ^ 63"
  shows "since div 1000000000 \<le> uint (GetUptime since) \<and> uint (GetUptime since) \<le> since div 1000000000 + 1"
proof -
  let ?q = "since div 1000000000" and ?r = "since mod 1000000000"
  have q: "0 \<le> ?q" "?q \<le> 2 ^ 34" and r: "0 \<le> ?r" "?r < 1000000000"
    using assms by (auto simp: pos_imp_zdiv_nonneg_iff)
  define f where "f = \<lfloor>secs since\<rfloor>"
  have "(of_int 0 :: rat) \<le> of_int ?r / 1000000000" "(of_int ?r :: rat) / 1000000000 \<le> of_int 1"
    using r by simp_all
  then obtain x where x: "x = round64 (of_int ?r / 1000000000)" "of_int 0 \<le> x" "x \<le> of_int 1"
    by (rule mk64_bounds) simp_all
  have "of_int ?q \<le> of_int ?q + x" "of_int ?q + x \<le> of_int (?q + 1)" using x by simp_all
  moreover have "\<bar>?q\<bar> \<le> 2 ^ 53" "\<bar>?q + 1\<bar> \<le> 2 ^ 53" using q by simp_all
  ultimately obtain u where u: "u = round64 (of_int ?q + x)" "of_int ?q \<le> u" "u \<le> of_int (?q + 1)"
    by (rule mk64_bounds)
  have su: "secs since = u" by (simp add: secs_def u(1) x(1))
  have i: "?q \<le> f" "f \<le> ?q + 1"
    unfolding f_def su using u(2,3) by (simp_all add: le_floor_iff floor_le_iff)
  have f: "0 \<le> f" "f \<le> 2 ^ 64 - 1" using i q by simp_all
  have "(of_int ?q :: rat) \<ge> 0" using q(1) by simp
  with u(2) have "rat_truncate (secs since) = f" by (simp add: rat_truncate_def f_def su)
  with f have "GetUptime since = word_of_int f"
    by (simp only: GetUptime_def duration_Seconds_fin [OF assms] f64_to_uint64_def f64_to_int.simps Let_def
        if_True simp_thms option.case option.map)
  moreover have "uint (word_of_int f :: uint64) = f"
    using f by (simp add: uint_word_of_int take_bit_int_eq_self)
  ultimately show ?thesis using i by simp
qed

end
