(* ===== verification/Endpoints.thy ===== *)
theory Endpoints
  imports HttpMux RateLimitMiddleware Collectors
begin

text \<open>
  The two ports of the proxy: \<open>internal/proxy/handlers.go\<close>, and the health and metrics handlers
  of \<open>internal/proxy/handler\<close>. JSON encoders of the standard library, the redirect response and
  the response of the Prometheus library are parameters. Main facts: what the public port answers
  to every request, of which only the proxied ones can change or show anything beyond one bit of
  health; the operational port only reads; the two health endpoints agree.
\<close>

section \<open>Health\<close>

text \<open>\<open>health.BackendStatus\<close> and \<open>health.HealthResponse\<close>.\<close>

record health_backend_status =
  hbs_URL :: string
  hbs_Enabled :: bool
  hbs_Active :: bool
  hbs_ErrorCount :: uint32
  hbs_LastError :: string
  hbs_LastHealthCheck :: int64
  hbs_CurrentConnections :: int32

record health_response =
  hrp_Status :: string
  hrp_ActiveCount :: nat
  hrp_TotalCount :: nat
  hrp_Backends :: "health_backend_status list"

text \<open>The report of the metrics handler.\<close>

record metrics_response =
  mr_system :: proxy_resources
  mr_backends :: "backend_metrics_response list"
  mr_rate_limit :: security_metrics
  mr_http :: http_metrics_response

text \<open>A sample of the Prometheus collector: the name of its description, its kind, its value and
  the values of its labels.\<close>

datatype value_type = CounterValue | GaugeValue

record sample =
  sa_name :: string
  sa_type :: value_type
  sa_value :: f64
  sa_labels :: "string list"

text \<open>What the handlers get from elsewhere: the JSON texts (or error messages) of their responses,
  the sampled resources of the process, the nanoseconds since its start, the orders in which the
  loops visit the maps, and the responses of \<open>http.Redirect\<close> and of the Prometheus library.\<close>

record endpoint_env =
  ee_health_json :: "health_response \<Rightarrow> string + string"
  ee_metrics_json :: "metrics_response \<Rightarrow> string + string"
  ee_resources :: proxy_resources
  ee_since :: int
  ee_url_order :: "string list"
  ee_code_order :: "goint list"
  ee_int32_order :: "int32 list"
  ee_method_order :: "string list"
  ee_redirect :: "string \<Rightarrow> request \<Rightarrow> response_writer \<Rightarrow> response_writer"
  ee_promhttp :: "sample list \<Rightarrow> request \<Rightarrow> response_writer \<Rightarrow> response_writer"

definition activeBackendCount :: "runtime \<Rightarrow> nat" where
  "activeBackendCount rt =
     length (filter (\<lambda>b. br_Enabled b \<and> br_Active b) (rt_GetBackendsResponse rt))"

text \<open>The JSON text of \<open>{"status": s}\<close>, with the newline of the encoder.\<close>

definition status_json :: "string \<Rightarrow> string" where
  "status_json s =
     (let q = [CHR 0x22] in ''{'' @ q @ ''status'' @ q @ '':'' @ q @ s @ q @ ''}'' @ [CHR 0x0A])"

definition set_json :: "response_writer \<Rightarrow> response_writer" where
  "set_json w = on_header (header_Set ''Content-Type'' ''application/json'') w"

definition health_answer :: "bool \<Rightarrow> response_writer \<Rightarrow> response_writer" where
  "health_answer none w =
     (let status = (if none then ''unhealthy'' else ''healthy'');
          code = (if none then 503 else 200)
      in write_body (status_json status) (write_header code (set_json w)))"

definition PublicHealthHandler :: "proxy_world http_handler" where
  "PublicHealthHandler req s = Some (on_writer (health_answer (activeBackendCount (pw_rt s) = 0)) s)"

text \<open>\<open>time.Time.Unix\<close>: whole seconds, counted from 1970.\<close>

definition time_Unix :: "go_time \<Rightarrow> int64" where
  "time_Unix t = word_of_int (t div 1000000000 - 62135596800)"

text \<open>The entry of one backend.\<close>

definition health_item :: "runtime \<Rightarrow> backend_response \<Rightarrow> health_backend_status" where
  "health_item rt b =
     (let connections = (case bmm_Get (br_URL b) (mt_Backends (rt_Metrics rt)) of
                           None \<Rightarrow> 0 | Some bm \<Rightarrow> ucast (bm_ActiveConnections bm));
          lastCheck = (case state_BackendStatus (State rt) (br_Id b) of
                         None \<Rightarrow> 0
                       | Some a \<Rightarrow>
                           (let t = ss_LastHealthCheck (status_Snapshot (st_mem (rt_store rt) a))
                            in if t \<noteq> 0 then time_Unix t else 0))
      in \<lparr>hbs_URL = br_URL b, hbs_Enabled = br_Enabled b, hbs_Active = br_Active b,
          hbs_ErrorCount = br_ErrorCount b, hbs_LastError = br_LastError b,
          hbs_LastHealthCheck = lastCheck, hbs_CurrentConnections = connections\<rparr>)"

text \<open>The loop over the backends, with the count of active ones.\<close>

fun health_loop ::
  "runtime \<Rightarrow> backend_response list \<Rightarrow> nat \<Rightarrow> health_backend_status list \<Rightarrow> nat \<times> health_backend_status list" where
  "health_loop rt [] activeCount out = (activeCount, out)"
| "health_loop rt (b # bs) activeCount out =
     health_loop rt bs (if br_Enabled b \<and> br_Active b then Suc activeCount else activeCount)
       (out @ [health_item rt b])"

definition health_report :: "runtime \<Rightarrow> health_response" where
  "health_report rt =
     (let backends = state_Backends (rt_store rt) (State rt);
          (activeCount, items) = health_loop rt backends 0 []
      in \<lparr>hrp_Status = (if activeCount = 0 then ''unhealthy'' else ''healthy''),
          hrp_ActiveCount = activeCount, hrp_TotalCount = length backends, hrp_Backends = items\<rparr>)"

definition HealthHandler :: "endpoint_env \<Rightarrow> proxy_world http_handler" where
  "HealthHandler E req s =
     (let response = health_report (pw_rt s);
          code = (if hrp_ActiveCount response = 0 then 503 else 200);
          w = write_header code (set_json (pw_writer s))
      in Some (s\<lparr>pw_writer :=
                  (case ee_health_json E response of
                     Inr text \<Rightarrow> write_body text w
                   | Inl _ \<Rightarrow> http_Error ''Failed to encode health response'' 500 w)\<rparr>))"

section \<open>Metrics\<close>

definition metrics_report :: "endpoint_env \<Rightarrow> metrics \<Rightarrow> metrics_response" where
  "metrics_report E m =
     \<lparr>mr_system = ee_resources E,
      mr_backends = ToAllBackendsResponse (ee_url_order E) m,
      mr_rate_limit = ToSecurityMetricsResponse m,
      mr_http = ToHTTPMetricsResponse (ee_code_order E) m\<rparr>"

definition MetricsHandler :: "endpoint_env \<Rightarrow> proxy_world http_handler" where
  "MetricsHandler E req s =
     (let w = set_json (pw_writer s)
      in Some (s\<lparr>pw_writer :=
                  (case ee_metrics_json E (metrics_report E (rt_Metrics (pw_rt s))) of
                     Inr text \<Rightarrow> write_body text w
                   | Inl _ \<Rightarrow> w)\<rparr>))"

text \<open>The names and variable labels of the descriptions that \<open>newProxyCollector\<close> makes; \<open>Describe\<close>
  sends them in this order.\<close>

definition newProxyCollector :: "(string \<times> string list) list" where
  "newProxyCollector =
     [(''reverse_proxy_goroutines'', []), (''reverse_proxy_memory_percent'', []),
      (''reverse_proxy_cpu_percent'', []), (''reverse_proxy_uptime_seconds'', []),
      (''reverse_proxy_requests_total'', []), (''reverse_proxy_failed_requests_total'', []),
      (''reverse_proxy_rate_limit_allowed_total'', []), (''reverse_proxy_rate_limit_blocked_total'', []),
      (''reverse_proxy_request_size_bytes'', []), (''reverse_proxy_response_size_bytes'', []),
      (''reverse_proxy_http_status_total'', [''code'']), (''reverse_proxy_http_method_total'', [''method'']),
      (''reverse_proxy_backend_requests_total'', [''backend'']),
      (''reverse_proxy_backend_failures_total'', [''backend'']),
      (''reverse_proxy_backend_timeouts_total'', [''backend'']),
      (''reverse_proxy_backend_active_connections'', [''backend'']),
      (''reverse_proxy_backend_latency_ewma'', [''backend'']),
      (''reverse_proxy_backend_error_rate_ewma'', [''backend''])]"

definition Describe :: "(string \<times> string list) list" where
  "Describe = newProxyCollector"

text \<open>\<open>proxyCollector.Collect\<close>: the samples in the order in which they are sent. A missing key
  cannot occur, as the loops visit the keys of the maps.\<close>

definition counter :: "string \<Rightarrow> uint64 \<Rightarrow> string list \<Rightarrow> sample" where
  "counter name v ls =
     \<lparr>sa_name = name, sa_type = CounterValue, sa_value = f64_of_int (uint v), sa_labels = ls\<rparr>"

definition gauge :: "string \<Rightarrow> f64 \<Rightarrow> string list \<Rightarrow> sample" where
  "gauge name v ls = \<lparr>sa_name = name, sa_type = GaugeValue, sa_value = v, sa_labels = ls\<rparr>"

definition backend_samples :: "backend_metrics_response \<Rightarrow> sample list" where
  "backend_samples b =
     [counter ''reverse_proxy_backend_requests_total'' (bmr_Requests b) [bmr_URL b],
      counter ''reverse_proxy_backend_failures_total'' (bmr_Failures b) [bmr_URL b],
      counter ''reverse_proxy_backend_timeouts_total'' (bmr_Timeouts b) [bmr_URL b],
      gauge ''reverse_proxy_backend_active_connections'' (f64_of_int (uint (bmr_ActiveConnections b))) [bmr_URL b],
      gauge ''reverse_proxy_backend_latency_ewma'' (bmr_LatencyEWMA b) [bmr_URL b],
      gauge ''reverse_proxy_backend_error_rate_ewma'' (bmr_ErrorRateEWMA b) [bmr_URL b]]"

definition Collect :: "endpoint_env \<Rightarrow> metrics \<Rightarrow> sample list" where
  "Collect E m =
     (let sys = ee_resources E;
          backends = ToAllBackendsResponse (ee_url_order E) m;
          rateLimit = ToSecurityMetricsResponse m;
          httpMetrics = ToHTTPMetricsResponse (ee_code_order E) m
      in [gauge ''reverse_proxy_goroutines'' (f64_of_int (uint (prs_GoroutineCount sys))) [],
          gauge ''reverse_proxy_memory_percent'' (prs_MemoryPercent sys) [],
          gauge ''reverse_proxy_cpu_percent'' (prs_CPUPercent sys) [],
          counter ''reverse_proxy_uptime_seconds'' (GetUptime (ee_since E)) [],
          counter ''reverse_proxy_requests_total'' (GetTotalRequests m) [],
          counter ''reverse_proxy_failed_requests_total'' (GetTotalFailedRequests m) [],
          counter ''reverse_proxy_rate_limit_allowed_total'' (sm_AllowedRequests rateLimit) [],
          counter ''reverse_proxy_rate_limit_blocked_total'' (sm_BlockedRequests rateLimit) [],
          counter ''reverse_proxy_request_size_bytes'' (hmr_TotalRequestSize httpMetrics) [],
          counter ''reverse_proxy_response_size_bytes'' (hmr_TotalResponseSize httpMetrics) []]
         @ map (\<lambda>code. counter ''reverse_proxy_http_status_total''
                  (case hmr_StatusCodes httpMetrics code of None \<Rightarrow> 0 | Some n \<Rightarrow> n) [show_int (sint code)])
             (ee_int32_order E)
         @ map (\<lambda>method. counter ''reverse_proxy_http_method_total''
                  (case hmr_MethodsCount httpMetrics method of None \<Rightarrow> 0 | Some n \<Rightarrow> n) [method])
             (ee_method_order E)
         @ concat (map backend_samples backends))"

definition MetricsPrometheusHandler :: "endpoint_env \<Rightarrow> proxy_world http_handler" where
  "MetricsPrometheusHandler E req s =
     Some (on_writer (ee_promhttp E (Collect E (rt_Metrics (pw_rt s))) req) s)"

section \<open>The ports\<close>

definition joinMethods :: "string list \<Rightarrow> string" where
  "joinMethods methods =
     (case methods of [] \<Rightarrow> '''' | m # rest \<Rightarrow> foldl (\<lambda>joined method. joined @ '', '' @ method) m rest)"

primrec allowed_loop :: "string list \<Rightarrow> string \<Rightarrow> bool" where
  "allowed_loop [] method \<longleftrightarrow> False"
| "allowed_loop (m # ms) method \<longleftrightarrow> (if method = m then True else allowed_loop ms method)"

definition readOnlyHandler :: "proxy_world http_handler \<Rightarrow> string list \<Rightarrow> proxy_world http_handler" where
  "readOnlyHandler nxt methods req s =
     (if allowed_loop methods (rq_Method req) then nxt req s
      else Some (on_writer (\<lambda>w. http_Error ''Method Not Allowed'' 405
                              (on_header (header_Set ''Allow'' (joinMethods methods)) w)) s))"

definition any_method :: "seg list \<Rightarrow> mux_pattern" where
  "any_method ss = \<lparr>mp_method = '''', mp_segs = ss\<rparr>"

definition NotFound :: "proxy_world http_handler" where
  "NotFound req s = Some (on_writer not_found_response s)"

definition read_methods :: "string list" where
  "read_methods = [''GET'', ''HEAD'']"

definition publicHandler ::
  "http_env \<Rightarrow> go_time \<Rightarrow> go_time \<Rightarrow> client_ip_resolver \<Rightarrow> proxy_world mux_handler mux" where
  "publicHandler H t0 now r =
     [(any_method [Multi], \<lambda>_. public_root H t0 now r),
      (any_method [Lit ''health''], \<lambda>_. readOnlyHandler PublicHealthHandler read_methods),
      (any_method [Lit ''metrics''], \<lambda>_. NotFound),
      (any_method [Lit ''metrics'', Lit ''prometheus''], \<lambda>_. NotFound)]"

definition operationalHandler :: "endpoint_env \<Rightarrow> proxy_world mux_handler mux" where
  "operationalHandler E =
     [(any_method [Lit ''health''], \<lambda>_. readOnlyHandler (HealthHandler E) read_methods),
      (any_method [Lit ''metrics''], \<lambda>_. readOnlyHandler (MetricsHandler E) read_methods),
      (any_method [Lit ''metrics'', Lit ''prometheus''],
         \<lambda>_. readOnlyHandler (MetricsPrometheusHandler E) read_methods)]"

definition serve_public ::
  "http_env \<Rightarrow> endpoint_env \<Rightarrow> go_time \<Rightarrow> go_time \<Rightarrow> client_ip_resolver \<Rightarrow> proxy_world http_handler" where
  "serve_public H E t0 now r = serve_mux on_writer (ee_redirect E) (publicHandler H t0 now r)"

definition serve_ops :: "endpoint_env \<Rightarrow> proxy_world http_handler" where
  "serve_ops E = serve_mux on_writer (ee_redirect E) (operationalHandler E)"

section \<open>The public port\<close>

text \<open>Which of its routes the public mux takes for a path.\<close>

datatype public_route = R_Proxy | R_Health | R_Hidden

definition public_route :: "string \<Rightarrow> public_route" where
  "public_route path =
     (case first_segment path of (w, rest) \<Rightarrow>
        if w = ''health'' \<and> rest = '''' then R_Health
        else if w = ''metrics'' \<and> (rest = '''' \<or> first_segment rest = (''prometheus'', ''''))
        then R_Hidden else R_Proxy)"

definition public_handler ::
  "http_env \<Rightarrow> go_time \<Rightarrow> go_time \<Rightarrow> client_ip_resolver \<Rightarrow> public_route \<Rightarrow> proxy_world http_handler" where
  "public_handler H t0 now r route =
     (case route of R_Proxy \<Rightarrow> public_root H t0 now r
      | R_Health \<Rightarrow> readOnlyHandler PublicHealthHandler read_methods
      | R_Hidden \<Rightarrow> NotFound)"

lemma method_node_any:
  "method_node m method = (if method = '''' then map (\<lambda>e. (mp_segs (fst e), e)) m else [])"
  if "\<forall>e \<in> set m. mp_method (fst e) = ''''"
proof -
  have "filter (\<lambda>e. mp_method (fst e) = method) m = (if method = '''' then m else [])"
    using that by (auto simp: filter_empty_conv intro: filter_True)
  then show ?thesis by (simp add: method_node_def)
qed

lemma mux_match_any:
  assumes "\<forall>e \<in> set m. mp_method (fst e) = ''''"
  shows "mux_match m method path = match_path (map (\<lambda>e. (mp_segs (fst e), e)) m) path []"
  using method_node_any [OF assms] by (auto simp: mux_match_def split: option.splits)

lemma methods_at_any: "\<forall>e \<in> set m. mp_method (fst e) = '''' \<Longrightarrow> methods_at m path = []"
  by (auto simp: methods_at_def filter_empty_conv)

lemma found_any:
  assumes "\<forall>e \<in> set m. mp_method (fst e) = ''''"
  shows "found m path r = (case r of None \<Rightarrow> D_not_found
      | Some ((p, h), ms) \<Rightarrow> D_handler p h (zip (wild_names (mp_segs p)) ms))"
  by (auto simp: found_def matching_methods_def methods_at_any [OF assms] split: option.splits)

text \<open>The search in a tree with one literal that may be followed by another.\<close>

lemma match_leaf_lit:
  "match_path [([], x), ([Lit l], y)] path ms =
     (if path = '''' then Some (x, ms)
      else if first_segment path = (l, '''') then Some (y, ms) else None)"
proof (cases "path = ''''")
  case False
  obtain w rest where f: "first_segment path = (w, rest)" by fastforce
  show ?thesis
    using False f by (simp add: match_path_step [OF _ False f] match_path_leaf)
qed (simp add: match_path_empty)

lemma match_public:
  assumes "path \<noteq> ''''"
  shows "match_path [([Multi], e1), ([Lit ''health''], e2), ([Lit ''metrics''], e3),
             ([Lit ''metrics'', Lit ''prometheus''], e4)] path [] =
     Some (case public_route path of R_Proxy \<Rightarrow> e1 | R_Health \<Rightarrow> e2
           | R_Hidden \<Rightarrow> if snd (first_segment path) = '''' then e3 else e4, [])"
proof -
  obtain w rest where f: "first_segment path = (w, rest)" by fastforce
  show ?thesis
    using f by (auto simp: match_path_step [OF _ assms f] public_route_def match_path_leaf match_leaf_lit
        split: option.splits)
qed

lemma public_any: "\<forall>e \<in> set (publicHandler H t0 now r). mp_method (fst e) = ''''"
  by (simp add: publicHandler_def any_method_def)

definition public_index :: "string \<Rightarrow> nat" where
  "public_index path =
     (case public_route path of R_Proxy \<Rightarrow> 0 | R_Health \<Rightarrow> 1
      | R_Hidden \<Rightarrow> (if snd (first_segment path) = '''' then 2 else 3))"

lemma public_mux_match:
  assumes "path \<noteq> ''''"
  shows "mux_match (publicHandler H t0 now r) method path =
     Some (publicHandler H t0 now r ! public_index path, [])"
  unfolding mux_match_any [OF public_any]
  by (cases "public_route path")
    (simp_all add: publicHandler_def any_method_def match_public [OF assms] public_index_def)

lemma public_match:
  assumes "path \<noteq> ''''"
  obtains p h where "mux_match (publicHandler H t0 now r) method path = Some ((p, h), [])"
    and "h [] = public_handler H t0 now r (public_route path)"
    and "mp_segs p = [Multi] \<longleftrightarrow> public_route path = R_Proxy" and "wild_names (mp_segs p) = []"
    and "last (mp_segs p) = Multi \<longleftrightarrow> public_route path = R_Proxy"
proof -
  obtain p h where e: "publicHandler H t0 now r ! public_index path = (p, h)" by fastforce
  show thesis
    by (rule that [of p h], unfold public_mux_match [OF assms] e)
      (use e in \<open>auto simp: publicHandler_def any_method_def public_handler_def wild_names_def public_index_def
         split: public_route.splits if_splits\<close>)
qed

text \<open>The only pattern that ends in a slash is the root, so a redirect for a missing slash needs a
  path without any; the server has such paths for \<open>CONNECT\<close> at most.\<close>

lemma first_segment_slash:
  assumes "path \<noteq> ''''"
  shows "snd (first_segment (path @ ''/'')) \<noteq> ''''" and "ends_in_slash (snd (first_segment (path @ ''/'')))"
proof -
  have ne: "path @ ''/'' \<noteq> ''/''" using assms by simp
  have "drop 1 (path @ ''/'') = drop 1 path @ ''/''" using assms by (cases path) simp_all
  then have e: "snd (first_segment (path @ ''/'')) = dropWhile (\<lambda>c. c \<noteq> CHR ''/'') (drop 1 path @ ''/'')"
    using ne by (simp add: first_segment_def Let_def)
  show "snd (first_segment (path @ ''/'')) \<noteq> ''''" unfolding e by (simp add: dropWhile_eq_Nil_conv)
  then show "ends_in_slash (snd (first_segment (path @ ''/'')))"
    unfolding e ends_in_slash_def by (metis last_snoc last_appendR dropWhile_append3 takeWhile_dropWhile_id)
qed

lemma public_route_slash:
  assumes "path \<noteq> ''''"
  shows "public_route (path @ ''/'') = R_Proxy"
proof -
  obtain w rest where f: "first_segment (path @ ''/'') = (w, rest)" by fastforce
  note r = first_segment_slash [OF assms, unfolded f snd_conv]
  have "first_segment rest \<noteq> (''prometheus'', '''')"
  proof (cases "rest = ''/''")
    case False
    obtain us where us: "rest = us @ ''/''" "us \<noteq> ''''"
      using r False unfolding ends_in_slash_def by (metis append_butlast_last_id append_Nil)
    show ?thesis using first_segment_slash(1) [OF us(2)] unfolding us(1) by (metis snd_conv)
  qed (simp add: first_segment_def)
  then show ?thesis using f r(1) by (simp add: public_route_def)
qed

lemma public_slash_redirect:
  "slash_redirect (publicHandler H t0 now r) method path \<longleftrightarrow>
     path \<noteq> '''' \<and> CHR ''/'' \<notin> set path \<and> public_route path = R_Proxy"
proof (cases "path = ''''")
  case False
  obtain p h where m: "mux_match (publicHandler H t0 now r) method (path @ ''/'') = Some ((p, h), [])"
    and p: "mp_segs p = [Multi]"
    using public_route_slash [OF False] by (metis append_is_Nil_conv False public_match)
  obtain p' h' where m': "mux_match (publicHandler H t0 now r) method path = Some ((p', h'), [])"
    and p': "mp_segs p' = [Multi] \<longleftrightarrow> public_route path = R_Proxy"
      "last (mp_segs p') = Multi \<longleftrightarrow> public_route path = R_Proxy"
    using public_match [OF False] by metis
  have "exact_match p (path @ ''/'') \<longleftrightarrow> CHR ''/'' \<notin> set path"
    by (simp add: exact_match_def p ends_in_slash_def filter_empty_conv) metis
  moreover have "exact_match p' path \<longleftrightarrow> public_route path \<noteq> R_Proxy" if "\<not> ends_in_slash path"
    using that p' by (auto simp: exact_match_def)
  moreover have "\<not> ends_in_slash path" if "CHR ''/'' \<notin> set path"
    using that last_in_set [of path] by (metis ends_in_slash_def)
  ultimately show ?thesis using False m m' by (auto simp: slash_redirect_def)
qed (simp add: slash_redirect_def)

text \<open>The requests that reach the proxy, and the answers to all others: they depend on the request
  and on whether a backend is active.\<close>

definition proxied :: "request \<Rightarrow> bool" where
  "proxied req \<longleftrightarrow>
     rq_RequestURI req \<noteq> ''*'' \<and> EscapedPath req \<noteq> '''' \<and> public_route (EscapedPath req) = R_Proxy \<and>
     (if rq_Method req = ''CONNECT'' then CHR ''/'' \<in> set (EscapedPath req)
      else clean_path (EscapedPath req) = EscapedPath req)"

definition public_answer :: "endpoint_env \<Rightarrow> request \<Rightarrow> bool \<Rightarrow> response_writer \<Rightarrow> response_writer" where
  "public_answer E req none w =
     (let path = EscapedPath req
      in if rq_RequestURI req = ''*'' then bad_request_response w
         else if rq_Method req \<noteq> ''CONNECT'' \<and> clean_path path \<noteq> path then ee_redirect E (clean_path path) req w
         else if path = '''' then not_found_response w
         else
           case public_route path of
             R_Proxy \<Rightarrow> ee_redirect E (clean_path (rq_URL_Path req) @ ''/'') req w
           | R_Health \<Rightarrow>
               if rq_Method req \<in> {''GET'', ''HEAD''} then health_answer none w
               else not_allowed_response [''GET'', ''HEAD''] w
           | R_Hidden \<Rightarrow> not_found_response w)"

lemma clean_path_slash: "CHR ''/'' \<in> set (clean_path s)"
  using hd_rooted [of "path_words s"] hd_in_set [of "rooted (path_words s)"]
  by (simp add: clean_path_words)

lemma found_public:
  assumes "path \<noteq> ''''"
  obtains p h where
    "found (publicHandler H t0 now r) path (mux_match (publicHandler H t0 now r) method path) = D_handler p h []"
    and "h [] = public_handler H t0 now r (public_route path)"
proof -
  obtain p h where "mux_match (publicHandler H t0 now r) method path = Some ((p, h), [])"
    "h [] = public_handler H t0 now r (public_route path)" "wild_names (mp_segs p) = []"
    using public_match [OF assms] by metis
  then show thesis by (intro that [of p h]) (simp_all add: found_any [OF public_any])
qed

lemma find_public:
  "find_handler (publicHandler H t0 now r) req =
     (let path = EscapedPath req; m = publicHandler H t0 now r
      in if rq_RequestURI req = ''*'' then D_bad_request
         else if rq_Method req \<noteq> ''CONNECT'' \<and> clean_path path \<noteq> path then D_redirect (clean_path path)
         else if path = '''' then D_not_found
         else if public_route path = R_Proxy \<and> \<not> proxied req
         then D_redirect (clean_path (rq_URL_Path req) @ ''/'')
         else found m path (mux_match m (rq_Method req) path))"
proof -
  let ?m = "publicHandler H t0 now r" and ?e = "EscapedPath req"
  have none: "found ?m '''' (mux_match ?m ''CONNECT'' '''') = D_not_found"
    by (simp add: found_any [OF public_any] mux_match_any [OF public_any])
      (simp add: publicHandler_def any_method_def match_path_empty)
  have clean: "\<not> slash_redirect ?m (rq_Method req) (clean_path ?e)"
    using clean_path_slash [of ?e] by (simp add: public_slash_redirect)
  show ?thesis
  proof (cases "rq_Method req = ''CONNECT''")
    case True
    then show ?thesis
      using none by (auto simp: find_handler_def Let_def public_slash_redirect proxied_def)
  next
    case False
    then show ?thesis
      using clean by (auto simp: find_handler_def Let_def proxied_def)
  qed
qed

lemma read_only_health:
  "readOnlyHandler PublicHealthHandler read_methods req s =
     Some (on_writer (if rq_Method req \<in> {''GET'', ''HEAD''} then health_answer (activeBackendCount (pw_rt s) = 0)
                      else not_allowed_response [''GET'', ''HEAD'']) s)"
  by (simp add: readOnlyHandler_def read_methods_def PublicHealthHandler_def not_allowed_response_def [abs_def] joinMethods_def)

lemma serve_public_eq:
  "serve_public H E t0 now r req s =
     (if proxied req then public_root H t0 now r req s
      else Some (on_writer (public_answer E req (activeBackendCount (pw_rt s) = 0)) s))"
proof (cases "rq_RequestURI req = ''*'' \<or> (rq_Method req \<noteq> ''CONNECT'' \<and> clean_path (EscapedPath req) \<noteq> EscapedPath req)
    \<or> EscapedPath req = '''' \<or> (public_route (EscapedPath req) = R_Proxy \<and> \<not> proxied req)")
  case True
  then have "\<not> proxied req" by (auto simp: proxied_def)
  moreover have "public_answer E req none = (case find_handler (publicHandler H t0 now r) req of
      D_redirect path \<Rightarrow> ee_redirect E path req | D_not_found \<Rightarrow> not_found_response | D_bad_request \<Rightarrow> bad_request_response)"
    for none
    using True calculation by (auto simp: find_public public_answer_def Let_def fun_eq_iff)
  moreover have "\<exists>path. find_handler (publicHandler H t0 now r) req \<in> {D_redirect path, D_not_found, D_bad_request}"
    using True by (auto simp: find_public Let_def)
  ultimately show ?thesis by (auto simp: serve_public_def serve_mux_def)
next
  case False
  then have route: "public_route (EscapedPath req) = R_Proxy \<longleftrightarrow> proxied req" by (auto simp: proxied_def)
  obtain p h where f: "find_handler (publicHandler H t0 now r) req = D_handler p h []"
    and h: "h [] = public_handler H t0 now r (public_route (EscapedPath req))"
  proof -
    have ne: "EscapedPath req \<noteq> ''''" using False by simp
    have "find_handler (publicHandler H t0 now r) req = found (publicHandler H t0 now r) (EscapedPath req)
        (mux_match (publicHandler H t0 now r) (rq_Method req) (EscapedPath req))"
      using False by (auto simp: find_public Let_def)
    with that show thesis by (metis found_public [OF ne])
  qed
  show ?thesis
    using False route
    by (cases "public_route (EscapedPath req)")
      (auto simp: serve_public_def serve_mux_def f h public_handler_def public_answer_def read_only_health
         NotFound_def on_writer_def)
qed

text \<open>C30: the public port in one equation: \<open>proxied\<close> requests go through the client address and
  rate limit middlewares to the proxy handler; every other request leaves the runtime and the
  limiters alone, and its answer (a redirect to the clean path, 404 for the metrics paths, the health
  of the proxy for \<open>GET\<close> and \<open>HEAD\<close> of \<open>/health\<close> and 405 for its other methods) depends on
  nothing but the request and on whether any backend is active. So no metrics and no details of the
  health of backends reach the public port.\<close>

theorem public_port:
  "serve_public H E t0 now r req s =
     (if proxied req then public_root H t0 now r req s
      else Some (s\<lparr>pw_writer := public_answer E req (activeBackendCount (pw_rt s) = 0) (pw_writer s)\<rparr>))"
  unfolding serve_public_eq by (simp add: on_writer_def)

section \<open>The operational port\<close>

definition ops_route :: "string \<Rightarrow> (endpoint_env \<Rightarrow> proxy_world http_handler) option" where
  "ops_route path =
     (if path = '''' then None
      else
        case first_segment path of (w, rest) \<Rightarrow>
          if w = ''health'' \<and> rest = '''' then Some HealthHandler
          else if w = ''metrics'' \<and> rest = '''' then Some MetricsHandler
          else if w = ''metrics'' \<and> first_segment rest = (''prometheus'', '''') then Some MetricsPrometheusHandler
          else None)"

lemma ops_any: "\<forall>e \<in> set (operationalHandler E). mp_method (fst e) = ''''"
  by (simp add: operationalHandler_def any_method_def)

lemma match_ops:
  "match_path [([Lit ''health''], e1), ([Lit ''metrics''], e2), ([Lit ''metrics'', Lit ''prometheus''], e3)] path [] =
     (if path = '''' then None
      else
        case first_segment path of (w, rest) \<Rightarrow>
          if w = ''health'' \<and> rest = '''' then Some (e1, [])
          else if w = ''metrics'' \<and> rest = '''' then Some (e2, [])
          else if w = ''metrics'' \<and> first_segment rest = (''prometheus'', '''') then Some (e3, [])
          else None)"
proof (cases "path = ''''")
  case False
  obtain w rest where f: "first_segment path = (w, rest)" by fastforce
  show ?thesis
    using f False
    by (auto simp: match_path_step [OF _ False f] match_path_leaf match_leaf_lit split: option.splits)
qed (simp add: match_path_empty)

lemma ops_mux_match:
  "mux_match (operationalHandler E) method path =
     (case ops_route path of None \<Rightarrow> None
      | Some h \<Rightarrow> Some (operationalHandler E ! (if fst (first_segment path) = ''health'' then 0
                          else if snd (first_segment path) = '''' then 1 else 2), []))"
  unfolding mux_match_any [OF ops_any]
  by (simp add: operationalHandler_def any_method_def match_ops ops_route_def split: prod.splits)

lemma ops_entry:
  assumes "ops_route path = Some h"
  obtains p where "mux_match (operationalHandler E) method path = Some ((p, \<lambda>_. readOnlyHandler (h E) read_methods), [])"
    and "Multi \<notin> set (mp_segs p)" and "wild_names (mp_segs p) = []" and "mp_segs p \<noteq> []"
proof -
  obtain w rest where f: "first_segment path = (w, rest)" by fastforce
  show thesis
    by (rule that [of "fst (operationalHandler E ! (if w = ''health'' then 0 else if rest = '''' then 1 else 2))"],
        unfold ops_mux_match assms option.simps, insert assms)
      (auto simp: operationalHandler_def any_method_def ops_route_def f wild_names_def split: if_splits)
qed

lemma ops_no_slash_redirect: "\<not> slash_redirect (operationalHandler E) method path"
proof
  assume s: "slash_redirect (operationalHandler E) method path"
  then have ne: "path \<noteq> ''''" by (simp add: slash_redirect_def)
  have "ops_route (path @ ''/'') \<noteq> None"
    using s by (auto simp: slash_redirect_def ops_mux_match split: option.splits)
  moreover have "public_route (path @ ''/'') = R_Proxy" by (rule public_route_slash [OF ne])
  ultimately show False by (auto simp: ops_route_def public_route_def split: prod.splits if_splits)
qed

lemma serve_ops_eq:
  "serve_ops E req s =
     (let path = EscapedPath req
      in if rq_RequestURI req = ''*'' then Some (on_writer bad_request_response s)
         else if rq_Method req \<noteq> ''CONNECT'' \<and> clean_path path \<noteq> path
         then Some (on_writer (ee_redirect E (clean_path path) req) s)
         else
           case ops_route path of
             None \<Rightarrow> Some (on_writer not_found_response s)
           | Some h \<Rightarrow>
               if rq_Method req \<in> {''GET'', ''HEAD''} then h E req s
               else Some (on_writer (not_allowed_response [''GET'', ''HEAD'']) s))"
proof -
  let ?m = "operationalHandler E" and ?e = "EscapedPath req"
  have f: "find_handler ?m req =
     (if rq_RequestURI req = ''*'' then D_bad_request
      else if rq_Method req \<noteq> ''CONNECT'' \<and> clean_path ?e \<noteq> ?e then D_redirect (clean_path ?e)
      else found ?m ?e (mux_match ?m (rq_Method req) ?e))"
    by (auto simp: find_handler_def Let_def ops_no_slash_redirect)
  have ro: "readOnlyHandler (h E) read_methods req s =
      (if rq_Method req \<in> {''GET'', ''HEAD''} then h E req s
       else Some (on_writer (not_allowed_response [''GET'', ''HEAD'']) s))" for h
    by (simp add: readOnlyHandler_def read_methods_def not_allowed_response_def [abs_def] joinMethods_def)
  show ?thesis
  proof (cases "ops_route ?e")
    case None
    then have "found ?m ?e (mux_match ?m k ?e) = D_not_found" for k
      by (simp add: found_any [OF ops_any] ops_mux_match)
    with None show ?thesis by (simp add: serve_ops_def serve_mux_def f Let_def)
  next
    case (Some h)
    have "\<exists>p. found ?m ?e (mux_match ?m k ?e) = D_handler p (\<lambda>_. readOnlyHandler (h E) read_methods) []" for k
      by (rule ops_entry [OF Some, of E k]) (simp add: found_any [OF ops_any])
    then obtain p where
      "found ?m ?e (mux_match ?m k ?e) = D_handler (p k) (\<lambda>_. readOnlyHandler (h E) read_methods) []" for k
      by metis
    with Some show ?thesis by (simp add: serve_ops_def serve_mux_def f ro Let_def)
  qed
qed

text \<open>The operational port only reads: whatever the request, it answers, and the runtime and the
  limiters stay as they are; a request that is neither \<open>GET\<close> nor \<open>HEAD\<close> is answered without
  looking at the runtime, and so is every path other than the three endpoints.\<close>

theorem ops_port_reads:
  "\<exists>w. serve_ops E req s = Some (s\<lparr>pw_writer := w\<rparr>) \<and>
       (rq_Method req \<notin> {''GET'', ''HEAD''} \<or> ops_route (EscapedPath req) = None
        \<longrightarrow> (\<forall>s'. pw_writer s' = pw_writer s \<longrightarrow> serve_ops E req s' = Some (s'\<lparr>pw_writer := w\<rparr>)))"
proof -
  have h: "h \<in> {HealthHandler, MetricsHandler, MetricsPrometheusHandler}"
    if "ops_route (EscapedPath req) = Some h" for h
    using that by (auto simp: ops_route_def split: prod.splits if_splits)
  show ?thesis
  proof (cases "ops_route (EscapedPath req)")
    case None
    then show ?thesis by (auto simp: serve_ops_eq Let_def on_writer_def)
  next
    case (Some h)
    have "\<exists>w. h E req s = Some (s\<lparr>pw_writer := w\<rparr>)"
      using h [OF Some] by (auto simp: HealthHandler_def MetricsHandler_def MetricsPrometheusHandler_def Let_def on_writer_def)
    with Some show ?thesis by (auto simp: serve_ops_eq Let_def on_writer_def)
  qed
qed

definition sample_endpoints :: endpoint_env where
  "sample_endpoints =
     \<lparr>ee_health_json = (\<lambda>_. Inr ''{}''), ee_metrics_json = (\<lambda>_. Inr ''{}''),
      ee_resources = \<lparr>prs_GoroutineCount = 8, prs_MemoryPercent = Fin 1, prs_CPUPercent = Fin 2\<rparr>, ee_since = 5000000000,
      ee_url_order = [''http://a'', ''http://b''], ee_code_order = [200, 503], ee_int32_order = [200, 503],
      ee_method_order = [''GET''], ee_redirect = (\<lambda>_ _ w. w), ee_promhttp = (\<lambda>_ _ w. w)\<rparr>"

theorem ops_port_reads_witness:
  "let s = \<lparr>pw_rt = sample_runtime, pw_limits = NewRateLimitMiddleware None, pw_writer = new_writer []\<rparr>;
       s' = s\<lparr>pw_rt := sample_runtime\<lparr>rt_Metrics := NewMetrics\<rparr>\<rparr>;
       post = get_request\<lparr>rq_Method := ''POST''\<rparr>
   in \<exists>w. serve_ops sample_endpoints post s = Some (s\<lparr>pw_writer := w\<rparr>) \<and>
          serve_ops sample_endpoints post s' = Some (s'\<lparr>pw_writer := w\<rparr>)"
proof -
  let ?s = "\<lparr>pw_rt = sample_runtime, pw_limits = NewRateLimitMiddleware None, pw_writer = new_writer []\<rparr>"
  have "rq_Method (get_request\<lparr>rq_Method := ''POST''\<rparr>) \<notin> {''GET'', ''HEAD''}" by simp
  with ops_port_reads [of sample_endpoints "get_request\<lparr>rq_Method := ''POST''\<rparr>" ?s]
  obtain w where "serve_ops sample_endpoints (get_request\<lparr>rq_Method := ''POST''\<rparr>) ?s = Some (?s\<lparr>pw_writer := w\<rparr>)"
      "\<And>s'. pw_writer s' = pw_writer ?s \<Longrightarrow>
         serve_ops sample_endpoints (get_request\<lparr>rq_Method := ''POST''\<rparr>) s' = Some (s'\<lparr>pw_writer := w\<rparr>)"
    by blast
  then show ?thesis by (auto simp: Let_def)
qed

section \<open>The health endpoints\<close>

lemma health_loop_eq:
  "health_loop rt bs n out =
     (n + length (filter (\<lambda>b. br_Enabled b \<and> br_Active b) bs), out @ map (health_item rt) bs)"
  by (induction bs arbitrary: n out) auto

text \<open>A backend takes traffic if it is enabled and its status is healthy.\<close>

definition serving :: "runtime \<Rightarrow> backend_config \<Rightarrow> bool" where
  "serving rt b \<longleftrightarrow>
     Some b \<in> set (rt_GetBackends rt) \<and> bc_Enabled b \<and>
     (\<exists>a. rt_GetBackendStatus rt (bc_Id b) = Some a \<and> IsActive (st_mem (rt_store rt) a))"

lemma backend_item_sel:
  "br_Enabled (backend_item S state i b) = bc_Enabled b"
  "br_URL (backend_item S state i b) = bc_URL b"
  "br_Id (backend_item S state i b) = bc_Id b"
  "br_Active (backend_item S state i b) \<longleftrightarrow>
     (\<exists>a. state_BackendStatus state i = Some a \<and> IsActive (st_mem S a))"
  by (auto simp: backend_item_def Let_def IsActive_def status_Snapshot_def split: option.splits)

lemma active_count_zero: "activeBackendCount rt = 0 \<longleftrightarrow> \<not> (\<exists>b. serving rt b)"
proof -
  have "activeBackendCount rt = 0 \<longleftrightarrow>
      (\<forall>b \<in> set (non_nil (rt_GetBackends rt)). \<not> (bc_Enabled b \<and>
          (\<exists>a. rt_GetBackendStatus rt (bc_Id b) = Some a \<and> IsActive (st_mem (rt_store rt) a))))"
    by (simp add: activeBackendCount_def rt_GetBackendsResponse_def state_Backends_def filter_empty_conv
        backend_item_sel rt_GetBackends_def rt_GetBackendStatus_def ball_conj_distrib)
  then show ?thesis by (auto simp: serving_def)
qed

lemma health_report_eq:
  "health_report rt =
     (let bs = rt_GetBackendsResponse rt
      in \<lparr>hrp_Status = (if activeBackendCount rt = 0 then ''unhealthy'' else ''healthy''),
          hrp_ActiveCount = activeBackendCount rt, hrp_TotalCount = length bs,
          hrp_Backends = map (health_item rt) bs\<rparr>)"
  by (simp add: health_report_def health_loop_eq activeBackendCount_def rt_GetBackendsResponse_def Let_def)

lemma report_active: "hrp_ActiveCount (health_report rt) = activeBackendCount rt"
  by (simp add: health_report_eq Let_def)

lemma report_items: "hrp_Backends (health_report rt) = map (health_item rt) (rt_GetBackendsResponse rt)"
  by (simp add: health_report_eq Let_def)

lemma sent_status [simp]:
  "wr_Sent (on_header f w) = wr_Sent w"
  "wr_Sent (write_body s w) = wr_Sent (write_header 200 w)"
  "wr_Sent (set_json w) = wr_Sent w"
  by (simp_all add: on_header_def write_body_def Let_def set_json_def)

lemma sent_header: "wr_Sent w = None \<Longrightarrow> wr_Sent (write_header code w) = Some (code, wr_Header w)"
  by (simp add: write_header_def)

lemma sent_first: "wr_Sent w = Some x \<Longrightarrow> wr_Sent (write_header code w) = Some x"
  by (simp add: write_header_def)

lemma sent_error: "wr_Sent w = Some x \<Longrightarrow> wr_Sent (http_Error msg code w) = Some x"
  by (simp add: http_Error_def sent_first)

text \<open>The public and the detailed health endpoint answer with the same status, 200 if some
  configured backend is enabled and healthy and 503 otherwise, even if the detailed report cannot be
  encoded; the report has one entry for each configured backend, in order, and counts the active
  ones.\<close>

theorem health_endpoints_agree:
  assumes "wr_Sent (pw_writer s) = None"
  shows "let code = (if \<exists>b. serving (pw_rt s) b then 200 else 503); r = health_report (pw_rt s)
    in (\<exists>s1 s2. PublicHealthHandler req s = Some s1 \<and> HealthHandler E req s = Some s2 \<and>
          writer_status (pw_writer s1) = Some code \<and> writer_status (pw_writer s2) = Some code) \<and>
       map hbs_URL (hrp_Backends r) = map bc_URL (non_nil (rt_GetBackends (pw_rt s))) \<and>
       hrp_ActiveCount r = length (filter (\<lambda>b. hbs_Enabled b \<and> hbs_Active b) (hrp_Backends r))"
proof -
  let ?n = "activeBackendCount (pw_rt s)"
  have none: "wr_Sent (set_json (pw_writer s)) = None" using assms by simp
  have item: "hbs_URL (health_item rt b) = br_URL b" "hbs_Enabled (health_item rt b) = br_Enabled b"
      "hbs_Active (health_item rt b) = br_Active b" for rt b
    by (simp_all add: health_item_def Let_def)
  have "hrp_ActiveCount (health_report rt) =
        length (filter (\<lambda>b. hbs_Enabled b \<and> hbs_Active b) (hrp_Backends (health_report rt)))" for rt
    by (simp add: report_active report_items activeBackendCount_def filter_map comp_def item)
  moreover have "map hbs_URL (hrp_Backends (health_report rt)) = map bc_URL (non_nil (rt_GetBackends rt))" for rt
    by (simp add: report_items item comp_def)
      (simp add: rt_GetBackendsResponse_def state_Backends_def backend_item_sel rt_GetBackends_def comp_def)
  moreover obtain s2 where "HealthHandler E req s = Some s2"
      "writer_status (pw_writer s2) = Some (if ?n = 0 then 503 else 200)"
    using none
    by (simp add: HealthHandler_def Let_def report_active writer_status_def sent_error sent_header sent_first
        split: sum.splits)
  moreover have "writer_status (health_answer (?n = 0) (pw_writer s)) = Some (if ?n = 0 then 503 else 200)"
    using none by (simp add: health_answer_def Let_def writer_status_def sent_header sent_first)
  ultimately show ?thesis
    by (simp add: Let_def PublicHealthHandler_def on_writer_def active_count_zero)
qed

lemma fresh_writer: "wr_Sent (new_writer h) = None"
  by (simp add: new_writer_def)

theorem health_endpoints_agree_witness:
  "\<exists>s1. PublicHealthHandler get_request
       \<lparr>pw_rt = live_runtime, pw_limits = NewRateLimitMiddleware None, pw_writer = new_writer []\<rparr> = Some s1 \<and>
     writer_status (pw_writer s1) = Some 200"
proof -
  let ?s = "\<lparr>pw_rt = live_runtime, pw_limits = NewRateLimitMiddleware None, pw_writer = new_writer []\<rparr>"
  have "backend_1 \<in> set (active_backends (rt_store live_runtime) (State live_runtime) [''backend-1''])"
    unfolding live_active by simp
  then have "bc_Enabled backend_1 \<and> (\<exists>a. rt_GetBackendStatus live_runtime (bc_Id backend_1) = Some a \<and>
      IsActive (st_mem (rt_store live_runtime) a))"
    unfolding in_active_backends rt_GetBackendStatus_def by blast
  moreover have "rt_GetBackends live_runtime = [Some backend_1, Some backend_2]"
  proof -
    have "State live_runtime = State sample_runtime" by (simp add: live_runtime_def State_def)
    then show ?thesis by (simp add: rt_GetBackends_def build_snapshot_def sample_config_def)
  qed
  ultimately have "serving live_runtime backend_1"
    by (simp add: serving_def)
  then have "\<exists>b. serving (pw_rt ?s) b" by auto
  with health_endpoints_agree [of ?s get_request] show ?thesis by (auto simp: Let_def fresh_writer)
qed

lemma active_serving:
  assumes "rt_inv E path rt fs" and "b \<in> set (active_backends (rt_store rt) (State rt) targets)"
  shows "serving rt b"
proof -
  from assms(2) obtain i a where b: "sn_BackendsById (rs_Snapshot (State rt)) i = Some b" "bc_Enabled b"
      "state_BackendStatus (State rt) (bc_Id b) = Some a" "IsActive (st_mem (rt_store rt) a)"
    by (auto simp: in_active_backends)
  have sn: "rs_Snapshot (State rt) = build_snapshot (svc_current (rt_Config rt))"
    using assms(1) by (simp add: State_def ri_snapshot svc_invD [OF ri_svc])
  have "b \<in> set (backend_list (svc_current (rt_Config rt)))"
    using b(1) snapshot_backend_Some unfolding sn by simp
  then have "Some b \<in> set (rt_GetBackends rt)" by (simp add: rt_GetBackends_def sn build_snapshot_def)
  with b show ?thesis by (auto simp: serving_def rt_GetBackendStatus_def)
qed

text \<open>C31: the health endpoint does not lie: in a reachable runtime without a serving backend, that is
  when it answers 503, the proxy refuses every request itself (501, 403 or 503) and contacts no
  backend.\<close>

theorem unhealthy_refuses:
  assumes "json_roundtrip E" and "rt_reach E path rt fs" and "\<not> (\<exists>b. serving rt b)"
    and "ProxyHandler H rt r w = Some (rt', w')" and "wr_Sent w = None"
  shows "writer_status w' \<in> {Some 501, Some 403, Some 503} \<and> rt_store rt' = rt_store rt \<and>
    mt_Backends (rt_Metrics rt') = mt_Backends (rt_Metrics rt)"
proof -
  note inv = rt_reach_inv [OF assms(2,1)]
  have none: "active_backends (rt_store rt) (State rt) targets = []" for targets
    using active_serving [OF inv] assms(3) by (metis list.set_intros(1) neq_Nil_conv)
  show ?thesis
  proof (cases rule: ProxyHandler_cases [where H = H and rt = rt and ?r0.0 = r and ?w0.0 = w])
    case (refused code msg w1)
    with assms(4) have r: "(rt', w') = logAndReturn code msg (entered rt r, w1)" by simp
    then have "w' = http_Error msg code w1" "rt_store rt' = rt_store rt"
        "mt_Backends (rt_Metrics rt') = mt_Backends (rt_Metrics rt)"
      using logAndReturn_sel [of code msg "entered rt r" w1]
      by (simp_all add: prod_eq_iff entered_def)
    moreover have "writer_status (http_Error msg code w1) = Some code"
      using refused(2) assms(5) by (intro http_Error_status) simp
    ultimately show ?thesis using refused(1) by auto
  qed (use none in simp_all)
qed

text \<open>A new runtime with health checks on has no serving backend.\<close>

lemma reconcile_zero:
  assumes "st_mem S = (\<lambda>_. zero_status)"
  shows "st_mem (snd (reconcile_loop br bs (nxt, S))) = (\<lambda>_. zero_status)"
  using assms
  by (induction br bs "(nxt, S)" arbitrary: nxt S rule: reconcile_loop.induct)
    (auto simp: st_new_def fun_upd_idem split: option.splits)

lemma new_runtime_zero:
  assumes "NewRuntime E fs path = Inr rt" and "hcc_Enabled (rt_GetHealthConfig rt)"
  shows "st_mem (rt_store rt) a = zero_status"
proof -
  obtain svc where svc: "NewService E fs path = Inr svc"
    using assms(1) by (auto simp: NewRuntime_def split: sum.splits)
  let ?bs = "fc_Backends (sn_Raw (svc_Snapshot svc))" and ?S = "\<lparr>st_mem = (\<lambda>_. zero_status), st_next = 0\<rparr>"
  obtain st S where r: "Reconcile ?bs Map.empty ?S = (st, S)" by fastforce
  have z: "st_mem S = (\<lambda>_. zero_status)"
    using reconcile_zero [of ?S Map.empty ?bs Map.empty] r by (simp add: Reconcile_def)
  from assms(1) svc r have "rt_store rt = fst (snd (buildRuntimeState None (svc_Snapshot svc) st S 0))"
    and "rt_state rt = fst (buildRuntimeState None (svc_Snapshot svc) st S 0)"
    by (auto simp: NewRuntime_def Let_def split: prod.splits)
  with assms(2) z show ?thesis
    by (auto simp: buildRuntimeState_def Let_def rt_GetHealthConfig_def State_def split: if_splits)
qed

theorem unhealthy_refuses_witness:
  "\<exists>rt' w'. ProxyHandler dead_env sample_runtime get_request (new_writer []) = Some (rt', w') \<and>
     writer_status w' \<in> {Some 501, Some 403, Some 503}"
proof -
  obtain rt' w' where h: "ProxyHandler dead_env sample_runtime get_request (new_writer []) = Some (rt', w')"
    by (rule handler_total)
  have "hcc_Enabled (rt_GetHealthConfig sample_runtime)"
    by (simp add: rt_GetHealthConfig_def build_snapshot_def sample_config_def sample_health_check_def)
  from new_runtime_zero [OF sample_runtime_new this] have "\<not> (\<exists>b. serving sample_runtime b)"
    by (simp add: serving_def IsActive_def zero_status_def)
  from unhealthy_refuses [OF sample_env_simps(1) sample_reach this h fresh_writer] h show ?thesis by blast
qed

section \<open>The Prometheus scrape\<close>

definition digits_value :: "string \<Rightarrow> nat" where
  "digits_value = foldl (\<lambda>a c. 10 * a + (of_char c - 48)) 0"

lemma digits_value_show: "digits_value (show_nat n) = n"
proof (induction n rule: show_nat.induct)
  case (1 n)
  have d: "of_char (digit k) - 48 = k" if "k < 10" for k :: nat
    using that by (simp add: digit_def)
  show ?case
    using 1 d by (subst show_nat.simps) (simp add: digits_value_def)
qed

lemma show_nat_inject: "show_nat m = show_nat n \<Longrightarrow> m = n"
  by (metis digits_value_show)

lemma show_nat_hd: "hd (show_nat n) \<noteq> CHR ''-''"
proof (induction n rule: show_nat.induct)
  case (1 n)
  have "digit k \<noteq> CHR ''-''" if "k < 10" for k
  proof
    assume "digit k = CHR ''-''"
    then have "of_char (digit k) = (of_char CHR ''-'' :: nat)" by simp
    with that show False by (simp add: digit_def)
  qed
  with 1 show ?case by (subst show_nat.simps) (simp add: hd_append)
qed

lemma show_int_inject: "show_int i = show_int j \<Longrightarrow> i = j"
proof -
  have ne: "CHR ''-'' # s \<noteq> show_nat n" for s n
    using show_nat_hd [of n] by (metis list.sel(1))
  assume e: "show_int i = show_int j"
  show "i = j"
  proof (cases "i < 0 \<longleftrightarrow> j < 0")
    case True
    with e have "nat \<bar>i\<bar> = nat \<bar>j\<bar>"
      by (intro show_nat_inject) (auto simp: show_int_def split: if_splits)
    with True show ?thesis by auto
  next
    case False
    with e ne show ?thesis by (metis show_int_def)
  qed
qed

lemma ToBackend_url [simp]: "bmr_URL (ToBackendMetricsResponse url m) = url"
  by (simp add: ToBackendMetricsResponse_def split: option.splits)

text \<open>The identity of a sample.\<close>

definition sample_key :: "sample \<Rightarrow> string \<times> string list" where
  "sample_key s = (sa_name s, sa_labels s)"

lemma sample_key_simps [simp]:
  "sample_key (counter name v ls) = (name, ls)" "sample_key (gauge name x ls) = (name, ls)"
  by (simp_all add: sample_key_def counter_def gauge_def)

definition global_names :: "string list" where
  "global_names = map fst (take 10 Describe)"

definition backend_names :: "string list" where
  "backend_names = map fst (drop 12 Describe)"

lemma names_distinct: "distinct (map fst Describe)"
  by code_simp

lemma describe_split:
  "Describe = map (\<lambda>n. (n, [])) global_names
     @ [(''reverse_proxy_http_status_total'', [''code'']), (''reverse_proxy_http_method_total'', [''method''])]
     @ map (\<lambda>n. (n, [''backend''])) backend_names"
  by (simp add: Describe_def newProxyCollector_def global_names_def backend_names_def)

lemma backend_keys: "map sample_key (backend_samples b) = map (\<lambda>n. (n, [bmr_URL b])) backend_names"
  by (simp add: backend_samples_def backend_names_def Describe_def newProxyCollector_def)

lemma collect_keys:
  "map sample_key (Collect E m) =
     map (\<lambda>n. (n, [])) global_names
     @ map (\<lambda>code. (''reverse_proxy_http_status_total'', [show_int (sint code)])) (ee_int32_order E)
     @ map (\<lambda>method. (''reverse_proxy_http_method_total'', [method])) (ee_method_order E)
     @ concat (map (\<lambda>url. map (\<lambda>n. (n, [url])) backend_names) (ee_url_order E))"
  by (simp add: Collect_def Let_def global_names_def Describe_def newProxyCollector_def map_concat comp_def backend_keys
      ToAllBackendsResponse_def)

lemma distinct_products:
  "distinct xs \<Longrightarrow> distinct ys \<Longrightarrow> distinct (concat (map (\<lambda>x. map (\<lambda>y. (y, [x])) ys) xs))"
  by (induction xs) (auto simp: distinct_map inj_on_def)

text \<open>A scrape of the proxy's Prometheus endpoint cannot fail in the library: every sample belongs
  to a description of the collector and has as many label values as that has labels (otherwise
  \<open>MustNewConstMetric\<close> panics), and no two samples of one scrape have the same name and labels
  (otherwise the registry rejects the scrape), in whatever order the loops visit the maps.\<close>

theorem scrape_consistent:
  assumes "distinct (ee_url_order E)" and "distinct (ee_int32_order E)" and "distinct (ee_method_order E)"
  shows "distinct (map (\<lambda>s. (sa_name s, sa_labels s)) (Collect E m)) \<and>
    (\<forall>s \<in> set (Collect E m). \<exists>ls. (sa_name s, ls) \<in> set Describe \<and> length (sa_labels s) = length ls)"
proof -
  have key: "(\<lambda>s. (sa_name s, sa_labels s)) = sample_key" by (simp add: sample_key_def fun_eq_iff)
  let ?st = "''reverse_proxy_http_status_total''" and ?me = "''reverse_proxy_http_method_total''"
  have d: "distinct (global_names @ [?st, ?me] @ backend_names)"
    using names_distinct unfolding describe_split by (simp add: comp_def)
  have "distinct (map sample_key (Collect E m))"
    unfolding collect_keys
    using d assms distinct_products [OF assms(1), of backend_names]
    by (auto simp: distinct_map inj_on_def dest!: show_int_inject intro: signed_word_eqI)
  moreover have "\<exists>ls. (sa_name s, ls) \<in> set Describe \<and> length (sa_labels s) = length ls"
    if "s \<in> set (Collect E m)" for s
  proof -
    have described: "n \<in> set global_names \<Longrightarrow> (n, []) \<in> set Describe"
      "n \<in> set backend_names \<Longrightarrow> (n, [''backend'']) \<in> set Describe"
      "(?st, [''code'']) \<in> set Describe" "(?me, [''method'']) \<in> set Describe" for n
      unfolding describe_split by simp_all
    have "sample_key s \<in> set (map sample_key (Collect E m))" using that by simp
    then consider (plain) "fst (sample_key s) \<in> set global_names" "snd (sample_key s) = []"
      | (code) x where "sample_key s = (?st, [x])"
      | (meth) x where "sample_key s = (?me, [x])"
      | (backend) x where "fst (sample_key s) \<in> set backend_names" "snd (sample_key s) = [x]"
      unfolding collect_keys by auto
    then show ?thesis
    proof cases
      case plain
      then show ?thesis using described(1) by (intro exI [of _ "[]"]) (simp add: sample_key_def)
    next
      case code
      then show ?thesis using described(3) by (intro exI [of _ "[''code'']"]) (simp add: sample_key_def)
    next
      case meth
      then show ?thesis using described(4) by (intro exI [of _ "[''method'']"]) (simp add: sample_key_def)
    next
      case backend
      then show ?thesis using described(2) by (intro exI [of _ "[''backend'']"]) (simp add: sample_key_def)
    qed
  qed
  ultimately show ?thesis unfolding key by blast
qed

theorem scrape_consistent_witness:
  "distinct (map (\<lambda>s. (sa_name s, sa_labels s)) (Collect sample_endpoints NewMetrics))"
  by (rule scrape_consistent [THEN conjunct1]) (simp_all add: sample_endpoints_def)

end
