(* ===== verification/WorkerPool.thy ===== *)
theory WorkerPool
  imports Prelude
begin

text \<open>
  \<open>BoundedWorkerPool\<close> of \<open>internal/health/worker.go\<close> as a step relation. \<open>Submit\<close>,
  \<open>complete\<close> and the start of the workers hold the mutex of the pool and are single steps; a
  worker moves between the check of its context, the \<open>select\<close> and the work, and any step of any
  worker or caller may come next. The channel is a bounded queue; its capacity is at least one.
  The work itself is not part of the pool. Main facts: a backend is never queued or probed twice at
  once, the queue and the workers stay within their limits, and stopping ends.
\<close>

section \<open>State and operations\<close>

datatype worker_state = AtTop | AtSelect | Working string | Exited

record pool =
  wp_count :: nat
  wp_capacity :: nat
  wp_jobs :: "string list"
  wp_pending :: "string set"
  wp_stopped :: bool
  wp_done :: bool
  wp_started :: bool
  wp_workers :: "worker_state list"

definition NewBoundedWorkerPool :: "int \<Rightarrow> int \<Rightarrow> pool" where
  "NewBoundedWorkerPool workers queueSize =
     \<lparr>wp_count = nat workers, wp_capacity = nat queueSize, wp_jobs = [], wp_pending = {},
      wp_stopped = False, wp_done = False, wp_started = False, wp_workers = []\<rparr>"

text \<open>Only the first \<open>Start\<close> has an effect, and none after \<open>Stop\<close>.\<close>

definition pool_Start :: "pool \<Rightarrow> pool" where
  "pool_Start p =
     (if wp_started p then p
      else let p' = p\<lparr>wp_started := True\<rparr>
           in if wp_stopped p then p' else p'\<lparr>wp_workers := replicate (wp_count p) AtTop\<rparr>)"

text \<open>When the context is done and the queue has room, \<open>select\<close> takes either branch;
  \<open>pick_done\<close> is its choice.\<close>

definition pool_Submit :: "bool \<Rightarrow> string \<Rightarrow> pool \<Rightarrow> bool \<times> pool" where
  "pool_Submit pick_done b p =
     (if b = '''' then (False, p)
      else if wp_stopped p then (False, p)
      else if b \<in> wp_pending p then (False, p)
      else
        let p' = p\<lparr>wp_pending := insert b (wp_pending p)\<rparr>;
            undo = p'\<lparr>wp_pending := wp_pending p' - {b}\<rparr>;
            room = (length (wp_jobs p) < wp_capacity p)
        in if wp_done p \<and> (pick_done \<or> \<not> room) then (False, undo)
           else if room then (True, p'\<lparr>wp_jobs := wp_jobs p' @ [b]\<rparr>)
           else (False, undo))"

text \<open>The two effects of \<open>Stop\<close> before it waits; the context is also cancelled from outside.\<close>

definition pool_mark_stopped :: "pool \<Rightarrow> pool" where
  "pool_mark_stopped p = p\<lparr>wp_stopped := True\<rparr>"

definition pool_cancel :: "pool \<Rightarrow> pool" where
  "pool_cancel p = p\<lparr>wp_done := True\<rparr>"

definition pool_complete :: "string \<Rightarrow> pool \<Rightarrow> pool" where
  "pool_complete b p = p\<lparr>wp_pending := wp_pending p - {b}\<rparr>"

definition set_worker :: "nat \<Rightarrow> worker_state \<Rightarrow> pool \<Rightarrow> pool" where
  "set_worker i w p = p\<lparr>wp_workers := (wp_workers p)[i := w]\<rparr>"

section \<open>Steps\<close>

text \<open>The steps of worker \<open>i\<close>, the loop of \<open>run\<close>.\<close>

inductive worker_step :: "nat \<Rightarrow> pool \<Rightarrow> pool \<Rightarrow> bool" for i where
  ws_check_done: "i < length (wp_workers p) \<Longrightarrow> wp_workers p ! i = AtTop \<Longrightarrow> wp_done p \<Longrightarrow>
    worker_step i p (set_worker i Exited p)"
| ws_check: "i < length (wp_workers p) \<Longrightarrow> wp_workers p ! i = AtTop \<Longrightarrow> \<not> wp_done p \<Longrightarrow>
    worker_step i p (set_worker i AtSelect p)"
| ws_done: "i < length (wp_workers p) \<Longrightarrow> wp_workers p ! i = AtSelect \<Longrightarrow> wp_done p \<Longrightarrow>
    worker_step i p (set_worker i Exited p)"
| ws_take: "i < length (wp_workers p) \<Longrightarrow> wp_workers p ! i = AtSelect \<Longrightarrow> wp_jobs p = b # js \<Longrightarrow>
    worker_step i p (set_worker i (Working b) (p\<lparr>wp_jobs := js\<rparr>))"
| ws_complete: "i < length (wp_workers p) \<Longrightarrow> wp_workers p ! i = Working b \<Longrightarrow>
    worker_step i p (set_worker i AtTop (pool_complete b p))"

inductive_cases worker_stepE: "worker_step i p p'"

inductive pool_step :: "pool \<Rightarrow> pool \<Rightarrow> bool" where
  ps_worker: "worker_step i p p' \<Longrightarrow> pool_step p p'"
| ps_submit: "pool_Submit d b p = (r, p') \<Longrightarrow> pool_step p p'"
| ps_start: "pool_step p (pool_Start p)"
| ps_stop: "pool_step p (pool_mark_stopped p)"
| ps_cancel: "pool_step p (pool_cancel p)"

inductive pool_reach :: "int \<Rightarrow> int \<Rightarrow> pool \<Rightarrow> bool" for n q where
  pr_new: "pool_reach n q (NewBoundedWorkerPool n q)"
| pr_step: "pool_reach n q p \<Longrightarrow> pool_step p p' \<Longrightarrow> pool_reach n q p'"

section \<open>The invariant\<close>

text \<open>The backends that workers are busy with.\<close>

fun running :: "worker_state list \<Rightarrow> string list" where
  "running [] = []"
| "running (Working b # ws) = b # running ws"
| "running (_ # ws) = running ws"

lemma running_split:
  "i < length ws \<Longrightarrow> running ws = running (take i ws) @ running [ws ! i] @ running (drop (Suc i) ws)"
proof -
  have app: "running (us @ vs) = running us @ running vs" for us vs
    by (induction us rule: running.induct) auto
  assume i: "i < length ws"
  then have "running ws = running (take i ws @ [ws ! i] @ drop (Suc i) ws)" by (simp add: id_take_nth_drop [symmetric])
  then show ?thesis by (simp only: app)
qed

lemma running_update:
  "i < length ws \<Longrightarrow>
   running (ws[i := w]) = running (take i ws) @ running [w] @ running (drop (Suc i) ws)"
  using running_split [of i "ws[i := w]"] by simp

lemma running_single [simp]: "running [AtTop] = []" "running [AtSelect] = []" "running [Exited] = []"
  by simp_all

definition pool_inv :: "pool \<Rightarrow> bool" where
  "pool_inv p \<longleftrightarrow>
     distinct (wp_jobs p @ running (wp_workers p)) \<and>
     wp_pending p = set (wp_jobs p) \<union> set (running (wp_workers p)) \<and>
     '''' \<notin> wp_pending p \<and>
     length (wp_jobs p) \<le> wp_capacity p \<and>
     length (wp_workers p) \<le> wp_count p \<and>
     (wp_workers p = [] \<or> wp_started p)"

lemma pool_inv_new: "pool_inv (NewBoundedWorkerPool n q)"
  by (simp add: pool_inv_def NewBoundedWorkerPool_def)

lemma pool_inv_worker:
  assumes "worker_step i p p'" and inv: "pool_inv p"
  shows "pool_inv p'"
  using assms(1)
proof (cases rule: worker_step.cases)
  case ws_check_done
  with inv running_split [of i "wp_workers p"] show ?thesis
    by (auto simp: pool_inv_def set_worker_def running_update)
next
  case ws_check
  with inv running_split [of i "wp_workers p"] show ?thesis
    by (auto simp: pool_inv_def set_worker_def running_update)
next
  case ws_done
  with inv running_split [of i "wp_workers p"] show ?thesis
    by (auto simp: pool_inv_def set_worker_def running_update)
next
  case (ws_take b js)
  with inv running_split [of i "wp_workers p"] show ?thesis
    by (auto simp: pool_inv_def set_worker_def running_update)
next
  case (ws_complete b)
  with inv running_split [of i "wp_workers p"] show ?thesis
    by (auto simp: pool_inv_def set_worker_def running_update pool_complete_def)
qed

lemma pool_inv_submit:
  assumes "pool_Submit d b p = (r, p')" and "pool_inv p"
  shows "pool_inv p'"
proof -
  have undo: "p\<lparr>wp_pending := insert b (wp_pending p) - {b}\<rparr> = p" if "b \<notin> wp_pending p"
    using that by simp
  have "p' = p \<or> (p' = p\<lparr>wp_pending := insert b (wp_pending p), wp_jobs := wp_jobs p @ [b]\<rparr> \<and> b \<noteq> '''' \<and>
      b \<notin> wp_pending p \<and> length (wp_jobs p) < wp_capacity p)"
    using assms(1) undo unfolding pool_Submit_def Let_def by (simp split: if_split_asm)
  then show ?thesis using assms(2) by (elim disjE conjE) (auto simp: pool_inv_def)
qed

lemma pool_inv_step: "pool_step p p' \<Longrightarrow> pool_inv p \<Longrightarrow> pool_inv p'"
proof (induction rule: pool_step.induct)
  case ps_worker
  then show ?case using pool_inv_worker by blast
next
  case ps_submit
  then show ?case using pool_inv_submit by blast
next
  case (ps_start p)
  have "running (replicate n AtTop) = []" for n by (induction n) auto
  with ps_start show ?case by (auto simp: pool_Start_def pool_inv_def Let_def)
qed (auto simp: pool_inv_def pool_mark_stopped_def pool_cancel_def)

lemma pool_reach_inv: "pool_reach n q p \<Longrightarrow> pool_inv p"
  by (induction rule: pool_reach.induct) (auto intro: pool_inv_new pool_inv_step)

lemma pool_step_limits: "pool_step p p' \<Longrightarrow> wp_count p' = wp_count p \<and> wp_capacity p' = wp_capacity p"
  by (induction rule: pool_step.induct)
    (auto elim!: worker_stepE simp: set_worker_def pool_complete_def pool_Submit_def Let_def
      pool_Start_def pool_mark_stopped_def pool_cancel_def split: if_splits)

lemma pool_reach_limits: "pool_reach n q p \<Longrightarrow> wp_count p = nat n \<and> wp_capacity p = nat q"
  by (induction rule: pool_reach.induct) (auto simp: NewBoundedWorkerPool_def dest: pool_step_limits)

section \<open>Stopping\<close>

text \<open>How many steps a worker can still take once the context is done.\<close>

fun worker_weight :: "worker_state \<Rightarrow> nat" where
  "worker_weight Exited = 0"
| "worker_weight AtTop = 1"
| "worker_weight (Working b) = 2"
| "worker_weight AtSelect = 3"

definition pool_weight :: "pool \<Rightarrow> nat" where
  "pool_weight p = sum_list (map worker_weight (wp_workers p))"

lemma pool_weight_update:
  assumes "i < length (wp_workers p)"
  shows "pool_weight (set_worker i w p) + worker_weight (wp_workers p ! i) = pool_weight p + worker_weight w"
proof -
  have le: "worker_weight (wp_workers p ! i) \<le> pool_weight p"
    unfolding pool_weight_def using assms by (intro member_le_sum_list) auto
  have "pool_weight (set_worker i w p) = pool_weight p + worker_weight w - worker_weight (wp_workers p ! i)"
    using assms by (simp add: pool_weight_def set_worker_def map_update sum_list_update)
  with le show ?thesis by simp
qed

lemma worker_step_done:
  assumes "worker_step i p p'" and "wp_done p"
  shows "pool_weight p' < pool_weight p" and "wp_done p'" and "length (wp_workers p') = length (wp_workers p)"
proof -
  have jobs: "pool_weight (q\<lparr>wp_jobs := js\<rparr>) = pool_weight q"
    "set_worker i w (q\<lparr>wp_jobs := js\<rparr>) = (set_worker i w q)\<lparr>wp_jobs := js\<rparr>" for q js w
    by (simp_all add: pool_weight_def set_worker_def)
  have pend: "pool_weight (pool_complete b q) = pool_weight q"
    "set_worker i w (pool_complete b q) = pool_complete b (set_worker i w q)" for q b w
    by (simp_all add: pool_weight_def pool_complete_def set_worker_def)
  from assms(1) show "pool_weight p' < pool_weight p"
  proof (cases rule: worker_step.cases)
    case (ws_take b js)
    with pool_weight_update [of i p "Working b"] show ?thesis by (simp add: jobs)
  qed (use assms(2) pool_weight_update [of i p Exited] pool_weight_update [of i p AtTop]
        in \<open>auto simp: jobs pend\<close>)
  from assms show "wp_done p'" "length (wp_workers p') = length (wp_workers p)"
    by (cases rule: worker_step.cases; simp add: set_worker_def pool_complete_def)+
qed

text \<open>Steps of the workers alone, which is all that is left once callers are gone.\<close>

inductive worker_run :: "nat \<Rightarrow> pool \<Rightarrow> pool \<Rightarrow> bool" where
  wr_refl: "worker_run 0 p p"
| wr_step: "worker_run n p p' \<Longrightarrow> worker_step i p' p'' \<Longrightarrow> worker_run (Suc n) p p''"

lemma worker_run_done:
  "worker_run n p p' \<Longrightarrow> wp_done p \<Longrightarrow>
   wp_done p' \<and> pool_weight p' + n \<le> pool_weight p \<and> length (wp_workers p') = length (wp_workers p)"
proof (induction rule: worker_run.induct)
  case (wr_step n p p' i p'')
  with worker_step_done [OF wr_step.hyps(2)] show ?case by fastforce
qed simp

lemma pool_weight_le: "pool_weight p \<le> 3 * length (wp_workers p)"
proof -
  have "worker_weight w \<le> 3" for w by (cases w) auto
  then have "sum_list (map worker_weight ws) \<le> 3 * length ws" for ws
    by (induction ws) (auto intro: add_mono)
  then show ?thesis by (simp add: pool_weight_def)
qed

lemma worker_progress:
  assumes "wp_done p" and "i < length (wp_workers p)" and "wp_workers p ! i \<noteq> Exited"
  shows "\<exists>p'. worker_step i p p'"
  using assms by (cases "wp_workers p ! i") (auto intro: worker_step.intros)

section \<open>The pool as its clients see it\<close>

text \<open>What the run loop and \<open>CheckBackend\<close> rely on: an accepted backend is pending, a refusal
  changes nothing and is due to an empty id, a pending check or a pool that takes nothing.\<close>

locale probe_queue =
  fixes inv :: "'p \<Rightarrow> bool" and submit :: "string \<Rightarrow> 'p \<Rightarrow> bool \<times> 'p"
    and pending :: "'p \<Rightarrow> string set" and unable :: "'p \<Rightarrow> bool"
  assumes inv_submit: "inv p \<Longrightarrow> inv (snd (submit b p))"
    and accepted: "inv p \<Longrightarrow> fst (submit b p) \<Longrightarrow> pending (snd (submit b p)) = insert b (pending p)"
    and refused: "inv p \<Longrightarrow> \<not> fst (submit b p) \<Longrightarrow> snd (submit b p) = p"
    and reason: "inv p \<Longrightarrow> \<not> fst (submit b p) \<Longrightarrow> b = '''' \<or> b \<in> pending p \<or> unable p"
    and unable_stays: "inv p \<Longrightarrow> unable p \<Longrightarrow> unable (snd (submit b p))"
begin

lemma inv_fold: "inv p \<Longrightarrow> inv (fold (\<lambda>b p. snd (submit b p)) bs p)"
  by (induction bs arbitrary: p) (auto intro: inv_submit)

lemma pending_mono: "inv p \<Longrightarrow> pending p \<subseteq> pending (snd (submit b p))"
  using accepted refused by (cases "fst (submit b p)") auto

lemma pending_fold:
  "inv p \<Longrightarrow> pending p \<subseteq> pending (fold (\<lambda>b p. snd (submit b p)) bs p)"
  by (induction bs arbitrary: p) (use pending_mono inv_submit in fastforce)+

lemma unable_fold: "inv p \<Longrightarrow> unable p \<Longrightarrow> unable (fold (\<lambda>b p. snd (submit b p)) bs p)"
  by (induction bs arbitrary: p) (auto intro: inv_submit unable_stays)

text \<open>After a pass over some backends each of them is pending, unless the pool takes no more.\<close>

lemma pass_covers:
  "inv p \<Longrightarrow> b \<in> set bs \<Longrightarrow> b \<noteq> '''' \<Longrightarrow>
   b \<in> pending (fold (\<lambda>b p. snd (submit b p)) bs p) \<or> unable (fold (\<lambda>b p. snd (submit b p)) bs p)"
proof (induction bs arbitrary: p)
  case (Cons c bs)
  let ?p = "snd (submit c p)"
  have inv: "inv ?p" using Cons.prems(1) by (rule inv_submit)
  show ?case
  proof (cases "b = c")
    case False
    with Cons inv show ?thesis by simp
  next
    case True
    have "b \<in> pending ?p \<or> unable ?p"
      using True Cons.prems accepted [of p c] refused [of p c] reason [of p c]
      by (cases "fst (submit c p)") auto
    with pending_fold [OF inv] unable_fold [OF inv] show ?thesis by auto
  qed
qed simp

end

definition pool_unable :: "pool \<Rightarrow> bool" where
  "pool_unable p \<longleftrightarrow> wp_stopped p \<or> wp_done p \<or> length (wp_jobs p) \<ge> wp_capacity p"

lemma submit_result:
  "b \<notin> wp_pending p \<Longrightarrow> snd (pool_Submit d b p) =
     (if fst (pool_Submit d b p)
      then p\<lparr>wp_pending := insert b (wp_pending p), wp_jobs := wp_jobs p @ [b]\<rparr> else p)"
  by (auto simp: pool_Submit_def Let_def)

interpretation pq: probe_queue pool_inv "pool_Submit d" wp_pending pool_unable for d
proof unfold_locales
  fix p b
  assume inv: "pool_inv p"
  show "pool_inv (snd (pool_Submit d b p))"
    using pool_inv_submit [OF prod.collapse [symmetric] inv] .
  have pend: "fst (pool_Submit d b p) \<Longrightarrow> b \<notin> wp_pending p"
    by (auto simp: pool_Submit_def split: if_splits)
  show "wp_pending (snd (pool_Submit d b p)) = insert b (wp_pending p)" if "fst (pool_Submit d b p)"
    using submit_result [OF pend [OF that]] that by simp
  show "snd (pool_Submit d b p) = p" if "\<not> fst (pool_Submit d b p)"
    using that by (auto simp: pool_Submit_def Let_def split: if_splits)
  show "b = '''' \<or> b \<in> wp_pending p \<or> pool_unable p" if "\<not> fst (pool_Submit d b p)"
    using that by (auto simp: pool_Submit_def pool_unable_def Let_def split: if_splits)
  show "pool_unable (snd (pool_Submit d b p))" if "pool_unable p"
    using that by (auto simp: pool_Submit_def pool_unable_def Let_def split: if_splits)
qed

section \<open>Properties\<close>

text \<open>C20: the worker pool is bounded and probes each backend once. In every interleaving of
  submissions, workers, starts and stops, at most the configured number of workers are busy, with
  different backends; the queue is within its capacity and holds each backend once and none that is
  being probed; and exactly the queued and busy backends are marked as pending.\<close>

theorem pool_bounded:
  assumes "pool_reach n q p"
  shows "length (running (wp_workers p)) \<le> nat n \<and> distinct (wp_jobs p @ running (wp_workers p)) \<and>
         length (wp_jobs p) \<le> nat q \<and>
         wp_pending p = set (wp_jobs p) \<union> set (running (wp_workers p))"
proof -
  have "length (running ws) \<le> length ws" for ws by (induction ws rule: running.induct) auto
  with pool_reach_inv [OF assms] pool_reach_limits [OF assms] show ?thesis
    by (fastforce simp: pool_inv_def intro: order_trans)
qed

theorem pool_bounded_witness:
  "\<exists>p. pool_reach 1 2 p \<and> wp_jobs p = [''b''] \<and> length (running (wp_workers p)) \<le> 1"
proof -
  let ?p = "snd (pool_Submit False ''b'' (pool_Start (NewBoundedWorkerPool 1 2)))"
  have "pool_reach 1 2 (pool_Start (NewBoundedWorkerPool 1 2))"
    by (intro pr_step [OF pr_new] ps_start)
  then have r: "pool_reach 1 2 ?p"
    by (rule pr_step) (rule ps_submit [of False "''b''"], rule prod.collapse [symmetric])
  moreover have "wp_jobs ?p = [''b'']"
    by (simp add: pool_Submit_def pool_Start_def NewBoundedWorkerPool_def Let_def)
  moreover have "length (running (wp_workers ?p)) \<le> 1" using pool_bounded [OF r] by simp
  ultimately show ?thesis by blast
qed

text \<open>A submission is accepted exactly if the pool runs, the id is not empty, the backend is
  neither queued nor being probed, and the queue has room; a refused one changes nothing.\<close>

theorem submit_accepted_iff:
  assumes "pool_inv p" and "\<not> wp_done p"
  shows "(fst (pool_Submit d b p) \<longleftrightarrow>
            \<not> wp_stopped p \<and> b \<noteq> '''' \<and> b \<notin> set (wp_jobs p @ running (wp_workers p)) \<and>
            length (wp_jobs p) < wp_capacity p) \<and>
         snd (pool_Submit d b p) =
           (if fst (pool_Submit d b p)
            then p\<lparr>wp_pending := insert b (wp_pending p), wp_jobs := wp_jobs p @ [b]\<rparr> else p)"
  using assms by (auto simp: pool_Submit_def pool_inv_def Let_def)

theorem submit_accepted_iff_witness:
  "fst (pool_Submit False ''b'' (NewBoundedWorkerPool 1 2))"
  using submit_accepted_iff [OF pool_inv_new, of 1 2 False "''b''"]
  by (simp add: NewBoundedWorkerPool_def)

text \<open>C21: stopping the pool ends. Once the context is done the workers take at most three more
  steps each, whatever their order, and when none can move they have all exited, so that the wait
  of \<open>Stop\<close> returns (the probes themselves end by their timeouts).\<close>

theorem pool_stop_terminates:
  assumes "wp_done p" and "worker_run k p p'"
  shows "k \<le> 3 * length (wp_workers p) \<and>
         ((\<nexists>i p''. worker_step i p' p'') \<longrightarrow>
          wp_workers p' = replicate (length (wp_workers p)) Exited)"
proof (intro conjI impI)
  note run = worker_run_done [OF assms(2,1)]
  show "k \<le> 3 * length (wp_workers p)" using run pool_weight_le [of p] by simp
  assume stuck: "\<nexists>i p''. worker_step i p' p''"
  have "wp_workers p' ! i = Exited" if "i < length (wp_workers p')" for i
    using stuck worker_progress [of p' i] run that by blast
  then show "wp_workers p' = replicate (length (wp_workers p)) Exited"
    using run by (intro nth_equalityI) auto
qed

text \<open>A pool with one worker that is cancelled while the worker is at the top of its loop.\<close>

theorem pool_stop_terminates_witness:
  "\<exists>p p'. wp_done p \<and> worker_run 1 p p' \<and> wp_workers p' = [Exited]"
proof -
  let ?p = "pool_cancel (pool_Start (NewBoundedWorkerPool 1 1))"
  have p: "wp_done ?p" "wp_workers ?p = [AtTop]"
    by (simp_all add: pool_cancel_def pool_Start_def NewBoundedWorkerPool_def Let_def)
  then have step: "worker_step 0 ?p (set_worker 0 Exited ?p)" by (intro ws_check_done) auto
  have run: "worker_run (Suc 0) ?p (set_worker 0 Exited ?p)" using wr_step [OF wr_refl step] .
  have ex: "wp_workers (set_worker 0 Exited ?p) = [Exited]" by (simp add: set_worker_def p(2))
  then have stuck: "\<nexists>i p''. worker_step i (set_worker 0 Exited ?p) p''"
    by (auto elim!: worker_stepE)
  from pool_stop_terminates [OF p(1) run] stuck p(2)
  have "wp_workers (set_worker 0 Exited ?p) = [Exited]" by simp
  with p(1) run show ?thesis by (metis One_nat_def)
qed

end
