(* ===== verification/HealthProbe.thy ===== *)
theory HealthProbe
  imports BackendStatus WorkerPool ConfigValidator
begin

text \<open>
  The parts of \<open>internal/health\<close> below the manager: the scheduler's jittered interval
  (\<open>scheduler.go\<close>), the recovery backoff and the decision to probe (\<open>manager.go\<close>), and one
  HTTP probe (\<open>prober.go\<close>). A \<open>time.Duration\<close> is an \<open>int64\<close> of nanoseconds, whose
  arithmetic wraps. The HTTP client is a parameter. Main facts: the delay between passes stays
  within the jitter; the backoff stays between its two bounds unless they overflow; when a probe is
  healthy.
\<close>

type_synonym duration = int64

definition millis :: "int64 \<Rightarrow> duration" where
  "millis ms = ms * 1000000"

section \<open>Scheduler\<close>

record scheduler =
  sch_interval :: duration
  sch_jitter :: duration

definition NewScheduler :: "duration \<Rightarrow> duration \<Rightarrow> scheduler" where
  "NewScheduler interval jitter = \<lparr>sch_interval = interval, sch_jitter = jitter\<rparr>"

text \<open>\<open>random n\<close> is a number below \<open>n\<close>.\<close>

definition nextDelay :: "(int64 \<Rightarrow> int64) \<Rightarrow> scheduler \<Rightarrow> duration" where
  "nextDelay random s =
     (if sint (sch_jitter s) \<le> 0 then sch_interval s
      else
        let span = 2 * sch_jitter s + 1;
            offset = random span - sch_jitter s
        in sch_interval s + offset)"

text \<open>\<open>timer_first\<close> tells which branch of the \<open>select\<close> was taken.\<close>

definition sched_Wait :: "bool \<Rightarrow> go_error \<Rightarrow> go_error option" where
  "sched_Wait timer_first ctx_err = (if timer_first then None else Some ctx_err)"

section \<open>Recovery backoff\<close>

text \<open>\<open>conv\<close> gives the conversion of a float that does not fit \<open>int64\<close>.\<close>

definition int64_of :: "(f64 \<Rightarrow> int64) \<Rightarrow> f64 \<Rightarrow> int64" where
  "int64_of conv x = (case f64_to_int64 x of Some n \<Rightarrow> n | None \<Rightarrow> conv x)"

fun backoff_loop :: "(f64 \<Rightarrow> int64) \<Rightarrow> f64 \<Rightarrow> duration \<Rightarrow> nat \<Rightarrow> duration \<Rightarrow> duration" where
  "backoff_loop conv mult maximum 0 delay =
     (if sint delay > sint maximum then maximum else delay)"
| "backoff_loop conv mult maximum (Suc n) delay =
     (let nxt = int64_of conv (f64_mul (f64_of_int (sint delay)) mult)
      in if sint nxt \<ge> sint maximum \<or> sint nxt \<le> sint delay then maximum
         else backoff_loop conv mult maximum n nxt)"

definition recoveryBackoff ::
  "(f64 \<Rightarrow> int64) \<Rightarrow> status_snapshot \<Rightarrow> health_check_config \<Rightarrow> duration" where
  "recoveryBackoff conv status cfg =
     (let backoff = hr_Backoff (hcc_Recovery cfg);
          delay = millis (hb_InitialMs backoff);
          maximum = millis (hb_MaxMs backoff);
          threshold = (ht_Unhealthy (hcc_Thresholds cfg) :: uint32);
          failuresAfterEjection =
            (if ss_ConsecutiveFailures status > threshold
             then ss_ConsecutiveFailures status - threshold else 0)
      in backoff_loop conv (hb_Multiplier backoff) maximum (unat failuresAfterEjection) delay)"

definition shouldScheduleProbe ::
  "(f64 \<Rightarrow> int64) \<Rightarrow> status_snapshot \<Rightarrow> health_check_config \<Rightarrow> go_time \<Rightarrow> bool" where
  "shouldScheduleProbe conv status cfg now \<longleftrightarrow>
     (if \<not> hb_Enabled (hr_Backoff (hcc_Recovery cfg)) \<or> ss_HealthState status \<noteq> HealthUnhealthy then True
      else if ss_LastHealthCheck status = 0 then True
      else \<not> now < ss_LastHealthCheck status + sint (recoveryBackoff conv status cfg))"

section \<open>One probe\<close>

record probe_result =
  prs_Healthy :: bool
  prs_StatusCode :: goint
  prs_Err :: "go_error option"

text \<open>\<open>pe_new_request\<close> is the error of \<open>http.NewRequestWithContext\<close> on a method and a URL,
  \<open>pe_do\<close> the client: its first argument tells whether the context of the check was cancelled
  before the answer, the others are the method, the URL and the timeout; it returns the status code
  of the response.\<close>

record probe_env =
  pe_new_request :: "string \<Rightarrow> string \<Rightarrow> go_error option"
  pe_do :: "bool \<Rightarrow> string \<Rightarrow> string \<Rightarrow> duration \<Rightarrow> go_error + goint"

definition trim_slashes_right :: "string \<Rightarrow> string" where
  "trim_slashes_right s = rev (dropWhile (\<lambda>c. c = CHR ''/'') (rev s))"

definition trim_slashes_left :: "string \<Rightarrow> string" where
  "trim_slashes_left s = dropWhile (\<lambda>c. c = CHR ''/'') s"

definition healthURL :: "string \<Rightarrow> string \<Rightarrow> string" where
  "healthURL backendURL path = trim_slashes_right backendURL @ ''/'' @ trim_slashes_left path"

definition isSuccessCode :: "int32 list \<Rightarrow> int32 \<Rightarrow> bool" where
  "isSuccessCode successCodes statusCode \<longleftrightarrow> (\<exists>code \<in> set successCodes. statusCode = code)"

text \<open>\<open>strings.ToUpper\<close> of a method; a request refuses methods that are not ASCII.\<close>

definition upper_method :: "string \<Rightarrow> string" where
  "upper_method s = map (\<lambda>c. let n = of_char c :: nat
                             in if 97 \<le> n \<and> n \<le> 122 then char_of (n - 32) else c) s"

definition Probe ::
  "probe_env \<Rightarrow> bool \<Rightarrow> backend_config option \<Rightarrow> health_probe_config \<Rightarrow> probe_result" where
  "Probe E cancelled backend cfg =
     (case backend of
        None \<Rightarrow> \<lparr>prs_Healthy = False, prs_StatusCode = 0, prs_Err = Some ''health check backend is nil''\<rparr>
      | Some b \<Rightarrow>
          (let meth = upper_method (hp_Method cfg); url = healthURL (bc_URL b) (hp_Path cfg)
           in case pe_new_request E meth url of
                Some e \<Rightarrow> \<lparr>prs_Healthy = False, prs_StatusCode = 0, prs_Err = Some e\<rparr>
              | None \<Rightarrow>
                  (case pe_do E cancelled meth url (millis (hp_TimeoutMs cfg)) of
                     Inl e \<Rightarrow> \<lparr>prs_Healthy = False, prs_StatusCode = 0, prs_Err = Some e\<rparr>
                   | Inr code \<Rightarrow>
                       if \<not> isSuccessCode (hp_SuccessCodes cfg) (ucast code)
                       then \<lparr>prs_Healthy = False, prs_StatusCode = code,
                             prs_Err = Some (''health check returned non-success status: ''
                                             @ show_int (sint code))\<rparr>
                       else \<lparr>prs_Healthy = True, prs_StatusCode = code, prs_Err = None\<rparr>)))"

section \<open>Facts\<close>

lemma trim_slashes_right_last: "trim_slashes_right s = [] \<or> last (trim_slashes_right s) \<noteq> CHR ''/''"
proof -
  let ?r = "dropWhile (\<lambda>c. c = CHR ''/'') (rev s)"
  have "?r = [] \<or> hd ?r \<noteq> CHR ''/''" using hd_dropWhile [of "\<lambda>c. c = CHR ''/''" "rev s"] by blast
  then show ?thesis by (auto simp: trim_slashes_right_def last_rev)
qed

lemma trim_slashes_left_hd: "trim_slashes_left s = [] \<or> hd (trim_slashes_left s) \<noteq> CHR ''/''"
  unfolding trim_slashes_left_def using hd_dropWhile [of "\<lambda>c. c = CHR ''/''" s] by blast

lemma healthURL_slash:
  "\<exists>us vs. healthURL u p = us @ CHR ''/'' # vs \<and> (us = [] \<or> last us \<noteq> CHR ''/'') \<and>
     (vs = [] \<or> hd vs \<noteq> CHR ''/'')"
  using trim_slashes_right_last trim_slashes_left_hd by (auto simp: healthURL_def)

lemma probe_healthy_iff:
  "prs_Healthy (Probe E c (Some b) cfg) \<longleftrightarrow>
     pe_new_request E (upper_method (hp_Method cfg)) (healthURL (bc_URL b) (hp_Path cfg)) = None \<and>
     (\<exists>code. pe_do E c (upper_method (hp_Method cfg)) (healthURL (bc_URL b) (hp_Path cfg))
                (millis (hp_TimeoutMs cfg)) = Inr code \<and>
             ucast code \<in> set (hp_SuccessCodes cfg))"
  by (auto simp: Probe_def Let_def isSuccessCode_def split: option.splits sum.splits)

lemma probe_unhealthy_has_error: "prs_Healthy (Probe E c b cfg) \<longleftrightarrow> prs_Err (Probe E c b cfg) = None"
  by (auto simp: Probe_def Let_def split: option.splits sum.splits)

lemma backoff_loop_bounds:
  "0 < sint delay \<Longrightarrow> sint delay \<le> sint maximum \<Longrightarrow>
   sint delay \<le> sint (backoff_loop conv mult maximum n delay) \<and>
   sint (backoff_loop conv mult maximum n delay) \<le> sint maximum"
proof (induction n arbitrary: delay)
  case (Suc n)
  define nxt where "nxt = int64_of conv (f64_mul (f64_of_int (sint delay)) mult)"
  show ?case
  proof (cases "sint nxt \<ge> sint maximum \<or> sint nxt \<le> sint delay")
    case True
    with Suc.prems show ?thesis by (simp add: nxt_def Let_def)
  next
    case False
    with Suc.IH [of nxt] Suc.prems show ?thesis by (simp add: nxt_def Let_def)
  qed
qed simp

lemma millis_exact:
  assumes "0 < sint ms" and "sint ms \<le> 9223372036854"
  shows "sint (millis ms) = sint ms * 1000000"
proof -
  have "sint ms * sint (1000000 :: int64) < 2 ^ 63" "- (2 ^ 63) \<le> sint ms * sint (1000000 :: int64)"
    using assms by simp_all
  then show ?thesis
    unfolding millis_def by (simp add: sint_word_ariths signed_take_bit_int_eq_self)
qed

lemma millis_mono:
  assumes "0 < sint a" "sint a \<le> sint b" "sint b \<le> 9223372036854"
  shows "0 < sint (millis a)" "sint (millis a) \<le> sint (millis b)"
  using assms millis_exact [of a] millis_exact [of b] by simp_all

section \<open>Properties\<close>

text \<open>C23: recovery backoff is bounded by its configuration. If the configured bounds (in milliseconds)
  are in order and fit a duration, an unhealthy backend is not probed again before
  \<open>initial_ms\<close>, and is due again after \<open>max_ms\<close>, whatever the multiplier and the number of
  failures; other backends are due in every pass.\<close>

theorem probe_schedule_bounds:
  assumes "0 < sint (hb_InitialMs (hr_Backoff (hcc_Recovery cfg)))"
    and "sint (hb_InitialMs (hr_Backoff (hcc_Recovery cfg))) \<le> sint (hb_MaxMs (hr_Backoff (hcc_Recovery cfg)))"
    and "sint (hb_MaxMs (hr_Backoff (hcc_Recovery cfg))) \<le> 9223372036854"
  shows "(shouldScheduleProbe conv status cfg now \<longrightarrow>
            \<not> hb_Enabled (hr_Backoff (hcc_Recovery cfg)) \<or> ss_HealthState status \<noteq> HealthUnhealthy \<or>
            ss_LastHealthCheck status = 0 \<or>
            now \<ge> ss_LastHealthCheck status + sint (hb_InitialMs (hr_Backoff (hcc_Recovery cfg))) * 1000000) \<and>
         (\<not> hb_Enabled (hr_Backoff (hcc_Recovery cfg)) \<or> ss_HealthState status \<noteq> HealthUnhealthy \<or>
            ss_LastHealthCheck status = 0 \<or>
            now \<ge> ss_LastHealthCheck status + sint (hb_MaxMs (hr_Backoff (hcc_Recovery cfg))) * 1000000 \<longrightarrow>
            shouldScheduleProbe conv status cfg now)"
proof -
  let ?b = "hr_Backoff (hcc_Recovery cfg)"
  have i: "sint (millis (hb_InitialMs ?b)) = sint (hb_InitialMs ?b) * 1000000"
    using assms by (intro millis_exact) simp_all
  have m: "sint (millis (hb_MaxMs ?b)) = sint (hb_MaxMs ?b) * 1000000"
    using assms by (intro millis_exact) simp_all
  have "sint (hb_InitialMs ?b) * 1000000 \<le> sint (recoveryBackoff conv status cfg) \<and>
        sint (recoveryBackoff conv status cfg) \<le> sint (hb_MaxMs ?b) * 1000000"
    using backoff_loop_bounds [OF millis_mono [OF assms]]
    unfolding recoveryBackoff_def Let_def i m by blast
  then show ?thesis by (auto simp: shouldScheduleProbe_def)
qed

text \<open>A configuration with only the backoff filled in.\<close>

definition backoff_config :: "int64 \<Rightarrow> int64 \<Rightarrow> health_check_config" where
  "backoff_config initial maximum =
     \<lparr>hcc_Enabled = True,
      hcc_Probe = \<lparr>hp_Type = ''http'', hp_Path = ''/health'', hp_Method = ''GET'',
                   hp_TimeoutMs = 1000, hp_SuccessCodes = [200]\<rparr>,
      hcc_Schedule = \<lparr>hs_IntervalMs = 2000, hs_JitterMs = 500\<rparr>,
      hcc_Concurrency = \<lparr>hc_Workers = 16, hc_QueueSize = 64\<rparr>,
      hcc_Thresholds = \<lparr>ht_Healthy = 1, ht_Unhealthy = 3\<rparr>,
      hcc_Recovery = \<lparr>hr_Backoff = \<lparr>hb_Enabled = True, hb_InitialMs = initial,
                                      hb_MaxMs = maximum, hb_Multiplier = Fin 2\<rparr>\<rparr>,
      hcc_Transport = \<lparr>htr_MaxIdleConns = 100, htr_MaxIdleConnsPerHost = 4,
                       htr_MaxConnsPerHost = 16, htr_KeepAliveMs = 30000\<rparr>,
      hcc_Passive = \<lparr>ph_Enabled = False\<rparr>\<rparr>"

definition failed_snapshot :: "uint32 \<Rightarrow> status_snapshot" where
  "failed_snapshot n =
     \<lparr>ss_HealthState = HealthUnhealthy, ss_ConsecutiveFailures = n, ss_ConsecutiveSuccesses = 0,
      ss_LastError = ''e'', ss_LastHealthCheck = 5, ss_LastStateChange = 5\<rparr>"

theorem probe_schedule_bounds_witness:
  "\<not> shouldScheduleProbe (\<lambda>_. 0) (failed_snapshot 7) (backoff_config 5000 30000) 5000000004 \<and>
   shouldScheduleProbe (\<lambda>_. 0) (failed_snapshot 7) (backoff_config 5000 30000) 30000000005"
proof -
  let ?c = "backoff_config 5000 30000"
  have b: "hr_Backoff (hcc_Recovery ?c) = \<lparr>hb_Enabled = True, hb_InitialMs = 5000, hb_MaxMs = 30000,
      hb_Multiplier = Fin 2\<rparr>" by (simp add: backoff_config_def)
  have p: "0 < sint (hb_InitialMs (hr_Backoff (hcc_Recovery ?c)))"
    "sint (hb_InitialMs (hr_Backoff (hcc_Recovery ?c))) \<le> sint (hb_MaxMs (hr_Backoff (hcc_Recovery ?c)))"
    "sint (hb_MaxMs (hr_Backoff (hcc_Recovery ?c))) \<le> 9223372036854" by (simp_all add: b)
  show ?thesis
    using probe_schedule_bounds [OF p, of "\<lambda>_. 0" "failed_snapshot 7" 5000000004]
      probe_schedule_bounds [OF p, of "\<lambda>_. 0" "failed_snapshot 7" 30000000005]
    by (simp add: b failed_snapshot_def)
qed

text \<open>The backoff overflows. The validator accepts any \<open>max_ms\<close> that is not below
  \<open>initial_ms\<close>; from 9223372036855 on the duration wraps to a negative one, which every delay
  reaches, so that the backend is due at once, with no backoff at all.\<close>

theorem backoff_overflow:
  "valid_health_check (backoff_config 5000 9223372036855) \<and>
   sint (recoveryBackoff conv (failed_snapshot n) (backoff_config 5000 9223372036855)) < 0 \<and>
   shouldScheduleProbe conv (failed_snapshot n) (backoff_config 5000 9223372036855) 5"
proof -
  let ?c = "backoff_config 5000 9223372036855"
  let ?m = "millis 9223372036855"
  have m: "sint ?m < 0" "sint (millis 5000) = 5000000000" by (simp_all add: millis_def)
  have loop: "backoff_loop conv (Fin 2) ?m k (millis 5000) = ?m" for k
  proof (cases k)
    case 0
    with m show ?thesis by simp
  next
    case (Suc j)
    let ?n = "int64_of conv (f64_mul (f64_of_int (sint (millis 5000))) (Fin 2))"
    have "sint ?n \<ge> sint ?m \<or> sint ?n \<le> sint (millis 5000)" using m by linarith
    with Suc show ?thesis by (simp add: Let_def)
  qed
  have r: "recoveryBackoff conv (failed_snapshot n) ?c = ?m"
    using loop by (simp add: recoveryBackoff_def backoff_config_def Let_def)
  have "valid_health_check ?c"
    by (simp add: valid_health_check_def backoff_config_def equal_fold_def has_prefix_def)
  moreover have "shouldScheduleProbe conv (failed_snapshot n) ?c 5"
    using m(1) unfolding shouldScheduleProbe_def r by (simp add: failed_snapshot_def)
  ultimately show ?thesis using m(1) by (simp add: r)
qed

text \<open>The delay between two passes is within the jitter of the interval, and so positive, for
  every valid schedule and every random number.\<close>

theorem delay_within_jitter:
  assumes "valid_health_check cfg" and "hcc_Enabled cfg"
    and "\<And>n. 0 < sint n \<Longrightarrow> 0 \<le> sint (random n) \<and> sint (random n) < sint n"
  defines "s \<equiv> hcc_Schedule cfg"
  shows "sint (nextDelay random (NewScheduler (millis (hs_IntervalMs s)) (millis (hs_JitterMs s)))) \<in>
           {(sint (hs_IntervalMs s) - sint (hs_JitterMs s)) * 1000000 ..
            (sint (hs_IntervalMs s) + sint (hs_JitterMs s)) * 1000000}"
proof -
  from assms(1,2) have v: "sint (hs_IntervalMs s) \<in> {100 .. 3600000}" "0 \<le> sint (hs_JitterMs s)"
    "sint (hs_JitterMs s) < sint (hs_IntervalMs s)"
    by (simp_all add: valid_health_check_def Let_def s_def)
  define I where "I = millis (hs_IntervalMs s)"
  define J where "J = millis (hs_JitterMs s)"
  have I: "sint I = sint (hs_IntervalMs s) * 1000000"
    unfolding I_def using v by (intro millis_exact) simp_all
  show ?thesis
  proof (cases "sint (hs_JitterMs s) = 0")
    case True
    then have "hs_JitterMs s = 0" by (metis signed_0 signed_word_eqI)
    then have "J = 0" by (simp add: J_def millis_def)
    with I True show ?thesis
      unfolding I_def [symmetric] J_def [symmetric] by (simp add: nextDelay_def NewScheduler_def)
  next
    case False
    have J: "sint J = sint (hs_JitterMs s) * 1000000"
      unfolding J_def using v False by (intro millis_exact) simp_all
    have Jpos: "0 < sint J" "sint J < 3600000000000" using v False J by simp_all
    have span: "sint (2 * J + 1) = 2 * sint J + 1"
    proof -
      have two: "sint (2 * J) = 2 * sint J"
        using Jpos by (simp add: sint_word_ariths signed_take_bit_int_eq_self)
      show ?thesis using Jpos by (simp add: sint_word_ariths(1) [of "2 * J" 1] two signed_take_bit_int_eq_self)
    qed
    define R where "R = random (2 * J + 1)"
    have R: "0 \<le> sint R" "sint R \<le> 2 * sint J"
      using assms(3) [of "2 * J + 1"] span Jpos by (simp_all add: R_def)
    have off: "sint (R - J) = sint R - sint J"
      using R Jpos by (simp add: sint_word_ariths signed_take_bit_int_eq_self)
    have sum: "sint (I + (R - J)) = sint I + (sint R - sint J)"
      using R Jpos I v by (simp add: sint_word_ariths(1) [of I "R - J"] off signed_take_bit_int_eq_self)
    have nd: "nextDelay random (NewScheduler I J) = I + (R - J)"
      using Jpos by (simp add: nextDelay_def NewScheduler_def R_def Let_def)
    show ?thesis
      unfolding I_def [symmetric] J_def [symmetric] nd sum I using R unfolding J by simp
  qed
qed

theorem delay_within_jitter_witness:
  "sint (nextDelay (\<lambda>_. 0) (NewScheduler (millis 2000) (millis 500))) \<in> {1500000000 .. 2500000000}"
proof -
  have v: "valid_health_check (backoff_config 5000 30000)"
    by (simp add: valid_health_check_def backoff_config_def equal_fold_def has_prefix_def)
  have "hcc_Enabled (backoff_config 5000 30000)" by (simp add: backoff_config_def)
  from delay_within_jitter [OF v this, of "\<lambda>_. 0"] show ?thesis by (simp add: backoff_config_def)
qed

end
