(* ===== verification/HealthManager.thy ===== *)
theory HealthManager
  imports RuntimeProps HealthProbe
begin

text \<open>
  \<open>internal/health/manager.go\<close>: what one probe does to the runtime, one pass of the run loop, and
  the life cycle of the manager. A probe has two parts that other operations can come between:
  reading the backend and its status, and applying the result. The objects that
  \<open>buildComponents\<close> makes are numbered; a started run loop, the context, the worker pool and the
  prober of one call have the same number. Main facts: at most one pool and one run loop are live,
  and none after \<open>Stop\<close>; a pass leaves every due backend pending unless the pool is full; a probe
  that was aborted, or that was sent to an old URL, is counted like any other. \<open>hm_Stop\<close> and
  \<open>hm_Reconcile\<close> are one step each: the code releases the old objects after it has let go of the
  lock, so what is said about pools holds between the operations.
\<close>

section \<open>Jobs\<close>

definition job_begin ::
  "health_check_config \<Rightarrow> runtime \<Rightarrow> string \<Rightarrow> (backend_config \<times> status_ref) option" where
  "job_begin cfg rt i =
     (case rt_GetBackend rt i of
        None \<Rightarrow> None
      | Some b \<Rightarrow>
          if \<not> bc_Enabled b then None
          else
            (case rt_GetBackendStatus rt i of
               None \<Rightarrow> None
             | Some a \<Rightarrow> if \<not> hcc_Enabled cfg then None else Some (b, a)))"

definition job_end ::
  "health_check_config \<Rightarrow> go_time \<Rightarrow> probe_result \<Rightarrow> backend_config \<times> status_ref \<Rightarrow> runtime \<Rightarrow> runtime" where
  "job_end cfg now result target rt =
     (case target of (b, a) \<Rightarrow>
        rt\<lparr>rt_Metrics := RecordHealthCheck (bc_URL b) (prs_Healthy result) (rt_Metrics rt),
           rt_store := st_modify a
             (\<lambda>s. snd (ApplyProbeResult (prs_Healthy result) (prs_Err result) (hcc_Thresholds cfg) now s))
             (rt_store rt)\<rparr>)"

definition processJob ::
  "probe_env \<Rightarrow> bool \<Rightarrow> health_check_config \<Rightarrow> string \<Rightarrow> go_time \<Rightarrow> runtime \<Rightarrow> runtime" where
  "processJob E cancelled cfg job now rt =
     (case job_begin cfg rt job of
        None \<Rightarrow> rt
      | Some (b, a) \<Rightarrow> job_end cfg now (Probe E cancelled (Some b) (hcc_Probe cfg)) (b, a) rt)"

fun logStatus :: "health_state \<Rightarrow> string" where
  "logStatus HealthHealthy = ''healthy''"
| "logStatus HealthUnhealthy = ''unhealthy''"
| "logStatus HealthUnknown = ''unknown''"

section \<open>One pass of the run loop\<close>

text \<open>The backends that a pass submits: enabled, with a status, and due.\<close>

fun due_backends ::
  "(f64 \<Rightarrow> int64) \<Rightarrow> health_check_config \<Rightarrow> go_time \<Rightarrow> runtime \<Rightarrow> backend_config option list \<Rightarrow> string list" where
  "due_backends conv cfg now rt [] = []"
| "due_backends conv cfg now rt (None # bs) = due_backends conv cfg now rt bs"
| "due_backends conv cfg now rt (Some b # bs) =
     (if \<not> bc_Enabled b then due_backends conv cfg now rt bs
      else
        case rt_GetBackendStatus rt (bc_Id b) of
          None \<Rightarrow> due_backends conv cfg now rt bs
        | Some a \<Rightarrow>
            if shouldScheduleProbe conv (status_Snapshot (st_mem (rt_store rt) a)) cfg now
            then bc_Id b # due_backends conv cfg now rt bs
            else due_backends conv cfg now rt bs)"

definition run_pass ::
  "(f64 \<Rightarrow> int64) \<Rightarrow> bool \<Rightarrow> health_check_config \<Rightarrow> go_time \<Rightarrow> runtime \<Rightarrow> pool \<Rightarrow> pool" where
  "run_pass conv d cfg now rt p =
     fold (\<lambda>b p. snd (pool_Submit d b p)) (due_backends conv cfg now rt (rt_GetBackends rt)) p"

section \<open>The manager\<close>

record health_manager =
  hm_cfg :: "health_check_config option"
  hm_scheduler :: "scheduler option"
  hm_workers :: "nat option"
  hm_prober :: "nat option"
  hm_ctx :: "nat option"
  hm_cancel :: "nat option"
  hm_started :: bool
  hm_next :: nat
  hm_pools :: "nat \<Rightarrow> pool"
  hm_loops :: "nat set"
  hm_cancelled :: "nat set"
  hm_closed :: "nat set"

definition NewHealthManager :: health_manager where
  "NewHealthManager =
     \<lparr>hm_cfg = None, hm_scheduler = None, hm_workers = None, hm_prober = None, hm_ctx = None,
      hm_cancel = None, hm_started = False, hm_next = 0, hm_pools = (\<lambda>_. NewBoundedWorkerPool 0 0),
      hm_loops = {}, hm_cancelled = {}, hm_closed = {}\<rparr>"

text \<open>\<open>buildComponents\<close>, the start of its pool and the assignment of the fields.\<close>

definition buildComponents :: "health_check_config \<Rightarrow> health_manager \<Rightarrow> health_manager" where
  "buildComponents cfg hm =
     (let n = hm_next hm;
          p = NewBoundedWorkerPool (sint (hc_Workers (hcc_Concurrency cfg)))
                (sint (hc_QueueSize (hcc_Concurrency cfg)))
      in hm\<lparr>hm_next := Suc n, hm_pools := (hm_pools hm)(n := p),
            hm_scheduler := Some (NewScheduler (millis (hs_IntervalMs (hcc_Schedule cfg)))
                                    (millis (hs_JitterMs (hcc_Schedule cfg)))),
            hm_workers := Some n, hm_prober := Some n, hm_ctx := Some n, hm_cancel := Some n\<rparr>)"

definition on_pool :: "nat \<Rightarrow> (pool \<Rightarrow> pool) \<Rightarrow> health_manager \<Rightarrow> health_manager" where
  "on_pool n f hm = hm\<lparr>hm_pools := (hm_pools hm)(n := f (hm_pools hm n))\<rparr>"

definition start_workers :: "health_manager \<Rightarrow> health_manager" where
  "start_workers hm = (case hm_workers hm of None \<Rightarrow> hm | Some n \<Rightarrow> on_pool n pool_Start hm)"

definition clear_components :: "health_manager \<Rightarrow> health_manager" where
  "clear_components hm =
     hm\<lparr>hm_scheduler := None, hm_workers := None, hm_prober := None, hm_ctx := None, hm_cancel := None\<rparr>"

definition launch_loop :: "health_manager \<Rightarrow> health_manager" where
  "launch_loop hm =
     (case hm_ctx hm of None \<Rightarrow> hm | Some n \<Rightarrow> hm\<lparr>hm_loops := insert n (hm_loops hm)\<rparr>)"

text \<open>The release of replaced components: cancelling the context also cancels the one of the pool,
  which is its child; \<open>workers.Stop()\<close> waits until the workers are gone.\<close>

definition release :: "nat option \<Rightarrow> nat option \<Rightarrow> nat option \<Rightarrow> health_manager \<Rightarrow> health_manager" where
  "release cancel workers prober hm =
     (let hm1 = (case cancel of None \<Rightarrow> hm
                 | Some n \<Rightarrow> (on_pool n pool_cancel hm)\<lparr>hm_cancelled := insert n (hm_cancelled hm)\<rparr>);
          hm2 = (case workers of None \<Rightarrow> hm1
                 | Some n \<Rightarrow> on_pool n (\<lambda>p. pool_cancel (pool_mark_stopped p)) hm1)
      in case prober of None \<Rightarrow> hm2 | Some n \<Rightarrow> hm2\<lparr>hm_closed := insert n (hm_closed hm2)\<rparr>)"

definition ErrHealthManagerNotRunning :: go_error where
  "ErrHealthManagerNotRunning = ''health manager is not running''"

definition ErrHealthManagerRunning :: go_error where
  "ErrHealthManagerRunning = ''health manager is already running''"

text \<open>\<open>cfg\<close> is what \<open>GetHealthConfig\<close> returns.\<close>

definition hm_Start :: "health_check_config \<Rightarrow> health_manager \<Rightarrow> go_error option \<times> health_manager" where
  "hm_Start cfg hm =
     (if hm_started hm then (Some ErrHealthManagerRunning, hm)
      else
        let hm1 = hm\<lparr>hm_cfg := Some cfg, hm_started := True\<rparr>
        in if \<not> hcc_Enabled cfg then (None, hm1)
           else (None, launch_loop (start_workers (buildComponents cfg hm1))))"

definition hm_Stop :: "health_manager \<Rightarrow> health_manager" where
  "hm_Stop hm =
     (if \<not> hm_started hm then hm
      else release (hm_cancel hm) (hm_workers hm) (hm_prober hm)
             (clear_components (hm\<lparr>hm_started := False\<rparr>)))"

definition hm_Reconcile :: "health_check_config \<Rightarrow> health_manager \<Rightarrow> go_error option \<times> health_manager" where
  "hm_Reconcile cfg hm =
     (if \<not> hm_started hm then (Some ErrHealthManagerNotRunning, hm)
      else
        let hm1 = (if hcc_Enabled cfg then start_workers (buildComponents cfg hm)
                   else clear_components hm);
            hm2 = release (hm_cancel hm) (hm_workers hm) (hm_prober hm) (hm1\<lparr>hm_cfg := Some cfg\<rparr>)
        in (None, if \<not> hcc_Enabled cfg then hm2 else launch_loop hm2))"

definition hm_CheckBackend :: "bool \<Rightarrow> string \<Rightarrow> health_manager \<Rightarrow> health_manager" where
  "hm_CheckBackend d backendID hm =
     (if \<not> hm_started hm then hm
      else
        case hm_workers hm of
          None \<Rightarrow> hm
        | Some n \<Rightarrow> on_pool n (\<lambda>p. snd (pool_Submit d backendID p)) hm)"

section \<open>Runs of the manager\<close>

inductive hm_reach :: "health_manager \<Rightarrow> bool" where
  hr_new: "hm_reach NewHealthManager"
| hr_start: "hm_reach hm \<Longrightarrow> hm_Start cfg hm = (r, hm') \<Longrightarrow> hm_reach hm'"
| hr_stop: "hm_reach hm \<Longrightarrow> hm_reach (hm_Stop hm)"
| hr_reconcile: "hm_reach hm \<Longrightarrow> hm_Reconcile cfg hm = (r, hm') \<Longrightarrow> hm_reach hm'"
| hr_check: "hm_reach hm \<Longrightarrow> hm_reach (hm_CheckBackend d b hm)"
| hr_pass: "hm_reach hm \<Longrightarrow> n \<in> hm_loops hm \<Longrightarrow> hm_reach (on_pool n (run_pass conv d cfg now rt) hm)"
| hr_pool: "hm_reach hm \<Longrightarrow> worker_step i (hm_pools hm n) p \<Longrightarrow> hm_reach (on_pool n (\<lambda>_. p) hm)"

definition pool_live :: "pool \<Rightarrow> bool" where
  "pool_live p \<longleftrightarrow> \<not> wp_stopped p \<and> \<not> wp_done p"

definition live_pools :: "health_manager \<Rightarrow> nat set" where
  "live_pools hm = {n. n < hm_next hm \<and> pool_live (hm_pools hm n)}"

definition live_loops :: "health_manager \<Rightarrow> nat set" where
  "live_loops hm = hm_loops hm - hm_cancelled hm"

definition open_probers :: "health_manager \<Rightarrow> nat set" where
  "open_probers hm = {n. n < hm_next hm} - hm_closed hm"

definition hm_inv :: "health_manager \<Rightarrow> bool" where
  "hm_inv hm \<longleftrightarrow>
     hm_prober hm = hm_workers hm \<and> hm_ctx hm = hm_workers hm \<and> hm_cancel hm = hm_workers hm \<and>
     (hm_scheduler hm = None \<longleftrightarrow> hm_workers hm = None) \<and>
     (\<not> hm_started hm \<longrightarrow> hm_workers hm = None) \<and>
     (hm_started hm \<longrightarrow> (\<exists>cfg. hm_cfg hm = Some cfg \<and> (hm_workers hm \<noteq> None \<longleftrightarrow> hcc_Enabled cfg))) \<and>
     hm_loops hm = {n. n < hm_next hm} \<and>
     hm_closed hm \<subseteq> {n. n < hm_next hm} \<and> hm_cancelled hm \<subseteq> {n. n < hm_next hm} \<and>
     set_option (hm_workers hm) \<subseteq> {n. n < hm_next hm} \<and>
     live_pools hm = set_option (hm_workers hm) \<and>
     live_loops hm = set_option (hm_workers hm) \<and>
     open_probers hm = set_option (hm_workers hm)"

text \<open>Submissions and the steps of workers leave a pool as live as it was.\<close>

lemma pool_live_submit: "pool_live (snd (pool_Submit d b p)) = pool_live p"
  by (auto simp: pool_live_def pool_Submit_def Let_def)

lemma pool_live_fold: "pool_live (fold (\<lambda>b p. snd (pool_Submit d b p)) bs p) = pool_live p"
  by (induction bs arbitrary: p) (simp_all add: pool_live_submit)

lemma pool_live_worker: "worker_step i p p' \<Longrightarrow> pool_live p' = pool_live p"
  by (auto elim!: worker_stepE simp: pool_live_def set_worker_def pool_complete_def)

lemma on_pool_sel [simp]:
  "hm_cfg (on_pool n f hm) = hm_cfg hm" "hm_scheduler (on_pool n f hm) = hm_scheduler hm"
  "hm_workers (on_pool n f hm) = hm_workers hm" "hm_prober (on_pool n f hm) = hm_prober hm"
  "hm_ctx (on_pool n f hm) = hm_ctx hm" "hm_cancel (on_pool n f hm) = hm_cancel hm"
  "hm_started (on_pool n f hm) = hm_started hm" "hm_next (on_pool n f hm) = hm_next hm"
  "hm_loops (on_pool n f hm) = hm_loops hm" "hm_cancelled (on_pool n f hm) = hm_cancelled hm"
  "hm_closed (on_pool n f hm) = hm_closed hm"
  "hm_pools (on_pool n f hm) m = (if m = n then f (hm_pools hm n) else hm_pools hm m)"
  by (simp_all add: on_pool_def)

lemma live_pools_on_pool:
  "pool_live (f (hm_pools hm n)) = pool_live (hm_pools hm n) \<Longrightarrow> live_pools (on_pool n f hm) = live_pools hm"
  by (auto simp: live_pools_def)

lemma hm_inv_on_pool:
  "pool_live (f (hm_pools hm n)) = pool_live (hm_pools hm n) \<Longrightarrow> hm_inv (on_pool n f hm) = hm_inv hm"
  by (simp add: hm_inv_def live_pools_on_pool) (simp add: live_loops_def open_probers_def)

lemma pool_live_new: "pool_live (NewBoundedWorkerPool n q)" "pool_live (pool_Start p) = pool_live p"
  by (simp_all add: pool_live_def NewBoundedWorkerPool_def pool_Start_def Let_def)

lemma not_live_cancelled: "\<not> pool_live (pool_cancel p)"
  by (simp add: pool_live_def pool_cancel_def)

text \<open>What a release and a set of new components do to what is live.\<close>

lemma release_live:
  "live_pools (release w w w hm) = live_pools hm - set_option w"
  "live_loops (release w w w hm) = live_loops hm - set_option w"
  "open_probers (release w w w hm) = open_probers hm - set_option w"
  by (cases w; auto simp: release_def live_pools_def live_loops_def open_probers_def Let_def
      not_live_cancelled split: if_splits)+

lemma release_sel [simp]:
  "hm_cfg (release c w p hm) = hm_cfg hm" "hm_scheduler (release c w p hm) = hm_scheduler hm"
  "hm_workers (release c w p hm) = hm_workers hm" "hm_prober (release c w p hm) = hm_prober hm"
  "hm_ctx (release c w p hm) = hm_ctx hm" "hm_cancel (release c w p hm) = hm_cancel hm"
  "hm_started (release c w p hm) = hm_started hm" "hm_next (release c w p hm) = hm_next hm"
  "hm_loops (release c w p hm) = hm_loops hm"
  by (simp_all add: release_def Let_def split: option.splits)

definition with_components :: "health_check_config \<Rightarrow> health_manager \<Rightarrow> health_manager" where
  "with_components cfg hm = start_workers (buildComponents cfg hm)"

lemma with_components_sel [simp]:
  "hm_workers (with_components cfg hm) = Some (hm_next hm)"
  "hm_prober (with_components cfg hm) = Some (hm_next hm)"
  "hm_ctx (with_components cfg hm) = Some (hm_next hm)"
  "hm_cancel (with_components cfg hm) = Some (hm_next hm)"
  "hm_scheduler (with_components cfg hm) \<noteq> None"
  "hm_next (with_components cfg hm) = Suc (hm_next hm)"
  "hm_started (with_components cfg hm) = hm_started hm"
  "hm_cfg (with_components cfg hm) = hm_cfg hm"
  "hm_loops (with_components cfg hm) = hm_loops hm"
  "hm_cancelled (with_components cfg hm) = hm_cancelled hm"
  "hm_closed (with_components cfg hm) = hm_closed hm"
  by (simp_all add: with_components_def start_workers_def buildComponents_def Let_def)

lemma with_components_live:
  assumes "hm_closed hm \<subseteq> {n. n < hm_next hm}"
  shows "live_pools (with_components cfg hm) = insert (hm_next hm) (live_pools hm)"
    "open_probers (with_components cfg hm) = insert (hm_next hm) (open_probers hm)"
    "live_loops (with_components cfg hm) = live_loops hm"
proof -
  have pools: "hm_pools (with_components cfg hm) m =
      (if m = hm_next hm then pool_Start (NewBoundedWorkerPool (sint (hc_Workers (hcc_Concurrency cfg)))
          (sint (hc_QueueSize (hcc_Concurrency cfg)))) else hm_pools hm m)" for m
    by (simp add: with_components_def start_workers_def buildComponents_def Let_def)
  show "live_pools (with_components cfg hm) = insert (hm_next hm) (live_pools hm)"
    by (auto simp: live_pools_def pools pool_live_new split: if_splits)
  show "open_probers (with_components cfg hm) = insert (hm_next hm) (open_probers hm)"
    using assms by (auto simp: open_probers_def)
  show "live_loops (with_components cfg hm) = live_loops hm"
    by (simp add: live_loops_def)
qed

lemma update_cfg_live [simp]:
  "live_pools (hm\<lparr>hm_cfg := c\<rparr>) = live_pools hm" "live_loops (hm\<lparr>hm_cfg := c\<rparr>) = live_loops hm"
  "open_probers (hm\<lparr>hm_cfg := c\<rparr>) = open_probers hm"
  "live_pools (hm\<lparr>hm_started := b\<rparr>) = live_pools hm" "live_loops (hm\<lparr>hm_started := b\<rparr>) = live_loops hm"
  "open_probers (hm\<lparr>hm_started := b\<rparr>) = open_probers hm"
  "live_pools (hm\<lparr>hm_loops := l\<rparr>) = live_pools hm" "open_probers (hm\<lparr>hm_loops := l\<rparr>) = open_probers hm"
  "live_pools (clear_components hm) = live_pools hm" "live_loops (clear_components hm) = live_loops hm"
  "open_probers (clear_components hm) = open_probers hm"
  by (simp_all add: live_pools_def live_loops_def open_probers_def clear_components_def)

lemma clear_components_sel [simp]:
  "hm_cfg (clear_components hm) = hm_cfg hm" "hm_scheduler (clear_components hm) = None"
  "hm_workers (clear_components hm) = None" "hm_prober (clear_components hm) = None"
  "hm_ctx (clear_components hm) = None" "hm_cancel (clear_components hm) = None"
  "hm_started (clear_components hm) = hm_started hm" "hm_next (clear_components hm) = hm_next hm"
  "hm_loops (clear_components hm) = hm_loops hm" "hm_closed (clear_components hm) = hm_closed hm"
  "hm_cancelled (clear_components hm) = hm_cancelled hm"
  by (simp_all add: clear_components_def)

lemma release_sets:
  "hm_closed (release c w p hm) = hm_closed hm \<union> set_option p"
  "hm_cancelled (release c w p hm) = hm_cancelled hm \<union> set_option c"
  by (auto simp: release_def Let_def split: option.splits)

lemma hm_inv_Start:
  assumes "hm_inv hm" and "hm_Start cfg hm = (r, hm')"
  shows "hm_inv hm'"
proof (cases "hm_started hm")
  case True
  with assms show ?thesis by (simp add: hm_Start_def)
next
  case False
  let ?hm1 = "hm\<lparr>hm_cfg := Some cfg, hm_started := True\<rparr>"
  from False assms(1) have none: "hm_workers hm = None" and
    closed: "hm_closed hm \<subseteq> {n. n < hm_next hm}" "hm_cancelled hm \<subseteq> {n. n < hm_next hm}"
    by (simp_all add: hm_inv_def)
  have c1: "hm_closed ?hm1 \<subseteq> {n. n < hm_next ?hm1}" using closed by simp
  show ?thesis
  proof (cases "hcc_Enabled cfg")
    case dis: False
    with False assms none show ?thesis by (auto simp: hm_Start_def hm_inv_def)
  next
    case True
    let ?w = "with_components cfg ?hm1"
    have hm': "hm' = ?w\<lparr>hm_loops := insert (hm_next hm) (hm_loops hm)\<rparr>"
      using assms(2) False True
      by (simp add: hm_Start_def launch_loop_def with_components_def [symmetric])
    have "live_loops hm' = insert (hm_next hm) (live_loops hm)"
      using closed by (auto simp: hm' live_loops_def)
    with assms(1) none True closed with_components_live [OF c1, of cfg] show ?thesis
      by (auto simp: hm_inv_def hm')
  qed
qed

lemma hm_inv_Stop: "hm_inv hm \<Longrightarrow> hm_inv (hm_Stop hm)"
proof (cases "hm_started hm")
  case True
  assume inv: "hm_inv hm"
  let ?w = "hm_workers hm" let ?hm1 = "clear_components (hm\<lparr>hm_started := False\<rparr>)"
  have eq: "hm_Stop hm = release ?w ?w ?w ?hm1"
    using True inv by (simp add: hm_Stop_def hm_inv_def)
  show ?thesis
    using inv unfolding eq
    by (simp add: hm_inv_def release_live release_sets)
qed (simp add: hm_Stop_def)

lemma hm_inv_Reconcile:
  assumes inv: "hm_inv hm" and r: "hm_Reconcile cfg hm = (r, hm')"
  shows "hm_inv hm'"
proof (cases "hm_started hm")
  case False
  with assms show ?thesis by (simp add: hm_Reconcile_def)
next
  case True
  let ?w = "hm_workers hm"
  from inv have same: "hm_cancel hm = ?w" "hm_prober hm = ?w" and
    closed: "hm_closed hm \<subseteq> {n. n < hm_next hm}" "hm_cancelled hm \<subseteq> {n. n < hm_next hm}"
    and w: "set_option ?w \<subseteq> {n. n < hm_next hm}"
    by (simp_all add: hm_inv_def)
  show ?thesis
  proof (cases "hcc_Enabled cfg")
    case dis: False
    with True r have "hm' = release ?w ?w ?w ((clear_components hm)\<lparr>hm_cfg := Some cfg\<rparr>)"
      by (simp add: hm_Reconcile_def same)
    with inv dis True w show ?thesis
      by (simp add: hm_inv_def release_live release_sets)
  next
    case en: True
    let ?r = "release ?w ?w ?w ((with_components cfg hm)\<lparr>hm_cfg := Some cfg\<rparr>)"
    have hm': "hm' = ?r\<lparr>hm_loops := insert (hm_next hm) (hm_loops hm)\<rparr>"
      using r True en
      by (simp add: hm_Reconcile_def launch_loop_def with_components_def [symmetric] same)
    have nw: "hm_next hm \<notin> set_option ?w" using w by auto
    have "live_loops hm' = insert (hm_next hm) (live_loops hm - set_option ?w)"
      using closed nw by (auto simp: hm' live_loops_def release_sets)
    with inv True en closed w nw with_components_live [OF closed(1), of cfg] show ?thesis
      by (auto simp: hm_inv_def hm' release_live release_sets)
  qed
qed

lemma hm_reach_inv: "hm_reach hm \<Longrightarrow> hm_inv hm"
proof (induction rule: hm_reach.induct)
  case hr_new
  show ?case
    by (simp add: hm_inv_def NewHealthManager_def live_pools_def live_loops_def open_probers_def)
next
  case hr_start
  then show ?case using hm_inv_Start by blast
next
  case hr_stop
  then show ?case using hm_inv_Stop by blast
next
  case hr_reconcile
  then show ?case using hm_inv_Reconcile by blast
next
  case (hr_check hm d b)
  then show ?case
    by (auto simp: hm_CheckBackend_def hm_inv_on_pool pool_live_submit split: option.split)
next
  case (hr_pass hm n conv d cfg now rt)
  then show ?case by (simp add: hm_inv_on_pool run_pass_def pool_live_fold)
next
  case (hr_pool hm i n p)
  then show ?case using pool_live_worker by (simp add: hm_inv_on_pool)
qed

section \<open>Properties\<close>

text \<open>C22: the manager does not leak. After any starts, stops, reconfigurations, checks and worker
  steps, the pool, the run loop and the prober that are still alive are exactly the current ones;
  a stopped manager and one with checks switched off have none.\<close>

theorem manager_single_pool:
  assumes "hm_reach hm"
  shows "live_pools hm = set_option (hm_workers hm) \<and> live_loops hm = set_option (hm_workers hm) \<and>
         open_probers hm = set_option (hm_workers hm) \<and>
         (hm_workers hm \<noteq> None \<longleftrightarrow> hm_started hm \<and> (\<exists>cfg. hm_cfg hm = Some cfg \<and> hcc_Enabled cfg))"
  using hm_reach_inv [OF assms] by (cases "hm_started hm") (auto simp: hm_inv_def)

theorem manager_single_pool_witness:
  "\<exists>hm. hm_reach hm \<and> hm_next hm = 2 \<and> live_pools hm = {1} \<and> live_loops hm = {1}"
proof -
  let ?c = "backoff_config 5000 30000"
  let ?h1 = "snd (hm_Start ?c NewHealthManager)" let ?h2 = "snd (hm_Reconcile ?c ?h1)"
  have "hm_reach ?h1" by (rule hr_start [OF hr_new]) (rule prod.collapse [symmetric])
  then have r: "hm_reach ?h2" by (rule hr_reconcile) (rule prod.collapse [symmetric])
  have en: "hcc_Enabled ?c" by (simp add: backoff_config_def)
  have n1: "hm_started ?h1" "hm_next ?h1 = 1"
    using en by (simp_all add: hm_Start_def launch_loop_def with_components_def [symmetric] NewHealthManager_def)
  have "hm_workers ?h2 = Some 1" "hm_next ?h2 = 2"
    using en n1 by (simp_all add: hm_Reconcile_def launch_loop_def with_components_def [symmetric])
  with r manager_single_pool [OF r] show ?thesis by auto
qed

lemma in_due_backends:
  "i \<in> set (due_backends conv cfg now rt bs) \<longleftrightarrow>
     (\<exists>b a. Some b \<in> set bs \<and> bc_Id b = i \<and> bc_Enabled b \<and> rt_GetBackendStatus rt i = Some a \<and>
        shouldScheduleProbe conv (status_Snapshot (st_mem (rt_store rt) a)) cfg now)"
  by (induction conv cfg now rt bs rule: due_backends.induct) (auto split: option.splits)

text \<open>A pass of the run loop overlooks no backend. Every enabled backend that has a status and is
  due is queued or being probed after the pass, unless the pool is stopped or its queue is full.\<close>

theorem pass_covers_due:
  assumes "pool_inv p" and "Some b \<in> set (rt_GetBackends rt)" and "bc_Enabled b" and "bc_Id b \<noteq> ''''"
    and "rt_GetBackendStatus rt (bc_Id b) = Some a"
    and "shouldScheduleProbe conv (status_Snapshot (st_mem (rt_store rt) a)) cfg now"
  shows "let p' = run_pass conv d cfg now rt p
         in bc_Id b \<in> set (wp_jobs p' @ running (wp_workers p')) \<or>
            wp_stopped p' \<or> wp_done p' \<or> length (wp_jobs p') = wp_capacity p'"
proof -
  let ?p = "run_pass conv d cfg now rt p"
  have "bc_Id b \<in> set (due_backends conv cfg now rt (rt_GetBackends rt))"
    using assms(2,3,5,6) by (auto simp: in_due_backends)
  then have "bc_Id b \<in> wp_pending ?p \<or> pool_unable ?p"
    unfolding run_pass_def using assms(1,4) by (intro pq.pass_covers)
  moreover have "pool_inv ?p" unfolding run_pass_def using assms(1) by (rule pq.inv_fold)
  ultimately show ?thesis by (auto simp: Let_def pool_inv_def pool_unable_def)
qed

theorem pass_covers_due_witness:
  "let p' = run_pass (\<lambda>_. 0) False sample_health_check 7 sample_runtime (NewBoundedWorkerPool 1 2)
   in ''backend-1'' \<in> set (wp_jobs p' @ running (wp_workers p')) \<or>
      wp_stopped p' \<or> wp_done p' \<or> length (wp_jobs p') = wp_capacity p'"
proof -
  note inv = rt_inv_new [OF sample_runtime_new]
  have bs: "rt_GetBackends sample_runtime = [Some backend_1, Some backend_2]"
    using ri_snapshot [OF inv] by (simp add: rt_GetBackends_def State_def sample_service_def sample_config_def)
  have "''backend-1'' \<in> dom (rt_statuses sample_runtime)"
    using ri_dom [OF inv] by (simp add: sample_service_def)
  then obtain a where "rt_GetBackendStatus sample_runtime ''backend-1'' = Some a"
    using ri_statuses [OF inv] by (auto simp: rt_GetBackendStatus_def state_BackendStatus_def State_def)
  then have a: "rt_GetBackendStatus sample_runtime (bc_Id backend_1) = Some a" by (simp add: backend_1_def)
  have due: "shouldScheduleProbe (\<lambda>_. 0) s sample_health_check 7" for s
    by (simp add: shouldScheduleProbe_def sample_health_check_def)
  show ?thesis
    using pass_covers_due [OF pool_inv_new [of 1 2] _ _ _ a due, where d = False]
    by (simp add: bs backend_1_def)
qed

text \<open>A probe that \<open>Stop\<close> or \<open>Reconcile\<close> aborts by cancelling its context counts as a failure of
  its backend: with the valid threshold 1, a healthy backend is taken out of rotation.\<close>

theorem aborted_probe_ejects:
  assumes "pe_new_request E (upper_method (hp_Method (hcc_Probe cfg)))
             (healthURL (bc_URL b) (hp_Path (hcc_Probe cfg))) = None"
    and "\<And>m u t. \<exists>e. pe_do E True m u t = Inl e"
    and "job_begin cfg rt i = Some (b, a)" and "ht_Unhealthy (hcc_Thresholds cfg) = 1"
    and "bs_consecutiveFailures (st_mem (rt_store rt) a) = 0"
  shows "\<not> IsActive (st_mem (rt_store (processJob E True cfg i now rt)) a)"
proof -
  let ?r = "Probe E True (Some b) (hcc_Probe cfg)"
  obtain e where "pe_do E True (upper_method (hp_Method (hcc_Probe cfg)))
      (healthURL (bc_URL b) (hp_Path (hcc_Probe cfg))) (millis (hp_TimeoutMs (hcc_Probe cfg))) = Inl e"
    using assms(2) by blast
  then have r: "\<not> prs_Healthy ?r" by (simp add: probe_healthy_iff)
  have "rt_store (processJob E True cfg i now rt) =
      st_modify a (\<lambda>s. snd (ApplyProbeResult (prs_Healthy ?r) (prs_Err ?r) (hcc_Thresholds cfg) now s))
        (rt_store rt)"
    by (simp add: processJob_def assms(3) job_end_def)
  with r assms(4,5) show ?thesis
    by (simp add: st_modify_def ApplyProbeResult_def IsActive_def record_failure)
qed

text \<open>The result of a probe is applied to the backend's status even if \<open>UpdateBackend\<close> has given
  the backend another URL in the meantime: with the threshold 1 the new URL is active without
  having been probed. The check that \<open>UpdateBackend\<close> asks for is refused while the old probe is
  pending.\<close>

theorem stale_probe_activates:
  assumes "rt_reach E path rt fs" and "json_roundtrip E" and "hcc_Enabled (rt_GetHealthConfig rt)"
    and "job_begin cfg rt i = Some (b, a)"
    and "rt_exec E io (RT_UpdateBackend i url weight True) rt fs = (None, rt', fs', evs)"
    and "prs_Healthy result" and "ht_Healthy (hcc_Thresholds cfg) = 1"
    and "st_mem (rt_store rt') a = zero_status"
    and "pool_inv p" and "i \<in> set (running (wp_workers p))"
  shows "rt_GetBackendStatus rt' i = Some a \<and>
         IsActive (st_mem (rt_store (job_end cfg now result (b, a) rt')) a) \<and>
         \<not> fst (pool_Submit d i p)"
proof -
  from update_backend_effect [OF assms(1,2,5,3)] obtain a' where
    a': "rt_GetBackendStatus rt i = Some a'" "rt_GetBackendStatus rt' i = Some a'" by blast
  from assms(4) have "rt_GetBackendStatus rt i = Some a"
    by (auto simp: job_begin_def split: option.splits if_splits)
  with a' have "rt_GetBackendStatus rt' i = Some a" by simp
  moreover have "IsActive (st_mem (rt_store (job_end cfg now result (b, a) rt')) a)"
    using assms(6-8)
    by (simp add: job_end_def st_modify_def ApplyProbeResult_def IsActive_def record_success zero_status_def)
  moreover have "i \<in> wp_pending p" using assms(9,10) by (simp add: pool_inv_def)
  then have "\<not> fst (pool_Submit d i p)" by (simp add: pool_Submit_def)
  ultimately show ?thesis by blast
qed

end
