(* ===== verification/Lifecycle.thy ===== *)
theory Lifecycle
  imports HealthManager
begin

text \<open>
  The life cycle of the process (\<open>Start\<close> and \<open>Stop\<close> of \<open>internal/proxy/proxy.go\<close>): the listeners and
  servers of its three ports, the health manager, the collectors and the logger, as a transition
  system in which \<open>Stop\<close> may come between any two stages of \<open>Start\<close>. The outcomes of listening are
  inputs; what \<open>net/http\<close> and gRPC servers do with their listeners is part of the model. Main facts:
  a stop of a serving proxy releases everything, a stop during the start-up releases nothing of what
  comes after it, and it cannot be repeated.
\<close>

section \<open>State\<close>

text \<open>\<open>CONFIG_PATH\<close> may name the configuration; \<open>present\<close> says whether \<open>config.json\<close> exists.\<close>

definition default_config_path :: "string \<Rightarrow> string \<Rightarrow> bool \<Rightarrow> string" where
  "default_config_path configPath envPath present =
     (let p = (if configPath = '''' then envPath else configPath)
      in if p = '''' then (if present then ''config.json'' else ''configs/config.json'') else p)"

definition ops_address :: "string \<Rightarrow> string" where
  "ops_address raw = (if raw = '''' then ''127.0.0.1:9091'' else raw)"

text \<open>Where \<open>Start\<close> is: before each of its steps, serving, or returned with its error.\<close>

datatype start_stage = At_admin | At_ops | At_health | At_serve | Serving | Returned "go_error option"

datatype collector = Coll_idle | Coll_running | Coll_closed

record proxy_process =
  pp_stage :: start_stage
  pp_HealthManager :: health_manager
  pp_proxyCollector :: collector
  pp_backendCollector :: collector
  pp_adminServer :: bool
  pp_adminStopped :: bool
  pp_adminListener :: bool
  pp_opsListener :: bool
  pp_publicListener :: bool
  pp_servers :: bool
  pp_shutdown :: bool
  pp_stopped :: bool
  pp_loggerStops :: nat

definition new_process :: proxy_process where
  "new_process =
     \<lparr>pp_stage = At_admin, pp_HealthManager = NewHealthManager, pp_proxyCollector = Coll_idle,
      pp_backendCollector = Coll_idle, pp_adminServer = False, pp_adminStopped = False,
      pp_adminListener = False, pp_opsListener = False, pp_publicListener = False, pp_servers = False,
      pp_shutdown = False, pp_stopped = False, pp_loggerStops = 0\<rparr>"

section \<open>Start\<close>

definition fail_start :: "go_error \<Rightarrow> proxy_process \<Rightarrow> proxy_process" where
  "fail_start e p = p\<lparr>pp_stage := Returned (Some e)\<rparr>"

text \<open>\<open>NewAdminGRPCServer\<close>, with its listener.\<close>

definition start_admin :: "go_error option \<Rightarrow> proxy_process \<Rightarrow> proxy_process" where
  "start_admin err p =
     (case err of
        Some e \<Rightarrow> fail_start e p
      | None \<Rightarrow> p\<lparr>pp_stage := At_ops, pp_adminServer := True, pp_adminListener := True\<rparr>)"

text \<open>The operational port; the second error is that of closing the admin listener.\<close>

definition start_ops :: "(go_error \<times> go_error option) option \<Rightarrow> proxy_process \<Rightarrow> proxy_process" where
  "start_ops err p =
     (case err of
        None \<Rightarrow> p\<lparr>pp_stage := At_health, pp_opsListener := True\<rparr>
      | Some (e, closeErr) \<Rightarrow>
          fail_start (case closeErr of None \<Rightarrow> e | Some c \<Rightarrow> e @ [CHR 0x0A] @ ''close admin listener: '' @ c)
            (p\<lparr>pp_adminListener := False, pp_adminStopped := True\<rparr>))"

definition start_health :: "health_check_config \<Rightarrow> proxy_process \<Rightarrow> proxy_process" where
  "start_health cfg p =
     (case hm_Start cfg (pp_HealthManager p) of
        (Some e, hm) \<Rightarrow> fail_start e (p\<lparr>pp_HealthManager := hm\<rparr>)
      | (None, hm) \<Rightarrow> p\<lparr>pp_stage := At_serve, pp_HealthManager := hm\<rparr>)"

text \<open>\<open>collector.Start\<close>: the goroutine ends at once if the collector is closed.\<close>

definition collector_start :: "collector \<Rightarrow> collector" where
  "collector_start c = (if c = Coll_closed then Coll_closed else Coll_running)"

text \<open>The collectors, the servers, and the public port. \<open>Serve\<close> of a gRPC server that was stopped before
  closes the listener.\<close>

definition start_serve :: "go_error option \<Rightarrow> proxy_process \<Rightarrow> proxy_process" where
  "start_serve err p =
     (let p' = p\<lparr>pp_proxyCollector := collector_start (pp_proxyCollector p),
                 pp_backendCollector := collector_start (pp_backendCollector p), pp_servers := True,
                 pp_adminListener := pp_adminListener p \<and> \<not> pp_adminStopped p\<rparr>
      in case err of
           Some e \<Rightarrow> fail_start e p'
         | None \<Rightarrow> p'\<lparr>pp_stage := Serving, pp_publicListener := True\<rparr>)"

section \<open>Stop\<close>

text \<open>The body of \<open>stopOnce.Do\<close>. Stopping the gRPC server, gracefully or not, closes a listener that it
  serves, and \<open>Shutdown\<close> closes the listener of a server.\<close>

definition stop_once :: "proxy_process \<Rightarrow> proxy_process" where
  "stop_once p =
     (let p1 = p\<lparr>pp_HealthManager := hm_Stop (pp_HealthManager p), pp_proxyCollector := Coll_closed,
                 pp_backendCollector := Coll_closed\<rparr>;
          p2 = (if pp_adminServer p1
                then p1\<lparr>pp_adminStopped := True, pp_adminListener := pp_adminListener p1 \<and> \<not> pp_servers p1\<rparr>
                else p1);
          p3 = (if pp_servers p2
                then p2\<lparr>pp_publicListener := False, pp_opsListener := False, pp_shutdown := True\<rparr> else p2)
      in p3\<lparr>pp_loggerStops := Suc (pp_loggerStops p3)\<rparr>)"

definition proxy_Stop :: "proxy_process \<Rightarrow> proxy_process" where
  "proxy_Stop p = (if pp_stopped p then p else (stop_once p)\<lparr>pp_stopped := True\<rparr>)"

section \<open>Runs\<close>

text \<open>\<open>Start\<close> from stage to stage, \<open>Stop\<close> at any time, and whatever the health manager does meanwhile.\<close>

inductive process_step :: "proxy_process \<Rightarrow> proxy_process \<Rightarrow> bool" where
  ps_admin: "pp_stage p = At_admin \<Longrightarrow> process_step p (start_admin err p)"
| ps_ops: "pp_stage p = At_ops \<Longrightarrow> process_step p (start_ops errs p)"
| ps_health: "pp_stage p = At_health \<Longrightarrow> process_step p (start_health cfg p)"
| ps_serve: "pp_stage p = At_serve \<Longrightarrow> process_step p (start_serve err p)"
| ps_return: "pp_stage p = Serving \<Longrightarrow> pp_shutdown p \<Longrightarrow> process_step p (p\<lparr>pp_stage := Returned None\<rparr>)"
| ps_stop: "process_step p (proxy_Stop p)"
| ps_manager: "hm_reach hm \<Longrightarrow> hm_started hm = hm_started (pp_HealthManager p) \<Longrightarrow>
    process_step p (p\<lparr>pp_HealthManager := hm\<rparr>)"

inductive process_reach :: "proxy_process \<Rightarrow> bool" where
  pr_new: "process_reach new_process"
| pr_step: "process_reach p \<Longrightarrow> process_step p p' \<Longrightarrow> process_reach p'"

text \<open>Nothing that the process holds is left.\<close>

definition all_released :: "proxy_process \<Rightarrow> bool" where
  "all_released p \<longleftrightarrow>
     \<not> pp_adminListener p \<and> \<not> pp_opsListener p \<and> \<not> pp_publicListener p \<and>
     live_pools (pp_HealthManager p) = {} \<and> live_loops (pp_HealthManager p) = {} \<and>
     open_probers (pp_HealthManager p) = {} \<and>
     pp_proxyCollector p \<noteq> Coll_running \<and> pp_backendCollector p \<noteq> Coll_running"

definition process_inv :: "proxy_process \<Rightarrow> bool" where
  "process_inv p \<longleftrightarrow>
     hm_reach (pp_HealthManager p) \<and>
     pp_loggerStops p = (if pp_stopped p then 1 else 0) \<and>
     (pp_stopped p \<longrightarrow> pp_proxyCollector p = Coll_closed \<and> pp_backendCollector p = Coll_closed) \<and>
     (pp_shutdown p \<longrightarrow> pp_servers p \<and> all_released p \<and> \<not> hm_started (pp_HealthManager p)) \<and>
     (pp_stage p = Serving \<longrightarrow> pp_servers p \<and> pp_adminServer p) \<and>
     (pp_servers p \<longrightarrow> pp_adminServer p) \<and>
     (pp_stage p \<in> {At_admin, At_ops, At_health, At_serve} \<longrightarrow> \<not> pp_servers p \<and> \<not> pp_publicListener p) \<and>
     (pp_stage p \<in> {At_ops, At_health, At_serve} \<longrightarrow> pp_adminServer p)"

lemma stopped_manager:
  assumes "hm_reach hm" and "\<not> hm_started hm"
  shows "live_pools hm = {}" "live_loops hm = {}" "open_probers hm = {}"
  using hm_reach_inv [OF assms(1)] assms(2) by (auto simp: hm_inv_def)

lemma hm_Stop_started: "\<not> hm_started (hm_Stop hm)"
  by (simp add: hm_Stop_def clear_components_def release_sel)

lemma start_step_inv:
  assumes "process_inv p"
  shows "pp_stage p = At_admin \<Longrightarrow> process_inv (start_admin err p)"
    "pp_stage p = At_ops \<Longrightarrow> process_inv (start_ops errs p)"
    "pp_stage p = At_serve \<Longrightarrow> process_inv (start_serve err p)"
  using assms
  by (auto simp: process_inv_def start_admin_def start_ops_def start_serve_def fail_start_def collector_start_def
      all_released_def Let_def split: option.splits)

lemma start_health_inv:
  assumes "process_inv p" and "pp_stage p = At_health"
  shows "process_inv (start_health cfg p)"
proof -
  obtain r hm where h: "hm_Start cfg (pp_HealthManager p) = (r, hm)" by fastforce
  from assms(1) have "hm_reach (pp_HealthManager p)" by (simp add: process_inv_def)
  from hr_start [OF this h] have "hm_reach hm" .
  then show ?thesis
    using assms h by (auto simp: process_inv_def start_health_def fail_start_def split: option.splits)
qed

lemma stop_inv: "process_inv p \<Longrightarrow> process_inv (proxy_Stop p)"
proof (cases "pp_stopped p")
  case False
  assume inv: "process_inv p"
  then have "hm_reach (pp_HealthManager p)" by (simp add: process_inv_def)
  then have "hm_reach (hm_Stop (pp_HealthManager p))" by (rule hr_stop)
  from this hm_Stop_started stopped_manager [OF this hm_Stop_started]
  show ?thesis
    using inv False by (auto simp: process_inv_def proxy_Stop_def stop_once_def all_released_def Let_def)
qed (simp add: proxy_Stop_def)

lemma process_reach_inv: "process_reach p \<Longrightarrow> process_inv p"
proof (induction rule: process_reach.induct)
  case pr_new
  show ?case by (simp add: process_inv_def new_process_def hr_new)
next
  case (pr_step p p')
  from pr_step(2) show ?case
  proof cases
    case (ps_manager hm)
    have "all_released (p\<lparr>pp_HealthManager := hm\<rparr>)" if "all_released p" "\<not> hm_started hm"
      using that(1) stopped_manager [OF ps_manager(2) that(2)] by (simp add: all_released_def)
    then show ?thesis using pr_step(3) ps_manager by (auto simp: process_inv_def)
  next
    case ps_return
    then show ?thesis using pr_step(3) by (auto simp: process_inv_def all_released_def)
  qed (use pr_step(3) start_step_inv start_health_inv stop_inv in auto)
qed

text \<open>C24: stopping a proxy that serves releases everything: its three ports are closed, the health manager
  has no pool, loop or connection left, the collectors are closed, the logger is stopped exactly
  once, \<open>Start\<close> can return, without an error, and nothing of that comes back however often \<open>Stop\<close> is
  called and whatever happens afterwards.\<close>

theorem stop_releases:
  assumes "process_reach p" and "pp_stage p = Serving" and "\<not> pp_stopped p"
    and "process_step\<^sup>*\<^sup>* (proxy_Stop p) p'"
  shows "all_released p' \<and> pp_loggerStops p' = 1 \<and> pp_stage p' \<in> {Serving, Returned None} \<and>
    process_step (proxy_Stop p) ((proxy_Stop p)\<lparr>pp_stage := Returned None\<rparr>)"
proof -
  let ?ok = "\<lambda>q. process_inv q \<and> pp_shutdown q \<and> pp_stopped q \<and> pp_stage q \<in> {Serving, Returned None}"
  note inv = process_reach_inv [OF assms(1)]
  have start: "?ok (proxy_Stop p)"
    using stop_inv [OF inv] inv assms(2,3)
    by (auto simp: process_inv_def proxy_Stop_def stop_once_def Let_def)
  have step: "?ok q'" if q: "?ok q" "process_step q q'" for q q'
  proof -
    from q(2) show ?thesis
    proof cases
      case (ps_manager hm)
      have "all_released (q\<lparr>pp_HealthManager := hm\<rparr>)"
        using q(1) stopped_manager [OF ps_manager(2)] ps_manager(3) by (auto simp: process_inv_def all_released_def)
      then show ?thesis using q(1) ps_manager by (auto simp: process_inv_def)
    qed (use q(1) in \<open>auto simp: proxy_Stop_def process_inv_def all_released_def\<close>)
  qed
  have "?ok p'"
    using assms(4)
  proof (induction rule: rtranclp_induct)
    case base
    show ?case by (rule start)
  next
    case (step q q')
    then show ?case using \<open>\<And>q q'. ?ok q \<Longrightarrow> process_step q q' \<Longrightarrow> ?ok q'\<close> by blast
  qed
  moreover have "process_step (proxy_Stop p) ((proxy_Stop p)\<lparr>pp_stage := Returned None\<rparr>)"
    using assms(2,3) inv by (intro ps_return) (auto simp: proxy_Stop_def stop_once_def process_inv_def Let_def)
  ultimately show ?thesis by (auto simp: process_inv_def)
qed

lemma manager_starts:
  obtains hm where "hm_Start cfg NewHealthManager = (None, hm)" "hm_started hm" "hm_reach hm"
proof -
  have "fst (hm_Start cfg NewHealthManager) = None \<and> hm_started (snd (hm_Start cfg NewHealthManager))"
    by (simp add: hm_Start_def launch_loop_def with_components_def [symmetric] NewHealthManager_def Let_def)
  then obtain hm where hm: "hm_Start cfg NewHealthManager = (None, hm)" "hm_started hm"
    by (cases "hm_Start cfg NewHealthManager") simp
  then show thesis using that hr_start [OF hr_new hm(1)] by blast
qed

lemma started_process:
  assumes "process_reach p" and "pp_stage p = At_ops" and "pp_HealthManager p = NewHealthManager"
  obtains q where "process_reach q" "pp_stage q = Serving" "hm_started (pp_HealthManager q)"
    "pp_publicListener q" "pp_opsListener q" "pp_stopped q = pp_stopped p"
    "q = start_serve None (start_health cfg (start_ops None p))"
proof -
  obtain hm where hm: "hm_Start cfg NewHealthManager = (None, hm)" "hm_started hm" by (rule manager_starts)
  let ?q1 = "start_ops None p"
  have q1: "pp_stage ?q1 = At_health" "pp_HealthManager ?q1 = NewHealthManager"
    using assms(3) by (simp_all add: start_ops_def)
  have h: "start_health cfg ?q1 = ?q1\<lparr>pp_stage := At_serve, pp_HealthManager := hm\<rparr>"
    using hm(1) by (simp add: start_health_def q1(2))
  have "process_reach ?q1" using assms(1) by (rule pr_step) (rule ps_ops [OF assms(2)])
  then have "process_reach (start_health cfg ?q1)" by (rule pr_step) (rule ps_health [OF q1(1)])
  then have "process_reach (start_serve None (start_health cfg ?q1))"
    by (rule pr_step) (rule ps_serve, simp add: h)
  moreover have "pp_opsListener ?q1" "pp_stopped ?q1 = pp_stopped p" by (simp_all add: start_ops_def)
  ultimately show thesis
    using that [OF _ _ _ _ _ _ refl] hm(2) unfolding h by (simp add: start_serve_def Let_def)
qed

lemma admin_started:
  "process_reach (start_admin None new_process)" "pp_stage (start_admin None new_process) = At_ops"
  "pp_HealthManager (start_admin None new_process) = NewHealthManager" "\<not> pp_stopped (start_admin None new_process)"
  by (intro pr_step [OF pr_new] ps_admin) (simp_all add: new_process_def start_admin_def)

theorem stop_releases_witness:
  "\<exists>p. process_reach p \<and> pp_stage p = Serving \<and> pp_opsListener p \<and> all_released (proxy_Stop p)"
proof -
  obtain p where p: "process_reach p" "pp_stage p = Serving" "pp_opsListener p" "\<not> pp_stopped p"
    using started_process [OF admin_started(1-3)] admin_started(4) by metis
  have "process_step\<^sup>*\<^sup>* (proxy_Stop p) (proxy_Stop p)" by simp
  from stop_releases [OF p(1,2,4) this] p show ?thesis by blast
qed

text \<open>A signal during the start-up: \<open>Stop\<close> finds no server to shut down, \<open>Start\<close> goes on and serves, the
  health manager included, and since \<open>stopOnce\<close> is used up no later \<open>Stop\<close> ends it.\<close>

theorem early_stop_is_lost:
  "\<exists>p. p = start_serve None (start_health cfg (start_ops None (proxy_Stop (start_admin None new_process)))) \<and>
     process_reach p \<and> pp_stage p = Serving \<and> hm_started (pp_HealthManager p) \<and> pp_publicListener p \<and>
     proxy_Stop p = p"
proof -
  let ?p = "proxy_Stop (start_admin None new_process)"
  have "process_reach ?p" by (rule pr_step [OF admin_started(1)]) (rule ps_stop)
  moreover have "pp_stage ?p = At_ops" "pp_HealthManager ?p = NewHealthManager" "pp_stopped ?p"
    by (simp_all add: start_admin_def proxy_Stop_def stop_once_def new_process_def Let_def hm_Stop_def NewHealthManager_def)
  ultimately obtain q where "process_reach q" "pp_stage q = Serving" "hm_started (pp_HealthManager q)"
      "pp_publicListener q" "pp_stopped q" "q = start_serve None (start_health cfg (start_ops None ?p))"
    using started_process [of ?p cfg] by metis
  then show ?thesis by (auto simp: proxy_Stop_def)
qed

text \<open>A second \<open>Start\<close> of a serving health manager fails and leaves the ports open that were opened
  before.\<close>

theorem failed_start_leaks:
  assumes "pp_stage p = At_health" and "hm_started (pp_HealthManager p)" and "pp_opsListener p" and "pp_adminListener p"
  shows "\<exists>e. pp_stage (start_health cfg p) = Returned (Some e) \<and> pp_opsListener (start_health cfg p) \<and>
    pp_adminListener (start_health cfg p)"
  using assms by (simp add: start_health_def hm_Start_def fail_start_def)

end
