(* ===== verification/System.thy ===== *)
theory System
  imports Endpoints AdminServer Lifecycle
begin

text \<open>
  The proxy as a whole (\<open>internal/proxy/proxy.go\<close> and what it wires together): calls of the control
  plane, requests to both ports, results of health probes and samples of the backends, in any order,
  on one state. Main facts: the routing data that requests see is what the acknowledged operations
  make of the initial one, and a restart at any moment recovers it; without credentials
  nothing that is configured changes; a removed backend gets no traffic.
\<close>

section \<open>The process\<close>

record system =
  sy_ConfigPath :: string
  sy_rt :: runtime
  sy_limits :: rate_limit_middleware
  sy_fs :: fs

text \<open>\<open>NewProxy\<close> on the path of the configuration (\<open>envPath\<close> is \<open>CONFIG_PATH\<close>), the value of
  \<open>TRUSTED_PROXY_CIDRS\<close> and the files; errors end the process. The logger, the health manager and
  the collectors that it creates are states of their own, in \<open>Logger\<close>, \<open>HealthManager\<close> and
  \<open>Lifecycle\<close>.\<close>

definition NewProxy :: "env \<Rightarrow> string \<Rightarrow> string \<Rightarrow> string \<Rightarrow> fs \<Rightarrow> go_error + system" where
  "NewProxy E configPath envPath cidrs files =
     (let path = default_config_path configPath envPath (files ''config.json'' \<noteq> None)
      in case NewRuntime E files path of
           Inl e \<Rightarrow> Inl (''Failed to load config: '' @ e)
         | Inr rt \<Rightarrow>
             (case NewClientIPResolver cidrs of
                Inl e \<Rightarrow> Inl (''Failed to configure trusted proxies: '' @ e)
              | Inr r \<Rightarrow>
                  Inr \<lparr>sy_ConfigPath = path,
                       sy_rt = rt_SetOnRateLimitUpdate True (rt_SetOnBackendHealthCheckRequired True rt),
                       sy_limits = NewRateLimitMiddleware (Some r), sy_fs = files\<rparr>))"

text \<open>What happens to a running proxy, with what its environment contributes: a call of the control
  plane, a request to the public or to the operational port, the result of a probe of some backend
  (it may be outdated), a round of the backend collector. A call delivers its callbacks before it
  replies, here without anything in between (\<open>sys_reach\<close> has the interleavings); the health checks
  that it asks for come as results of probes.\<close>

datatype proxy_event =
    Admin_Call io "metadata option" admin_call
  | Public_Request http_env endpoint_env go_time go_time request
  | Ops_Request endpoint_env request
  | Probe_Done health_check_config go_time probe_result backend_config status_ref
  | Collect_Round http_get "string \<Rightarrow> string + remote_system_metrics" "string list"

datatype proxy_reply =
    Call_Reply "rpc_status + admin_reply"
  | Http_Reply response_writer
  | No_Reply

definition sy_control :: "system \<Rightarrow> control" where
  "sy_control s = \<lparr>ct_rt = sy_rt s, ct_fs = sy_fs s, ct_events = []\<rparr>"

definition sy_world :: "system \<Rightarrow> proxy_world" where
  "sy_world s = \<lparr>pw_rt = sy_rt s, pw_limits = sy_limits s, pw_writer = new_writer []\<rparr>"

definition http_reply :: "system \<Rightarrow> proxy_world option \<Rightarrow> (proxy_reply \<times> system) option" where
  "http_reply s =
     map_option (\<lambda>w. (Http_Reply (pw_writer w), s\<lparr>sy_rt := pw_rt w, sy_limits := pw_limits w\<rparr>))"

fun proxy_event_step :: "env \<Rightarrow> string \<Rightarrow> proxy_event \<Rightarrow> system \<Rightarrow> (proxy_reply \<times> system) option" where
  "proxy_event_step E token (Admin_Call io ctx call) s =
     (let (r, c) = server_interceptor token (serve_call E io) ctx call (sy_control s)
      in Some (Call_Reply r,
               s\<lparr>sy_rt := ct_rt c, sy_limits := deliver (ct_events c) (sy_limits s), sy_fs := ct_fs c\<rparr>))"
| "proxy_event_step E token (Public_Request H X t0 now req) s =
     http_reply s (serve_public H X t0 now (rlm_clientIPs (sy_limits s)) req (sy_world s))"
| "proxy_event_step E token (Ops_Request X req) s = http_reply s (serve_ops X req (sy_world s))"
| "proxy_event_step E token (Probe_Done cfg now result b a) s =
     Some (No_Reply, s\<lparr>sy_rt := job_end cfg now result (b, a) (sy_rt s)\<rparr>)"
| "proxy_event_step E token (Collect_Round get dec urls) s =
     Some (No_Reply, s\<lparr>sy_rt := (sy_rt s)\<lparr>rt_Metrics := collectAll get dec urls (rt_Metrics (sy_rt s))\<rparr>\<rparr>)"

fun proxy_run :: "env \<Rightarrow> string \<Rightarrow> proxy_event list \<Rightarrow> system \<Rightarrow> (proxy_reply list \<times> system) option" where
  "proxy_run E token [] s = Some ([], s)"
| "proxy_run E token (e # es) s =
     (case proxy_event_step E token e s of
        None \<Rightarrow> None
      | Some (r, s') \<Rightarrow>
          (case proxy_run E token es s' of
             None \<Rightarrow> None
           | Some (rs, s'') \<Rightarrow> Some (r # rs, s'')))"

text \<open>The operations that the control plane has acknowledged.\<close>

definition acknowledged :: "proxy_event \<times> proxy_reply \<Rightarrow> rt_op list" where
  "acknowledged er =
     (case er of
        (Admin_Call io ctx call, Call_Reply (Inr (R_Basic resp))) \<Rightarrow>
          if brs_Success resp then (case call_op call of None \<Rightarrow> [] | Some op \<Rightarrow> [op]) else []
      | _ \<Rightarrow> [])"

definition acknowledged_ops :: "proxy_event list \<Rightarrow> proxy_reply list \<Rightarrow> rt_op list" where
  "acknowledged_ops es rs = concat (map acknowledged (zip es rs))"

section \<open>One event\<close>

lemma collect_domain: "dom (mt_Backends (collectAll get dec urls m)) = dom (mt_Backends m)"
proof (induction urls arbitrary: m)
  case (Cons u us)
  then show ?case by (simp add: collectAll_def split: sum.splits)
qed (simp add: collectAll_def)


lemma public_total: "\<exists>w. serve_public H X t0 now r req s = Some w"
proof (cases "proxied req")
  case True
  obtain ok s1 where "ratelimit_gate t0 now (resolved_request r req) s = (ok, s1)" by fastforce
  moreover obtain rt' w' where "ProxyHandler H (pw_rt s1) (resolved_request r req) (pw_writer s1) = Some (rt', w')"
    by (rule handler_total)
  ultimately show ?thesis
    using True by (cases ok) (auto simp: serve_public_eq public_root_eq ratelimit_Middleware_def proxy_handler_def)
qed (simp add: serve_public_eq)

text \<open>The configuration of a system: what requests are routed by, and its file.\<close>

definition same_config :: "system \<Rightarrow> system \<Rightarrow> bool" where
  "same_config s s' \<longleftrightarrow>
     State (sy_rt s') = State (sy_rt s) \<and> sy_fs s' (sy_ConfigPath s) = sy_fs s (sy_ConfigPath s)"

definition sys_ok :: "env \<Rightarrow> system \<Rightarrow> bool" where
  "sys_ok E s \<longleftrightarrow> sys_reach False True (\<lambda>_. True) E (sy_ConfigPath s) (sy_rt s) (sy_limits s) [] (sy_fs s)"

lemma sys_ok_rt: "sys_ok E s \<Longrightarrow> rt_reach E (sy_ConfigPath s) (sy_rt s) (sy_fs s)"
  unfolding sys_ok_def by (rule sys_reach_rt)

lemma NewProxy_ok:
  assumes "NewProxy E configPath envPath cidrs files = Inr s"
  shows "sys_ok E s"
  using assms by (auto simp: NewProxy_def sys_ok_def Let_def split: sum.splits intro: sys_new)

text \<open>A call of the control plane.\<close>

lemma basic_reply:
  assumes "server_interceptor token (serve_call E io) ctx call c = (Inr (R_Basic resp), c')" and "brs_Success resp"
  shows "\<exists>msg. resp = success msg"
proof -
  have s: "serve_call E io call c = (Inr (R_Basic resp), c')"
    using assms(1) by (simp add: server_interceptor_def split: if_splits)
  then show ?thesis
  proof (cases rule: serve_call_cases)
    case kept
    then show ?thesis using s reads_no_success [of call E io c resp] assms(2) by (auto simp: fail_def)
  qed (use assms(2) in \<open>auto simp: fail_def\<close>)
qed

lemma call_reach:
  assumes "sys_reach expiry overlap (\<lambda>_. True) E path (ct_rt c) m [] (ct_fs c)" and "ct_events c = []"
    and "server_interceptor token (serve_call E io) ctx call c = (r, c')"
  shows "sys_reach expiry overlap (\<lambda>_. True) E path (ct_rt c') (deliver (ct_events c') m) [] (ct_fs c')"
proof (cases "validGRPCCredentials ctx token")
  case True
  then have s: "serve_call E io call c = (r, c')" using assms(3) by (simp add: server_interceptor_def)
  then show ?thesis
  proof (cases rule: serve_call_cases)
    case (ok op okmsg rt fs evs)
    from sys_op_delivered [OF assms(1) ok(2)] show ?thesis using ok(4) assms(2) by simp
  next
    case (failed op e rt fs evs)
    from sys_op_delivered [OF assms(1) failed(2)] show ?thesis using failed(4) assms(2) by simp
  qed (use assms in simp)
qed (use assms in \<open>auto simp: server_interceptor_def\<close>)

lemma call_step:
  assumes "sys_ok E s" and "json_roundtrip E"
    and "proxy_event_step E token (Admin_Call io ctx call) s = Some (r, s')"
  shows "sys_ok E s' \<and> sy_ConfigPath s' = sy_ConfigPath s \<and>
    (if acknowledged (Admin_Call io ctx call, r) = [] then same_config s s'
     else validGRPCCredentials ctx token \<and>
       (\<exists>op evs. acknowledged (Admin_Call io ctx call, r) = [op] \<and>
          rt_exec E io op (sy_rt s) (sy_fs s) = (None, sy_rt s', sy_fs s', evs)))"
proof -
  obtain x c where c: "server_interceptor token (serve_call E io) ctx call (sy_control s) = (x, c)" by fastforce
  have s': "r = Call_Reply x" "s' = s\<lparr>sy_rt := ct_rt c, sy_limits := deliver (ct_events c) (sy_limits s), sy_fs := ct_fs c\<rparr>"
    using assms(3) c by auto
  have reach: "rt_reach E (sy_ConfigPath s) (ct_rt (sy_control s)) (ct_fs (sy_control s))"
    using sys_ok_rt [OF assms(1)] by (simp add: sy_control_def)
  note eff = call_effect [OF reach assms(2) c]
  have sel: "ct_rt (sy_control s) = sy_rt s" "ct_fs (sy_control s) = sy_fs s" "ct_events (sy_control s) = []"
    by (simp_all add: sy_control_def)
  have kept: "acknowledged (Admin_Call io ctx call, r) = [] \<and> same_config s s'" if "\<nexists>msg. x = Inr (R_Basic (success msg))"
  proof -
    from that eff have "ct_rt c = sy_rt s" "ct_fs c (sy_ConfigPath s) = sy_fs s (sy_ConfigPath s)" by (simp_all add: sel)
    then have "same_config s s'" by (simp add: same_config_def s'(2))
    moreover have "acknowledged (Admin_Call io ctx call, r) = []"
    proof (rule ccontr)
      assume "acknowledged (Admin_Call io ctx call, r) \<noteq> []"
      then obtain resp where resp: "x = Inr (R_Basic resp)" "brs_Success resp"
        by (auto simp: acknowledged_def s'(1) split: sum.splits admin_reply.splits if_splits)
      from basic_reply [OF c [unfolded resp(1)] resp(2)] that resp(1) show False by blast
    qed
    ultimately show ?thesis by blast
  qed
  have ok: "sys_ok E s'"
    using call_reach [OF _ sel(3) c] assms(1) by (simp add: sys_ok_def sel s'(2))
  show ?thesis
  proof (cases "\<exists>msg. x = Inr (R_Basic (success msg))")
    case True
    then obtain msg where msg: "x = Inr (R_Basic (success msg))" by blast
    from eff [THEN conjunct2, unfolded if_P [OF True] sel] obtain op evs where
      "validGRPCCredentials ctx token" "call_op call = Some op"
      "rt_exec E io op (sy_rt s) (sy_fs s) = (None, ct_rt c, ct_fs c, evs)" by blast
    with ok msg show ?thesis by (auto simp: acknowledged_def s' success_def)
  qed (use kept ok in \<open>simp add: s'(2)\<close>)
qed

lemma http_world:
  assumes "http_reply s w = Some (r, s')"
  obtains w' where "w = Some w'" "s' = s\<lparr>sy_rt := pw_rt w', sy_limits := pw_limits w'\<rparr>" "r = Http_Reply (pw_writer w')"
  using assms by (auto simp: http_reply_def)

lemma public_reach:
  assumes "sys_ok E s" and "serve_public H X t0 now (rlm_clientIPs (sy_limits s)) req (sy_world s) = Some w"
  shows "sys_reach False True (\<lambda>_. True) E (sy_ConfigPath s) (pw_rt w) (pw_limits w) [] (sy_fs s) \<and>
    State (pw_rt w) = State (sy_rt s)"
proof (cases "proxied req")
  case True
  with assms(2) have p: "public_root H t0 now (rlm_clientIPs (sy_limits s)) req
      \<lparr>pw_rt = sy_rt s, pw_limits = sy_limits s, pw_writer = new_writer []\<rparr> = Some w"
    by (simp add: serve_public_eq sy_world_def)
  from sys_request [OF assms(1) [unfolded sys_ok_def] p] request_state [OF p] show ?thesis
    by (simp add: State_def)
next
  case False
  with assms show ?thesis by (auto simp: serve_public_eq sy_world_def on_writer_def sys_ok_def)
qed

text \<open>Everything else leaves the configuration alone.\<close>

lemma other_step:
  assumes "sys_ok E s" and "proxy_event_step E token e s = Some (r, s')"
    and "\<nexists>io ctx call. e = Admin_Call io ctx call"
  shows "sys_ok E s' \<and> sy_ConfigPath s' = sy_ConfigPath s \<and> same_config s s' \<and> acknowledged (e, r) = []"
proof (cases e)
  case (Public_Request H X t0 now req)
  with assms(2) have h: "http_reply s (serve_public H X t0 now (rlm_clientIPs (sy_limits s)) req (sy_world s)) = Some (r, s')"
    by simp
  from h obtain w where "serve_public H X t0 now (rlm_clientIPs (sy_limits s)) req (sy_world s) = Some w"
    "s' = s\<lparr>sy_rt := pw_rt w, sy_limits := pw_limits w\<rparr>" by (rule http_world)
  with public_reach [OF assms(1) this(1)] Public_Request show ?thesis
    by (simp add: sys_ok_def same_config_def acknowledged_def)
next
  case (Ops_Request X req)
  obtain w where "serve_ops X req (sy_world s) = Some ((sy_world s)\<lparr>pw_writer := w\<rparr>)" using ops_port_reads by blast
  with assms(1,2) Ops_Request show ?thesis
    by (auto simp: http_reply_def sy_world_def sys_ok_def same_config_def acknowledged_def)
next
  case (Probe_Done cfg now result b a)
  have dom: "dom (mt_Backends (RecordHealthCheck u h m)) = dom (mt_Backends m)" for u h m
    by (simp add: RecordHealthCheck_def)
  have s': "s' = s\<lparr>sy_rt := job_end cfg now result (b, a) (sy_rt s)\<rparr>" "r = No_Reply"
    using assms(2) Probe_Done by simp_all
  have "sys_reach False True (\<lambda>_. True) E (sy_ConfigPath s) (job_end cfg now result (b, a) (sy_rt s)) (sy_limits s) [] (sy_fs s)"
    using sys_probe [OF sys_metrics [OF assms(1) [unfolded sys_ok_def] dom]] by (simp add: job_end_def)
  then show ?thesis
    by (simp add: s' Probe_Done sys_ok_def same_config_def acknowledged_def State_def job_end_def)
next
  case (Collect_Round get dec urls)
  with sys_metrics [OF assms(1) [unfolded sys_ok_def] collect_domain] assms(2) show ?thesis
    by (auto simp: sys_ok_def same_config_def acknowledged_def State_def)
qed (use assms(3) in blast)

lemma step_total: "\<exists>r s'. proxy_event_step E token e s = Some (r, s')"
proof (cases e)
  case (Public_Request H X t0 now req)
  then show ?thesis
    using public_total [of H X t0 now "rlm_clientIPs (sy_limits s)" req "sy_world s"] by (auto simp: http_reply_def)
next
  case (Ops_Request X req)
  then show ?thesis using ops_port_reads [of X req "sy_world s"] by (auto simp: http_reply_def)
qed (auto split: prod.splits)

lemma event_step:
  assumes "sys_ok E s" and "json_roundtrip E"
  obtains r s' where "proxy_event_step E token e s = Some (r, s')" "sys_ok E s'" "sy_ConfigPath s' = sy_ConfigPath s"
    "snapshot_view (rs_Snapshot (State (sy_rt s'))) =
     fold (view_step \<circ> svc_of) (acknowledged (e, r)) (snapshot_view (rs_Snapshot (State (sy_rt s))))"
    "acknowledged (e, r) = [] \<Longrightarrow> same_config s s'"
    "acknowledged (e, r) \<noteq> [] \<Longrightarrow> \<exists>io ctx call. e = Admin_Call io ctx call \<and> validGRPCCredentials ctx token"
proof -
  obtain r s' where st: "proxy_event_step E token e s = Some (r, s')" using step_total by blast
  show thesis
  proof (cases "\<exists>io ctx call. e = Admin_Call io ctx call")
    case True
    then obtain io ctx call where e: "e = Admin_Call io ctx call" by blast
    note c = call_step [OF assms st [unfolded e], folded e]
    show thesis
    proof (cases "acknowledged (e, r) = []")
      case True
      with c show thesis using st by (intro that [OF st]) (auto simp: same_config_def)
    next
      case False
      with c obtain op evs where op: "acknowledged (e, r) = [op]"
        "rt_exec E io op (sy_rt s) (sy_fs s) = (None, sy_rt s', sy_fs s', evs)" by auto
      from rt_exec_view [OF rt_reach_inv [OF sys_ok_rt [OF assms(1)] assms(2)] assms(2) op(2)] c False op(1) e
      show thesis by (intro that [OF st]) auto
    qed
  next
    case False
    from other_step [OF assms(1) st] False show thesis
      using st by (intro that [OF st]) (auto simp: same_config_def)
  qed
qed

section \<open>Runs\<close>

lemma acknowledged_ops_simps [simp]:
  "acknowledged_ops [] rs = []"
  "acknowledged_ops (e # es) (r # rs) = acknowledged (e, r) @ acknowledged_ops es rs"
  by (simp_all add: acknowledged_ops_def)

lemma run_facts:
  assumes "sys_ok E s" and "json_roundtrip E"
  obtains rs s' where "proxy_run E token es s = Some (rs, s')" "length rs = length es"
    "sys_ok E s'" "sy_ConfigPath s' = sy_ConfigPath s"
    "snapshot_view (rs_Snapshot (State (sy_rt s'))) =
     fold (view_step \<circ> svc_of) (acknowledged_ops es rs) (snapshot_view (rs_Snapshot (State (sy_rt s))))"
    "acknowledged_ops es rs = [] \<Longrightarrow> same_config s s'"
    "acknowledged_ops es rs \<noteq> [] \<Longrightarrow>
       \<exists>io ctx call. Admin_Call io ctx call \<in> set es \<and> validGRPCCredentials ctx token"
  using assms(1)
proof (induction es arbitrary: s thesis)
  case Nil
  then show ?case by (auto simp: same_config_def)
next
  case (Cons e es)
  obtain r s1 where e: "proxy_event_step E token e s = Some (r, s1)" "sys_ok E s1" "sy_ConfigPath s1 = sy_ConfigPath s"
    "snapshot_view (rs_Snapshot (State (sy_rt s1))) =
     fold (view_step \<circ> svc_of) (acknowledged (e, r)) (snapshot_view (rs_Snapshot (State (sy_rt s))))"
    "acknowledged (e, r) = [] \<Longrightarrow> same_config s s1"
    "acknowledged (e, r) \<noteq> [] \<Longrightarrow> \<exists>io ctx call. e = Admin_Call io ctx call \<and> validGRPCCredentials ctx token"
    using event_step [OF Cons.prems(2) assms(2)] by metis
  obtain rs s' where es: "proxy_run E token es s1 = Some (rs, s')" "length rs = length es"
    "sys_ok E s'" "sy_ConfigPath s' = sy_ConfigPath s1"
    "snapshot_view (rs_Snapshot (State (sy_rt s'))) =
     fold (view_step \<circ> svc_of) (acknowledged_ops es rs) (snapshot_view (rs_Snapshot (State (sy_rt s1))))"
    "acknowledged_ops es rs = [] \<Longrightarrow> same_config s1 s'"
    "acknowledged_ops es rs \<noteq> [] \<Longrightarrow>
       \<exists>io ctx call. Admin_Call io ctx call \<in> set es \<and> validGRPCCredentials ctx token"
    using that by (rule Cons.IH [OF _ e(2)])
  show ?case
  proof (rule Cons.prems(1))
    show "proxy_run E token (e # es) s = Some (r # rs, s')" using e(1) es(1) by simp
    show "acknowledged_ops (e # es) (r # rs) \<noteq> [] \<Longrightarrow>
        \<exists>io ctx call. Admin_Call io ctx call \<in> set (e # es) \<and> validGRPCCredentials ctx token"
      using e(6) es(7) by (cases "acknowledged (e, r) = []") auto
    show "acknowledged_ops (e # es) (r # rs) = [] \<Longrightarrow> same_config s s'"
      using e(3,5) es(6) by (simp add: same_config_def)
  qed (simp_all add: e es comp_def)
qed

section \<open>Properties\<close>

lemma default_path: "default_config_path p envPath present \<noteq> ''''"
  "p \<noteq> '''' \<Longrightarrow> default_config_path p envPath present = p"
  by (simp_all add: default_config_path_def Let_def)

lemma NewProxy_parts:
  assumes "NewProxy E configPath envPath cidrs files = Inr s"
  obtains rt r where "NewRuntime E files (sy_ConfigPath s) = Inr rt" "NewClientIPResolver cidrs = Inr r"
    "State (sy_rt s) = State rt" "sy_ConfigPath s \<noteq> ''''" "sy_fs s = files"
  using assms default_path(1)
  by (auto simp: NewProxy_def Let_def State_def rt_SetOnRateLimitUpdate_def rt_SetOnBackendHealthCheckRequired_def
      split: sum.splits)

lemma restart:
  assumes "rt_inv E path rt files" and "path \<noteq> ''''" and "NewClientIPResolver cidrs = Inr r"
  shows "\<exists>s. NewProxy E path envPath cidrs files = Inr s \<and>
    rs_Snapshot (State (sy_rt s)) = rs_Snapshot (State rt) \<and> sy_ConfigPath s = path"
proof -
  have svc: "NewService E files path = Inr (rt_Config rt)"
    by (rule inv_restart [OF ri_svc [OF assms(1)] assms(2)])
  then have "\<exists>rt'. NewRuntime E files path = Inr rt'"
    by (simp add: NewRuntime_def Let_def split: prod.splits)
  then obtain rt' where rt': "NewRuntime E files path = Inr rt'" by blast
  have "rt_Config rt' = rt_Config rt" using NewRuntime_Config [OF rt'] svc by simp
  then have "rs_Snapshot (State rt') = rs_Snapshot (State rt)"
    using ri_snapshot [OF rt_inv_new [OF rt']] ri_snapshot [OF assms(1)] by (simp add: State_def)
  then show ?thesis
    using rt' assms(2,3)
    by (simp add: NewProxy_def default_path(2) State_def rt_SetOnRateLimitUpdate_def rt_SetOnBackendHealthCheckRequired_def)
qed

text \<open>C1: the proxy refines its specification. Whatever calls, requests to both ports, probe results
  and samples come, in any order and with any outcome of the system calls, the network and the
  clients: everything is answered; what requests are routed by (backends, policies and virtual
  hosts by key, and the strategy) is what the operations that the control plane acknowledged make
  of the initial routing data, one after the other, as their specification \<open>view_step\<close> says; and a
  proxy that is restarted on the files as they are at that moment routes by the same snapshot.\<close>

theorem proxy_refines_view:
  assumes "NewProxy E configPath envPath cidrs files = Inr s0" and "json_roundtrip E"
  shows "\<exists>rs s s1. proxy_run E token es s0 = Some (rs, s) \<and> length rs = length es \<and>
    snapshot_view (rs_Snapshot (State (sy_rt s))) =
      fold (view_step \<circ> svc_of) (acknowledged_ops es rs) (snapshot_view (rs_Snapshot (State (sy_rt s0)))) \<and>
    NewProxy E (sy_ConfigPath s0) envPath cidrs (sy_fs s) = Inr s1 \<and>
    rs_Snapshot (State (sy_rt s1)) = rs_Snapshot (State (sy_rt s))"
proof -
  obtain rs s where run: "proxy_run E token es s0 = Some (rs, s)" "length rs = length es"
    "sys_ok E s" "sy_ConfigPath s = sy_ConfigPath s0"
    "snapshot_view (rs_Snapshot (State (sy_rt s))) =
     fold (view_step \<circ> svc_of) (acknowledged_ops es rs) (snapshot_view (rs_Snapshot (State (sy_rt s0))))"
    by (rule run_facts [OF NewProxy_ok [OF assms(1)] assms(2)])
  obtain r where "NewClientIPResolver cidrs = Inr r" "sy_ConfigPath s0 \<noteq> ''''"
    using NewProxy_parts [OF assms(1)] by metis
  from restart [OF rt_reach_inv [OF sys_ok_rt [OF run(3)] assms(2)] _ this(1)] this(2) run(1,2,4,5)
  show ?thesis by metis
qed

lemma refused_run:
  assumes "sys_ok E s" and "json_roundtrip E" and "proxy_run E token es s = Some (rs, s')"
    and "\<forall>io ctx call. Admin_Call io ctx call \<in> set es \<longrightarrow> \<not> validGRPCCredentials ctx token"
  shows "State (sy_rt s') = State (sy_rt s) \<and> sy_fs s' = sy_fs s \<and>
    (\<forall>io ctx call r. (Admin_Call io ctx call, r) \<in> set (zip es rs) \<longrightarrow>
       r = Call_Reply (Inl \<lparr>st_code = Unauthenticated, st_msg = ''invalid admin credentials''\<rparr>))"
  using assms(1,3,4)
proof (induction es arbitrary: s rs)
  case (Cons e es)
  obtain r s1 where e: "proxy_event_step E token e s = Some (r, s1)" "sys_ok E s1"
    "acknowledged (e, r) = [] \<Longrightarrow> same_config s s1"
    "acknowledged (e, r) \<noteq> [] \<Longrightarrow> \<exists>io ctx call. e = Admin_Call io ctx call \<and> validGRPCCredentials ctx token"
    using event_step [OF Cons.prems(1) assms(2)] by metis
  have "State (sy_rt s1) = State (sy_rt s)" using e(3,4) Cons.prems(3) by (auto simp: same_config_def)
  moreover have fs: "sy_fs s1 = sy_fs s \<and> (\<forall>io ctx call. e = Admin_Call io ctx call \<longrightarrow>
      r = Call_Reply (Inl \<lparr>st_code = Unauthenticated, st_msg = ''invalid admin credentials''\<rparr>))"
    using e(1) Cons.prems(3)
    by (cases e) (auto simp: server_interceptor_def sy_control_def http_reply_def)
  moreover obtain rs1 where "proxy_run E token es s1 = Some (rs1, s')" "rs = r # rs1"
    using Cons.prems(2) e(1) by (auto split: option.splits)
  ultimately show ?case using Cons.IH [OF e(2), of rs1] Cons.prems(3) by auto
qed simp

text \<open>C5: the configuration is safe from the outside. In a run in which no call of the control plane
  has valid credentials, whatever the requests and the network do, the published state (routing
  data, transport, balancer and the identity of the statuses) and every file stay exactly as they
  are, and each of those calls is refused.\<close>

theorem configuration_integrity:
  assumes "NewProxy E configPath envPath cidrs files = Inr s0" and "json_roundtrip E"
    and "\<forall>io ctx call. Admin_Call io ctx call \<in> set es \<longrightarrow> \<not> validGRPCCredentials ctx token"
  shows "\<exists>rs s. proxy_run E token es s0 = Some (rs, s) \<and> State (sy_rt s) = State (sy_rt s0) \<and> sy_fs s = files \<and>
    (\<forall>io ctx call r. (Admin_Call io ctx call, r) \<in> set (zip es rs) \<longrightarrow>
       r = Call_Reply (Inl \<lparr>st_code = Unauthenticated, st_msg = ''invalid admin credentials''\<rparr>))"
proof -
  note ok = NewProxy_ok [OF assms(1)]
  obtain rs s where run: "proxy_run E token es s0 = Some (rs, s)" using run_facts [OF ok assms(2)] by metis
  have "sy_fs s0 = files" using NewProxy_parts [OF assms(1)] by metis
  with refused_run [OF ok assms(2) run assms(3)] run show ?thesis by blast
qed

section \<open>Removed backends\<close>

lemma fold_no_backend:
  assumes "rv_backends w i = None" and "\<forall>b. RT_AddBackend b \<in> set ops \<longrightarrow> bc_Id b \<noteq> i"
  shows "rv_backends (fold (view_step \<circ> svc_of) ops w) i = None"
  using assms
proof (induction ops arbitrary: w)
  case (Cons op ops)
  have "rv_backends (view_step (svc_of op) w) i = None"
    using Cons.prems by (cases op) (auto split: if_splits)
  with Cons show ?case by simp
qed simp

lemma acknowledged_ops_append:
  "length es = length rs \<Longrightarrow>
   acknowledged_ops (es @ es') (rs @ rs') = acknowledged_ops es rs @ acknowledged_ops es' rs'"
  by (simp add: acknowledged_ops_def)

lemma acknowledged_removal:
  "acknowledged (Admin_Call io ctx (C_RemoveBackend i), r) \<noteq> [] \<Longrightarrow>
   acknowledged (Admin_Call io ctx (C_RemoveBackend i), r) = [RT_RemoveBackend i]"
  by (auto simp: acknowledged_def split: proxy_reply.splits sum.splits admin_reply.splits if_splits)

lemma unconfigured_unused:
  assumes "rt_inv E path rt fs" and "rv_backends (snapshot_view (rs_Snapshot (State rt))) i = None"
    and "b \<in> set (active_backends (rt_store rt) (State rt) targets)"
  shows "bc_Id b \<noteq> i"
proof -
  obtain j where j: "sn_BackendsById (rs_Snapshot (State rt)) j = Some b"
    using assms(3) by (auto simp: in_active_backends)
  moreover have "rs_Snapshot (State rt) = build_snapshot (svc_current (rt_Config rt))"
    using assms(1) by (simp add: State_def ri_snapshot svc_invD [OF ri_svc])
  ultimately have "bc_Id b = j" using snapshot_backend_Some by metis
  with j assms(2) show ?thesis by (auto simp: snapshot_view_def)
qed

text \<open>C4: a removed backend gets no traffic. Once its removal has been acknowledged, and until a
  backend with its id is added again, no request is sent to a backend of that id, whatever calls,
  requests, probe results and samples come in between (also outdated results that find it healthy),
  and it is not probed any more.\<close>

theorem removed_backend_no_traffic:
  assumes "NewProxy E configPath envPath cidrs files = Inr s0" and "json_roundtrip E"
    and "proxy_run E token (es @ Admin_Call io ctx (C_RemoveBackend i) # es') s0 = Some (rs @ r # rs', s)"
    and "length rs = length es" and "acknowledged (Admin_Call io ctx (C_RemoveBackend i), r) \<noteq> []"
    and "\<forall>b. RT_AddBackend b \<in> set (acknowledged_ops es' rs') \<longrightarrow> bc_Id b \<noteq> i"
    and "executeProxyRequest H (State (sy_rt s)) req pr host rid
           (active_backends (rt_store (sy_rt s)) (State (sy_rt s)) targets) rt = (rt', resp, backend, err, tried)"
  shows "i \<notin> bc_Id ` set tried \<and> job_begin cfg (sy_rt s) i = None"
proof -
  let ?es = "es @ Admin_Call io ctx (C_RemoveBackend i) # es'" and ?rs = "rs @ r # rs'"
  let ?w = "snapshot_view (rs_Snapshot (State (sy_rt s)))"
  obtain rs1 s1 where "proxy_run E token ?es s0 = Some (rs1, s1)" "sys_ok E s1"
    "snapshot_view (rs_Snapshot (State (sy_rt s1))) =
     fold (view_step \<circ> svc_of) (acknowledged_ops ?es rs1) (snapshot_view (rs_Snapshot (State (sy_rt s0))))"
    by (rule run_facts [OF NewProxy_ok [OF assms(1)] assms(2)])
  with assms(3) have ok: "sys_ok E s" and view: "?w =
     fold (view_step \<circ> svc_of) (acknowledged_ops ?es ?rs) (snapshot_view (rs_Snapshot (State (sy_rt s0))))"
    by simp_all
  have "acknowledged_ops ?es ?rs = acknowledged_ops es rs @ RT_RemoveBackend i # acknowledged_ops es' rs'"
    using assms(4) acknowledged_removal [OF assms(5)] by (simp add: acknowledged_ops_append)
  then have none: "rv_backends ?w i = None"
    unfolding view by (simp add: fold_no_backend [OF _ assms(6)])
  have "set tried \<subseteq> set (active_backends (rt_store (sy_rt s)) (State (sy_rt s)) targets)"
    using execute_attempts_ok [of req "active_backends (rt_store (sy_rt s)) (State (sy_rt s)) targets"
        H "State (sy_rt s)" pr host rid rt] assms(7) by (simp add: attempts_ok_def)
  moreover have "rt_GetBackend (sy_rt s) i = None"
    using none rt_view [OF rt_reach_inv [OF sys_ok_rt [OF ok] assms(2)]]
    by (simp add: rt_GetBackend_def svc_GetBackend_view)
  ultimately show ?thesis
    using unconfigured_unused [OF rt_reach_inv [OF sys_ok_rt [OF ok] assms(2)] none]
    by (auto simp: job_begin_def)
qed

section \<open>A run\<close>

text \<open>A proxy on the sample configuration, whose operator removes the first backend.\<close>

definition sample_system :: system where
  "sample_system =
     \<lparr>sy_ConfigPath = sample_path,
      sy_rt = rt_SetOnRateLimitUpdate True (rt_SetOnBackendHealthCheckRequired True sample_runtime),
      sy_limits = NewRateLimitMiddleware (Some \<lparr>cr_trustedProxies = []\<rparr>), sy_fs = sample_fs\<rparr>"

lemma no_proxies: "NewClientIPResolver '''' = Inr \<lparr>cr_trustedProxies = []\<rparr>"
proof -
  have "trim_space '''' = ''''" by code_simp
  then show ?thesis by (simp add: NewClientIPResolver_def)
qed

lemma sample_system_new: "NewProxy sample_env '''' '''' '''' sample_fs = Inr sample_system"
  using sample_runtime_new no_proxies
  by (simp add: NewProxy_def sample_system_def default_config_path_def sample_fs_def sample_path_def Let_def)

definition sample_call :: "string \<Rightarrow> admin_call \<Rightarrow> proxy_event" where
  "sample_call token call = Admin_Call io_ok (client_context token None) call"

definition sample_get :: proxy_event where
  "sample_get = Public_Request dead_env sample_endpoints 0 0 get_request"

theorem proxy_refines_view_witness:
  "\<exists>rs s s1. proxy_run sample_env ''secret'' [sample_get, sample_call ''secret'' (C_RemoveBackend ''backend-1'')]
      sample_system = Some (rs, s) \<and> length rs = 2 \<and>
    NewProxy sample_env sample_path '''' '''' (sy_fs s) = Inr s1 \<and>
    rs_Snapshot (State (sy_rt s1)) = rs_Snapshot (State (sy_rt s))"
proof -
  have "sy_ConfigPath sample_system = sample_path" by (simp add: sample_system_def)
  with proxy_refines_view [OF sample_system_new sample_env_simps(1), of "''secret''"
      "[sample_get, sample_call ''secret'' (C_RemoveBackend ''backend-1'')]"]
  show ?thesis by auto
qed

lemma not_bearer: "\<not> validGRPCCredentials None ''secret''"
  by (simp add: validGRPCCredentials_def)

theorem configuration_integrity_witness:
  "\<exists>rs s. proxy_run sample_env ''secret'' [sample_get, Admin_Call io_ok None (C_RemoveBackend ''backend-1'')]
      sample_system = Some (rs, s) \<and> State (sy_rt s) = State (sy_rt sample_system) \<and> sy_fs s = sample_fs"
  using configuration_integrity [OF sample_system_new sample_env_simps(1), of
      "[sample_get, Admin_Call io_ok None (C_RemoveBackend ''backend-1'')]" "''secret''"] not_bearer
  by (auto simp: sample_get_def)

theorem removed_backend_no_traffic_witness:
  "\<exists>r s. proxy_run sample_env ''secret'' [sample_call ''secret'' (C_RemoveBackend ''backend-1'')] sample_system = Some ([r], s) \<and>
     job_begin sample_health_check (sy_rt s) ''backend-1'' = None"
proof -
  let ?e = "Admin_Call io_ok (client_context ''secret'' None) (C_RemoveBackend ''backend-1'')"
  obtain r s where run: "proxy_run sample_env ''secret'' [?e] sample_system = Some ([r], s)"
    and r: "r = Call_Reply (Inr (R_Basic (success ''Backend removed successfully'')))"
    using secret_valid sample_remove_exec
    by (simp add: server_interceptor_def sy_control_def sample_system_def ag_RemoveBackend_def run_update_def
        changed_def rt_RemoveBackend_def plain_update_def applyUpdate_def rt_SetOnRateLimitUpdate_def
        rt_SetOnBackendHealthCheckRequired_def)
  obtain rt' resp backend err tried where ex: "executeProxyRequest dead_env (State (sy_rt s)) get_request None
      ''h'' ''id'' (active_backends (rt_store (sy_rt s)) (State (sy_rt s)) [''backend-1'']) (sy_rt s) =
      (rt', resp, backend, err, tried)"
    by (metis prod_cases5)
  have ack: "acknowledged (?e, r) \<noteq> []" by (simp add: acknowledged_def r success_def)
  from removed_backend_no_traffic [where es = "[]" and rs = "[]" and es' = "[]" and rs' = "[]",
      OF sample_system_new sample_env_simps(1) _ _ ack _ ex, of "''secret''" sample_health_check] run
  show ?thesis by (simp add: sample_call_def)
qed

end
