(* ===== verification/Spec2Isabelle.thy ===== *)
theory Spec2Isabelle
  imports LoadBalance AdminProps LoggerProps System
begin

text \<open>
  A verification library of edge-proxy, an HTTP reverse proxy in Go: a model of the packages under
  \<open>src/internal\<close> (and of the wiring of \<open>src/cmd/admin-api\<close>) as executable definitions that follow the
  code function by function, with the theorems that make each part, and the whole, correct.

  \<^bold>\<open>The program.\<close> Requests reach the public port, where they pass the client address resolver, the
  rate limiter and the proxy handler, which picks a virtual host, a route and a backend, sends the
  request on, possibly twice, and relays the answer. The handler reads one immutable state that the
  runtime publishes; the runtime owns the statuses of the backends, the metrics and the
  configuration service, which validates every change, saves it and only then makes it current.
  A gRPC control plane calls the runtime; a separate admin process offers it as an HTTP API. A
  health manager probes the backends with a worker pool and writes their statuses; collectors
  sample processor and memory use; an operational port reports health and metrics; a logger
  writes through a queue and a goroutine.

  \<^bold>\<open>The theories\<close>, in the order in which they build on each other.

  \<^item> Foundations. \<open>Prelude\<close> (Go's integers as words, errors as results, guard sequences, keyed lists),
    \<open>GoStrings\<close> (functions of \<open>strings\<close> over bytes), \<open>Float64\<close> and \<open>FloatError\<close> (binary64 with
    rounding to nearest even, and its error), \<open>HttpTypes\<close>, \<open>HttpMux\<close> (\<open>net/http\<close>'s headers, requests,
    writers, \<open>ServeMux\<close>), \<open>NetIP\<close> (\<open>net\<close> and \<open>net/netip\<close> addresses).
  \<^item> Configuration, \<open>internal/config\<close>: \<open>ConfigTypes\<close> (\<open>types.go\<close>), \<open>ConfigDefaults\<close> (\<open>defaults.go\<close>),
    \<open>ConfigValidator\<close> (\<open>validator.go\<close>, against the declarative \<open>valid_config\<close>), \<open>ConfigSnapshot\<close>
    (\<open>snapshot.go\<close>), \<open>ConfigStore\<close> (\<open>store.go\<close>, \<open>clone.go\<close>: load, atomic save with a crash at any point),
    \<open>ConfigService\<close> (\<open>service.go\<close>: its ten edits share the locale \<open>section_edit\<close>), \<open>ConfigRefine\<close> (its
    specification \<open>view_step\<close> over finite maps, restart, atomicity), \<open>ConfigSample\<close> (a concrete
    configuration for the witnesses).
  \<^item> Runtime, \<open>internal/proxy/runtime\<close>: \<open>BackendStatus\<close> (health verdicts), \<open>CasLoop\<close> and \<open>Metrics\<close>
    (\<open>internal/metrics\<close>: counters, averages, compare-and-swap loops), \<open>RuntimeState\<close> (status store
    with shared references, registry, \<open>publish\<close>, every operation as \<open>rt_exec\<close>), \<open>RuntimeProps\<close> (the
    reachable runtimes \<open>rt_reach\<close> and their invariant).
  \<^item> Requests: \<open>LoadBalance\<close> (\<open>internal/lb\<close>; both balancers interpret the locale \<open>balancer_contract\<close>,
    from which the handler's lemmas follow), \<open>HeaderFilter\<close>, \<open>Routing\<close>, \<open>ProxyHandler\<close>, \<open>ProxyProps\<close>
    (\<open>internal/proxy/handler/headers.go\<close>, \<open>proxy.go\<close>).
  \<^item> Admission: \<open>ClientIP\<close> (\<open>internal/middleware/clientip.go\<close>), \<open>RateLimit\<close> (\<open>internal/ratelimit\<close>),
    \<open>RateLimitMiddleware\<close> (\<open>internal/middleware/ratelimit.go\<close> and \<open>sys_reach\<close>, the runs of requests,
    cleanup ticks, operations and their callbacks, which come later and one by one).
  \<^item> Health, \<open>internal/health\<close>: \<open>WorkerPool\<close> (\<open>worker.go\<close>, a step relation; locale \<open>probe_queue\<close>),
    \<open>HealthProbe\<close> (\<open>scheduler.go\<close>, \<open>prober.go\<close>, the backoff of \<open>manager.go\<close>), \<open>HealthManager\<close>
    (\<open>manager.go\<close>).
  \<^item> Observation: \<open>Collectors\<close> (\<open>internal/metrics/collectors.go\<close>), \<open>Endpoints\<close>
    (\<open>internal/proxy/handlers.go\<close>, \<open>handler/health.go\<close>, \<open>metrics.go\<close>, \<open>prometheus*.go\<close>: both ports),
    \<open>LogWriter\<close>, \<open>Logger\<close>, \<open>LoggerProps\<close> (\<open>internal/logger\<close>).
  \<^item> Control plane, \<open>internal/admin\<close> and \<open>cmd/admin-api\<close>: \<open>AdminAuth\<close> (bearer tokens, interceptors),
    \<open>AdminProto\<close> (conversions), \<open>AdminServer\<close> (gRPC methods), \<open>AdminApi\<close>, \<open>AdminProps\<close> (HTTP handlers,
    routes).
  \<^item> The whole, \<open>internal/proxy/proxy.go\<close>: \<open>Lifecycle\<close> (\<open>Start\<close> and \<open>Stop\<close>) and \<open>System\<close> (\<open>NewProxy\<close>,
    and \<open>proxy_run\<close>: calls, requests to both ports, probe results and samples in any order).

  \<^bold>\<open>How code becomes definitions.\<close> A struct is a record with the source's fields, an integer a word
  of its width (\<open>int\<close> is 64 bits), a Go map a map, a nil slice or pointer an option where the code
  tells it apart. A function that changes state returns the new state; an error is \<open>Some\<close> message or
  \<open>Inl\<close>. What comes from outside is an argument: outcomes of system calls (\<open>io\<close>), \<open>encoding/json\<close> and
  \<open>url.Parse\<close> (\<open>env\<close>; \<open>json_roundtrip\<close> states that decoding gives back what was encoded, as it does
  for strings of valid UTF-8), the transport,
  clock and random numbers (\<open>http_env\<close>, \<open>probe_env\<close>), orders of map iteration, texts of encoders.
  Statuses are shared between the published states and the registry, so they live in an explicit
  store. Concurrency is a step relation wherever interleavings matter (worker pool, compare-and-swap
  loops, logger, life cycle) and a sequence of events elsewhere.

  \<^bold>\<open>What is proved.\<close> For the whole: the routing data in use is the fold of the acknowledged operations
  and survives a restart at any moment (\<open>proxy_refines_view\<close>); no request, probe or
  unauthenticated call changes the configuration; a removed backend gets no traffic. For the
  configuration: the validator is equivalent to its specification, failures are atomic, restart
  recovers the state. For requests: a request with an active backend goes out to one and the answer
  of the transport decides, attempts are bounded and go to different enabled candidates, connections
  are released on every path, every request is answered and counted as its outcome says, the outbound
  request is described field by field, and so is the choice of route and backends. For admission:
  clients cannot choose their address, the limiter in floating point is within its error of an exact
  reference and bounds what a client gets in any window, a change of policy reaches the limiters once
  its callbacks are made. For the admin API: 200 means that exactly the change that was asked for was
  made. For health, logging and the life cycle: one pool at a time, bounded queues,
  termination of workers, nothing lost or duplicated, everything released by \<open>Stop\<close>. Theorems whose
  names state a defect (\<open>early_stop_is_lost\<close>, \<open>stale_probe_activates\<close>, \<open>moved_backend_metrics_leak\<close>,
  \<open>overlapping_updates_stale\<close>, \<open>memory_wraps\<close> and others) prove where the code does not do what it
  means to.

  \<^bold>\<open>Bounds and termination.\<close> No definition uses fuel: the attempt loop recurses on the attempts left
  (two at most), the backoff loop on the failures, \<open>bufio\<close>'s loop on the bytes left, the mux on the path,
  string functions on the string. Floats are those of amd64 without fused operations: rationals with
  infinities and NaN, rounded after each operation; signed zeros are not told apart.

  \<^bold>\<open>Assumed.\<close> One update of the runtime runs at a time (its mutex), an operation of a limiter, a
  reading of the published state and one call of the logger are atomic, and the servers of
  \<open>net/http\<close> and gRPC do with their listeners what their documentation says. The callbacks of an
  operation run outside the mutex: \<open>sys_reach\<close> interleaves them with everything else; in \<open>proxy_run\<close>,
  whose theorems are about the configuration and its traffic, a call and its callbacks are one event,
  and so are a request and its attempts. \<open>hm_Stop\<close> and \<open>hm_Reconcile\<close> are one step each, although the
  code releases the old pool after it has let go of the lock, so that for a moment two pools exist.

  \<^bold>\<open>Not modelled.\<close> \<open>main\<close> of the reverse proxy (signals and exit codes) and the mock backend, a
  stand-in for local tests; the code that \<open>protoc\<close> generates; the dialling of \<open>admin_client.go\<close> and the
  construction of the transport of the probes, which only fill in library options; two unused structs
  of \<open>view/security.go\<close>; \<open>GetRateLimitStats\<close>, which nothing calls; the helpers of the tests. Inside the
  modelled parts: the JSON codecs, the Prometheus library, TLS and the HTTP wire format, time limits
  of servers, what \<open>http.Server\<close> does with \<open>OPTIONS *\<close> and with bodies of answers to \<open>HEAD\<close>, and the log
  output of components other than the logger.
\<close>

end
